(* ===== verification/Prelude.thy ===== *)
theory Prelude
  imports Complex_Main "HOL-Library.Sublist" "HOL-Library.List_Lexorder" "HOL-Library.Char_ord"
begin

text \<open>
  What every component of the development shares: the exceptions the API raises, the
  state-and-exception computations its asynchronous methods become, the fragment of the
  JavaScript string library the sources use, and generic lemmas on lists of table rows.

  A method of a service is a computation \<open>('s, 'a) M\<close>: it takes the state and returns a
  thrown exception (\<open>Inl\<close>) or a value (\<open>Inr\<close>) together with the state it leaves. The state is
  returned in both cases, because a JavaScript exception does not undo the writes that were
  made before it.
\<close>

section \<open>Exceptions and computations\<close>

text \<open>
  A NestJS exception carries its HTTP status and its message (or, where the body is an object,
  the \<open>code\<close> field of that object); \<open>PrismaError\<close> carries the error code of the database
  client; \<open>JsError\<close> is a plain \<open>Error\<close> with its name and message.
\<close>

datatype exn =
    HttpException nat string
  | PrismaError string
  | JsError string string

abbreviation BadRequestException :: "string \<Rightarrow> exn" where
  "BadRequestException \<equiv> HttpException 400"

abbreviation UnauthorizedException :: "string \<Rightarrow> exn" where
  "UnauthorizedException \<equiv> HttpException 401"

abbreviation ForbiddenException :: "string \<Rightarrow> exn" where
  "ForbiddenException \<equiv> HttpException 403"

abbreviation NotFoundException :: "string \<Rightarrow> exn" where
  "NotFoundException \<equiv> HttpException 404"

abbreviation ConflictException :: "string \<Rightarrow> exn" where
  "ConflictException \<equiv> HttpException 409"

abbreviation UnprocessableEntityException :: "string \<Rightarrow> exn" where
  "UnprocessableEntityException \<equiv> HttpException 422"

abbreviation InternalServerErrorException :: "string \<Rightarrow> exn" where
  "InternalServerErrorException \<equiv> HttpException 500"

type_synonym 'a res = "exn + 'a"

type_synonym ('s, 'a) M = "'s \<Rightarrow> 'a res \<times> 's"

named_theorems M_defs \<open>the combinators of computations\<close>

definition ret :: "'a \<Rightarrow> ('s, 'a) M" where [M_defs]:
  "ret x s = (Inr x, s)"

definition throw :: "exn \<Rightarrow> ('s, 'a) M" where [M_defs]:
  "throw e s = (Inl e, s)"

definition bindM :: "('s, 'a) M \<Rightarrow> ('a \<Rightarrow> ('s, 'b) M) \<Rightarrow> ('s, 'b) M" where [M_defs]:
  "bindM m f s = (case m s of (Inl e, s') \<Rightarrow> (Inl e, s') | (Inr x, s') \<Rightarrow> f x s')"

definition thenM :: "('s, 'a) M \<Rightarrow> ('s, 'b) M \<Rightarrow> ('s, 'b) M" where [M_defs]:
  "thenM m k = bindM m (\<lambda>_. k)"

definition catchM :: "('s, 'a) M \<Rightarrow> (exn \<Rightarrow> ('s, 'a) M) \<Rightarrow> ('s, 'a) M" where [M_defs]:
  "catchM m h s = (case m s of (Inl e, s') \<Rightarrow> h e s' | (Inr x, s') \<Rightarrow> (Inr x, s'))"

text \<open>\<open>try { return await m } finally { await f }\<close>: an exception of \<open>f\<close> replaces the outcome.\<close>

definition finallyM :: "('s, 'a) M \<Rightarrow> ('s, unit) M \<Rightarrow> ('s, 'a) M" where [M_defs]:
  "finallyM m f s =
     (case m s of (r, s') \<Rightarrow>
        (case f s' of (Inl e, s'') \<Rightarrow> (Inl e, s'') | (Inr _, s'') \<Rightarrow> (r, s'')))"

definition readM :: "('s \<Rightarrow> 'a) \<Rightarrow> ('s, 'a) M" where [M_defs]:
  "readM f s = (Inr (f s), s)"

definition modifyM :: "('s \<Rightarrow> 's) \<Rightarrow> ('s, unit) M" where [M_defs]:
  "modifyM f s = (Inr (), f s)"

definition liftR :: "'a res \<Rightarrow> ('s, 'a) M" where [M_defs]:
  "liftR r s = (r, s)"

definition guardM :: "bool \<Rightarrow> exn \<Rightarrow> ('s, unit) M" where [M_defs]:
  "guardM b e s = (if b then (Inr (), s) else (Inl e, s))"

text \<open>A computation on one part of a larger state.\<close>

definition zoomM :: "('s \<Rightarrow> 't) \<Rightarrow> ('t \<Rightarrow> 's \<Rightarrow> 's) \<Rightarrow> ('t, 'a) M \<Rightarrow> ('s, 'a) M" where [M_defs]:
  "zoomM g p m s = (case m (g s) of (r, t) \<Rightarrow> (r, p t s))"

lemma bindM_simps [simp]:
  "bindM (ret x) f = f x"
  "bindM (throw e) f = throw e"
  "bindM (readM g) f s = f (g s) s"
  "bindM (modifyM h) k s = k () (h s)"
  "thenM (ret x) n = n"
  "thenM (throw e) n = throw e"
  "thenM (modifyM h) n s = n (h s)"
  by (auto simp: M_defs fun_eq_iff)

lemma bindM_assoc: "bindM (bindM m f) g = bindM m (\<lambda>x. bindM (f x) g)"
  by (auto simp: M_defs fun_eq_iff split: prod.splits sum.splits)

lemma bindM_Inr_E:
  assumes "bindM m f s = (Inr y, t)"
  obtains x s' where "m s = (Inr x, s')" and "f x s' = (Inr y, t)"
  using assms by (auto simp: bindM_def split: prod.splits sum.splits)

lemma bindM_E:
  assumes "bindM m f s = (r, t)"
  obtains (err) e where "m s = (Inl e, t)" and "r = Inl e"
    | (ok) x s' where "m s = (Inr x, s')" and "f x s' = (r, t)"
  using assms by (auto simp: bindM_def split: prod.splits sum.splits)

section \<open>JavaScript strings\<close>

text \<open>
  A string is a list of code units below 256. \<open>String.prototype.trim\<close> strips the white space
  characters among them: tab, line feed, vertical tab, form feed, carriage return, space and
  no-break space.
\<close>

definition code_of :: "char \<Rightarrow> nat" where
  "code_of c = of_char c"

definition js_white :: "char \<Rightarrow> bool" where
  "js_white c = (let n = code_of c in (9 \<le> n \<and> n \<le> 13) \<or> n = 32 \<or> n = 160)"

definition js_trim :: "string \<Rightarrow> string" where
  "js_trim s = rev (dropWhile js_white (rev (dropWhile js_white s)))"

definition is_digit :: "char \<Rightarrow> bool" where
  "is_digit c = (48 \<le> code_of c \<and> code_of c \<le> 57)"

definition digit_val :: "char \<Rightarrow> nat" where
  "digit_val c = code_of c - 48"

definition is_hex :: "char \<Rightarrow> bool" where
  "is_hex c = (let n = code_of c in (48 \<le> n \<and> n \<le> 57) \<or> (97 \<le> n \<and> n \<le> 102) \<or> (65 \<le> n \<and> n \<le> 70))"

definition hex_val :: "char \<Rightarrow> nat" where
  "hex_val c =
     (let n = code_of c in if n \<le> 57 then n - 48 else if 97 \<le> n then n - 87 else n - 55)"

text \<open>\<open>String.prototype.toUpperCase\<close> and \<open>toLowerCase\<close> on ASCII letters.\<close>

definition upper_char :: "char \<Rightarrow> char" where
  "upper_char c = (if 97 \<le> code_of c \<and> code_of c \<le> 122 then char_of (code_of c - 32) else c)"

definition lower_char :: "char \<Rightarrow> char" where
  "lower_char c = (if 65 \<le> code_of c \<and> code_of c \<le> 90 then char_of (code_of c + 32) else c)"

definition toUpperCase :: "string \<Rightarrow> string" where
  "toUpperCase = map upper_char"

definition toLowerCase :: "string \<Rightarrow> string" where
  "toLowerCase = map lower_char"

text \<open>The truth value of an optional string: \<open>undefined\<close>, \<open>null\<close> and the empty string are false.\<close>

definition truthy :: "string option \<Rightarrow> bool" where
  "truthy x = (case x of None \<Rightarrow> False | Some s \<Rightarrow> s \<noteq> [])"

lemma truthy_simps [simp]: "truthy None = False" "truthy (Some s) = (s \<noteq> [])"
  by (simp_all add: truthy_def)

text \<open>\<open>String.prototype.split\<close> at a one-character separator.\<close>

fun split_on :: "char \<Rightarrow> string \<Rightarrow> string list" where
  "split_on c [] = [[]]"
| "split_on c (x # xs) =
     (if x = c then [] # split_on c xs
      else case split_on c xs of [] \<Rightarrow> [[x]] | p # ps \<Rightarrow> (x # p) # ps)"

lemma split_on_neq_Nil [simp]: "split_on c s \<noteq> []"
  by (cases s) (auto split: list.splits)

lemma split_on_plain: "c \<notin> set s \<Longrightarrow> split_on c s = [s]"
  by (induction s) auto

lemma split_on_append: "c \<notin> set s \<Longrightarrow> split_on c (s @ c # t) = s # split_on c t"
  by (induction s) auto

text \<open>Decimal numerals.\<close>

fun show_nat :: "nat \<Rightarrow> string" where
  "show_nat n = (if n < 10 then [char_of (48 + n)] else show_nat (n div 10) @ [char_of (48 + n mod 10)])"

declare show_nat.simps [simp del]

definition show_int :: "int \<Rightarrow> string" where
  "show_int i = (if i < 0 then CHR ''-'' # show_nat (nat (- i)) else show_nat (nat i))"

section \<open>Tables\<close>

text \<open>
  A database table is the list of its rows in the order they were inserted. \<open>find\<close> of the list
  library is \<open>findUnique\<close>; the definitions below are the other queries the services make.
\<close>

definition update_where :: "('r \<Rightarrow> bool) \<Rightarrow> ('r \<Rightarrow> 'r) \<Rightarrow> 'r list \<Rightarrow> 'r list" where
  "update_where P f rows = map (\<lambda>r. if P r then f r else r) rows"

definition count_where :: "('r \<Rightarrow> bool) \<Rightarrow> 'r list \<Rightarrow> nat" where
  "count_where P rows = length (filter P rows)"

text \<open>\<open>prisma.<table>.update\<close>: the error \<open>P2025\<close> when no row matches, else the updated row.\<close>

definition update_one ::
  "('r \<Rightarrow> bool) \<Rightarrow> ('r \<Rightarrow> 'r) \<Rightarrow> 'r list \<Rightarrow> ('r \<times> 'r list) option" where
  "update_one P f rows =
     (case find P rows of None \<Rightarrow> None | Some r \<Rightarrow> Some (f r, update_where P f rows))"

lemma length_update_where [simp]: "length (update_where P f rows) = length rows"
  by (simp add: update_where_def)

lemma update_where_Nil [simp]: "update_where P f [] = []"
  by (simp add: update_where_def)

lemma update_where_Cons [simp]:
  "update_where P f (r # rs) = (if P r then f r else r) # update_where P f rs"
  by (simp add: update_where_def)

lemma update_where_append [simp]:
  "update_where P f (xs @ ys) = update_where P f xs @ update_where P f ys"
  by (simp add: update_where_def)

lemma map_update_where [simp]:
  "(\<And>r. P r \<Longrightarrow> g (f r) = g r) \<Longrightarrow> map g (update_where P f rows) = map g rows"
  by (induction rows) auto

lemma set_update_where: "set (update_where P f rows) = (\<lambda>r. if P r then f r else r) ` set rows"
  by (simp add: update_where_def)

lemma update_where_id: "(\<And>r. r \<in> set rows \<Longrightarrow> \<not> P r) \<Longrightarrow> update_where P f rows = rows"
  by (induction rows) auto

lemma count_where_append [simp]:
  "count_where P (xs @ ys) = count_where P xs + count_where P ys"
  by (simp add: count_where_def)

lemma count_where_Nil [simp]: "count_where P [] = 0"
  by (simp add: count_where_def)

lemma count_where_Cons [simp]:
  "count_where P (x # xs) = (if P x then Suc (count_where P xs) else count_where P xs)"
  by (simp add: count_where_def)

lemma count_where_update_where:
  "(\<And>r. P r \<Longrightarrow> Q (f r) = Q r) \<Longrightarrow> count_where Q (update_where P f rows) = count_where Q rows"
  by (induction rows) auto

lemma find_update_where:
  assumes "\<And>r. Q (f r) = Q r"
  shows "find Q (update_where P f rows) =
    map_option (\<lambda>r. if P r then f r else r) (find Q rows)"
  using assms by (induction rows) auto

lemma find_Some_D: "find P xs = Some x \<Longrightarrow> P x \<and> x \<in> set xs"
  by (auto simp: find_Some_iff in_set_conv_nth)

lemma find_None_D: "find P xs = None \<Longrightarrow> x \<in> set xs \<Longrightarrow> \<not> P x"
  by (simp add: find_None_iff)

lemma find_append: "find P (xs @ ys) = (case find P xs of None \<Rightarrow> find P ys | Some x \<Rightarrow> Some x)"
  by (induction xs) auto

text \<open>A row found by its key is the row when the keys are distinct.\<close>

lemma find_key:
  "distinct (map k rows) \<Longrightarrow> r \<in> set rows \<Longrightarrow> find (\<lambda>x. k x = k r) rows = Some r"
  by (induction rows) (auto simp: image_iff dest: sym)

end
