(* ===== verification/JsNumber.thy ===== *)
theory JsNumber
  imports Prelude
begin

text \<open>
  The JavaScript \<open>number\<close>: an IEEE 754 binary64 value. A finite number is the rational it
  stands for and every arithmetic operation is the exact operation followed by rounding to
  nearest, ties to even, with a 53-bit significand, the least exponent -1074 and overflow to
  infinity. The two zeros are identified: no definition of the development divides by a zero
  whose sign could matter. The section on monotonicity gives what the components rely on:
  rounding keeps the order and fixes the representable numbers.
\<close>

datatype jsnum = NaN | PosInf | NegInf | Num rat

section \<open>Rounding\<close>

definition pow2 :: "int \<Rightarrow> rat" where
  "pow2 e = (if 0 \<le> e then 2 ^ nat e else 1 / 2 ^ nat (- e))"

function int_log2 :: "int \<Rightarrow> int" where
  "int_log2 n = (if n < 2 then 0 else 1 + int_log2 (n div 2))"
  by pat_completeness auto
termination
  by (relation "measure nat") auto

declare int_log2.simps [simp del]

text \<open>The binary exponent of a positive rational: \<open>2 ^ expo x \<le> x < 2 ^ (expo x + 1)\<close>.\<close>

definition expo :: "rat \<Rightarrow> int" where
  "expo x = (case quotient_of x of (a, b) \<Rightarrow>
     let e = int_log2 a - int_log2 b
     in if pow2 e \<le> x then e else e - 1)"

text \<open>The spacing of the representable numbers around \<open>x\<close>.\<close>

definition ulp :: "rat \<Rightarrow> rat" where
  "ulp x = pow2 (max (expo x - 52) (- 1074))"

text \<open>Round to an integer, ties to even.\<close>

definition rne :: "rat \<Rightarrow> int" where
  "rne y =
     (let f = \<lfloor>y\<rfloor>; d = y - of_int f
      in if d < 1 / 2 then f else if 1 / 2 < d then f + 1 else if even f then f else f + 1)"

definition rnd :: "rat \<Rightarrow> rat" where
  "rnd x = of_int (rne (x / ulp x)) * ulp x"

definition round64 :: "rat \<Rightarrow> jsnum" where
  "round64 x =
     (if x = 0 then Num 0
      else if 0 < x then (if expo (rnd x) < 1024 then Num (rnd x) else PosInf)
      else (if expo (rnd (- x)) < 1024 then Num (- rnd (- x)) else NegInf))"

section \<open>Operations\<close>

fun js_neg :: "jsnum \<Rightarrow> jsnum" where
  "js_neg NaN = NaN"
| "js_neg PosInf = NegInf"
| "js_neg NegInf = PosInf"
| "js_neg (Num x) = Num (- x)"

fun js_add :: "jsnum \<Rightarrow> jsnum \<Rightarrow> jsnum" where
  "js_add (Num x) (Num y) = round64 (x + y)"
| "js_add NaN _ = NaN"
| "js_add _ NaN = NaN"
| "js_add PosInf NegInf = NaN"
| "js_add NegInf PosInf = NaN"
| "js_add PosInf _ = PosInf"
| "js_add _ PosInf = PosInf"
| "js_add NegInf _ = NegInf"
| "js_add _ NegInf = NegInf"

definition js_sub :: "jsnum \<Rightarrow> jsnum \<Rightarrow> jsnum" where
  "js_sub a b = js_add a (js_neg b)"

definition js_inf_of :: "rat \<Rightarrow> jsnum" where
  "js_inf_of s = (if s = 0 then NaN else if 0 < s then PosInf else NegInf)"

fun js_sign :: "jsnum \<Rightarrow> rat" where
  "js_sign NaN = 0"
| "js_sign PosInf = 1"
| "js_sign NegInf = - 1"
| "js_sign (Num x) = sgn x"

fun js_mul :: "jsnum \<Rightarrow> jsnum \<Rightarrow> jsnum" where
  "js_mul (Num x) (Num y) = round64 (x * y)"
| "js_mul NaN _ = NaN"
| "js_mul _ NaN = NaN"
| "js_mul a b = js_inf_of (js_sign a * js_sign b)"

fun js_div :: "jsnum \<Rightarrow> jsnum \<Rightarrow> jsnum" where
  "js_div NaN _ = NaN"
| "js_div _ NaN = NaN"
| "js_div (Num x) (Num y) = (if y = 0 then js_inf_of x else round64 (x / y))"
| "js_div (Num x) _ = Num 0"
| "js_div a (Num y) = js_inf_of (js_sign a * (if y = 0 then 1 else sgn y))"
| "js_div _ _ = NaN"

fun js_lt :: "jsnum \<Rightarrow> jsnum \<Rightarrow> bool" where
  "js_lt (Num x) (Num y) = (x < y)"
| "js_lt NegInf (Num y) = True"
| "js_lt NegInf PosInf = True"
| "js_lt (Num x) PosInf = True"
| "js_lt _ _ = False"

fun js_le :: "jsnum \<Rightarrow> jsnum \<Rightarrow> bool" where
  "js_le (Num x) (Num y) = (x \<le> y)"
| "js_le NaN _ = False"
| "js_le _ NaN = False"
| "js_le NegInf _ = True"
| "js_le _ PosInf = True"
| "js_le _ _ = False"

definition js_abs :: "jsnum \<Rightarrow> jsnum" where
  "js_abs a = (case a of Num x \<Rightarrow> Num \<bar>x\<bar> | NegInf \<Rightarrow> PosInf | _ \<Rightarrow> a)"

definition isFinite :: "jsnum \<Rightarrow> bool" where
  "isFinite a = (case a of Num _ \<Rightarrow> True | _ \<Rightarrow> False)"

definition js_truthy :: "jsnum \<Rightarrow> bool" where
  "js_truthy a = (a \<noteq> NaN \<and> a \<noteq> Num 0)"

definition js_max :: "jsnum \<Rightarrow> jsnum \<Rightarrow> jsnum" where
  "js_max a b = (if a = NaN \<or> b = NaN then NaN else if js_le a b then b else a)"

definition js_min :: "jsnum \<Rightarrow> jsnum \<Rightarrow> jsnum" where
  "js_min a b = (if a = NaN \<or> b = NaN then NaN else if js_le a b then a else b)"

text \<open>\<open>xs.reduce((sum, v) => sum + v, 0)\<close>.\<close>

definition js_sum :: "jsnum list \<Rightarrow> jsnum" where
  "js_sum xs = foldl js_add (Num 0) xs"

section \<open>Reading numbers\<close>

definition digits_val :: "string \<Rightarrow> nat" where
  "digits_val ds = foldl (\<lambda>n c. 10 * n + digit_val c) 0 ds"

fun parse_exponent :: "string \<Rightarrow> (int \<times> string)" where
  "parse_exponent s =
     (case s of
        c # r \<Rightarrow>
          if c = CHR ''e'' \<or> c = CHR ''E'' then
            (let (sg, r') = (case r of d # q \<Rightarrow> if d = CHR ''-'' then (- 1, q)
                                               else if d = CHR ''+'' then (1, q) else (1, r)
                                     | [] \<Rightarrow> (1, r));
                 ds = takeWhile is_digit r'
             in if ds = [] then (0, s) else (sg * int (digits_val ds), dropWhile is_digit r'))
          else (0, s)
      | [] \<Rightarrow> (0, s))"

definition scale10 :: "rat \<Rightarrow> int \<Rightarrow> rat" where
  "scale10 m e = (if 0 \<le> e then m * 10 ^ nat e else m / 10 ^ nat (- e))"

text \<open>The longest prefix that is an unsigned decimal literal, its value and the rest.\<close>

definition parse_decimal :: "string \<Rightarrow> (rat \<times> string) option" where
  "parse_decimal s =
     (let ip = takeWhile is_digit s; r = dropWhile is_digit s;
          (fp, r') = (case r of c # q \<Rightarrow>
                        if c = CHR ''.'' then
                          (if ip = [] \<and> takeWhile is_digit q = [] then ([], r)
                           else (takeWhile is_digit q, dropWhile is_digit q))
                        else ([], r)
                      | [] \<Rightarrow> ([], r))
      in if ip = [] \<and> fp = [] then None
         else let (e, r'') = parse_exponent r'
              in Some (scale10 (of_nat (digits_val (ip @ fp))) (e - int (length fp)), r''))"

definition strip_sign :: "string \<Rightarrow> bool \<times> string" where
  "strip_sign s =
     (case s of c # r \<Rightarrow> if c = CHR ''-'' then (True, r) else if c = CHR ''+'' then (False, r) else (False, s)
              | [] \<Rightarrow> (False, s))"

text \<open>\<open>parseFloat\<close>: leading white space and the longest numeric prefix.\<close>

definition parseFloat :: "string \<Rightarrow> jsnum" where
  "parseFloat s =
     (let (neg, r) = strip_sign (dropWhile js_white s)
      in if prefix ''Infinity'' r then (if neg then NegInf else PosInf)
         else case parse_decimal r of
                None \<Rightarrow> NaN
              | Some (v, _) \<Rightarrow> round64 (if neg then - v else v))"

text \<open>
  \<open>Number(s)\<close> on a string: the trimmed string must be one decimal literal (the empty string
  is 0); hexadecimal, octal and binary literals read their digits.
\<close>

definition radix_val :: "nat \<Rightarrow> string \<Rightarrow> jsnum" where
  "radix_val b ds =
     (if ds \<noteq> [] \<and> (\<forall>c \<in> set ds. is_hex c \<and> hex_val c < b)
      then round64 (of_nat (foldl (\<lambda>n c. b * n + hex_val c) 0 ds)) else NaN)"

definition js_Number :: "string \<Rightarrow> jsnum" where
  "js_Number s =
     (let t = js_trim s; (neg, r) = strip_sign t
      in if t = [] then Num 0
         else if prefix ''0x'' t \<or> prefix ''0X'' t then radix_val 16 (drop 2 t)
         else if prefix ''0o'' t \<or> prefix ''0O'' t then radix_val 8 (drop 2 t)
         else if prefix ''0b'' t \<or> prefix ''0B'' t then radix_val 2 (drop 2 t)
         else if r = ''Infinity'' then (if neg then NegInf else PosInf)
         else case parse_decimal r of
                Some (v, []) \<Rightarrow> round64 (if neg then - v else v)
              | _ \<Rightarrow> NaN)"

section \<open>Rounding keeps the order\<close>

lemma pow2_pos [simp]: "0 < pow2 e"
  by (simp add: pow2_def)

lemma pow2_neq0 [simp]: "pow2 e \<noteq> 0"
  using pow2_pos [of e] by linarith

lemma pow2_Suc: "pow2 (e + 1) = 2 * pow2 e"
proof (cases "0 \<le> e")
  case True
  then show ?thesis by (simp add: pow2_def nat_add_distrib)
next
  case False
  then have "nat (- e) = Suc (nat (- (e + 1)))" by simp
  with False show ?thesis by (auto simp: pow2_def)
qed

lemma pow2_add_nat: "pow2 (e + int n) = pow2 e * 2 ^ n"
proof (induction n)
  case (Suc n)
  have "pow2 (e + int (Suc n)) = pow2 ((e + int n) + 1)" by (simp add: ac_simps)
  then show ?case by (simp add: pow2_Suc Suc.IH)
qed simp

lemma pow2_mono: "a \<le> b \<Longrightarrow> pow2 a \<le> pow2 b"
  using pow2_add_nat [of a "nat (b - a)"] mult_left_mono [of 1 "2 ^ nat (b - a)" "pow2 a"]
  by simp

lemma pow2_less_iff: "pow2 a < pow2 (b + 1) \<Longrightarrow> a \<le> b"
  by (meson leD le_less_linear pow2_mono zless_imp_add1_zle)

lemma int_log2_bounds:
  "0 < n \<Longrightarrow> 0 \<le> int_log2 n \<and> pow2 (int_log2 n) \<le> of_int n \<and> of_int n < pow2 (int_log2 n + 1)"
proof (induction n rule: int_log2.induct)
  case (1 n)
  show ?case
  proof (cases "n < 2")
    case True
    with 1 have "n = 1" by simp
    then show ?thesis by (simp add: int_log2.simps [of 1] pow2_def)
  next
    case False
    define m where "m = n div 2"
    have IH: "0 \<le> int_log2 m" "pow2 (int_log2 m) \<le> of_int m" "of_int m < pow2 (int_log2 m + 1)"
      using 1 False by (auto simp: m_def)
    obtain k where k: "int_log2 m = int k" using IH(1) nonneg_int_cases by blast
    have up: "m + 1 \<le> 2 * 2 ^ k"
      using IH(3) of_int_less_iff [of m "2 * 2 ^ k", where 'a = rat]
      by (simp add: k pow2_def nat_add_distrib)
    have n: "2 * m \<le> n" "n < 2 * (m + 1)" by (auto simp: m_def)
    have "(of_int n :: rat) < of_int (2 * (2 * 2 ^ k))"
      unfolding of_int_less_iff by (rule order.strict_trans2 [OF n(2)]) (use up in simp)
    moreover have "2 * 2 ^ k \<le> (of_int n :: rat)"
    proof -
      have "2 * (of_int m :: rat) \<le> of_int n"
        using n(1) of_int_le_iff [of "2 * m" n, where 'a = rat] by simp
      moreover have "2 ^ k \<le> (of_int m :: rat)" using IH(2) unfolding k by (simp only: pow2_def) simp
      ultimately show ?thesis by linarith
    qed
    moreover have "int_log2 n = int (Suc k)"
      using False k by (simp add: int_log2.simps [of n] m_def)
    ultimately show ?thesis by (simp add: pow2_def nat_add_distrib)
  qed
qed

lemma expo_bounds:
  assumes "0 < x"
  shows "pow2 (expo x) \<le> x \<and> x < pow2 (expo x + 1)"
proof -
  obtain a b where q: "quotient_of x = (a, b)" by (cases "quotient_of x")
  have b: "0 < b" using quotient_of_denom_pos [OF q] .
  have x: "x = of_int a / of_int b" using quotient_of_div [OF q] .
  with assms b have a: "0 < a" by (simp add: zero_less_divide_iff)
  define la lb where "la = int_log2 a" and "lb = int_log2 b"
  have A: "pow2 la \<le> of_int a" "of_int a < 2 * pow2 la"
    using int_log2_bounds [OF a] by (simp_all add: la_def pow2_Suc)
  have B: "pow2 lb \<le> of_int b" "of_int b < 2 * pow2 lb"
    using int_log2_bounds [OF b] by (simp_all add: lb_def pow2_Suc)
  define e where "e = la - lb"
  have split: "pow2 la = pow2 e * pow2 lb"
    using pow2_add_nat [of e "nat lb"] pow2_add_nat [of 0 "nat lb"] int_log2_bounds [OF b]
    by (simp add: e_def lb_def pow2_def)
  have e1: "pow2 e = 2 * pow2 (e - 1)" using pow2_Suc [of "e - 1"] by simp
  have b': "(0 :: rat) < of_int b" using b by simp
  have up: "x < 2 * pow2 e"
  proof -
    have "2 * pow2 e * pow2 lb \<le> 2 * pow2 e * of_int b"
      using B(1) by (intro mult_left_mono) (simp_all add: less_imp_le)
    then have "of_int a < 2 * pow2 e * of_int b" using A(2) unfolding split by linarith
    then show ?thesis using b' by (simp add: x pos_divide_less_eq)
  qed
  have low: "pow2 (e - 1) \<le> x"
  proof -
    have "pow2 (e - 1) * of_int b \<le> pow2 (e - 1) * (2 * pow2 lb)"
      using B(2) by (intro mult_left_mono) (simp_all add: less_imp_le)
    also have "\<dots> = pow2 la" using split e1 by simp
    finally have "pow2 (e - 1) * of_int b \<le> of_int a" using A(1) by linarith
    then show ?thesis using b' by (simp add: x pos_le_divide_eq)
  qed
  have "expo x = (if pow2 e \<le> x then e else e - 1)"
    by (simp add: expo_def q e_def la_def lb_def Let_def)
  then show ?thesis using up low e1 by (auto simp: pow2_Suc)
qed

lemma expo_unique:
  assumes "pow2 e \<le> x" and "x < pow2 (e + 1)"
  shows "expo x = e"
proof -
  have "0 < x" using assms(1) pow2_pos [of e] by linarith
  then have *: "pow2 (expo x) \<le> x" "x < pow2 (expo x + 1)" using expo_bounds by blast+
  have "expo x \<le> e" using * assms by (intro pow2_less_iff) linarith
  moreover have "e \<le> expo x" using * assms by (intro pow2_less_iff) linarith
  ultimately show ?thesis by simp
qed

lemma expo_mono: "0 < x \<Longrightarrow> x \<le> y \<Longrightarrow> expo x \<le> expo y"
  using expo_bounds [of x] expo_bounds [of y] by (intro pow2_less_iff) linarith

lemma ulp_pos [simp]: "0 < ulp x"
  by (simp add: ulp_def)

lemma rne_bounds: "\<lfloor>y\<rfloor> \<le> rne y \<and> rne y \<le> \<lfloor>y\<rfloor> + 1"
  by (simp add: rne_def Let_def)

lemma rne_of_int [simp]: "rne (of_int n) = n"
  by (simp add: rne_def Let_def)

lemma rne_mono:
  assumes "y \<le> z"
  shows "rne y \<le> rne z"
proof (cases "\<lfloor>y\<rfloor> = \<lfloor>z\<rfloor>")
  case True
  with assms show ?thesis by (auto simp: rne_def Let_def)
next
  case False
  with assms have "\<lfloor>y\<rfloor> + 1 \<le> \<lfloor>z\<rfloor>" using floor_mono [OF assms] by linarith
  with rne_bounds [of y] rne_bounds [of z] show ?thesis by linarith
qed

text \<open>A multiple of the spacing is representable; rounding to the grid keeps the order.\<close>

definition snap :: "rat \<Rightarrow> rat \<Rightarrow> rat" where
  "snap u x = of_int (rne (x / u)) * u"

lemma rnd_snap: "rnd x = snap (ulp x) x"
  by (simp add: rnd_def snap_def)

lemma snap_mono: "0 < u \<Longrightarrow> x \<le> y \<Longrightarrow> snap u x \<le> snap u y"
  by (auto simp: snap_def intro!: mult_right_mono rne_mono divide_right_mono)

lemma snap_fix: "0 < u \<Longrightarrow> x = of_int n * u \<Longrightarrow> snap u x = x"
  by (simp add: snap_def)

lemma pow2_multiple:
  assumes "a \<le> b"
  shows "pow2 b = of_int (2 ^ nat (b - a)) * pow2 a"
  using pow2_add_nat [of a "nat (b - a)"] assms by simp

lemma rnd_mono:
  assumes "0 < x" and "x \<le> y"
  shows "rnd x \<le> rnd y"
proof (cases "ulp x = ulp y")
  case True
  with assms show ?thesis by (simp add: rnd_snap snap_mono)
next
  case False
  define ex ey where "ex = expo x" and "ey = expo y"
  have "ex \<le> ey" using expo_mono [OF assms] by (simp add: ex_def ey_def)
  moreover have "max (ex - 52) (- 1074) \<noteq> max (ey - 52) (- 1074)"
    using False by (auto simp: ulp_def ex_def ey_def)
  ultimately have lt: "ex + 1 \<le> ey" and ge: "- 1074 \<le> ey - 52" by auto
  have ux: "ulp x = pow2 (max (ex - 52) (- 1074))" by (simp add: ulp_def ex_def)
  have uy: "ulp y = pow2 (ey - 52)" using ge by (simp add: ulp_def ey_def)
  have y: "pow2 ey \<le> y" using expo_bounds [of y] assms by (simp add: ey_def)
  have x: "x \<le> pow2 ey"
    using expo_bounds [of x] assms pow2_mono [OF lt] by (simp add: ex_def)
  have "max (ex - 52) (- 1074) \<le> ey" using lt ge by auto
  note gx = pow2_multiple [OF this] and gy = pow2_multiple [of "ey - 52" ey]
  have "rnd x \<le> snap (ulp x) (pow2 ey)" unfolding rnd_snap by (rule snap_mono) (use x in auto)
  also have "\<dots> = pow2 ey" unfolding ux by (rule snap_fix [OF _ gx]) simp
  also have "\<dots> = snap (ulp y) (pow2 ey)" unfolding uy by (rule snap_fix [OF _ gy, symmetric]) auto
  also have "\<dots> \<le> rnd y" unfolding rnd_snap by (rule snap_mono) (use y in auto)
  finally show ?thesis .
qed

lemma rnd_nonneg: "0 < x \<Longrightarrow> 0 \<le> rnd x"
  using rne_mono [of 0 "x / ulp x"] rne_of_int [of 0] by (simp add: rnd_def less_imp_le)

lemma expo_0 [simp]: "expo 0 = - 1"
  by (simp add: expo_def int_log2.simps [of 0] int_log2.simps [of 1] pow2_def)

lemma expo_less_mono:
  assumes "0 \<le> x" and "x \<le> y" and "expo y < 1024"
  shows "expo x < 1024"
  using assms expo_mono [of x y] by (cases "x = 0") auto

theorem round64_mono: "x \<le> y \<Longrightarrow> js_le (round64 x) (round64 y)"
proof -
  assume le: "x \<le> y"
  consider "x = 0" | "y = 0" | "0 < x" | "y < 0" | "x < 0" "0 < y"
    using le by linarith
  then show ?thesis
  proof cases
    case 3
    with le have *: "rnd x \<le> rnd y" by (intro rnd_mono) auto
    have "expo (rnd y) < 1024 \<Longrightarrow> expo (rnd x) < 1024"
      using rnd_nonneg [OF 3] * by (rule expo_less_mono)
    with * 3 le show ?thesis by (auto simp: round64_def)
  next
    case 4
    with le have *: "rnd (- y) \<le> rnd (- x)" by (intro rnd_mono) auto
    have "expo (rnd (- x)) < 1024 \<Longrightarrow> expo (rnd (- y)) < 1024"
      using rnd_nonneg [of "- y"] 4 * by (intro expo_less_mono [of "rnd (- y)" "rnd (- x)"]) auto
    with * 4 le show ?thesis by (auto simp: round64_def)
  qed (use le rnd_nonneg [of y] rnd_nonneg [of "- x"] in \<open>auto simp: round64_def\<close>)
qed

text \<open>A positive integer below \<open>2 ^ 53\<close> is representable, and so is a multiple of the spacing.\<close>

lemma rnd_grid:
  assumes "pow2 e \<le> x" and "x < pow2 (e + 1)" and "- 1022 \<le> e" and "x = of_int n * pow2 (e - 52)"
  shows "rnd x = x"
proof -
  have "ulp x = pow2 (e - 52)"
    using expo_unique [OF assms(1,2)] assms(3) by (simp add: ulp_def)
  then show ?thesis using snap_fix [OF _ assms(4)] by (simp add: rnd_snap)
qed

lemma round64_grid:
  assumes "pow2 e \<le> x" and "x < pow2 (e + 1)" and "- 1022 \<le> e" and "e < 1024"
    and "x = of_int n * pow2 (e - 52)"
  shows "round64 x = Num x"
proof -
  have "0 < x" using assms(1) pow2_pos [of e] by linarith
  with rnd_grid [OF assms(1,2,3,5)] expo_unique [OF assms(1,2)] assms(4)
  show ?thesis by (simp add: round64_def)
qed

lemma round64_neg: "round64 (- x) = js_neg (round64 x)"
  by (auto simp: round64_def)

lemma round64_pos_int:
  assumes "0 < n" and "n < 2 ^ 53"
  shows "round64 (of_int n) = Num (of_int n)"
proof -
  define e where "e = expo (of_int n)"
  have b: "pow2 e \<le> of_int n" "of_int n < pow2 (e + 1)"
    using expo_bounds [of "of_int n"] assms(1) by (simp_all add: e_def)
  have "pow2 0 < pow2 (e + 1)" using b(2) assms(1) by (simp add: pow2_def [of 0])
  then have e0: "0 \<le> e" using pow2_less_iff [of 0 e] by simp
  have "(of_int n :: rat) < of_int (2 ^ 53)" using assms(2) by (simp only: of_int_less_iff)
  moreover have "pow2 (52 + 1) = of_int (2 ^ 53)" by (simp add: pow2_def)
  ultimately have "pow2 e < pow2 (52 + 1)" using b(1) by linarith
  then have e52: "e \<le> 52" by (rule pow2_less_iff)
  have grid: "of_int n = of_int (n * 2 ^ nat (52 - e)) * pow2 (e - 52)"
    using pow2_add_nat [of "e - 52" "nat (52 - e)"] e52 by (simp add: pow2_def [of 0] mult.commute)
  show ?thesis by (rule round64_grid [OF b _ _ grid]) (use e0 e52 in simp_all)
qed

lemma round64_int: "\<bar>n\<bar> < 2 ^ 53 \<Longrightarrow> round64 (of_int n) = Num (of_int n)"
  using round64_pos_int [of n] round64_pos_int [of "- n"] round64_neg [of "of_int (- n)"]
  by (cases n "0 :: int" rule: linorder_cases) (auto simp: round64_def)

lemma round64_numeral [simp]:
  "(numeral k :: int) < 2 ^ 53 \<Longrightarrow> round64 (numeral k) = Num (numeral k)"
  "round64 0 = Num 0"
  "round64 1 = Num 1"
  using round64_int [of "numeral k"] round64_int [of 1] round64_int [of 0] by simp_all

section \<open>The rounding error of a sum\<close>

text \<open>Multiples of a negative power of two below \<open>2 ^ 53\<close> units are represented exactly.\<close>

lemma round64_dyadic:
  assumes "0 < n" and "n < 2 ^ 53" and "0 \<le> s" and "s \<le> 900"
  shows "round64 (of_int n * pow2 (- s)) = Num (of_int n * pow2 (- s))"
proof -
  define x where "x = of_int n * pow2 (- s)"
  define e where "e = expo x"
  have x0: "0 < x" using assms(1) by (simp add: x_def)
  have b: "pow2 e \<le> x" "x < pow2 (e + 1)"
    using expo_bounds [OF x0] by (simp_all add: e_def)
  have "pow2 (- s) \<le> x" using assms(1) by (simp add: x_def)
  then have "pow2 (- s) < pow2 (e + 1)" using b(2) by linarith
  then have e0: "- s \<le> e" by (rule pow2_less_iff)
  have "(of_int n :: rat) < of_int (2 ^ 53)" using assms(2) by (simp only: of_int_less_iff)
  moreover have "pow2 (52 - s + 1) = of_int (2 ^ 53) * pow2 (- s)"
    using pow2_add_nat [of "- s" 53] by (simp add: mult.commute add.commute)
  ultimately have "x < pow2 (52 - s + 1)" by (simp add: x_def mult_strict_right_mono)
  then have "pow2 e < pow2 (52 - s + 1)" using b(1) by linarith
  then have e52: "e \<le> 52 - s" by (rule pow2_less_iff)
  have grid: "x = of_int (n * 2 ^ nat (52 - s - e)) * pow2 (e - 52)"
    using pow2_add_nat [of "e - 52" "nat (52 - s - e)"] e52 by (simp add: x_def mult.commute)
  have "round64 x = Num x" by (rule round64_grid [OF b _ _ grid]) (use e0 e52 assms in simp_all)
  then show ?thesis by (simp add: x_def)
qed

text \<open>One unit of the grid between 32768 and 65536.\<close>

definition eps37 :: rat where "eps37 = 1 / 2 ^ 37"

lemma eps37_pos [simp]: "0 < eps37" by (simp add: eps37_def)

lemma pow2_m37: "pow2 (- 37) = eps37" by (simp add: pow2_def eps37_def)

lemma round64_37:
  assumes "0 \<le> k" and "k < 2 ^ 53"
  shows "round64 (of_int k * eps37) = Num (of_int k * eps37)"
  using round64_dyadic [of k 37] assms by (cases "k = 0") (auto simp: pow2_m37)

lemma round64_error:
  assumes "0 \<le> x" and "x \<le> 65535"
  shows "\<exists>y. round64 x = Num y \<and> 0 \<le> y \<and> \<bar>y - x\<bar> \<le> eps37"
proof -
  define k where "k = \<lfloor>x / eps37\<rfloor>"
  have k: "of_int k * eps37 \<le> x" "x < of_int (k + 1) * eps37"
    using floor_divide_lower [of eps37 x] floor_divide_upper [of eps37 x] by (simp_all add: k_def)
  have "0 \<le> k" using assms(1) less_imp_le [OF eps37_pos] by (simp add: k_def)
  have "of_int k * eps37 \<le> 65535" using k(1) assms(2) by linarith
  then have "(of_int k :: rat) \<le> of_int (65535 * 2 ^ 37)" by (simp add: eps37_def divide_simps)
  then have "k \<le> 65535 * 2 ^ 37" by (simp only: of_int_le_iff)
  then have lt: "k + 1 < 2 ^ 53" by simp
  have lo: "js_le (Num (of_int k * eps37)) (round64 x)"
    using round64_mono [OF k(1)] round64_37 [of k] \<open>0 \<le> k\<close> lt by simp
  have hi: "js_le (round64 x) (Num (of_int (k + 1) * eps37))"
    using round64_mono [OF less_imp_le [OF k(2)]] round64_37 [of "k + 1"] \<open>0 \<le> k\<close> lt by simp
  obtain y where y: "round64 x = Num y" using lo hi by (cases "round64 x") auto
  have "0 \<le> of_int k * eps37" using \<open>0 \<le> k\<close> by (simp add: less_imp_le)
  with lo hi k y show ?thesis by (auto simp: algebra_simps abs_le_iff)
qed

lemma js_sum_snoc: "js_sum (xs @ [x]) = js_add (js_sum xs) x"
  by (simp add: js_sum_def)

lemma js_sum_error:
  assumes "list_all (\<lambda>v. 0 \<le> v) vs" and "sum_list vs + of_nat (length vs) * eps37 \<le> 65535"
  shows "\<exists>q. js_sum (map Num vs) = Num q \<and> 0 \<le> q \<and>
    \<bar>q - sum_list vs\<bar> \<le> of_nat (length vs) * eps37"
  using assms
proof (induction vs rule: rev_induct)
  case Nil
  then show ?case by (simp add: js_sum_def)
next
  case (snoc v vs)
  have nn: "list_all (\<lambda>v. 0 \<le> v) vs" "0 \<le> v" using snoc.prems(1) by simp_all
  have le: "sum_list vs + of_nat (length vs) * eps37 \<le> 65535"
    using snoc.prems(2) nn(2) less_imp_le [OF eps37_pos] by (simp add: algebra_simps)
  obtain q where q: "js_sum (map Num vs) = Num q" "0 \<le> q"
    "\<bar>q - sum_list vs\<bar> \<le> of_nat (length vs) * eps37"
    using snoc.IH [OF nn(1) le] by blast
  have "q + v \<le> 65535" using q(3) snoc.prems(2) less_imp_le [OF eps37_pos] by (simp add: algebra_simps abs_le_iff)
  then obtain y where y: "round64 (q + v) = Num y" "0 \<le> y" "\<bar>y - (q + v)\<bar> \<le> eps37"
    using round64_error [of "q + v"] q(2) nn(2) by auto
  have "\<bar>y - sum_list (vs @ [v])\<bar> \<le> of_nat (length (vs @ [v])) * eps37"
    using y(3) q(3) by (simp add: algebra_simps abs_le_iff)
  with y show ?case by (simp add: js_sum_snoc q)
qed

lemma js_le_PosInf: "js_le (round64 x) PosInf"
  by (simp add: round64_def)

lemma js_add_mono:
  assumes "js_le a b" and "x \<le> y" and "a \<noteq> NegInf"
  shows "js_le (js_add a (Num x)) (js_add b (Num y))"
  using assms by (cases a; cases b) (auto intro: round64_mono js_le_PosInf)

lemma js_sum_neq_NegInf:
  assumes "list_all (\<lambda>v. 0 \<le> v) vs"
  shows "js_le (Num 0) (js_sum (map Num vs))"
  using assms
proof (induction vs rule: rev_induct)
  case (snoc v vs)
  then show ?case
    using js_add_mono [of "Num 0" "js_sum (map Num vs)" 0 v] by (simp add: js_sum_snoc)
qed (simp add: js_sum_def)

lemma js_sum_mono:
  assumes "list_all2 (\<le>) us vs" and "list_all (\<lambda>v. 0 \<le> v) us"
  shows "js_le (js_sum (map Num us)) (js_sum (map Num vs))"
  using assms
proof (induction us arbitrary: vs rule: rev_induct)
  case Nil
  then show ?case by (simp add: js_sum_def)
next
  case (snoc u us)
  from snoc.prems(1) obtain ws w where vs: "vs = ws @ [w]" "list_all2 (\<le>) us ws" "u \<le> w"
    by (auto simp: list_all2_append1 list_all2_Cons1)
  have "js_sum (map Num us) \<noteq> NegInf"
    using js_sum_neq_NegInf [of us] snoc.prems(2) by auto
  then show ?case
    using js_add_mono [OF snoc.IH [OF vs(2)] vs(3)] snoc.prems(2) by (simp add: js_sum_snoc vs(1))
qed

text \<open>
  The comparison of a sum of non-negative numbers with a limit, against the exact sum: it is
  right outside a margin of one unit of the grid per addend.
\<close>

lemma js_sum_below:
  assumes "list_all (\<lambda>v. 0 \<le> v) vs" and "bnd \<le> 50000"
    and "sum_list vs + of_nat (length vs) * eps37 \<le> bnd"
  shows "js_le (js_sum (map Num vs)) (Num bnd)"
proof -
  have "sum_list vs + of_nat (length vs) * eps37 \<le> 65535" using assms(2,3) by linarith
  then obtain q where "js_sum (map Num vs) = Num q" "\<bar>q - sum_list vs\<bar> \<le> of_nat (length vs) * eps37"
    using js_sum_error [OF assms(1)] by blast
  then show ?thesis using assms(3) by (auto simp: abs_le_iff)
qed

lemma js_sum_above_bounded:
  assumes "list_all (\<lambda>v. 0 \<le> v) vs" and "sum_list vs + of_nat (length vs) * eps37 \<le> 65535"
    and "bnd + of_nat (length vs) * eps37 < sum_list vs"
  shows "js_lt (Num bnd) (js_sum (map Num vs))"
proof -
  obtain q where "js_sum (map Num vs) = Num q" "\<bar>q - sum_list vs\<bar> \<le> of_nat (length vs) * eps37"
    using js_sum_error [OF assms(1,2)] by blast
  then show ?thesis using assms(3) by (auto simp: abs_le_iff)
qed

lemma js_lt_le_trans: "js_lt (Num a) b \<Longrightarrow> js_le b c \<Longrightarrow> js_lt (Num a) c"
  by (cases b; cases c) auto

lemma js_sum_above:
  assumes "list_all (\<lambda>v. 0 \<le> v) vs" and "0 \<le> bnd" "bnd \<le> 50000" and "of_nat (length vs) * eps37 \<le> 5000"
    and "bnd + of_nat (length vs) * eps37 < sum_list vs"
  shows "js_lt (Num bnd) (js_sum (map Num vs))"
proof (cases "sum_list vs \<le> 60000")
  case True
  then show ?thesis using assms by (intro js_sum_above_bounded) auto
next
  case False
  define c where "c = 60000 / sum_list vs"
  define us where "us = map (\<lambda>v. c * v) vs"
  have c: "0 < c" "c \<le> 1" using False by (simp_all add: c_def)
  have su: "sum_list us = 60000" using False sum_list_const_mult [of c "\<lambda>v. v" vs] by (simp add: us_def) (simp add: c_def)
  have nn: "list_all (\<lambda>v. 0 \<le> v) us" using assms(1) c by (auto simp: us_def list_all_iff)
  have "list_all2 (\<le>) us vs"
    using assms(1) c by (auto simp: us_def list_all2_map1 list_all_iff mult_left_le_one_le intro!: list.rel_refl_strong)
  then have "js_le (js_sum (map Num us)) (js_sum (map Num vs))" using nn by (rule js_sum_mono)
  moreover have "js_lt (Num bnd) (js_sum (map Num us))"
    using assms su nn by (intro js_sum_above_bounded) (auto simp: us_def)
  ultimately show ?thesis by (rule js_lt_le_trans [rotated])
qed

section \<open>Digit strings\<close>

lemma digits_val_snoc [simp]: "digits_val (xs @ [x]) = 10 * digits_val xs + digit_val x"
  by (simp add: digits_val_def)

lemma digits_val_Nil [simp]: "digits_val [] = 0"
  by (simp add: digits_val_def)

lemma digit_val_less: "is_digit c \<Longrightarrow> digit_val c < 10"
  by (auto simp: is_digit_def digit_val_def)

lemma digit_val_inj: "is_digit c \<Longrightarrow> is_digit d \<Longrightarrow> digit_val c = digit_val d \<Longrightarrow> c = d"
proof -
  assume "is_digit c" "is_digit d" "digit_val c = digit_val d"
  then have "(of_char c :: nat) = of_char d"
    unfolding is_digit_def digit_val_def code_of_def by linarith
  then show ?thesis by simp
qed

lemma digits_val_append: "digits_val (xs @ ys) = digits_val xs * 10 ^ length ys + digits_val ys"
proof (induction ys rule: rev_induct)
  case (snoc y ys)
  have "digits_val (xs @ ys @ [y]) = 10 * digits_val (xs @ ys) + digit_val y"
    using digits_val_snoc [of "xs @ ys" y] by simp
  with snoc show ?case by (simp add: algebra_simps)
qed simp

lemma digits_val_zeros [simp]: "digits_val (replicate k (CHR ''0'')) = 0"
proof (induction k)
  case (Suc k)
  have "replicate (Suc k) (CHR ''0'') = replicate k (CHR ''0'') @ [CHR ''0'']"
    by (simp add: replicate_append_same)
  then show ?case
    by (simp only: digits_val_snoc Suc.IH) (simp add: digit_val_def code_of_def)
qed simp

lemma digits_val_bound: "list_all is_digit xs \<Longrightarrow> digits_val xs < 10 ^ length xs"
proof (induction xs rule: rev_induct)
  case (snoc x xs)
  then have "digits_val xs + 1 \<le> 10 ^ length xs" "digit_val x < 10" by (auto simp: digit_val_less)
  then show ?case by simp
qed simp

lemma digits_val_inj:
  "list_all is_digit xs \<Longrightarrow> list_all is_digit ys \<Longrightarrow> length xs = length ys \<Longrightarrow>
    digits_val xs = digits_val ys \<Longrightarrow> xs = ys"
proof (induction xs arbitrary: ys rule: rev_induct)
  case (snoc x xs)
  then obtain zs z where ys: "ys = zs @ [z]" by (cases ys rule: rev_cases) auto
  have d: "is_digit x" "is_digit z" using snoc.prems ys by auto
  have "10 * digits_val xs + digit_val x = 10 * digits_val zs + digit_val z"
    using snoc.prems(4) by (simp add: ys)
  with digit_val_less [OF d(1)] digit_val_less [OF d(2)]
  have "digits_val xs = digits_val zs" "digit_val x = digit_val z" by presburger+
  with snoc ys d show ?case by (auto intro: digit_val_inj)
qed simp

lemma is_digit_0 [simp]: "is_digit (CHR ''0'')"
  by (simp add: is_digit_def code_of_def)

text \<open>Decimal numerals of different numbers differ.\<close>

lemma digit_val_char: "n < 10 \<Longrightarrow> digit_val (char_of (48 + n)) = n"
  by (simp add: digit_val_def code_of_def)

lemma show_nat_val: "digits_val (show_nat n) = n"
proof (induction n rule: show_nat.induct)
  case (1 n)
  show ?case
  proof (cases "n < 10")
    case True
    then show ?thesis
      using digits_val_snoc [of "[]" "char_of (48 + n)"]
      by (subst show_nat.simps) (simp add: digit_val_char)
  next
    case False
    with 1 have "digits_val (show_nat (n div 10)) = n div 10" by simp
    with False show ?thesis by (subst show_nat.simps) (simp add: digit_val_char)
  qed
qed

lemma show_nat_digits: "list_all is_digit (show_nat n)"
proof (induction n rule: show_nat.induct)
  case (1 n)
  have d: "is_digit (char_of (48 + k))" if "k < 10" for k :: nat
    using that by (simp add: is_digit_def code_of_def)
  show ?case
    using 1 d [of n] d [of "n mod 10"] by (subst show_nat.simps) auto
qed

lemma show_int_inj: "show_int a = show_int b \<Longrightarrow> a = b"
proof -
  have sign: "CHR ''-'' # xs \<noteq> show_nat n" for xs n
  proof
    assume "CHR ''-'' # xs = show_nat n"
    from show_nat_digits [of n, folded this] show False by (simp add: is_digit_def code_of_def)
  qed
  have inj: "m = n" if "show_nat m = show_nat n" for m n
    using arg_cong [OF that, of digits_val] by (simp only: show_nat_val)
  assume eq: "show_int a = show_int b"
  show ?thesis
  proof (cases "a < 0")
    case True
    then have "b < 0" using eq sign by (auto simp: show_int_def split: if_splits)
    with True show ?thesis using eq inj [of "nat (- a)" "nat (- b)"] by (simp add: show_int_def)
  next
    case False
    then have "\<not> b < 0" using eq sign [of "show_nat (nat (- b))" "nat a"]
      by (auto simp: show_int_def)
    with False show ?thesis using eq inj [of "nat a" "nat b"] by (simp add: show_int_def)
  qed
qed

lemma not_digit_dot [simp]: "\<not> is_digit (CHR ''.'')"
  by (simp add: is_digit_def code_of_def)

end
