(* ===== verification/Schema.thy ===== *)
theory Schema
  imports JsNumber
begin

text \<open>
  The rows of the database (\<open>apps/api/prisma/schema.prisma\<close>) that the modelled services read
  and write, and the database as a record of tables. Optional columns are option types,
  \<open>DateTime\<close> is the epoch in milliseconds, \<open>Float?\<close> an optional number; \<open>Json\<close> metadata is a
  list of named JSON values, in the order the code writes them. The unique constraints of the
  schema are checked where a service creates a row.
\<close>

section \<open>Enumerations\<close>

datatype TransactionStatus = TxPENDING | TxRETRYING | TxSUCCESS | TxFAILED | TxPENDING_REVIEW

datatype KycStatus = KycPENDING | KycAPPROVED | KycREJECTED

datatype KycTier = TierNONE | TierBASIC | TierFULL

datatype UserRole = RoleUSER | RoleADMIN

datatype ComplianceActionType = FREEZE | CLAWBACK

datatype ComplianceActionStatus =
  CaPENDING_APPROVAL | CaAPPROVED | CaEXECUTING | CaEXECUTED | CaFAILED | CaREJECTED

datatype Sep24TransactionStatus =
    Sep24Incomplete | Sep24PendingUserTransferStart | Sep24PendingAnchor | Sep24PendingExternal
  | Sep24Completed | Sep24Refunded | Sep24Expired | Sep24Error

section \<open>JSON values\<close>

datatype json =
    JNull
  | JBool bool
  | JNumber jsnum
  | JString string
  | JArray "json list"
  | JObject "(string \<times> json) list"

definition jopt :: "string option \<Rightarrow> json" where
  "jopt x = (case x of None \<Rightarrow> JNull | Some s \<Rightarrow> JString s)"

section \<open>Rows\<close>

record User =
  u_id :: string
  u_role :: UserRole
  u_erasedAt :: "int option"

record Wallet =
  w_id :: string
  w_userId :: string
  w_publicKey :: string
  w_alias :: "string option"
  w_isDefault :: bool

record Transaction =
  tx_id :: string
  tx_userId :: string
  tx_walletId :: string
  tx_destination :: string
  tx_amount :: string
  tx_assetCode :: string
  tx_assetIssuer :: "string option"
  tx_memo :: "string option"
  tx_idempotencyKey :: "string option"
  tx_status :: TransactionStatus
  tx_stellarTxHash :: "string option"
  tx_riskScore :: "jsnum option"
  tx_flagged :: bool
  tx_createdAt :: int
  tx_updatedAt :: int

record KycRecord =
  k_userId :: string
  k_status :: KycStatus
  k_tier :: KycTier
  k_documentType :: "string option"
  k_documentRef :: "string option"
  k_submittedAt :: "int option"
  k_reviewedAt :: "int option"
  k_rejectionReason :: "string option"

record AuditLog =
  a_id :: string
  a_userId :: "string option"
  a_category :: string
  a_operation :: string
  a_outcome :: string
  a_walletPublicKey :: "string option"
  a_amount :: "string option"
  a_assetCode :: "string option"
  a_destination :: "string option"
  a_txHash :: "string option"
  a_metadata :: "json option"
  a_previousHash :: "string option"
  a_hash :: "string option"
  a_createdAt :: int

record ComplianceAction =
  ca_id :: string
  ca_type :: ComplianceActionType
  ca_status :: ComplianceActionStatus
  ca_targetAccount :: string
  ca_assetCode :: string
  ca_assetIssuer :: "string option"
  ca_amount :: "string option"
  ca_reason :: "string option"
  ca_requestedBy :: string
  ca_txHash :: "string option"
  ca_createdAt :: int

record ComplianceApproval =
  ap_actionId :: string
  ap_officerId :: string
  ap_signature :: string

section \<open>The database\<close>

record db =
  users :: "User list"
  wallets :: "Wallet list"
  transactions :: "Transaction list"
  kycRecords :: "KycRecord list"
  auditLogs :: "AuditLog list"
  complianceActions :: "ComplianceAction list"
  complianceApprovals :: "ComplianceApproval list"

definition empty_db :: db where
  "empty_db = \<lparr>users = [], wallets = [], transactions = [], kycRecords = [], auditLogs = [],
     complianceActions = [], complianceApprovals = []\<rparr>"

section \<open>Access control shared by the services\<close>

text \<open>
  \<open>assertAdmin\<close>: the user exists, has the role \<open>ADMIN\<close> and is not erased. The same method
  stands in \<open>ComplianceActionService\<close> and \<open>AdminComplianceService\<close>. \<open>erasedAt\<close> is a date
  object, so it is true whenever it is set.
\<close>

definition is_admin :: "db \<Rightarrow> string \<Rightarrow> bool" where
  "is_admin d userId =
     (case find (\<lambda>u. u_id u = userId) (users d) of
        None \<Rightarrow> False
      | Some u \<Rightarrow> u_role u = RoleADMIN \<and> u_erasedAt u = None)"

definition assertAdmin :: "string \<Rightarrow> (db, unit) M" where
  "assertAdmin userId =
     bindM (readM (\<lambda>d. is_admin d userId))
       (\<lambda>ok. guardM ok (ForbiddenException ''Administrator access is required''))"

lemma assertAdmin_eq [simp]:
  "assertAdmin uid d = (if is_admin d uid then (Inr (), d)
     else (Inl (ForbiddenException ''Administrator access is required''), d))"
  by (simp add: assertAdmin_def guardM_def)

end
