(* ===== verification/TtlStore.thy ===== *)
theory TtlStore
  imports Prelude
begin

text \<open>
  The three Redis-compatible stores with expiry that the API falls back to when no
  \<open>REDIS_URL\<close> is configured: \<open>InMemoryTtlStore\<close> (transaction service), \<open>InMemoryCache\<close>
  (anchor service) and \<open>InMemoryNonceStore\<close> (SEP-10). They differ in how they test the
  expiry, and only some have \<open>ttl\<close> and \<open>del\<close>. The contract their clients rely on is the
  locale \<open>ttl_store\<close>: reads and writes seen through \<open>live\<close>, the map of the unexpired entries
  at an instant. Each store is shown to satisfy it.

  A value is a \<open>raw\<close> text: the JSON rendering of a value, or a text that does not parse.
  \<open>JSON.parse (JSON.stringify v)\<close> is \<open>v\<close> for the objects the services cache, so the rendering
  is represented by the value itself.
\<close>

datatype 'v raw = Json 'v | Malformed

definition json_parse :: "'v raw \<Rightarrow> 'v option" where
  "json_parse r = (case r of Json v \<Rightarrow> Some v | Malformed \<Rightarrow> None)"

section \<open>The contract\<close>

locale ttl_store =
  fixes live :: "int \<Rightarrow> 's \<Rightarrow> string \<Rightarrow> 'v option"
    and get :: "int \<Rightarrow> string \<Rightarrow> 's \<Rightarrow> 'v option \<times> 's"
    and set_ex :: "int \<Rightarrow> string \<Rightarrow> 'v \<Rightarrow> int \<Rightarrow> 's \<Rightarrow> 's"
  assumes get_live: "fst (get now k s) = live now s k"
    and get_keeps: "now \<le> now' \<Longrightarrow> live now' (snd (get now k s)) = live now' s"
    and set_live: "0 < now \<Longrightarrow> 0 < ttl \<Longrightarrow> now \<le> now' \<Longrightarrow>
      live now' (set_ex now k v ttl s) =
        (live now' s)(k := if now' \<le> now + ttl * 1000 then Some v else None)"
    and live_expires: "now \<le> now' \<Longrightarrow> live now s k = None \<Longrightarrow> live now' s k = None"
begin

lemma get_after_set:
  assumes "0 < now" "0 < ttl" "now \<le> now'" "now' \<le> now + ttl * 1000"
  shows "fst (get now' k (set_ex now k v ttl s)) = Some v"
  using assms by (simp add: get_live set_live)

lemma get_after_expiry:
  assumes "0 < now" "0 < ttl" "now + ttl * 1000 < now'"
  shows "fst (get now' k (set_ex now k v ttl s)) = None"
proof -
  have "0 < ttl * 1000" using assms(2) by simp
  then have "now \<le> now'" using assms(3) by linarith
  with assms show ?thesis by (simp add: get_live set_live)
qed

lemma get_other_key:
  assumes "0 < now" "0 < ttl" "now \<le> now'" "k' \<noteq> k"
  shows "fst (get now' k' (set_ex now k v ttl s)) = fst (get now' k' s)"
  using assms by (simp add: get_live set_live)

end

section \<open>Entries\<close>

record 'v ttl_entry =
  e_value :: "'v raw"
  e_expiresAt :: "int option"

type_synonym 'v ttl_map = "string \<rightharpoonup> 'v ttl_entry"

text \<open>\<open>expiresAt = seconds ? Date.now() + seconds * 1000 : null\<close>, in all three stores.\<close>

definition store_set :: "int \<Rightarrow> string \<Rightarrow> 'v raw \<Rightarrow> int option \<Rightarrow> 'v ttl_map \<Rightarrow> 'v ttl_map" where
  "store_set now key v seconds m =
     (let expiresAt = (case seconds of None \<Rightarrow> None
                       | Some n \<Rightarrow> if n \<noteq> 0 then Some (now + n * 1000) else None)
      in m(key \<mapsto> \<lparr>e_value = v, e_expiresAt = expiresAt\<rparr>))"

section \<open>InMemoryTtlStore and InMemoryCache\<close>

text \<open>
  \<open>if (entry.expiresAt && Date.now() > entry.expiresAt)\<close>: an \<open>expiresAt\<close> of 0 counts as none.
\<close>

definition ttl_expired :: "int \<Rightarrow> 'v ttl_entry \<Rightarrow> bool" where
  "ttl_expired now e =
     (case e_expiresAt e of None \<Rightarrow> False | Some t \<Rightarrow> t \<noteq> 0 \<and> t < now)"

definition ttl_get :: "int \<Rightarrow> string \<Rightarrow> 'v ttl_map \<Rightarrow> 'v raw option \<times> 'v ttl_map" where
  "ttl_get now key m =
     (case m key of
        None \<Rightarrow> (None, m)
      | Some e \<Rightarrow> if ttl_expired now e then (None, m(key := None)) else (Some (e_value e), m))"

definition ttl_set :: "int \<Rightarrow> string \<Rightarrow> 'v raw \<Rightarrow> int option \<Rightarrow> 'v ttl_map \<Rightarrow> 'v ttl_map" where
  "ttl_set = store_set"

text \<open>\<open>InMemoryCache.ttl\<close>: -2 for no key or an expired one, -1 for no expiry, else whole seconds.\<close>

definition cache_ttl :: "int \<Rightarrow> string \<Rightarrow> 'v ttl_map \<Rightarrow> int" where
  "cache_ttl now key m =
     (case m key of
        None \<Rightarrow> - 2
      | Some e \<Rightarrow>
          (case e_expiresAt e of
             None \<Rightarrow> - 1
           | Some t \<Rightarrow>
               if t = 0 then - 1
               else let secs = - ((now - t) div 1000) in if 0 \<le> secs then secs else - 2))"

definition ttl_live :: "int \<Rightarrow> 'v ttl_map \<Rightarrow> string \<Rightarrow> 'v raw option" where
  "ttl_live now m k =
     (case m k of None \<Rightarrow> None | Some e \<Rightarrow> if ttl_expired now e then None else Some (e_value e))"

definition ttl_set_ex :: "int \<Rightarrow> string \<Rightarrow> 'v raw \<Rightarrow> int \<Rightarrow> 'v ttl_map \<Rightarrow> 'v ttl_map" where
  "ttl_set_ex now k v seconds = ttl_set now k v (Some seconds)"

interpretation mem_ttl: ttl_store ttl_live ttl_get ttl_set_ex
proof unfold_locales
  fix now now' :: int and k and s :: "'v ttl_map"
  show "fst (ttl_get now k s) = ttl_live now s k"
    by (simp add: ttl_get_def ttl_live_def split: option.splits)
  assume "now \<le> now'"
  then show "ttl_live now' (snd (ttl_get now k s)) = ttl_live now' s"
    by (auto simp: ttl_get_def ttl_live_def ttl_expired_def fun_eq_iff split: option.splits)
next
  fix now now' ttl :: int and k and v :: "'v raw" and s :: "'v ttl_map"
  assume "0 < now" "0 < ttl" "now \<le> now'"
  then show "ttl_live now' (ttl_set_ex now k v ttl s) =
      (ttl_live now' s)(k := if now' \<le> now + ttl * 1000 then Some v else None)"
    by (auto simp: ttl_set_ex_def ttl_set_def store_set_def ttl_live_def ttl_expired_def fun_eq_iff)
next
  fix now now' :: int and k and s :: "'v ttl_map"
  assume "now \<le> now'" "ttl_live now s k = None"
  then show "ttl_live now' s k = None"
    by (auto simp: ttl_live_def ttl_expired_def split: option.splits if_splits)
qed

section \<open>InMemoryNonceStore\<close>

text \<open>\<open>if (entry.expiresAt !== null && Date.now() > entry.expiresAt)\<close>.\<close>

definition nonce_expired :: "int \<Rightarrow> 'v ttl_entry \<Rightarrow> bool" where
  "nonce_expired now e = (case e_expiresAt e of None \<Rightarrow> False | Some t \<Rightarrow> t < now)"

definition nonce_get :: "int \<Rightarrow> string \<Rightarrow> 'v ttl_map \<Rightarrow> 'v raw option \<times> 'v ttl_map" where
  "nonce_get now key m =
     (case m key of
        None \<Rightarrow> (None, m)
      | Some e \<Rightarrow> if nonce_expired now e then (None, m(key := None)) else (Some (e_value e), m))"

definition nonce_set :: "int \<Rightarrow> string \<Rightarrow> 'v raw \<Rightarrow> int option \<Rightarrow> 'v ttl_map \<Rightarrow> 'v ttl_map" where
  "nonce_set = store_set"

definition nonce_del :: "string \<Rightarrow> 'v ttl_map \<Rightarrow> nat \<times> 'v ttl_map" where
  "nonce_del key m = (if m key \<noteq> None then (1, m(key := None)) else (0, m))"

definition nonce_live :: "int \<Rightarrow> 'v ttl_map \<Rightarrow> string \<Rightarrow> 'v raw option" where
  "nonce_live now m k =
     (case m k of None \<Rightarrow> None | Some e \<Rightarrow> if nonce_expired now e then None else Some (e_value e))"

definition nonce_set_ex :: "int \<Rightarrow> string \<Rightarrow> 'v raw \<Rightarrow> int \<Rightarrow> 'v ttl_map \<Rightarrow> 'v ttl_map" where
  "nonce_set_ex now k v seconds = nonce_set now k v (Some seconds)"

interpretation mem_nonce: ttl_store nonce_live nonce_get nonce_set_ex
proof unfold_locales
  fix now now' :: int and k and s :: "'v ttl_map"
  show "fst (nonce_get now k s) = nonce_live now s k"
    by (simp add: nonce_get_def nonce_live_def split: option.splits)
  assume "now \<le> now'"
  then show "nonce_live now' (snd (nonce_get now k s)) = nonce_live now' s"
    by (auto simp: nonce_get_def nonce_live_def nonce_expired_def fun_eq_iff split: option.splits)
next
  fix now now' ttl :: int and k and v :: "'v raw" and s :: "'v ttl_map"
  assume "0 < now" "0 < ttl" "now \<le> now'"
  then show "nonce_live now' (nonce_set_ex now k v ttl s) =
      (nonce_live now' s)(k := if now' \<le> now + ttl * 1000 then Some v else None)"
    by (auto simp: nonce_set_ex_def nonce_set_def store_set_def nonce_live_def nonce_expired_def
        fun_eq_iff)
next
  fix now now' :: int and k and s :: "'v ttl_map"
  assume "now \<le> now'" "nonce_live now s k = None"
  then show "nonce_live now' s k = None"
    by (auto simp: nonce_live_def nonce_expired_def split: option.splits if_splits)
qed

end
