(* ===== verification/Lock.thy ===== *)
theory Lock
  imports Prelude
begin

text \<open>
  The distributed lock (\<open>apps/api/src/common/lock/lock.service.ts\<close>): the in-memory store
  behind \<open>RedisLockService\<close>, the lock handle with its \<open>stopped\<close> and \<open>lost\<close> flags, the
  heartbeat that extends the lease, and \<open>withLock\<close>. The contract of a lock store is the locale
  \<open>lock_store\<close>; the interleaving of several holders with the clock is the step relation
  \<open>lock_step\<close>, and mutual exclusion is an invariant of its reachable states.
\<close>

section \<open>InMemoryRedisLockStore\<close>

record lock_entry =
  l_token :: string
  l_expiresAt :: int

type_synonym lock_map = "string \<rightharpoonup> lock_entry"

definition LOCK_TTL_MS :: int where "LOCK_TTL_MS = 10000"

definition HEARTBEAT_INTERVAL_MS :: int where "HEARTBEAT_INTERVAL_MS = 3000"

definition mem_acquire :: "int \<Rightarrow> string \<Rightarrow> string \<Rightarrow> int \<Rightarrow> lock_map \<Rightarrow> bool \<times> lock_map" where
  "mem_acquire now key token ttlMs m =
     (if (case m key of None \<Rightarrow> False | Some current \<Rightarrow> now < l_expiresAt current) then (False, m)
      else (True, m(key \<mapsto> \<lparr>l_token = token, l_expiresAt = now + ttlMs\<rparr>)))"

definition mem_extend :: "int \<Rightarrow> string \<Rightarrow> string \<Rightarrow> int \<Rightarrow> lock_map \<Rightarrow> bool \<times> lock_map" where
  "mem_extend now key token ttlMs m =
     (case m key of
        None \<Rightarrow> (False, m)
      | Some current \<Rightarrow>
          if l_token current \<noteq> token \<or> l_expiresAt current \<le> now then (False, m)
          else (True, m(key \<mapsto> current\<lparr>l_expiresAt := now + ttlMs\<rparr>)))"

definition mem_release :: "string \<Rightarrow> string \<Rightarrow> lock_map \<Rightarrow> bool \<times> lock_map" where
  "mem_release key token m =
     (case m key of
        None \<Rightarrow> (False, m)
      | Some current \<Rightarrow> if l_token current \<noteq> token then (False, m) else (True, m(key := None)))"

section \<open>The contract of a lock store\<close>

text \<open>
  \<open>holder now s key\<close> is the token that holds the key at an instant and the end of its lease.
\<close>

locale lock_store =
  fixes holder :: "int \<Rightarrow> 's \<Rightarrow> string \<Rightarrow> (string \<times> int) option"
    and acquire :: "int \<Rightarrow> string \<Rightarrow> string \<Rightarrow> int \<Rightarrow> 's \<Rightarrow> bool \<times> 's"
    and extend :: "int \<Rightarrow> string \<Rightarrow> string \<Rightarrow> int \<Rightarrow> 's \<Rightarrow> bool \<times> 's"
    and release :: "string \<Rightarrow> string \<Rightarrow> 's \<Rightarrow> bool \<times> 's"
  assumes acquire_iff: "fst (acquire now key tok ttl s) = (holder now s key = None)"
    and acquire_holder: "0 < ttl \<Longrightarrow> holder now s key = None \<Longrightarrow>
      holder now (snd (acquire now key tok ttl s)) = (holder now s)(key \<mapsto> (tok, now + ttl))"
    and acquire_fail: "holder now s key \<noteq> None \<Longrightarrow> snd (acquire now key tok ttl s) = s"
    and extend_iff: "fst (extend now key tok ttl s) = (\<exists>t. holder now s key = Some (tok, t))"
    and extend_holder: "0 < ttl \<Longrightarrow> fst (extend now key tok ttl s) \<Longrightarrow>
      holder now (snd (extend now key tok ttl s)) = (holder now s)(key \<mapsto> (tok, now + ttl))"
    and extend_fail: "\<not> fst (extend now key tok ttl s) \<Longrightarrow> snd (extend now key tok ttl s) = s"
    and release_holder: "holder now (snd (release key tok s)) =
      (if \<exists>t. holder now s key = Some (tok, t) then (holder now s)(key := None) else holder now s)"
    and holder_time: "now \<le> now' \<Longrightarrow> holder now' s key = Some (tok, t) \<longleftrightarrow>
      holder now s key = Some (tok, t) \<and> now' < t"
begin

text \<open>A held key is not acquired by another token, and only its own token frees it.\<close>

lemma held_blocks: "holder now s key = Some (tok, t) \<Longrightarrow> \<not> fst (acquire now key tok' ttl s)"
  by (simp add: acquire_iff)

lemma foreign_release:
  "holder now s key = Some (tok, t) \<Longrightarrow> tok' \<noteq> tok \<Longrightarrow>
    holder now (snd (release key tok' s)) key = Some (tok, t)"
  by (simp add: release_holder)

lemma foreign_extend: "holder now s key = Some (tok, t) \<Longrightarrow> tok' \<noteq> tok \<Longrightarrow>
    snd (extend now key tok' ttl s) = s"
  by (rule extend_fail) (simp add: extend_iff)

text \<open>A lease that is not renewed ends: the key can be acquired again.\<close>

lemma lease_ends:
  assumes "holder now s key = Some (tok, t)" and "now \<le> now'" and "t \<le> now'"
  shows "fst (acquire now' key tok' ttl s)"
proof -
  have "holder now' s key = None"
  proof (rule ccontr)
    assume "holder now' s key \<noteq> None"
    then obtain a b where ab: "holder now' s key = Some (a, b)" by auto
    with holder_time [OF assms(2)] have "holder now s key = Some (a, b)" "now' < b" by auto
    with assms show False by simp
  qed
  then show ?thesis by (simp add: acquire_iff)
qed

end

definition mem_holder :: "int \<Rightarrow> lock_map \<Rightarrow> string \<Rightarrow> (string \<times> int) option" where
  "mem_holder now m key =
     (case m key of None \<Rightarrow> None
      | Some e \<Rightarrow> if now < l_expiresAt e then Some (l_token e, l_expiresAt e) else None)"

lemmas mem_lock_defs = mem_holder_def mem_acquire_def mem_extend_def mem_release_def

interpretation mem_lock: lock_store mem_holder mem_acquire mem_extend mem_release
proof unfold_locales
  fix now now' ttl t :: int and key tok :: string and s :: lock_map
  show "fst (mem_acquire now key tok ttl s) = (mem_holder now s key = None)"
    by (simp add: mem_lock_defs split: option.splits)
  show "mem_holder now s key \<noteq> None \<Longrightarrow> snd (mem_acquire now key tok ttl s) = s"
    by (simp add: mem_lock_defs split: option.splits if_splits)
  show "fst (mem_extend now key tok ttl s) = (\<exists>t. mem_holder now s key = Some (tok, t))"
    by (auto simp: mem_lock_defs split: option.splits)
  show "\<not> fst (mem_extend now key tok ttl s) \<Longrightarrow> snd (mem_extend now key tok ttl s) = s"
    by (auto simp: mem_lock_defs split: option.splits if_splits)
  show "mem_holder now (snd (mem_release key tok s)) =
      (if \<exists>t. mem_holder now s key = Some (tok, t) then (mem_holder now s)(key := None)
       else mem_holder now s)"
    by (rule ext) (simp add: mem_lock_defs split: option.splits)
  show "now \<le> now' \<Longrightarrow> mem_holder now' s key = Some (tok, t) \<longleftrightarrow>
      mem_holder now s key = Some (tok, t) \<and> now' < t"
    by (auto simp: mem_lock_defs split: option.splits if_splits)
  assume "0 < ttl"
  then show "mem_holder now s key = None \<Longrightarrow>
      mem_holder now (snd (mem_acquire now key tok ttl s)) = (mem_holder now s)(key \<mapsto> (tok, now + ttl))"
    by (auto simp: mem_lock_defs fun_eq_iff split: option.splits)
  assume "fst (mem_extend now key tok ttl s)"
  with \<open>0 < ttl\<close>
  show "mem_holder now (snd (mem_extend now key tok ttl s)) = (mem_holder now s)(key \<mapsto> (tok, now + ttl))"
    by (auto simp: mem_lock_defs fun_eq_iff split: option.splits)
qed

section \<open>RedisLockService\<close>

record lock_handle =
  h_key :: string
  h_ttl :: int
  h_stopped :: bool
  h_lost :: bool

definition LockNotAcquiredError :: "string \<Rightarrow> exn" where
  "LockNotAcquiredError key = JsError ''LockNotAcquiredError'' (''Lock is already held: '' @ key)"

definition LockLostError :: "string \<Rightarrow> exn" where
  "LockLostError key = JsError ''LockLostError'' (''Lock lease was lost: '' @ key)"

text \<open>\<open>acquire\<close>; the token is the fresh UUID the service draws.\<close>

definition svc_acquire :: "int \<Rightarrow> string \<Rightarrow> string \<Rightarrow> int \<Rightarrow> (lock_map, lock_handle) M" where
  "svc_acquire now token key ttlMs m =
     (case mem_acquire now key token ttlMs m of
        (True, m') \<Rightarrow> (Inr \<lparr>h_key = key, h_ttl = ttlMs, h_stopped = False, h_lost = False\<rparr>, m')
      | (False, m') \<Rightarrow> (Inl (LockNotAcquiredError key), m'))"

text \<open>The handle's \<open>extend\<close>: a refused renewal marks the lock as lost and throws.\<close>

definition handle_extend ::
  "int \<Rightarrow> string \<Rightarrow> lock_handle \<times> lock_map \<Rightarrow> unit res \<times> (lock_handle \<times> lock_map)" where
  "handle_extend now token = (\<lambda>(h, m).
     (case mem_extend now (h_key h) token (h_ttl h) m of
        (True, m') \<Rightarrow> (Inr (), (h, m'))
      | (False, m') \<Rightarrow> (Inl (LockLostError (h_key h)), (h\<lparr>h_lost := True\<rparr>, m'))))"

text \<open>
  One round of the heartbeat loop, after its timer: extend unless the handle was released; a
  failed renewal sets \<open>lost\<close> and ends the loop. The result says whether the loop goes on.
\<close>

definition heartbeat_round ::
  "int \<Rightarrow> string \<Rightarrow> lock_handle \<times> lock_map \<Rightarrow> bool \<times> (lock_handle \<times> lock_map)" where
  "heartbeat_round now token hm =
     (if h_stopped (fst hm) then (False, hm)
      else case handle_extend now token hm of
             (Inr _, hm') \<Rightarrow> (True, hm')
           | (Inl _, (h, m)) \<Rightarrow> (False, (h\<lparr>h_lost := True\<rparr>, m)))"

definition handle_release ::
  "string \<Rightarrow> lock_handle \<times> lock_map \<Rightarrow> unit res \<times> (lock_handle \<times> lock_map)" where
  "handle_release token = (\<lambda>(h, m).
     (let h' = h\<lparr>h_stopped := True\<rparr>
      in case mem_release (h_key h) token m of
           (released, m') \<Rightarrow>
             (if h_lost h' \<and> \<not> released then Inl (LockLostError (h_key h)) else Inr (), (h', m'))))"

text \<open>
  \<open>withLock\<close> for a client whose state contains the lock store (read with \<open>g\<close>, written with
  \<open>p\<close>). The work runs between \<open>acquire\<close> and \<open>release\<close>; \<open>lost\<close> is the flag the heartbeat may
  have set meanwhile.
\<close>

definition withLock ::
  "('s \<Rightarrow> lock_map) \<Rightarrow> (lock_map \<Rightarrow> 's \<Rightarrow> 's) \<Rightarrow> int \<Rightarrow> string \<Rightarrow> string \<Rightarrow> bool \<Rightarrow>
     ('s, 'a) M \<Rightarrow> int \<Rightarrow> ('s, 'a) M" where
  "withLock g p now token key lost work ttlMs =
     bindM (zoomM g p (svc_acquire now token key ttlMs))
       (\<lambda>h. finallyM work
         (\<lambda>s. case handle_release token (h\<lparr>h_lost := lost\<rparr>, g s) of
                (r, (_, m')) \<Rightarrow> (r, p m' s)))"

section \<open>Holders interleaved with the clock\<close>

text \<open>
  The system: the clock, the store, and the live handles by token. \<open>c_lease\<close> is what the
  holder itself knows of its lease: the time of its last successful acquisition or renewal
  plus the lease length. A step is the clock advancing, a client acquiring with a token that
  was never issued, a holder extending, or a holder releasing.
\<close>

record lock_client =
  c_key :: string
  c_ttl :: int
  c_lease :: int
  c_lost :: bool

record lock_sys =
  s_now :: int
  s_store :: lock_map
  s_clients :: "string \<rightharpoonup> lock_client"
  s_issued :: "string set"

definition lock_init :: lock_sys where
  "lock_init = \<lparr>s_now = 0, s_store = Map.empty, s_clients = Map.empty, s_issued = {}\<rparr>"

inductive lock_step :: "lock_sys \<Rightarrow> lock_sys \<Rightarrow> bool" where
  tick: "0 \<le> d \<Longrightarrow> lock_step s (s\<lparr>s_now := s_now s + d\<rparr>)"
| acquire_ok: "tok \<notin> s_issued s \<Longrightarrow> 0 < ttl \<Longrightarrow>
    mem_acquire (s_now s) key tok ttl (s_store s) = (True, m) \<Longrightarrow>
    lock_step s (s\<lparr>s_store := m, s_issued := insert tok (s_issued s),
      s_clients := (s_clients s)(tok \<mapsto>
        \<lparr>c_key = key, c_ttl = ttl, c_lease = s_now s + ttl, c_lost = False\<rparr>)\<rparr>)"
| acquire_refused: "tok \<notin> s_issued s \<Longrightarrow>
    mem_acquire (s_now s) key tok ttl (s_store s) = (False, m) \<Longrightarrow>
    lock_step s (s\<lparr>s_store := m, s_issued := insert tok (s_issued s)\<rparr>)"
| extend_ok: "s_clients s tok = Some c \<Longrightarrow>
    mem_extend (s_now s) (c_key c) tok (c_ttl c) (s_store s) = (True, m) \<Longrightarrow>
    lock_step s (s\<lparr>s_store := m,
      s_clients := (s_clients s)(tok \<mapsto> c\<lparr>c_lease := s_now s + c_ttl c\<rparr>)\<rparr>)"
| extend_lost: "s_clients s tok = Some c \<Longrightarrow>
    mem_extend (s_now s) (c_key c) tok (c_ttl c) (s_store s) = (False, m) \<Longrightarrow>
    lock_step s (s\<lparr>s_store := m, s_clients := (s_clients s)(tok \<mapsto> c\<lparr>c_lost := True\<rparr>)\<rparr>)"
| release_step: "s_clients s tok = Some c \<Longrightarrow>
    mem_release (c_key c) tok (s_store s) = (b, m) \<Longrightarrow>
    lock_step s (s\<lparr>s_store := m, s_clients := (s_clients s)(tok := None)\<rparr>)"

inductive lock_reachable :: "lock_sys \<Rightarrow> bool" where
  start: "lock_reachable lock_init"
| step: "lock_reachable s \<Longrightarrow> lock_step s t \<Longrightarrow> lock_reachable t"

text \<open>
  A client within its own lease is the entry of the store, and every token of the store or of a
  client was issued.
\<close>

definition lock_inv :: "lock_sys \<Rightarrow> bool" where
  "lock_inv s =
     ((\<forall>tok c. s_clients s tok = Some c \<longrightarrow> 0 < c_ttl c \<and> tok \<in> s_issued s \<and>
         (s_now s < c_lease c \<longrightarrow>
           s_store s (c_key c) = Some \<lparr>l_token = tok, l_expiresAt = c_lease c\<rparr>)) \<and>
      (\<forall>k e. s_store s k = Some e \<longrightarrow> l_token e \<in> s_issued s))"

lemma lock_inv_init: "lock_inv lock_init"
  by (simp add: lock_inv_def lock_init_def)

lemma lock_step_inv: "lock_step s t \<Longrightarrow> lock_inv s \<Longrightarrow> lock_inv t"
proof (induction rule: lock_step.induct)
  case (tick d s)
  then show ?case by (fastforce simp: lock_inv_def)
next
  case (acquire_ok tok s ttl key m)
  then show ?case
    by (fastforce simp: lock_inv_def mem_acquire_def split: option.splits if_splits)
next
  case (acquire_refused tok s key ttl m)
  then show ?case by (fastforce simp: lock_inv_def mem_acquire_def split: if_splits)
next
  case (extend_ok s tok c m)
  then show ?case
    by (fastforce simp: lock_inv_def mem_extend_def split: option.splits if_splits)
next
  case (extend_lost s tok c m)
  then show ?case
    by (fastforce simp: lock_inv_def mem_extend_def split: option.splits if_splits)
next
  case (release_step s tok c b m)
  then show ?case
    by (fastforce simp: lock_inv_def mem_release_def split: option.splits if_splits)
qed

lemma lock_reachable_inv: "lock_reachable s \<Longrightarrow> lock_inv s"
  by (induction rule: lock_reachable.induct) (auto intro: lock_inv_init lock_step_inv)

text \<open>A client within its lease renews it: the heartbeat round of a live holder succeeds.\<close>

lemma lease_renewable:
  assumes "lock_inv s" and "s_clients s tok = Some c" and "s_now s < c_lease c"
  shows "fst (mem_extend (s_now s) (c_key c) tok (c_ttl c) (s_store s))"
proof -
  have "mem_holder (s_now s) (s_store s) (c_key c) = Some (tok, c_lease c)"
    using assms by (auto simp: lock_inv_def mem_holder_def)
  then show ?thesis by (simp add: mem_lock.extend_iff)
qed

section \<open>Running under the lock\<close>

lemma withLock_held:
  assumes "p (g s) s = s" and "mem_holder now (g s) key \<noteq> None"
  shows "withLock g p now token key lost work ttl s = (Inl (LockNotAcquiredError key), s)"
proof -
  have "\<not> fst (mem_acquire now key token ttl (g s))" "snd (mem_acquire now key token ttl (g s)) = g s"
    using assms(2) by (simp_all add: mem_lock.acquire_iff mem_lock.acquire_fail)
  then have "mem_acquire now key token ttl (g s) = (False, g s)"
    by (cases "mem_acquire now key token ttl (g s)") simp
  then show ?thesis using assms(1) by (simp add: withLock_def zoomM_def bindM_def svc_acquire_def)
qed

text \<open>
  When the key is free the work runs in the state where the token holds it. If the work leaves
  the lock store alone, the key is free again afterwards and the outcome is the work's own.
\<close>

lemma withLock_free:
  assumes free: "mem_holder now (g s) key = None"
    and gp: "\<And>m t. g (p m t) = m"
    and work: "work (p ((g s)(key \<mapsto> \<lparr>l_token = token, l_expiresAt = now + ttl\<rparr>)) s) = (r, s')"
    and keeps: "g s' = (g s)(key \<mapsto> \<lparr>l_token = token, l_expiresAt = now + ttl\<rparr>)"
  shows "withLock g p now token key lost work ttl s = (r, p ((g s)(key := None)) s')"
proof -
  have "mem_acquire now key token ttl (g s) =
      (True, (g s)(key \<mapsto> \<lparr>l_token = token, l_expiresAt = now + ttl\<rparr>))"
    using free by (auto simp: mem_acquire_def mem_holder_def split: option.splits)
  then show ?thesis
    by (simp add: withLock_def zoomM_def bindM_def svc_acquire_def finallyM_def work
        handle_release_def keeps mem_release_def Let_def)
qed

section \<open>Properties\<close>

text \<open>
  C4. Mutual exclusion: in every state the lock service can reach over its in-memory store, with any interleaving of
  acquisitions, heartbeats, releases and clock ticks, two holders of the same key that are both
  within the lease they last obtained are the same holder.
\<close>

theorem lock_mutual_exclusion:
  assumes "lock_reachable s"
    and "s_clients s tok1 = Some c1" and "s_clients s tok2 = Some c2"
    and "c_key c1 = c_key c2"
    and "s_now s < c_lease c1" and "s_now s < c_lease c2"
  shows "tok1 = tok2"
proof -
  have "lock_inv s" using assms(1) by (rule lock_reachable_inv)
  then have "s_store s (c_key c1) = Some \<lparr>l_token = tok1, l_expiresAt = c_lease c1\<rparr>"
    and "s_store s (c_key c2) = Some \<lparr>l_token = tok2, l_expiresAt = c_lease c2\<rparr>"
    using assms unfolding lock_inv_def by blast+
  with assms(4) show ?thesis by simp
qed

definition lock_demo :: lock_sys where
  "lock_demo = lock_init\<lparr>s_store := [''k'' \<mapsto> \<lparr>l_token = ''t'', l_expiresAt = 10000\<rparr>],
     s_issued := {''t''},
     s_clients := [''t'' \<mapsto> \<lparr>c_key = ''k'', c_ttl = 10000, c_lease = 10000, c_lost = False\<rparr>]\<rparr>"

lemma lock_demo_reachable: "lock_reachable lock_demo"
proof -
  have "lock_step lock_init lock_demo"
    using lock_step.acquire_ok [of "''t''" lock_init 10000 "''k''"
        "[''k'' \<mapsto> \<lparr>l_token = ''t'', l_expiresAt = 10000\<rparr>]"]
    by (simp add: lock_init_def lock_demo_def mem_acquire_def)
  then show ?thesis by (rule lock_reachable.step [OF lock_reachable.start])
qed

theorem lock_mutual_exclusion_witness:
  "lock_reachable lock_demo \<and>
   (\<exists>!tok. \<exists>c. s_clients lock_demo tok = Some c \<and> c_key c = ''k'' \<and> s_now lock_demo < c_lease c)"
proof -
  have c: "s_clients lock_demo ''t'' =
      Some \<lparr>c_key = ''k'', c_ttl = 10000, c_lease = 10000, c_lost = False\<rparr>"
    and n: "s_now lock_demo = 0"
    by (simp_all add: lock_demo_def lock_init_def)
  have holder: "\<exists>c. s_clients lock_demo ''t'' = Some c \<and> c_key c = ''k'' \<and> s_now lock_demo < c_lease c"
    by (intro exI conjI, rule c) (simp_all add: n)
  have "tok = ''t''" if "s_clients lock_demo tok = Some c'" "c_key c' = ''k''" "0 < c_lease c'" for tok c'
    by (rule lock_mutual_exclusion [OF lock_demo_reachable that(1) c]) (use that n in simp_all)
  then have only: "tok = ''t''"
    if "\<exists>c. s_clients lock_demo tok = Some c \<and> c_key c = ''k'' \<and> s_now lock_demo < c_lease c" for tok
    using that n by metis
  show ?thesis
  proof (rule conjI [OF lock_demo_reachable], rule ex1I [of _ "''t''"])
    show "\<exists>c. s_clients lock_demo ''t'' = Some c \<and> c_key c = ''k'' \<and> s_now lock_demo < c_lease c" by (rule holder)
  qed (rule only)
qed

end
