(* ===== verification/AuditTrail.thy ===== *)
theory AuditTrail
  imports Schema
begin

text \<open>
  The audit log (\<open>apps/api/src/audit/audit.service.ts\<close>) and the database trigger of the
  migration \<open>audit_log_immutable_trigger\<close>: writing an entry, sealing it with the hash of its
  canonical payload and of its predecessor, and the read paths. The digest (SHA-256 of the
  JSON text) and the ISO rendering of a date are arguments. \<open>chain_ok\<close> is the specification of
  the hash chain; the lemmas show that \<open>log\<close> extends a chain when the sealing update is
  possible, and what is left of it when the trigger refuses the update.
\<close>

section \<open>Entries and their canonical payload\<close>

record AuditLogOptions =
  o_userId :: "string option"
  o_category :: "string option"
  o_operation :: "string option"
  o_outcome :: "string option"
  o_walletPublicKey :: "string option"
  o_amount :: "string option"
  o_assetCode :: "string option"
  o_destination :: "string option"
  o_txHash :: "string option"
  o_metadata :: "json option"

definition no_options :: AuditLogOptions where
  "no_options = \<lparr>o_userId = None, o_category = None, o_operation = None, o_outcome = None,
     o_walletPublicKey = None, o_amount = None, o_assetCode = None, o_destination = None,
     o_txHash = None, o_metadata = None\<rparr>"

text \<open>The two call forms of \<open>log\<close>: an options object, or \<open>log(userId, action, metadata)\<close>.\<close>

datatype log_args =
    Options AuditLogOptions
  | Positional "string option" "string option" "json option"

definition or_else :: "'a option \<Rightarrow> 'a \<Rightarrow> 'a" where
  "or_else x y = (case x of None \<Rightarrow> y | Some v \<Rightarrow> v)"

text \<open>The argument of \<open>auditLog.create\<close>; the database assigns the id and the creation time.\<close>

definition audit_row :: "log_args \<Rightarrow> string \<Rightarrow> int \<Rightarrow> string option \<Rightarrow> AuditLog" where
  "audit_row args newId now previousHash =
     (case args of
        Options opts \<Rightarrow>
          \<lparr>a_id = newId, a_userId = o_userId opts,
           a_category = or_else (o_category opts) ''GENERAL'',
           a_operation = or_else (o_operation opts) ''ACTION'',
           a_outcome = or_else (o_outcome opts) ''SUCCESS'',
           a_walletPublicKey = o_walletPublicKey opts, a_amount = o_amount opts,
           a_assetCode = o_assetCode opts, a_destination = o_destination opts,
           a_txHash = o_txHash opts, a_metadata = o_metadata opts,
           a_previousHash = previousHash, a_hash = None, a_createdAt = now\<rparr>
      | Positional userId action metadata \<Rightarrow>
          \<lparr>a_id = newId, a_userId = userId, a_category = ''GENERAL'',
           a_operation = or_else action ''ACTION'', a_outcome = ''SUCCESS'',
           a_walletPublicKey = None, a_amount = None, a_assetCode = None,
           a_destination = None, a_txHash = None, a_metadata = metadata,
           a_previousHash = previousHash, a_hash = None, a_createdAt = now\<rparr>)"

definition canonical :: "(int \<Rightarrow> string) \<Rightarrow> AuditLog \<Rightarrow> json" where
  "canonical toISO e = JObject
     [(''id'', JString (a_id e)),
      (''userId'', jopt (a_userId e)),
      (''category'', JString (a_category e)),
      (''operation'', JString (a_operation e)),
      (''outcome'', JString (a_outcome e)),
      (''walletPublicKey'', jopt (a_walletPublicKey e)),
      (''amount'', jopt (a_amount e)),
      (''assetCode'', jopt (a_assetCode e)),
      (''destination'', jopt (a_destination e)),
      (''txHash'', jopt (a_txHash e)),
      (''metadata'', (case a_metadata e of None \<Rightarrow> JNull | Some j \<Rightarrow> j)),
      (''previousHash'', jopt (a_previousHash e)),
      (''createdAt'', JString (toISO (a_createdAt e)))]"

definition hashEntry :: "(json \<Rightarrow> string) \<Rightarrow> (int \<Rightarrow> string) \<Rightarrow> AuditLog \<Rightarrow> string" where
  "hashEntry digest toISO e = digest (canonical toISO e)"

section \<open>Writing\<close>

text \<open>\<open>orderBy: [{ createdAt: 'desc' }, { id: 'desc' }]\<close>, first row.\<close>

definition newer :: "AuditLog \<Rightarrow> AuditLog \<Rightarrow> bool" where
  "newer a b =
     (a_createdAt b < a_createdAt a \<or> (a_createdAt b = a_createdAt a \<and> a_id b < a_id a))"

fun latest :: "AuditLog list \<Rightarrow> AuditLog option" where
  "latest [] = None"
| "latest (r # rs) =
     (case latest rs of None \<Rightarrow> Some r | Some m \<Rightarrow> if newer m r then Some m else Some r)"

text \<open>
  The trigger \<open>audit_log_prevent_mutation\<close>: an update passes only with the transaction-local
  setting \<open>audit_log.allow_anonymization\<close>, a deletion never. \<open>installed\<close> says whether the
  migration has been applied to the database.
\<close>

definition audit_update_permitted :: "bool \<Rightarrow> bool \<Rightarrow> bool" where
  "audit_update_permitted installed allow_anonymization = (\<not> installed \<or> allow_anonymization)"

text \<open>
  \<open>log\<close>: link to the latest entry, create the row, then seal it with \<open>auditLog.update\<close>. An
  exception of the update is swallowed, as the \<open>catch\<close> does.
\<close>

definition audit_log ::
  "(json \<Rightarrow> string) \<Rightarrow> (int \<Rightarrow> string) \<Rightarrow> bool \<Rightarrow> int \<Rightarrow> string \<Rightarrow> log_args \<Rightarrow>
     AuditLog list \<Rightarrow> AuditLog list" where
  "audit_log digest toISO trigger now newId args rows =
     (let previousHash = Option.bind (latest rows) a_hash;
          created = audit_row args newId now previousHash;
          rows' = rows @ [created];
          hash = hashEntry digest toISO created
      in if audit_update_permitted trigger False
         then update_where (\<lambda>r. a_id r = newId) (\<lambda>r. r\<lparr>a_hash := Some hash\<rparr>) rows'
         else rows')"

section \<open>Read paths\<close>

record audit_query =
  q_userId :: "string option"
  q_category :: "string option"
  q_operation :: "string option"
  q_from :: "int option"
  q_to :: "int option"
  q_limit :: "int option"
  q_offset :: "int option"

text \<open>An optional filter applies when its value is truthy; \<open>createdAt\<close> bounds are inclusive.\<close>

definition filter_opt :: "string option \<Rightarrow> string \<Rightarrow> bool" where
  "filter_opt f v = (truthy f \<longrightarrow> f = Some v)"

definition in_range :: "int option \<Rightarrow> int option \<Rightarrow> int \<Rightarrow> bool" where
  "in_range since until t =
     ((case since of None \<Rightarrow> True | Some a \<Rightarrow> a \<le> t) \<and> (case until of None \<Rightarrow> True | Some b \<Rightarrow> t \<le> b))"

definition audit_where :: "audit_query \<Rightarrow> AuditLog \<Rightarrow> bool" where
  "audit_where p r =
     ((truthy (q_userId p) \<longrightarrow> a_userId r = q_userId p) \<and>
      filter_opt (q_category p) (a_category r) \<and>
      filter_opt (q_operation p) (a_operation r) \<and>
      in_range (q_from p) (q_to p) (a_createdAt r))"

text \<open>
  \<open>query\<close>. The order of rows with the same creation time is the database's: \<open>ord\<close> is its
  \<open>orderBy createdAt desc\<close>.
\<close>

definition audit_query ::
  "(AuditLog list \<Rightarrow> AuditLog list) \<Rightarrow> audit_query \<Rightarrow> AuditLog list \<Rightarrow> nat \<times> AuditLog list" where
  "audit_query ord p rows =
     (let rawLimit = or_else (q_limit p) 50;
          limit = min 200 (max 1 rawLimit);
          skip = max 0 (or_else (q_offset p) 0)
      in (count_where (audit_where p) rows,
          take (nat limit) (drop (nat skip) (ord (filter (audit_where p) rows)))))"

definition getUserAuditLogs ::
  "(AuditLog list \<Rightarrow> AuditLog list) \<Rightarrow> string \<Rightarrow> nat \<Rightarrow> AuditLog list \<Rightarrow> AuditLog list" where
  "getUserAuditLogs ord userId limit rows =
     take limit (ord (filter (\<lambda>r. a_userId r = Some userId) rows))"

definition getActionAuditLogs ::
  "(AuditLog list \<Rightarrow> AuditLog list) \<Rightarrow> string \<Rightarrow> nat \<Rightarrow> AuditLog list \<Rightarrow> AuditLog list" where
  "getActionAuditLogs ord action limit rows =
     take limit (ord (filter (\<lambda>r. a_operation r = action) rows))"

text \<open>The cutoff is \<open>days\<close> calendar days before now, in milliseconds; it is computed by the caller.\<close>

definition getRecentAuditLogs ::
  "(AuditLog list \<Rightarrow> AuditLog list) \<Rightarrow> int \<Rightarrow> AuditLog list \<Rightarrow> AuditLog list" where
  "getRecentAuditLogs ord cutoff rows =
     take 1000 (ord (filter (\<lambda>r. cutoff \<le> a_createdAt r) rows))"

section \<open>The hash chain\<close>

text \<open>
  Each entry carries the hash of its predecessor and the digest of its own payload; the first
  has no predecessor.
\<close>

fun chain_from :: "(json \<Rightarrow> string) \<Rightarrow> (int \<Rightarrow> string) \<Rightarrow> string option \<Rightarrow> AuditLog list \<Rightarrow> bool" where
  "chain_from digest toISO prev [] = True"
| "chain_from digest toISO prev (r # rs) =
     (a_previousHash r = prev \<and> a_hash r = Some (hashEntry digest toISO r) \<and>
      chain_from digest toISO (a_hash r) rs)"

definition chain_ok :: "(json \<Rightarrow> string) \<Rightarrow> (int \<Rightarrow> string) \<Rightarrow> AuditLog list \<Rightarrow> bool" where
  "chain_ok digest toISO rows = chain_from digest toISO None rows"

definition head_hash :: "string option \<Rightarrow> AuditLog list \<Rightarrow> string option" where
  "head_hash prev rows = (if rows = [] then prev else a_hash (last rows))"

text \<open>Entries in the order of the log: every entry is newer than the ones before it.\<close>

definition in_order :: "AuditLog list \<Rightarrow> bool" where
  "in_order rows = sorted_wrt (\<lambda>a b. newer b a) rows"

lemma chain_from_append:
  "chain_from dg toISO prev (xs @ ys) =
     (chain_from dg toISO prev xs \<and> chain_from dg toISO (head_hash prev xs) ys)"
  by (induction xs arbitrary: prev) (auto simp: head_hash_def)

lemma newer_trans: "newer a b \<Longrightarrow> newer b c \<Longrightarrow> newer a c"
  by (auto simp: newer_def)

lemma newer_irrefl: "\<not> newer a a"
  by (auto simp: newer_def)

lemma latest_in_order:
  "in_order rows \<Longrightarrow> latest rows = (if rows = [] then None else Some (last rows))"
proof (induction rows)
  case (Cons r rs)
  then have IH: "latest rs = (if rs = [] then None else Some (last rs))"
    and all: "\<And>x. x \<in> set rs \<Longrightarrow> newer x r"
    by (auto simp: in_order_def)
  from all [of "last rs"] show ?case by (simp add: IH)
qed simp

lemma in_order_ids: "in_order (rows @ [r]) \<Longrightarrow> x \<in> set rows \<Longrightarrow> a_id x \<noteq> a_id r \<or> a_createdAt x < a_createdAt r"
  by (auto simp: in_order_def sorted_wrt_append newer_def)

lemma audit_row_fields [simp]:
  "a_id (audit_row args i t p) = i" "a_createdAt (audit_row args i t p) = t"
  "a_previousHash (audit_row args i t p) = p" "a_hash (audit_row args i t p) = None"
  by (simp_all add: audit_row_def split: log_args.splits)

lemma newer_audit_row:
  "newer (r\<lparr>a_hash := h\<rparr>) x = newer r x" "newer x (r\<lparr>a_hash := h\<rparr>) = newer x r"
  "newer (audit_row args i t p) x =
    (a_createdAt x < t \<or> a_createdAt x = t \<and> a_id x < i)"
  by (simp_all add: newer_def)

lemma canonical_hash [simp]: "canonical toISO (r\<lparr>a_hash := h\<rparr>) = canonical toISO r"
  by (simp add: canonical_def)

text \<open>
  One \<open>log\<close> call on a database without the trigger, with a fresh id and a stamp after all
  others, appends one sealed entry linked to the last.
\<close>

lemma audit_log_append:
  assumes "\<And>r. r \<in> set rows \<Longrightarrow> a_id r \<noteq> i"
  shows "audit_log dg toISO False now i args rows =
    (let created = audit_row args i now (Option.bind (latest rows) a_hash)
     in rows @ [created\<lparr>a_hash := Some (hashEntry dg toISO created)\<rparr>])"
proof -
  have *: "update_where (\<lambda>r. a_id r = i) f rows = rows" for f
    using assms by (intro update_where_id) auto
  show ?thesis
    by (simp add: audit_log_def audit_update_permitted_def Let_def *)
qed

text \<open>A call stamped after every entry: fresh id, and newer than every row.\<close>

definition stamp_after :: "int \<Rightarrow> string \<Rightarrow> AuditLog list \<Rightarrow> bool" where
  "stamp_after now i rows =
     (\<forall>r \<in> set rows. a_id r \<noteq> i \<and> (a_createdAt r < now \<or> (a_createdAt r = now \<and> a_id r < i)))"

lemma audit_log_chain:
  assumes "in_order rows" and "chain_ok dg toISO rows" and "stamp_after now i rows"
  shows "in_order (audit_log dg toISO False now i args rows) \<and>
    chain_ok dg toISO (audit_log dg toISO False now i args rows)"
proof -
  define created where "created = audit_row args i now (Option.bind (latest rows) a_hash)"
  have eq: "audit_log dg toISO False now i args rows =
      rows @ [created\<lparr>a_hash := Some (hashEntry dg toISO created)\<rparr>]"
    unfolding created_def
    by (subst audit_log_append) (use assms(3) in \<open>auto simp: stamp_after_def Let_def\<close>)
  have link: "Option.bind (latest rows) a_hash = head_hash None rows"
    by (simp add: latest_in_order [OF assms(1)] head_hash_def)
  show ?thesis
    using assms unfolding eq
    by (auto simp: in_order_def sorted_wrt_append stamp_after_def newer_audit_row created_def
        chain_ok_def chain_from_append link hashEntry_def)
qed

text \<open>A sequence of calls, each with its stamp.\<close>

fun audit_run ::
  "(json \<Rightarrow> string) \<Rightarrow> (int \<Rightarrow> string) \<Rightarrow> bool \<Rightarrow> (int \<times> string \<times> log_args) list \<Rightarrow>
     AuditLog list \<Rightarrow> AuditLog list" where
  "audit_run digest toISO trigger [] rows = rows"
| "audit_run digest toISO trigger ((now, i, args) # calls) rows =
     audit_run digest toISO trigger calls (audit_log digest toISO trigger now i args rows)"

text \<open>The stamps of a sequence of calls increase.\<close>

fun stamps_ok :: "(int \<times> string \<times> log_args) list \<Rightarrow> bool" where
  "stamps_ok [] = True"
| "stamps_ok ((now, i, args) # calls) =
     ((\<forall>(t, j, _) \<in> set calls. j \<noteq> i \<and> (now < t \<or> (now = t \<and> i < j))) \<and> stamps_ok calls)"

lemma audit_run_chain:
  assumes "in_order rows" and "chain_ok dg toISO rows" and "stamps_ok calls"
    and "\<And>t i a. (t, i, a) \<in> set calls \<Longrightarrow> stamp_after t i rows"
  shows "chain_ok dg toISO (audit_run dg toISO False calls rows) \<and>
    length (audit_run dg toISO False calls rows) = length rows + length calls"
  using assms
proof (induction calls arbitrary: rows)
  case (Cons c calls)
  obtain t i a where c: "c = (t, i, a)" by (cases c) auto
  define rows' where "rows' = audit_log dg toISO False t i a rows"
  have st: "stamp_after t i rows" using Cons.prems(4) c by auto
  have IHp: "in_order rows' \<and> chain_ok dg toISO rows'"
    unfolding rows'_def by (rule audit_log_chain [OF Cons.prems(1,2) st])
  have app: "\<exists>r. rows' = rows @ [r] \<and> a_id r = i \<and> a_createdAt r = t"
    unfolding rows'_def
    by (subst audit_log_append) (use st in \<open>auto simp: stamp_after_def Let_def\<close>)
  have "stamp_after t' j rows'" if "(t', j, b) \<in> set calls" for t' j b
    using Cons.prems(3,4) that app c by (fastforce simp: stamp_after_def)
  moreover have "stamps_ok calls" using Cons.prems(3) c by simp
  ultimately have "chain_ok dg toISO (audit_run dg toISO False calls rows') \<and>
      length (audit_run dg toISO False calls rows') = length rows' + length calls"
    using IHp by (intro Cons.IH) auto
  then show ?case using app by (auto simp: c rows'_def)
qed simp

section \<open>Tamper evidence\<close>




lemma head_hash_snoc [simp]: "head_hash p (rows @ [r]) = a_hash r"
  by (simp add: head_hash_def)



section \<open>The log under the trigger\<close>

definition unsealed :: "AuditLog list \<Rightarrow> bool" where
  "unsealed rows = list_all (\<lambda>r. a_hash r = None \<and> a_previousHash r = None) rows"

lemma latest_in_set: "latest rows = Some m \<Longrightarrow> m \<in> set rows"
  by (induction rows arbitrary: m) (auto split: option.splits if_splits)

lemma audit_log_unsealed:
  assumes "unsealed rows"
  shows "audit_log dg toISO True t i a rows = rows @ [audit_row a i t None]"
proof -
  have "Option.bind (latest rows) a_hash = None"
    using assms latest_in_set [of rows]
    by (cases "latest rows") (auto simp: unsealed_def list_all_iff)
  then show ?thesis by (simp add: audit_log_def audit_update_permitted_def)
qed

lemma audit_run_unsealed:
  "unsealed rows \<Longrightarrow> unsealed (audit_run dg toISO True calls rows) \<and>
    length (audit_run dg toISO True calls rows) = length rows + length calls"
proof (induction calls arbitrary: rows)
  case (Cons c calls)
  obtain t i a where c: "c = (t, i, a)" by (cases c) auto
  have "unsealed (rows @ [audit_row a i t None])"
    using Cons.prems by (simp add: unsealed_def)
  from Cons.IH [OF this] show ?case by (simp add: c audit_log_unsealed [OF Cons.prems])
qed simp

section \<open>Properties\<close>

text \<open>
  C7. The hash chain: on a database that accepts the sealing update, any sequence of \<open>log\<close>
  calls whose stamps (creation time, then id) increase leaves a well-formed chain with one
  sealed entry per call, each linked to the hash of its predecessor.
\<close>

theorem audit_log_builds_chain:
  assumes "stamps_ok calls"
  shows "chain_ok digest toISO (audit_run digest toISO False calls []) \<and>
    length (audit_run digest toISO False calls []) = length calls"
  using audit_run_chain [of "[]" digest toISO calls] assms
  by (simp add: in_order_def chain_ok_def stamp_after_def)

definition demo_calls :: "(int \<times> string \<times> log_args) list" where
  "demo_calls =
     [(1, ''b'', Positional (Some ''u'') (Some ''LOGIN'') None),
      (2, ''a'', Options (no_options\<lparr>o_category := Some ''COMPLIANCE''\<rparr>))]"

theorem audit_log_builds_chain_witness:
  "stamps_ok demo_calls \<and>
   chain_ok (\<lambda>_. ''h'') (\<lambda>_. ''t'') (audit_run (\<lambda>_. ''h'') (\<lambda>_. ''t'') False demo_calls []) \<and>
   map a_previousHash (audit_run (\<lambda>_. ''h'') (\<lambda>_. ''t'') False demo_calls []) = [None, Some ''h'']"
proof -
  have s: "stamps_ok demo_calls" by (simp add: demo_calls_def)
  moreover have "map a_previousHash (audit_run (\<lambda>_. ''h'') (\<lambda>_. ''t'') False demo_calls []) =
      [None, Some ''h'']"
    by (simp add: demo_calls_def audit_log_def audit_update_permitted_def hashEntry_def
        audit_row_def)
  ultimately show ?thesis using audit_log_builds_chain [OF s, of "\<lambda>_. ''h''" "\<lambda>_. ''t''"] by blast
qed





text \<open>
  With the trigger of the migration installed, the sealing update is refused and swallowed:
  after any sequence of \<open>log\<close> calls on a log without hashes, no entry has a hash and no entry
  is linked to its predecessor, although every call appended its row.
\<close>

theorem audit_trigger_leaves_log_unsealed:
  "let rows = audit_run digest toISO True calls []
   in length rows = length calls \<and> list_all (\<lambda>r. a_hash r = None \<and> a_previousHash r = None) rows"
  using audit_run_unsealed [of "[]" digest toISO calls] by (simp add: unsealed_def)

end
