(* ===== verification/Integrity.thy ===== *)
theory Integrity
  imports JsNumber
begin

text \<open>
  The amount integrity check (\<open>apps/api/src/transaction/transaction-integrity.ts\<close>):
  \<open>canonicalAmount\<close> and \<open>assertTransactionAmountIntegrity\<close>, which binds the amount of a queued
  job to the amount of the stored transaction. \<open>amount_value\<close> is the specification, the
  rational an amount text denotes; the main result is that the check passes exactly when both
  texts denote an amount and the two amounts are equal.
\<close>

section \<open>The code\<close>

text \<open>The match of \<open>/^(\d+)(?:\.(\d+))?$/\<close>: the whole digits and the optional fraction digits.\<close>

definition match_amount :: "string \<Rightarrow> (string \<times> string option) option" where
  "match_amount s =
     (let ip = takeWhile is_digit s; r = dropWhile is_digit s
      in if ip = [] then None
         else case r of
                [] \<Rightarrow> Some (ip, None)
              | c # fp \<Rightarrow>
                  if c = CHR ''.'' \<and> fp \<noteq> [] \<and> list_all is_digit fp then Some (ip, Some fp)
                  else None)"

text \<open>\<open>replace(/^0+(?=\d)/, '')\<close> on digits: leading zeros go, but the last digit stays.\<close>

fun strip_leading :: "string \<Rightarrow> string" where
  "strip_leading (c # d # r) = (if c = CHR ''0'' then strip_leading (d # r) else c # d # r)"
| "strip_leading s = s"

text \<open>\<open>replace(/0+$/, '')\<close>.\<close>

definition strip_trailing :: "string \<Rightarrow> string" where
  "strip_trailing s = rev (dropWhile (\<lambda>c. c = CHR ''0'') (rev s))"

definition canonicalAmount :: "string \<Rightarrow> string res" where
  "canonicalAmount value =
     (case match_amount (js_trim value) of
        None \<Rightarrow> Inl (UnprocessableEntityException ''Transaction amount integrity check failed'')
      | Some (m1, m2) \<Rightarrow>
          let whole = strip_leading m1;
              fraction = strip_trailing (case m2 of None \<Rightarrow> [] | Some f \<Rightarrow> f)
          in Inr (if fraction \<noteq> [] then whole @ ''.'' @ fraction else whole))"

definition assertTransactionAmountIntegrity :: "string \<Rightarrow> string \<Rightarrow> unit res" where
  "assertTransactionAmountIntegrity approvedAmount persistedAmount =
     (case canonicalAmount approvedAmount of
        Inl e \<Rightarrow> Inl e
      | Inr a \<Rightarrow>
          (case canonicalAmount persistedAmount of
             Inl e \<Rightarrow> Inl e
           | Inr p \<Rightarrow>
               if a \<noteq> p
               then Inl (UnprocessableEntityException ''Transaction amount changed before submission'')
               else Inr ()))"

section \<open>What an amount text denotes\<close>

definition decimal_value :: "string \<Rightarrow> string \<Rightarrow> rat" where
  "decimal_value ip fp = of_nat (digits_val ip) + of_nat (digits_val fp) / 10 ^ length fp"

definition amount_value :: "string \<Rightarrow> rat option" where
  "amount_value s =
     (case match_amount (js_trim s) of
        None \<Rightarrow> None
      | Some (ip, fp) \<Rightarrow> Some (decimal_value ip (case fp of None \<Rightarrow> [] | Some f \<Rightarrow> f)))"

section \<open>Canonical forms\<close>

definition no_leading :: "string \<Rightarrow> bool" where
  "no_leading s = (s \<noteq> [] \<and> (length s = 1 \<or> hd s \<noteq> CHR ''0''))"

definition no_trailing :: "string \<Rightarrow> bool" where
  "no_trailing s = (s = [] \<or> last s \<noteq> CHR ''0'')"

lemma strip_leading_props:
  "s \<noteq> [] \<Longrightarrow> no_leading (strip_leading s) \<and> (\<exists>k. s = replicate k (CHR ''0'') @ strip_leading s)"
proof (induction s rule: strip_leading.induct)
  case (1 c d r)
  show ?case
  proof (cases "c = CHR ''0''")
    case True
    with 1 obtain k where "no_leading (strip_leading (d # r))"
      and "d # r = replicate k (CHR ''0'') @ strip_leading (d # r)" by auto
    then have "c # d # r = replicate (Suc k) (CHR ''0'') @ strip_leading (c # d # r)"
      using True by simp
    with True \<open>no_leading (strip_leading (d # r))\<close> show ?thesis by (metis strip_leading.simps(1))
  qed (auto simp: no_leading_def intro: exI [of _ 0])
qed (auto simp: no_leading_def intro: exI [of _ 0])

lemma strip_trailing_props:
  "no_trailing (strip_trailing s) \<and> (\<exists>k. s = strip_trailing s @ replicate k (CHR ''0''))"
proof -
  let ?P = "\<lambda>c. c = CHR ''0''"
  have "takeWhile ?P (rev s) = replicate (length (takeWhile ?P (rev s))) (CHR ''0'')"
    by (intro replicate_eqI) (auto dest: set_takeWhileD)
  then obtain k where k: "takeWhile ?P (rev s) = replicate k (CHR ''0'')" by blast
  have "rev s = takeWhile ?P (rev s) @ dropWhile ?P (rev s)" by simp
  then have "s = rev (takeWhile ?P (rev s) @ dropWhile ?P (rev s))" using rev_rev_ident by metis
  then have "s = strip_trailing s @ replicate k (CHR ''0'')" by (simp add: k strip_trailing_def)
  moreover have "no_trailing (strip_trailing s)"
    using hd_dropWhile [of ?P "rev s"]
    by (auto simp: no_trailing_def strip_trailing_def last_rev)
  ultimately show ?thesis by blast
qed

lemma whole_unique:
  assumes "list_all is_digit a" "list_all is_digit b" "no_leading a" "no_leading b"
    and "digits_val a = digits_val b"
  shows "a = b"
proof -
  have aux: "xs = ys"
    if "length xs \<le> length ys" "list_all is_digit xs" "list_all is_digit ys"
      "no_leading xs" "no_leading ys" "digits_val xs = digits_val ys" for xs ys
  proof -
    define k where "k = length ys - length xs"
    have "replicate k (CHR ''0'') @ xs = ys"
      using that by (intro digits_val_inj) (auto simp: k_def digits_val_append list_all_iff)
    with that(4,5) show ?thesis by (cases k) (auto simp: no_leading_def)
  qed
  show ?thesis using aux [of a b] aux [of b a] assms by (cases "length a \<le> length b") auto
qed

lemma fraction_unique:
  assumes "list_all is_digit a" "list_all is_digit b" "no_trailing a" "no_trailing b"
    and "(of_nat (digits_val a) :: rat) / 10 ^ length a = of_nat (digits_val b) / 10 ^ length b"
  shows "a = b"
proof -
  have aux: "xs = ys"
    if "length xs \<le> length ys" "list_all is_digit xs" "list_all is_digit ys" "no_trailing ys"
      "(of_nat (digits_val xs) :: rat) / 10 ^ length xs = of_nat (digits_val ys) / 10 ^ length ys"
    for xs ys
  proof -
    from le_Suc_ex [OF that(1)] obtain k where k: "length ys = length xs + k" ..
    have "(of_nat (digits_val xs) :: rat) / 10 ^ length xs =
        of_nat (digits_val ys) / (10 ^ length xs * 10 ^ k)"
      using that(5) by (simp only: k power_add)
    then have "(of_nat (digits_val xs * 10 ^ k) :: rat) = of_nat (digits_val ys)"
      by (simp add: divide_eq_eq eq_divide_eq)
    then have "digits_val xs * 10 ^ k = digits_val ys" by (simp only: of_nat_eq_iff)
    then have "xs @ replicate k (CHR ''0'') = ys"
      using that k by (intro digits_val_inj) (auto simp: digits_val_append list_all_iff)
    with that(4) show ?thesis by (cases "k = 0") (auto simp: no_trailing_def)
  qed
  show ?thesis
  proof (cases "length a \<le> length b")
    case True
    then show ?thesis by (rule aux) (fact assms)+
  next
    case False
    then show ?thesis by (intro aux [symmetric]) (use assms in simp_all)
  qed
qed

lemma fraction_less_1:
  "list_all is_digit f \<Longrightarrow> 0 \<le> (of_nat (digits_val f) :: rat) / 10 ^ length f \<and>
    (of_nat (digits_val f) :: rat) / 10 ^ length f < 1"
proof -
  assume "list_all is_digit f"
  from digits_val_bound [OF this]
  have "(of_nat (digits_val f) :: rat) < of_nat (10 ^ length f)" by (simp only: of_nat_less_iff)
  then show ?thesis by simp
qed

lemma decimal_unique:
  assumes "list_all is_digit w" "list_all is_digit w'" "no_leading w" "no_leading w'"
    and "list_all is_digit f" "list_all is_digit f'" "no_trailing f" "no_trailing f'"
  shows "decimal_value w f = decimal_value w' f' \<longleftrightarrow> w = w' \<and> f = f'"
proof
  assume eq: "decimal_value w f = decimal_value w' f'"
  have "\<lfloor>decimal_value a g\<rfloor> = int (digits_val a)" if "list_all is_digit g" for a g
    using fraction_less_1 [OF that] by (simp add: decimal_value_def floor_eq_iff)
  from this [OF assms(5)] this [OF assms(6)] eq have "digits_val w = digits_val w'"
    by (metis of_nat_eq_iff)
  then have "w = w'" using assms by (intro whole_unique) auto
  with eq show "w = w' \<and> f = f'"
    using assms by (auto simp: decimal_value_def intro: fraction_unique)
qed auto

lemma match_amount_digits:
  assumes "match_amount s = Some (ip, fp)"
  shows "ip \<noteq> [] \<and> list_all is_digit ip \<and> list_all is_digit (case fp of None \<Rightarrow> [] | Some f \<Rightarrow> f)"
  using assms
  by (auto simp: match_amount_def Let_def list_all_iff split: if_splits list.splits
      dest: set_takeWhileD)

lemma strip_value:
  assumes "ip \<noteq> []"
  shows "decimal_value (strip_leading ip) (strip_trailing f) = decimal_value ip f"
proof -
  obtain k where k: "ip = replicate k (CHR ''0'') @ strip_leading ip"
    using strip_leading_props [OF assms] by blast
  obtain j where j: "f = strip_trailing f @ replicate j (CHR ''0'')"
    using strip_trailing_props by blast
  have "digits_val ip = digits_val (strip_leading ip)"
    by (subst k) (simp only: digits_val_append, simp)
  moreover have "(of_nat (digits_val f) :: rat) / 10 ^ length f =
      of_nat (digits_val (strip_trailing f)) / 10 ^ length (strip_trailing f)"
    by (subst j, subst (2) j) (simp add: digits_val_append power_add)
  ultimately show ?thesis by (simp add: decimal_value_def)
qed

lemma join_inj:
  assumes "list_all is_digit w" "list_all is_digit w'"
  shows "(if f \<noteq> [] then w @ ''.'' @ f else w) = (if f' \<noteq> [] then w' @ ''.'' @ f' else w')
    \<longleftrightarrow> w = w' \<and> f = f'"
proof -
  have split: "takeWhile is_digit (w @ CHR ''.'' # r) = w" "dropWhile is_digit (w @ CHR ''.'' # r) = CHR ''.'' # r"
    if "list_all is_digit w" for w r
    using that by (simp_all add: takeWhile_append2 dropWhile_append2 list_all_iff)
  have "CHR ''.'' \<notin> set w" "CHR ''.'' \<notin> set w'" using assms by (auto simp: list_all_iff)
  moreover have "w @ CHR ''.'' # f = w' @ CHR ''.'' # f' \<longleftrightarrow> w = w' \<and> f = f'"
    using split [OF assms(1), of f] split [OF assms(2), of f'] by (metis list.inject)
  ultimately show ?thesis by auto
qed

text \<open>Two amounts have the same canonical text exactly when they denote the same number.\<close>

lemma canonical_iff_value:
  assumes "match_amount (js_trim a) = Some (i, f)" and "match_amount (js_trim b) = Some (i', f')"
  shows "canonicalAmount a = canonicalAmount b \<longleftrightarrow> amount_value a = amount_value b"
proof -
  define g g' where "g = (case f of None \<Rightarrow> [] | Some x \<Rightarrow> x)" and "g' = (case f' of None \<Rightarrow> [] | Some x \<Rightarrow> x)"
  have d: "i \<noteq> []" "list_all is_digit i" "list_all is_digit g"
      "i' \<noteq> []" "list_all is_digit i'" "list_all is_digit g'"
    using match_amount_digits [OF assms(1)] match_amount_digits [OF assms(2)]
    by (auto simp: g_def g'_def)
  have w: "list_all is_digit (strip_leading i)" "list_all is_digit (strip_leading i')"
    using strip_leading_props [OF d(1)] strip_leading_props [OF d(4)] d(2,5)
    by (metis list_all_append)+
  have t: "list_all is_digit (strip_trailing g)" "list_all is_digit (strip_trailing g')"
    using strip_trailing_props [of g] strip_trailing_props [of g'] d(3,6)
    by (metis list_all_append)+
  have "canonicalAmount a = canonicalAmount b \<longleftrightarrow>
      strip_leading i = strip_leading i' \<and> strip_trailing g = strip_trailing g'"
    using join_inj [OF w] by (simp add: canonicalAmount_def assms Let_def g_def g'_def)
  also have "\<dots> \<longleftrightarrow> decimal_value (strip_leading i) (strip_trailing g) =
      decimal_value (strip_leading i') (strip_trailing g')"
    using strip_leading_props d strip_trailing_props w t by (simp add: decimal_unique)
  also have "\<dots> \<longleftrightarrow> amount_value a = amount_value b"
    by (simp add: strip_value d amount_value_def assms g_def g'_def)
  finally show ?thesis .
qed

text \<open>When the check passes.\<close>

lemma integrity_passes_iff:
  "assertTransactionAmountIntegrity a b = Inr () \<longleftrightarrow>
     amount_value a \<noteq> None \<and> amount_value a = amount_value b"
proof (cases "match_amount (js_trim a)")
  case None
  then show ?thesis
    by (simp add: assertTransactionAmountIntegrity_def canonicalAmount_def amount_value_def)
next
  case (Some p)
  obtain i f where p: "p = (i, f)" by (cases p)
  show ?thesis
  proof (cases "match_amount (js_trim b)")
    case None
    with Some p show ?thesis
      by (simp add: assertTransactionAmountIntegrity_def canonicalAmount_def amount_value_def Let_def)
  next
    case (Some q)
    obtain i' f' where q: "q = (i', f')" by (cases q)
    note m = \<open>match_amount (js_trim a) = Some p\<close> [unfolded p] Some [unfolded q]
    have "assertTransactionAmountIntegrity a b = Inr () \<longleftrightarrow> canonicalAmount a = canonicalAmount b"
      by (simp add: assertTransactionAmountIntegrity_def canonicalAmount_def m Let_def)
    with canonical_iff_value [OF m] show ?thesis by (simp add: amount_value_def m)
  qed
qed

lemma canonicalAmount_malformed:
  "amount_value a = None \<Longrightarrow>
     canonicalAmount a = Inl (UnprocessableEntityException ''Transaction amount integrity check failed'')"
  by (auto simp: canonicalAmount_def amount_value_def split: option.splits)

lemma canonicalAmount_wellformed: "amount_value a \<noteq> None \<Longrightarrow> \<exists>c. canonicalAmount a = Inr c"
  by (auto simp: canonicalAmount_def amount_value_def Let_def split: option.splits)

section \<open>Property\<close>

text \<open>
  C9. The amount of a job is compared with the stored amount by value. The check fails as
  malformed when one of the two texts is not a plain decimal number, passes when both denote
  the same number, however they are written, and fails as changed otherwise.
\<close>

theorem amount_integrity_verdict:
  "assertTransactionAmountIntegrity a b =
    (if amount_value a = None \<or> amount_value b = None
     then Inl (UnprocessableEntityException ''Transaction amount integrity check failed'')
     else if amount_value a = amount_value b then Inr ()
     else Inl (UnprocessableEntityException ''Transaction amount changed before submission''))"
proof (cases "amount_value a = None \<or> amount_value b = None")
  case True
  then show ?thesis
    using canonicalAmount_malformed [of a] canonicalAmount_malformed [of b] canonicalAmount_wellformed [of a]
    by (cases "amount_value a = None") (auto simp: assertTransactionAmountIntegrity_def)
next
  case False
  then obtain c d where "canonicalAmount a = Inr c" "canonicalAmount b = Inr d"
    using canonicalAmount_wellformed by blast
  then show ?thesis
    using False integrity_passes_iff [of a b]
    by (auto simp: assertTransactionAmountIntegrity_def split: if_splits)
qed

end
