(* ===== verification/RateLimit.thy ===== *)
theory RateLimit
  imports JsNumber
begin

text \<open>
  The in-memory rate limiter (\<open>apps/api/src/rate-limit/rate-limit.guard.ts\<close>): the guard's
  buckets, its periodic cleanup, the key it derives from a request, the limits it reads from
  the environment and the decision with its headers. The main result is exact: within one
  window, whatever the other clients do in between, a client gets as many requests through as
  the limit says and no more.
\<close>

section \<open>Configuration\<close>

record RateLimitOptions =
  keyPrefix :: string
  opt_limit :: "int option"
  opt_windowMs :: "int option"
  limitEnv :: "string option"
  windowMsEnv :: "string option"

type_synonym environment = "string \<Rightarrow> string option"

definition DEFAULT_LIMIT :: int where "DEFAULT_LIMIT = 60"

definition DEFAULT_WINDOW_MS :: int where "DEFAULT_WINDOW_MS = 60000"

text \<open>\<open>Number.parseInt(value, 10)\<close>: white space, an optional sign, the longest run of digits.\<close>

definition parseInt10 :: "string \<Rightarrow> int option" where
  "parseInt10 s =
     (let (neg, r) = strip_sign (dropWhile js_white s); ds = takeWhile is_digit r
      in if ds = [] then None
         else Some (if neg then - int (digits_val ds) else int (digits_val ds)))"

definition readPositiveInt :: "string option \<Rightarrow> int \<Rightarrow> int" where
  "readPositiveInt value fallback =
     (if \<not> truthy value then fallback
      else case parseInt10 (the value) of
             None \<Rightarrow> fallback
           | Some parsed \<Rightarrow> if 0 < parsed then parsed else fallback)"

definition rl_limit :: "environment \<Rightarrow> RateLimitOptions \<Rightarrow> int" where
  "rl_limit env opts =
     readPositiveInt (env (case limitEnv opts of None \<Rightarrow> [] | Some n \<Rightarrow> n))
       (readPositiveInt (env ''RATE_LIMIT_MAX'')
         (case opt_limit opts of None \<Rightarrow> DEFAULT_LIMIT | Some n \<Rightarrow> n))"

definition rl_windowMs :: "environment \<Rightarrow> RateLimitOptions \<Rightarrow> int" where
  "rl_windowMs env opts =
     readPositiveInt (env (case windowMsEnv opts of None \<Rightarrow> [] | Some n \<Rightarrow> n))
       (readPositiveInt (env ''RATE_LIMIT_WINDOW_MS'')
         (case opt_windowMs opts of None \<Rightarrow> DEFAULT_WINDOW_MS | Some n \<Rightarrow> n))"

section \<open>Requests\<close>

text \<open>\<open>request?.user?.userId\<close>, \<open>request?.user?.sub\<close>, \<open>request?.ip\<close>, \<open>request?.socket?.remoteAddress\<close>.\<close>

record rl_request =
  req_userId :: "string option"
  req_sub :: "string option"
  req_ip :: "string option"
  req_remoteAddress :: "string option"

definition clientKey :: "rl_request \<Rightarrow> string" where
  "clientKey request =
     (let userId = (case req_userId request of None \<Rightarrow> req_sub request | Some u \<Rightarrow> Some u)
      in if truthy userId then ''user:'' @ the userId
         else ''ip:'' @ (case req_ip request of
                            Some i \<Rightarrow> i
                          | None \<Rightarrow> (case req_remoteAddress request of Some a \<Rightarrow> a | None \<Rightarrow> ''unknown'')))"

definition bucketKey :: "RateLimitOptions \<Rightarrow> rl_request \<Rightarrow> string" where
  "bucketKey opts request = keyPrefix opts @ '':'' @ clientKey request"

section \<open>The guard\<close>

record RateLimitBucket =
  b_count :: int
  b_resetAt :: int

record RateLimitGuard =
  buckets :: "string \<rightharpoonup> RateLimitBucket"
  lastCleanupAt :: int

definition new_guard :: RateLimitGuard where
  "new_guard = \<lparr>buckets = Map.empty, lastCleanupAt = 0\<rparr>"

definition cleanupExpiredBuckets :: "int \<Rightarrow> RateLimitGuard \<Rightarrow> RateLimitGuard" where
  "cleanupExpiredBuckets now g =
     (if now - lastCleanupAt g < DEFAULT_WINDOW_MS then g
      else \<lparr>buckets = (\<lambda>k. case buckets g k of
                               None \<Rightarrow> None
                             | Some b \<Rightarrow> if b_resetAt b \<le> now then None else Some b),
            lastCleanupAt = now\<rparr>)"

text \<open>What the guard reports: the three headers, and \<open>Retry-After\<close> when it refuses.\<close>

record rl_headers =
  hd_limit :: int
  hd_remaining :: int
  hd_reset :: int
  hd_retryAfter :: "int option"

definition canActivate ::
  "environment \<Rightarrow> RateLimitOptions option \<Rightarrow> int \<Rightarrow> rl_request \<Rightarrow> RateLimitGuard \<Rightarrow>
     (bool res \<times> rl_headers option) \<times> RateLimitGuard" where
  "canActivate env options now request g =
     (case options of
        None \<Rightarrow> ((Inr True, None), g)
      | Some opts \<Rightarrow>
          let limit = rl_limit env opts;
              windowMs = rl_windowMs env opts;
              g1 = cleanupExpiredBuckets now g;
              key = bucketKey opts request;
              bucket = (case buckets g1 key of
                          None \<Rightarrow> \<lparr>b_count = 0, b_resetAt = now + windowMs\<rparr>
                        | Some current \<Rightarrow>
                            if b_resetAt current \<le> now then \<lparr>b_count = 0, b_resetAt = now + windowMs\<rparr>
                            else current);
              bucket' = bucket\<lparr>b_count := b_count bucket + 1\<rparr>;
              g2 = g1\<lparr>buckets := (buckets g1)(key \<mapsto> bucket')\<rparr>;
              remaining = max (limit - b_count bucket') 0;
              retryAfterSeconds = max 1 (- ((now - b_resetAt bucket') div 1000))
          in if b_count bucket' \<le> limit
             then ((Inr True, Some \<lparr>hd_limit = limit, hd_remaining = remaining,
                      hd_reset = b_resetAt bucket', hd_retryAfter = None\<rparr>), g2)
             else ((Inl (HttpException 429 ''RATE_LIMITED''),
                    Some \<lparr>hd_limit = limit, hd_remaining = remaining,
                      hd_reset = b_resetAt bucket', hd_retryAfter = Some retryAfterSeconds\<rparr>), g2))"

definition resetForTests :: "RateLimitGuard \<Rightarrow> RateLimitGuard" where
  "resetForTests g = \<lparr>buckets = Map.empty, lastCleanupAt = 0\<rparr>"

section \<open>Fixed windows\<close>

text \<open>
  A sequence of timed requests against any limiter: for each, its bucket and whether it passed.
  The contract of a limiter with fixed windows speaks of one bucket and one window, opened at
  \<open>t0\<close>: \<open>counted k t0 n s\<close> says that \<open>n\<close> requests of the window were counted.
\<close>

fun limiter_run ::
  "('t \<Rightarrow> 'r \<Rightarrow> 's \<Rightarrow> bool \<times> 's) \<Rightarrow> ('r \<Rightarrow> string) \<Rightarrow> ('t \<times> 'r) list \<Rightarrow> 's \<Rightarrow> (string \<times> bool) list" where
  "limiter_run hit bucket [] s = []"
| "limiter_run hit bucket ((t, r) # rs) s =
     (bucket r, fst (hit t r s)) # limiter_run hit bucket rs (snd (hit t r s))"

definition passed :: "string \<Rightarrow> (string \<times> bool) list \<Rightarrow> nat" where
  "passed k outs = count_where (\<lambda>(k', b). k' = k \<and> b) outs"

locale window_limiter =
  fixes hit :: "'t \<Rightarrow> 'r \<Rightarrow> 's \<Rightarrow> bool \<times> 's"
    and bucket :: "'r \<Rightarrow> string"
    and counted :: "string \<Rightarrow> int \<Rightarrow> nat \<Rightarrow> 's \<Rightarrow> bool"
    and inside :: "int \<Rightarrow> 't \<Rightarrow> bool"
    and limit :: int
  assumes hit_other: "counted k t0 n s \<Longrightarrow> inside t0 t \<Longrightarrow> bucket r \<noteq> k \<Longrightarrow> counted k t0 n (snd (hit t r s))"
    and hit_same: "counted k t0 n s \<Longrightarrow> inside t0 t \<Longrightarrow> bucket r = k \<Longrightarrow>
      counted k t0 (Suc n) (snd (hit t r s)) \<and> fst (hit t r s) = (int (Suc n) \<le> limit)"
begin

lemma run_counts:
  assumes "counted k t0 n s" and "\<forall>(t, r) \<in> set reqs. inside t0 t"
  shows "passed k (limiter_run hit bucket reqs s) + min n (nat limit) =
    min (n + count_where (\<lambda>(_, r). bucket r = k) reqs) (nat limit)"
  using assms
proof (induction reqs arbitrary: n s)
  case Nil
  then show ?case by (simp add: passed_def)
next
  case (Cons q reqs)
  obtain t r where q: "q = (t, r)" by (cases q)
  have t: "inside t0 t" and rest: "\<forall>(t, r) \<in> set reqs. inside t0 t" using Cons.prems(2) by (auto simp: q)
  show ?case
  proof (cases "bucket r = k")
    case True
    note same = hit_same [OF Cons.prems(1) t True]
    with Cons.IH [OF conjunct1 [OF same] rest] True show ?thesis by (auto simp: q passed_def)
  next
    case False
    with Cons.IH [OF hit_other [OF Cons.prems(1) t False] rest] show ?thesis by (simp add: q passed_def)
  qed
qed

end

section \<open>Runs of requests\<close>

definition passes :: "bool res \<times> rl_headers option \<Rightarrow> bool" where
  "passes r = (fst r = Inr True)"

text \<open>A sequence of timed requests: for each, its bucket and whether it passed.\<close>

fun guard_run ::
  "environment \<Rightarrow> RateLimitOptions \<Rightarrow> (int \<times> rl_request) list \<Rightarrow> RateLimitGuard \<Rightarrow>
     (string \<times> bool) list" where
  "guard_run env opts [] g = []"
| "guard_run env opts ((now, r) # rs) g =
     (case canActivate env (Some opts) now r g of
        (out, g') \<Rightarrow> (bucketKey opts r, passes out) # guard_run env opts rs g')"

definition requested :: "RateLimitOptions \<Rightarrow> string \<Rightarrow> ('t \<times> rl_request) list \<Rightarrow> nat" where
  "requested opts k reqs = count_where (\<lambda>(_, r). bucketKey opts r = k) reqs"

text \<open>
  Of the bucket of \<open>k\<close>, with the window opened at \<open>t0\<close> or later: \<open>n\<close> requests were counted. With
  none counted the bucket is absent or its window is over.
\<close>

definition counted :: "string \<Rightarrow> int \<Rightarrow> int \<Rightarrow> nat \<Rightarrow> RateLimitGuard \<Rightarrow> bool" where
  "counted k t0 w n g =
     (if n = 0 then (case buckets g k of None \<Rightarrow> True | Some b \<Rightarrow> b_resetAt b \<le> t0)
      else (case buckets g k of None \<Rightarrow> False | Some b \<Rightarrow> b_count b = int n \<and> t0 + w \<le> b_resetAt b))"

lemma cleanup_counted:
  assumes "counted k t0 w n g" and "t0 \<le> now" and "now < t0 + w"
  shows "counted k t0 w n (cleanupExpiredBuckets now g)"
  using assms by (auto simp: counted_def cleanupExpiredBuckets_def split: option.splits if_splits)

lemma canActivate_other:
  assumes "counted k t0 w n g" "t0 \<le> now" "now < t0 + w" "bucketKey opts r \<noteq> k"
    and "canActivate env (Some opts) now r g = (out, g')"
  shows "counted k t0 w n g'"
  using cleanup_counted [OF assms(1-3)] assms(4,5)
  by (auto simp: canActivate_def Let_def counted_def split: if_splits)

lemma canActivate_same:
  assumes "counted k t0 w n g" "t0 \<le> now" "now < t0 + w" "bucketKey opts r = k"
    and "w = rl_windowMs env opts"
    and "canActivate env (Some opts) now r g = (out, g')"
  shows "counted k t0 w (Suc n) g' \<and> (passes out \<longleftrightarrow> int (Suc n) \<le> rl_limit env opts)"
proof -
  let ?g = "cleanupExpiredBuckets now g"
  have c: "counted k t0 w n ?g" by (rule cleanup_counted [OF assms(1-3)])
  show ?thesis
  proof (cases "n = 0")
    case True
    with c have "(case buckets ?g k of None \<Rightarrow> True | Some b \<Rightarrow> b_resetAt b \<le> now)"
      using assms(2) by (auto simp: counted_def split: option.splits)
    with True assms(2,4,5,6) show ?thesis
      by (auto simp: canActivate_def Let_def counted_def passes_def split: option.splits if_splits)
  next
    case False
    with c obtain b where "buckets ?g k = Some b" "b_count b = int n" "t0 + w \<le> b_resetAt b"
      by (auto simp: counted_def split: option.splits)
    with False assms(3,4,6) show ?thesis
      by (auto simp: canActivate_def Let_def counted_def passes_def split: if_splits)
  qed
qed

interpretation mem_window: window_limiter
  "\<lambda>t r g. (passes (fst (canActivate env (Some opts) t r g)), snd (canActivate env (Some opts) t r g))"
  "bucketKey opts" "\<lambda>k t0. counted k t0 (rl_windowMs env opts)"
  "\<lambda>t0 t. t0 \<le> t \<and> t < t0 + rl_windowMs env opts" "rl_limit env opts"
  for env opts
proof unfold_locales
  fix k t0 n g t r
  assume c: "counted k t0 (rl_windowMs env opts) n g" and t: "t0 \<le> t \<and> t < t0 + rl_windowMs env opts"
  let ?out = "canActivate env (Some opts) t r g"
  note t' = conjunct1 [OF t] conjunct2 [OF t]
  show "counted k t0 (rl_windowMs env opts) n (snd (passes (fst ?out), snd ?out))" if "bucketKey opts r \<noteq> k"
    using canActivate_other [OF c t' that, of env "fst ?out" "snd ?out"] by simp
  show "counted k t0 (rl_windowMs env opts) (Suc n) (snd (passes (fst ?out), snd ?out)) \<and>
      fst (passes (fst ?out), snd ?out) = (int (Suc n) \<le> rl_limit env opts)" if "bucketKey opts r = k"
    using canActivate_same [OF c t' that refl, of "fst ?out" "snd ?out"] by simp
qed

lemma guard_run_eq:
  "guard_run env opts reqs g = limiter_run
     (\<lambda>t r g. (passes (fst (canActivate env (Some opts) t r g)), snd (canActivate env (Some opts) t r g)))
     (bucketKey opts) reqs g"
  by (induction env opts reqs g rule: guard_run.induct) (auto split: prod.splits)

section \<open>Properties\<close>

text \<open>
  C11. Within one window the limit is exact: if the bucket of a client is absent or over at
  \<open>t0\<close>, then of all the requests that arrive before \<open>t0 + windowMs\<close>, mixed with requests of any
  other clients and with cleanups, exactly the smaller of the number it makes and the limit pass.
\<close>

theorem rate_limit_exact_in_window:
  assumes "case buckets g k of None \<Rightarrow> True | Some b \<Rightarrow> b_resetAt b \<le> t0"
    and "\<forall>(t, r) \<in> set reqs. t0 \<le> t \<and> t < t0 + rl_windowMs env opts"
  shows "passed k (guard_run env opts reqs g) =
    min (requested opts k reqs) (nat (rl_limit env opts))"
  using mem_window.run_counts [of k t0 env opts 0 g reqs] assms
  by (simp add: counted_def guard_run_eq requested_def)

definition demo_opts :: RateLimitOptions where
  "demo_opts = \<lparr>keyPrefix = ''send'', opt_limit = Some 2, opt_windowMs = Some 1000,
     limitEnv = None, windowMsEnv = None\<rparr>"

definition demo_req :: "string \<Rightarrow> rl_request" where
  "demo_req u = \<lparr>req_userId = Some u, req_sub = None, req_ip = None, req_remoteAddress = None\<rparr>"

theorem rate_limit_exact_in_window_witness:
  "passed ''send:user:a'' (guard_run (\<lambda>_. None) demo_opts
     [(5, demo_req ''a''), (6, demo_req ''b''), (7, demo_req ''a''), (8, demo_req ''a'')] new_guard) = 2"
  by (subst rate_limit_exact_in_window [where ?t0.0 = 5])
    (simp_all add: new_guard_def rl_windowMs_def rl_limit_def readPositiveInt_def demo_opts_def
      demo_req_def requested_def bucketKey_def clientKey_def)

end
