(* ===== verification/Anchor.thy ===== *)
theory Anchor
  imports Schema TtlStore
begin

text \<open>
  The anchor service (\<open>apps/api/src/anchor/anchor.service.ts\<close>) and the SEP-10 guard in front of
  the anchor endpoints: challenge nonces, the exchange rate with its cache and its circuit
  breaker per currency pair, the reconciliation of deposit and withdrawal answers, and the
  token check. The rate provider, the decoding of base64 and the validation of an anchor's
  answer are arguments.
\<close>

section \<open>State and configuration\<close>

record FxRateCachePayload =
  p_rate :: "jsnum option"
  p_from :: string
  p_to :: string
  p_fetchedAt :: int

record CircuitBreakerState =
  consecutiveFailures :: int
  openedAt :: "int option"

text \<open>The store holds nonce states and JSON payloads under different keys.\<close>

datatype anchor_val = NonceState string | FxPayload FxRateCachePayload

record anchor =
  an_store :: "anchor_val ttl_map"
  an_breakers :: "string \<rightharpoonup> CircuitBreakerState"

record anchor_conf =
  maxCacheAgeSeconds :: int
  cacheRetentionSeconds :: int
  circuitFailureThreshold :: int
  circuitResetMs :: int
  challengeTtlSeconds :: int

definition default_conf :: anchor_conf where
  "default_conf = \<lparr>maxCacheAgeSeconds = 30, cacheRetentionSeconds = 300,
     circuitFailureThreshold = 3, circuitResetMs = 60000, challengeTtlSeconds = 300\<rparr>"

definition store_get :: "int \<Rightarrow> string \<Rightarrow> anchor \<Rightarrow> anchor_val raw option \<times> anchor" where
  "store_get now key a = (case ttl_get now key (an_store a) of (v, m) \<Rightarrow> (v, a\<lparr>an_store := m\<rparr>))"

definition store_put :: "int \<Rightarrow> string \<Rightarrow> anchor_val \<Rightarrow> int \<Rightarrow> anchor \<Rightarrow> anchor" where
  "store_put now key v seconds a =
     a\<lparr>an_store := ttl_set now key (Json v) (Some seconds) (an_store a)\<rparr>"

section \<open>Challenge nonces\<close>

definition challengeNonceKey :: "string \<Rightarrow> string \<Rightarrow> string" where
  "challengeNonceKey account nonce = ''sep10:challenge:'' @ account @ '':'' @ nonce"

text \<open>The nonce is the random hex string the service draws.\<close>

definition issueChallengeNonce :: "int \<Rightarrow> string \<Rightarrow> string \<Rightarrow> int \<Rightarrow> (anchor, string) M" where
  "issueChallengeNonce now nonce account ttlSeconds =
     thenM (modifyM (store_put now (challengeNonceKey account nonce) (NonceState ''issued'') ttlSeconds))
       (ret nonce)"

definition consumeChallengeNonce :: "int \<Rightarrow> string \<Rightarrow> string \<Rightarrow> int \<Rightarrow> (anchor, unit) M" where
  "consumeChallengeNonce now account nonce ttlSeconds a =
     (let key = challengeNonceKey account nonce
      in case store_get now key a of
           (state, a') \<Rightarrow>
             (case state of
                None \<Rightarrow> (Inl (UnauthorizedException ''SEP10_CHALLENGE_EXPIRED''), a')
              | Some v \<Rightarrow>
                  if v = Json (NonceState ''used'')
                  then (Inl (UnauthorizedException ''SEP10_CHALLENGE_REUSED''), a')
                  else (Inr (), store_put now key (NonceState ''used'') ttlSeconds a')))"

section \<open>Exchange rates\<close>

record FxRateResult =
  fx_rate :: "jsnum option"
  fx_from :: string
  fx_to :: string
  fx_expiresAt :: "int option"
  fx_stale :: bool
  fx_circuitOpen :: bool

definition DELTA_THRESHOLD :: jsnum where
  "DELTA_THRESHOLD = round64 (5 / 1000)"

text \<open>The provider in the repository: a fixed table.\<close>

definition fetchExternalRate :: "string \<Rightarrow> string \<Rightarrow> jsnum option" where
  "fetchExternalRate src dst =
     map_of [(''USD-NGN'', Num 1550), (''NGN-USD'', round64 (65 / 100000)),
             (''XLM-USD'', round64 (11 / 100))] (src @ ''-'' @ dst)"

definition getBreaker :: "string \<Rightarrow> anchor \<Rightarrow> CircuitBreakerState \<times> anchor" where
  "getBreaker key a =
     (case an_breakers a key of
        Some b \<Rightarrow> (b, a)
      | None \<Rightarrow>
          let b = \<lparr>consecutiveFailures = 0, openedAt = None\<rparr>
          in (b, a\<lparr>an_breakers := (an_breakers a)(key \<mapsto> b)\<rparr>))"

definition isCircuitOpen :: "anchor_conf \<Rightarrow> int \<Rightarrow> CircuitBreakerState \<Rightarrow> bool" where
  "isCircuitOpen conf now b =
     (case openedAt b of None \<Rightarrow> False | Some t \<Rightarrow> now - t < circuitResetMs conf)"

definition readCache :: "int \<Rightarrow> string \<Rightarrow> anchor \<Rightarrow> FxRateCachePayload option \<times> anchor" where
  "readCache now key a =
     (case store_get now key a of
        (raw, a') \<Rightarrow>
          ((case raw of Some (Json (FxPayload p)) \<Rightarrow> Some p | _ \<Rightarrow> None), a'))"

definition buildCachedResult ::
  "anchor_conf \<Rightarrow> int \<Rightarrow> FxRateCachePayload option \<Rightarrow> string \<Rightarrow> string \<Rightarrow> bool \<Rightarrow> FxRateResult" where
  "buildCachedResult conf now cached src dst isOpen =
     (case cached of
        None \<Rightarrow> \<lparr>fx_rate = None, fx_from = src, fx_to = dst, fx_expiresAt = None, fx_stale = False,
                  fx_circuitOpen = isOpen\<rparr>
      | Some c \<Rightarrow>
          if p_rate c = None
          then \<lparr>fx_rate = None, fx_from = src, fx_to = dst, fx_expiresAt = None, fx_stale = False,
                fx_circuitOpen = isOpen\<rparr>
          else let expiresAtMs = p_fetchedAt c + maxCacheAgeSeconds conf * 1000
               in \<lparr>fx_rate = p_rate c, fx_from = src, fx_to = dst, fx_expiresAt = Some expiresAtMs,
                   fx_stale = (expiresAtMs < now), fx_circuitOpen = isOpen\<rparr>)"

text \<open>The breaker after an attempt to fetch.\<close>

definition breaker_success :: "CircuitBreakerState \<Rightarrow> CircuitBreakerState" where
  "breaker_success b = \<lparr>consecutiveFailures = 0, openedAt = None\<rparr>"

definition breaker_failure :: "anchor_conf \<Rightarrow> int \<Rightarrow> CircuitBreakerState \<Rightarrow> CircuitBreakerState" where
  "breaker_failure conf now b =
     (let n = consecutiveFailures b + 1
      in \<lparr>consecutiveFailures = n,
          openedAt = (if circuitFailureThreshold conf \<le> n then Some now else openedAt b)\<rparr>)"

text \<open>The rate kept for the pair: the cached one while the new one is within the threshold.\<close>

definition quote :: "jsnum \<Rightarrow> FxRateCachePayload option \<Rightarrow> jsnum" where
  "quote external cached =
     (case Option.bind cached p_rate of
        None \<Rightarrow> external
      | Some c \<Rightarrow>
          if js_le (js_div (js_abs (js_sub external c)) external) DELTA_THRESHOLD then c else external)"

definition normAsset :: "string \<Rightarrow> string" where
  "normAsset c = (if c = ''USDC'' then ''USD'' else c)"

definition fx_key :: "string \<Rightarrow> string \<Rightarrow> string" where
  "fx_key src dst = ''fx:'' @ normAsset src @ '':'' @ normAsset dst"

definition getFxRate ::
  "anchor_conf \<Rightarrow> (string \<Rightarrow> string \<Rightarrow> jsnum option res) \<Rightarrow> int \<Rightarrow> string \<Rightarrow> string \<Rightarrow>
     anchor \<Rightarrow> FxRateResult \<times> anchor" where
  "getFxRate conf fetch now src dst a0 =
     (let normFrom = normAsset src; normTo = normAsset dst;
          key = fx_key src dst;
          (cached, a1) = readCache now key a0;
          (breaker, a2) = getBreaker key a1
      in if isCircuitOpen conf now breaker then (buildCachedResult conf now cached src dst True, a2)
         else
           let outcome = fetch normFrom normTo;
               breaker' = (case outcome of Inr _ \<Rightarrow> breaker_success breaker
                                         | Inl _ \<Rightarrow> breaker_failure conf now breaker);
               a3 = a2\<lparr>an_breakers := (an_breakers a2)(key \<mapsto> breaker')\<rparr>
           in case outcome of
                Inr (Some external) \<Rightarrow>
                  let rate = quote external cached;
                      payload = \<lparr>p_rate = Some rate, p_from = normFrom, p_to = normTo, p_fetchedAt = now\<rparr>
                  in (\<lparr>fx_rate = Some rate, fx_from = src, fx_to = dst,
                       fx_expiresAt = Some (now + maxCacheAgeSeconds conf * 1000),
                       fx_stale = False, fx_circuitOpen = False\<rparr>,
                      store_put now key (FxPayload payload) (cacheRetentionSeconds conf) a3)
              | _ \<Rightarrow> (buildCachedResult conf now cached src dst (isCircuitOpen conf now breaker'), a3))"

section \<open>Reconciliation of anchor answers\<close>

definition AnchorReconciliationException :: "nat \<Rightarrow> string \<Rightarrow> exn" where
  "AnchorReconciliationException status message = HttpException status message"

record DepositResponse =
  d_stellar_account :: "string option"
  d_account :: "string option"
  d_account_id :: "string option"

text \<open>
  \<open>getDepositInfo\<close> after the request: \<open>answer\<close> is the validated response, \<open>None\<close> when it is not
  an object or violates the schema.
\<close>

definition reconcileDeposit :: "DepositResponse option \<Rightarrow> string \<Rightarrow> unit res" where
  "reconcileDeposit answer account =
     (case answer of
        None \<Rightarrow> Inl (AnchorReconciliationException 502 ''Anchor returned an invalid deposit response'')
      | Some dto \<Rightarrow>
          let echoed = (case d_stellar_account dto of
                          Some x \<Rightarrow> Some x
                        | None \<Rightarrow> (case d_account dto of Some x \<Rightarrow> Some x | None \<Rightarrow> d_account_id dto))
          in if truthy echoed \<and> echoed \<noteq> Some account
             then Inl (AnchorReconciliationException 502
                    ''Anchor deposit response account does not match the requested account'')
             else Inr ())"

record WithdrawResponse =
  wd_min_amount :: "jsnum option"
  wd_max_amount :: "jsnum option"

definition reconcileWithdraw :: "WithdrawResponse option \<Rightarrow> string \<Rightarrow> unit res" where
  "reconcileWithdraw answer amount =
     (case answer of
        None \<Rightarrow> Inl (AnchorReconciliationException 502 ''Anchor returned an invalid withdraw response'')
      | Some dto \<Rightarrow>
          let requested = js_Number amount
          in if requested = NaN then Inr ()
             else if (case wd_min_amount dto of None \<Rightarrow> False | Some lo \<Rightarrow> js_lt requested lo)
             then Inl (AnchorReconciliationException 400 ''Requested amount is below the anchor minimum'')
             else if (case wd_max_amount dto of None \<Rightarrow> False | Some hi \<Rightarrow> js_lt hi requested)
             then Inl (AnchorReconciliationException 400 ''Requested amount exceeds the anchor maximum'')
             else Inr ())"

section \<open>The SEP-10 token of the anchor endpoints\<close>

text \<open>Base64url to base64, padded to a multiple of four.\<close>

definition b64_normalize :: "string \<Rightarrow> string" where
  "b64_normalize s =
     (let t = map (\<lambda>c. if c = CHR ''-'' then CHR ''+'' else if c = CHR ''_'' then CHR ''/'' else c) s
      in if length t mod 4 = 0 then t else t @ replicate (4 - length t mod 4) (CHR ''=''))"

definition AUTH_TOKEN_INVALID :: exn where
  "AUTH_TOKEN_INVALID = UnauthorizedException ''AUTH_TOKEN_INVALID''"

text \<open>
  \<open>decode\<close> is \<open>JSON.parse\<close> of the base64 text, \<open>None\<close> where it throws. An object or an array
  passes the test of the type.
\<close>

definition decodeJwtPayload :: "(string \<Rightarrow> json option) \<Rightarrow> string \<Rightarrow> json res" where
  "decodeJwtPayload decode token =
     (case split_on (CHR ''.'') token of
        _ # p # _ \<Rightarrow>
          if p = [] then Inl AUTH_TOKEN_INVALID
          else (case decode (b64_normalize p) of
                  Some (JObject fs) \<Rightarrow> Inr (JObject fs)
                | Some (JArray xs) \<Rightarrow> Inr (JArray xs)
                | _ \<Rightarrow> Inl AUTH_TOKEN_INVALID)
      | _ \<Rightarrow> Inl AUTH_TOKEN_INVALID)"

text \<open>\<open>Number(v)\<close> on a JSON value: an array is read through its text.\<close>

fun json_Number :: "json \<Rightarrow> jsnum" where
  "json_Number JNull = Num 0"
| "json_Number (JBool b) = (if b then Num 1 else Num 0)"
| "json_Number (JNumber n) = n"
| "json_Number (JString s) = js_Number s"
| "json_Number (JArray []) = Num 0"
| "json_Number (JArray [x]) = (case x of JBool _ \<Rightarrow> NaN | JObject _ \<Rightarrow> NaN | _ \<Rightarrow> json_Number x)"
| "json_Number (JArray _) = NaN"
| "json_Number (JObject _) = NaN"

definition json_field :: "string \<Rightarrow> json \<Rightarrow> json option" where
  "json_field k j = (case j of JObject fs \<Rightarrow> map_of fs k | _ \<Rightarrow> None)"

text \<open>\<open>claims.exp ?? 0\<close>: a missing or null claim is 0, which \<open>Number\<close> gives for null as well.\<close>

definition verifySep10Token :: "(string \<Rightarrow> json option) \<Rightarrow> int \<Rightarrow> string \<Rightarrow> json res" where
  "verifySep10Token decode now token =
     (case decodeJwtPayload decode token of
        Inl e \<Rightarrow> Inl e
      | Inr claims \<Rightarrow>
          let exp = (case json_field ''exp'' claims of None \<Rightarrow> Num 0 | Some v \<Rightarrow> json_Number v)
          in if \<not> isFinite exp \<or> js_le exp (Num (of_int (now div 1000)))
             then Inl (UnauthorizedException ''AUTH_TOKEN_EXPIRED'')
             else Inr claims)"

text \<open>
  \<open>validateChallengeSignature\<close>; \<open>decodedLength\<close> is the length of \<open>Buffer.from(_, 'base64')\<close>.
\<close>

definition validateChallengeSignature ::
  "(string \<Rightarrow> nat) \<Rightarrow> string \<Rightarrow> string \<Rightarrow> string \<Rightarrow> bool" where
  "validateChallengeSignature decodedLength account challenge signature =
     (if account = [] \<or> challenge = [] \<or> signature = [] then False
      else 64 \<le> decodedLength (b64_normalize signature) \<and> prefix ''G'' account \<and>
           56 \<le> length account \<and> sublist ''nonce='' challenge)"

text \<open>\<open>Sep10AuthGuard.canActivate\<close>: the account attached to the request, \<open>payload.sub\<close>.\<close>

definition bearer_token :: "string \<Rightarrow> string option" where
  "bearer_token authHeader =
     (case split_on (CHR '' '') authHeader of _ # t # _ \<Rightarrow> Some t | _ \<Rightarrow> None)"

definition sep10_canActivate ::
  "(string \<Rightarrow> json option) \<Rightarrow> int \<Rightarrow> string option \<Rightarrow> json option res" where
  "sep10_canActivate decode now authHeader =
     (case authHeader of
        None \<Rightarrow> Inl (UnauthorizedException ''Missing or invalid authorization header'')
      | Some h \<Rightarrow>
          if \<not> prefix ''Bearer '' h
          then Inl (UnauthorizedException ''Missing or invalid authorization header'')
          else (case bearer_token h of
                  None \<Rightarrow> Inl (UnauthorizedException ''Invalid SEP-10 token'')
                | Some token \<Rightarrow>
                    (case verifySep10Token decode now token of
                       Inl _ \<Rightarrow> Inl (UnauthorizedException ''Invalid SEP-10 token'')
                     | Inr claims \<Rightarrow> Inr (json_field ''sub'' claims))))"

section \<open>Lemmas on the rate and its breaker\<close>

lemma readCache_store: "an_breakers (snd (readCache now key a)) = an_breakers a"
  by (simp add: readCache_def store_get_def split: prod.splits)

lemma store_put_breakers [simp]: "an_breakers (store_put now k v n a) = an_breakers a"
  by (simp add: store_put_def)

lemma getBreaker_lookup: "an_breakers a key = Some b \<Longrightarrow> getBreaker key a = (b, a)"
  by (simp add: getBreaker_def)

text \<open>The breaker of a pair after a call: unchanged when open, else reset or one failure more.\<close>

definition breaker_of :: "anchor \<Rightarrow> string \<Rightarrow> CircuitBreakerState" where
  "breaker_of a key =
     (case an_breakers a key of Some b \<Rightarrow> b | None \<Rightarrow> \<lparr>consecutiveFailures = 0, openedAt = None\<rparr>)"

text \<open>The common start of a call: the cached payload, the breaker, and the state after both reads.\<close>

lemma getFxRate_start:
  obtains c a1 a2 where
    "readCache now (fx_key src dst) a = (c, a1)"
    and "getBreaker (fx_key src dst) a1 = (breaker_of a (fx_key src dst), a2)"
    and "breaker_of a2 (fx_key src dst) = breaker_of a (fx_key src dst)"
proof
  define c where "c = fst (readCache now (fx_key src dst) a)"
  define a1 where "a1 = snd (readCache now (fx_key src dst) a)"
  show "readCache now (fx_key src dst) a = (c, a1)" by (simp add: c_def a1_def)
  define a2 where "a2 = snd (getBreaker (fx_key src dst) a1)"
  have "an_breakers a1 = an_breakers a" unfolding a1_def by (rule readCache_store)
  then show "getBreaker (fx_key src dst) a1 = (breaker_of a (fx_key src dst), a2)"
    and "breaker_of a2 (fx_key src dst) = breaker_of a (fx_key src dst)"
    by (simp_all add: a2_def getBreaker_def breaker_of_def Let_def split: option.splits)
qed

lemma getFxRate_breaker:
  "breaker_of (snd (getFxRate conf fetch now src dst a)) (fx_key src dst) =
    (let b = breaker_of a (fx_key src dst)
     in if isCircuitOpen conf now b then b
        else case fetch (normAsset src) (normAsset dst) of
               Inr _ \<Rightarrow> breaker_success b | Inl _ \<Rightarrow> breaker_failure conf now b)"
proof -
  obtain c a1 a2 where rc: "readCache now (fx_key src dst) a = (c, a1)"
    and gb: "getBreaker (fx_key src dst) a1 = (breaker_of a (fx_key src dst), a2)"
    and a2: "breaker_of a2 (fx_key src dst) = breaker_of a (fx_key src dst)"
    by (rule getFxRate_start)
  have upd: "breaker_of (store_put now k v n x) key = breaker_of x key"
    "breaker_of (x\<lparr>an_breakers := (an_breakers x)(key \<mapsto> b)\<rparr>) key = b" for k v n x key b
    by (simp_all add: breaker_of_def)
  show ?thesis
    by (simp add: getFxRate_def rc gb a2 Let_def upd split: sum.split option.split)
qed

text \<open>A call while the circuit is open, and the parts of any other call.\<close>

lemma getFxRate_open:
  assumes "isCircuitOpen conf now (breaker_of a (fx_key src dst))"
  shows "fst (getFxRate conf fetch now src dst a) =
    buildCachedResult conf now (fst (readCache now (fx_key src dst) a)) src dst True"
    and "getFxRate conf fetch now src dst a = getFxRate conf fetch' now src dst a"
proof -
  obtain c a1 a2 where rc: "readCache now (fx_key src dst) a = (c, a1)"
    and gb: "getBreaker (fx_key src dst) a1 = (breaker_of a (fx_key src dst), a2)"
    by (rule getFxRate_start)
  have *: "getFxRate conf f now src dst a =
      (buildCachedResult conf now (fst (readCache now (fx_key src dst) a)) src dst True, a2)" for f
    by (simp add: getFxRate_def rc gb assms)
  show "fst (getFxRate conf fetch now src dst a) =
      buildCachedResult conf now (fst (readCache now (fx_key src dst) a)) src dst True"
    and "getFxRate conf fetch now src dst a = getFxRate conf fetch' now src dst a"
    by (simp_all add: *)
qed

lemma getFxRate_answer:
  assumes "\<not> isCircuitOpen conf now (breaker_of a (fx_key src dst))"
    and "fetch (normAsset src) (normAsset dst) = Inr (Some external)"
  shows "fst (getFxRate conf fetch now src dst a) =
    \<lparr>fx_rate = Some (quote external (fst (readCache now (fx_key src dst) a))), fx_from = src,
     fx_to = dst, fx_expiresAt = Some (now + maxCacheAgeSeconds conf * 1000),
     fx_stale = False, fx_circuitOpen = False\<rparr>"
proof -
  obtain c a1 a2 where rc: "readCache now (fx_key src dst) a = (c, a1)"
    and gb: "getBreaker (fx_key src dst) a1 = (breaker_of a (fx_key src dst), a2)"
    by (rule getFxRate_start)
  show ?thesis
    by (simp add: getFxRate_def rc gb assms Let_def)
qed

lemma buildCachedResult_open: "fx_circuitOpen (buildCachedResult conf now c src dst b) = b"
  by (simp add: buildCachedResult_def Let_def split: option.split)

text \<open>A sequence of calls for one pair at the given times, every one of which the provider fails.\<close>

fun fx_fail_run :: "anchor_conf \<Rightarrow> exn \<Rightarrow> string \<Rightarrow> string \<Rightarrow> int list \<Rightarrow> anchor \<Rightarrow> anchor" where
  "fx_fail_run conf e src dst [] a = a"
| "fx_fail_run conf e src dst (t # ts) a =
     fx_fail_run conf e src dst ts (snd (getFxRate conf (\<lambda>_ _. Inl e) t src dst a))"

lemma fx_fail_step:
  assumes "openedAt (breaker_of a (fx_key src dst)) = None"
  shows "breaker_of (snd (getFxRate conf (\<lambda>_ _. Inl e) t src dst a)) (fx_key src dst) =
    breaker_failure conf t (breaker_of a (fx_key src dst))"
  using assms by (simp add: getFxRate_breaker isCircuitOpen_def)

lemma fx_fail_run_breaker:
  assumes "breaker_of a (fx_key src dst) = \<lparr>consecutiveFailures = int n, openedAt = None\<rparr>"
    and "int n + int (length ts) \<le> circuitFailureThreshold conf"
    and "int n < circuitFailureThreshold conf"
  shows "breaker_of (fx_fail_run conf e src dst ts a) (fx_key src dst) =
    \<lparr>consecutiveFailures = int (n + length ts),
     openedAt = (if int (n + length ts) = circuitFailureThreshold conf then Some (last ts) else None)\<rparr>"
  using assms
proof (induction ts arbitrary: a n)
  case (Cons t ts)
  define a' where "a' = snd (getFxRate conf (\<lambda>_ _. Inl e) t src dst a)"
  have st: "breaker_of a' (fx_key src dst) = breaker_failure conf t (breaker_of a (fx_key src dst))"
    unfolding a'_def by (rule fx_fail_step) (simp add: Cons.prems(1))
  show ?case
  proof (cases "ts = []")
    case True
    then show ?thesis
      using st Cons.prems by (simp add: a'_def [symmetric] breaker_failure_def Let_def add.commute)
  next
    case False
    then have "int (Suc n) < circuitFailureThreshold conf"
      using Cons.prems(2) by (cases ts) auto
    moreover from this have "breaker_of a' (fx_key src dst) =
        \<lparr>consecutiveFailures = int (Suc n), openedAt = None\<rparr>"
      by (simp add: st Cons.prems(1) breaker_failure_def Let_def add.commute)
    ultimately have "breaker_of (fx_fail_run conf e src dst ts a') (fx_key src dst) =
        \<lparr>consecutiveFailures = int (Suc n + length ts),
         openedAt = (if int (Suc n + length ts) = circuitFailureThreshold conf
                     then Some (last ts) else None)\<rparr>"
      using Cons.prems(2) by (intro Cons.IH) auto
    with False show ?thesis by (simp add: a'_def [symmetric])
  qed
qed simp

lemma store_get_live: "fst (store_get now k a) = ttl_live now (an_store a) k"
  using mem_ttl.get_live [of now k "an_store a"] by (auto simp: store_get_def split: prod.split)

lemma store_get_keeps:
  "now \<le> now' \<Longrightarrow> ttl_live now' (an_store (snd (store_get now k a))) = ttl_live now' (an_store a)"
  using mem_ttl.get_keeps [of now now' k "an_store a"] by (auto simp: store_get_def split: prod.split)

lemma store_put_live:
  "0 < now \<Longrightarrow> 0 < n \<Longrightarrow> now \<le> now' \<Longrightarrow>
     ttl_live now' (an_store (store_put now k v n a)) =
       (ttl_live now' (an_store a))(k := if now' \<le> now + n * 1000 then Some (Json v) else None)"
  using mem_ttl.set_live [of now n now' k "Json v" "an_store a"]
  by (simp add: store_put_def ttl_set_ex_def)

text \<open>What \<open>consumeChallengeNonce\<close> answers, through the live entries of the store.\<close>

lemma consume_result:
  "fst (consumeChallengeNonce now account nonce n a) =
     (case ttl_live now (an_store a) (challengeNonceKey account nonce) of
        None \<Rightarrow> Inl (UnauthorizedException ''SEP10_CHALLENGE_EXPIRED'')
      | Some v \<Rightarrow> if v = Json (NonceState ''used'')
                   then Inl (UnauthorizedException ''SEP10_CHALLENGE_REUSED'') else Inr ())"
  by (simp add: consumeChallengeNonce_def Let_def store_get_live [symmetric] split: prod.split option.split)

lemma consume_state:
  assumes "consumeChallengeNonce now account nonce n a = (Inr (), a')"
  shows "a' = store_put now (challengeNonceKey account nonce) (NonceState ''used'') n
    (snd (store_get now (challengeNonceKey account nonce) a))"
  using assms by (auto simp: consumeChallengeNonce_def Let_def split: prod.splits option.splits if_splits)

lemma js_le_zero_DELTA: "js_le (Num 0) DELTA_THRESHOLD"
  using round64_mono [of 0 "5 / 1000"] by (simp add: DELTA_THRESHOLD_def round64_def)

lemma quote_close:
  assumes "0 < q"
  shows "js_le (js_div (js_abs (js_sub (Num q) (quote (Num q) cached))) (Num q)) DELTA_THRESHOLD"
proof -
  have "js_div (js_abs (js_sub (Num q) (Num q))) (Num q) = Num 0"
    using assms by (simp add: js_sub_def js_abs_def round64_def)
  then show ?thesis by (simp add: quote_def js_le_zero_DELTA split: option.split)
qed

lemma decodeJwtPayload_segment:
  assumes "CHR ''.'' \<notin> set h" and "CHR ''.'' \<notin> set p"
  shows "decodeJwtPayload decode (h @ ''.'' @ p @ ''.'' @ t) =
    (if p = [] then Inl AUTH_TOKEN_INVALID
     else case decode (b64_normalize p) of
            Some (JObject fs) \<Rightarrow> Inr (JObject fs) | Some (JArray xs) \<Rightarrow> Inr (JArray xs)
          | _ \<Rightarrow> Inl AUTH_TOKEN_INVALID)"
  using assms by (simp add: decodeJwtPayload_def split_on_append)

lemma bearer_token_plain: "CHR '' '' \<notin> set t \<Longrightarrow> bearer_token (''Bearer '' @ t) = Some t"
  by (simp add: bearer_token_def split_on_plain split: list.split)

lemma guard_plain:
  "CHR '' '' \<notin> set t \<Longrightarrow> sep10_canActivate decode now (Some (''Bearer '' @ t)) =
     (case verifySep10Token decode now t of
        Inl _ \<Rightarrow> Inl (UnauthorizedException ''Invalid SEP-10 token'') | Inr claims \<Rightarrow> Inr (json_field ''sub'' claims))"
  using bearer_token_plain [of t] by (simp add: sep10_canActivate_def)

section \<open>Properties\<close>

text \<open>
  C13. The circuit breaker of a currency pair that has not failed yet. After fewer consecutive
  failures than the threshold the circuit is closed and a quote of the provider is served. After
  exactly the threshold it is open until the reset time has passed since the last failure: the
  outcome of a call in that window does not depend on the provider and says that the circuit is
  open. The first call after the window consults the provider again, and its quote is served.
\<close>

theorem fx_circuit_breaker:
  assumes "breaker_of a (fx_key src dst) = \<lparr>consecutiveFailures = 0, openedAt = None\<rparr>"
    and "0 < circuitFailureThreshold conf"
    and "int (length ts) \<le> circuitFailureThreshold conf"
    and "a' = fx_fail_run conf e src dst ts a"
  shows "if int (length ts) = circuitFailureThreshold conf \<and> now < last ts + circuitResetMs conf
    then getFxRate conf fetch now src dst a' = getFxRate conf fetch' now src dst a' \<and>
      fx_circuitOpen (fst (getFxRate conf fetch now src dst a'))
    else fetch (normAsset src) (normAsset dst) = Inr (Some rate) \<longrightarrow>
      fx_rate (fst (getFxRate conf fetch now src dst a')) =
        Some (quote rate (fst (readCache now (fx_key src dst) a'))) \<and>
      \<not> fx_circuitOpen (fst (getFxRate conf fetch now src dst a'))"
proof -
  have b: "breaker_of a' (fx_key src dst) = \<lparr>consecutiveFailures = int (length ts),
      openedAt = (if int (length ts) = circuitFailureThreshold conf then Some (last ts) else None)\<rparr>"
    using fx_fail_run_breaker [of a src dst 0 ts conf e] assms by simp
  show ?thesis
  proof (cases "int (length ts) = circuitFailureThreshold conf \<and> now < last ts + circuitResetMs conf")
    case True
    then have "isCircuitOpen conf now (breaker_of a' (fx_key src dst))"
      by (simp add: b isCircuitOpen_def)
    from getFxRate_open [OF this] True show ?thesis by (simp add: buildCachedResult_open)
  next
    case False
    then have "\<not> isCircuitOpen conf now (breaker_of a' (fx_key src dst))"
      by (auto simp: b isCircuitOpen_def)
    from getFxRate_answer [OF this] show ?thesis unfolding if_not_P [OF False] by simp
  qed
qed

theorem fx_circuit_breaker_witness:
  "let a' = fx_fail_run default_conf (JsError ''Error'' ''timeout'') ''USDC'' ''NGN'' [1000, 2000, 3000]
         \<lparr>an_store = Map.empty, an_breakers = Map.empty\<rparr>
   in getFxRate default_conf (\<lambda>_ _. Inr (Some (Num 1550))) 4000 ''USDC'' ''NGN'' a' =
        getFxRate default_conf (\<lambda>_ _. Inr None) 4000 ''USDC'' ''NGN'' a' \<and>
      fx_circuitOpen (fst (getFxRate default_conf (\<lambda>_ _. Inr (Some (Num 1550))) 4000 ''USDC'' ''NGN'' a'))"
proof -
  have thr: "circuitFailureThreshold default_conf = 3" "circuitResetMs default_conf = 60000"
    by (simp_all add: default_conf_def)
  show ?thesis
    using fx_circuit_breaker [of "\<lparr>an_store = Map.empty, an_breakers = Map.empty\<rparr>" "''USDC''" "''NGN''"
        default_conf "[1000, 2000, 3000]" _ "JsError ''Error'' ''timeout''" 4000
        "\<lambda>_ _. Inr (Some (Num 1550))" "\<lambda>_ _. Inr None", OF _ _ _ refl]
    by (auto simp: breaker_of_def thr Let_def simp del: fx_fail_run.simps)
qed

text \<open>
  C14. While the circuit is closed and the provider quotes a positive rate, the rate served
  differs from the quote by at most the threshold of half a percent (in the arithmetic of the
  code), even when it is the cached one; it is not marked stale and expires \<open>maxCacheAgeSeconds\<close>
  after the call.
\<close>

theorem fx_rate_within_threshold:
  assumes "\<not> isCircuitOpen conf now (breaker_of a (fx_key src dst))"
    and "fetch (normAsset src) (normAsset dst) = Inr (Some (Num q))" and "0 < q"
  shows "\<exists>rate. fx_rate (fst (getFxRate conf fetch now src dst a)) = Some rate \<and>
    js_le (js_div (js_abs (js_sub (Num q) rate)) (Num q)) DELTA_THRESHOLD \<and>
    \<not> fx_stale (fst (getFxRate conf fetch now src dst a)) \<and>
    fx_expiresAt (fst (getFxRate conf fetch now src dst a)) = Some (now + maxCacheAgeSeconds conf * 1000)"
  using quote_close [OF assms(3)] getFxRate_answer [of conf now a src dst fetch "Num q"] assms(1,2)
  by simp

theorem fx_rate_within_threshold_witness:
  "\<exists>rate. fx_rate (fst (getFxRate default_conf (\<lambda>_ _. Inr (Some (Num 1550))) 1000 ''USDC'' ''NGN''
       \<lparr>an_store = Map.empty, an_breakers = Map.empty\<rparr>)) = Some rate \<and>
    js_le (js_div (js_abs (js_sub (Num 1550) rate)) (Num 1550)) DELTA_THRESHOLD"
  using fx_rate_within_threshold [of default_conf 1000 "\<lparr>an_store = Map.empty, an_breakers = Map.empty\<rparr>"
      "''USDC''" "''NGN''" "\<lambda>_ _. Inr (Some (Num 1550))" 1550]
  by (auto simp: breaker_of_def isCircuitOpen_def)

text \<open>
  A challenge nonce is accepted once. It is accepted within its lifetime after it was
  issued; after an acceptance every later attempt with it is rejected, as reused while the
  mark lives and as expired afterwards.
\<close>

theorem challenge_nonce_single_use:
  assumes "0 < t" and "0 < n" and "t \<le> t1" and "t1 \<le> t2"
    and "issueChallengeNonce t nonce account n a = (Inr nonce, a1)"
    and "consumeChallengeNonce t1 account nonce n a1 = (r1, a2)"
    and "consumeChallengeNonce t2 account nonce n a2 = (r2, a3)"
  shows "if t1 \<le> t + n * 1000
    then r1 = Inr () \<and>
      r2 = Inl (UnauthorizedException (if t2 \<le> t1 + n * 1000 then ''SEP10_CHALLENGE_REUSED''
             else ''SEP10_CHALLENGE_EXPIRED''))
    else r1 = Inl (UnauthorizedException ''SEP10_CHALLENGE_EXPIRED'')"
proof -
  define key where "key = challengeNonceKey account nonce"
  have a1: "a1 = store_put t key (NonceState ''issued'') n a"
    using assms(5) by (simp add: issueChallengeNonce_def ret_def key_def)
  have l1: "ttl_live t1 (an_store a1) key =
      (if t1 \<le> t + n * 1000 then Some (Json (NonceState ''issued'')) else None)"
    using assms(1-3) by (simp add: a1 store_put_live)
  have r1: "r1 = (if t1 \<le> t + n * 1000 then Inr () else Inl (UnauthorizedException ''SEP10_CHALLENGE_EXPIRED''))"
    using consume_result [of t1 account nonce n a1] assms(6) l1 by (simp add: key_def split: if_splits)
  have "r2 = Inl (UnauthorizedException (if t2 \<le> t1 + n * 1000 then ''SEP10_CHALLENGE_REUSED''
      else ''SEP10_CHALLENGE_EXPIRED''))" if live: "t1 \<le> t + n * 1000"
  proof -
    have "a2 = store_put t1 key (NonceState ''used'') n (snd (store_get t1 key a1))"
      using consume_state assms(6) r1 live unfolding key_def by simp
    then have "ttl_live t2 (an_store a2) key =
        (if t2 \<le> t1 + n * 1000 then Some (Json (NonceState ''used'')) else None)"
      using assms(1-4) by (simp add: store_put_live)
    then show ?thesis
      using consume_result [of t2 account nonce n a2] assms(7) by (simp add: key_def split: if_splits)
  qed
  with r1 show ?thesis by simp
qed

theorem challenge_nonce_single_use_witness:
  "let a1 = snd (issueChallengeNonce 1000 ''n1'' ''GA'' 300 \<lparr>an_store = Map.empty, an_breakers = Map.empty\<rparr>);
       a2 = snd (consumeChallengeNonce 2000 ''GA'' ''n1'' 300 a1)
   in fst (consumeChallengeNonce 2000 ''GA'' ''n1'' 300 a1) = Inr () \<and>
      fst (consumeChallengeNonce 3000 ''GA'' ''n1'' 300 a2) =
        Inl (UnauthorizedException ''SEP10_CHALLENGE_REUSED'')"
  using challenge_nonce_single_use [of 1000 300 2000 3000 "''n1''" "''GA''"
      "\<lparr>an_store = Map.empty, an_breakers = Map.empty\<rparr>", OF _ _ _ _ _ surjective_pairing surjective_pairing]
  by (simp add: Let_def issueChallengeNonce_def ret_def)

text \<open>
  C39. The guard of the SEP-12 and anchor endpoints checks no signature. Two tokens of three segments with the same middle segment, without
  spaces, have the same outcome, whatever their headers and signatures and whatever the middle segment decodes to. In particular, whoever
  writes an object with a number \<open>exp\<close> in the future there is admitted, as the account that its \<open>sub\<close> names.
\<close>

theorem sep10_guard_ignores_signature:
  assumes "CHR ''.'' \<notin> set header" and "CHR ''.'' \<notin> set header'" and "CHR ''.'' \<notin> set payload"
    and "CHR '' '' \<notin> set (header @ payload @ signature)" and "CHR '' '' \<notin> set (header' @ signature')"
  shows "sep10_canActivate decode now (Some (''Bearer '' @ header @ ''.'' @ payload @ ''.'' @ signature)) =
      sep10_canActivate decode now (Some (''Bearer '' @ header' @ ''.'' @ payload @ ''.'' @ signature')) \<and>
    (payload \<noteq> [] \<and> decode (b64_normalize payload) = Some (JObject claims) \<and>
     map_of claims ''exp'' = Some (JNumber (Num e)) \<and> of_int (now div 1000) < e \<and> map_of claims ''sub'' = Some account \<longrightarrow>
       sep10_canActivate decode now (Some (''Bearer '' @ header @ ''.'' @ payload @ ''.'' @ signature)) = Inr (Some account))"
proof -
  note seg = decodeJwtPayload_segment [OF assms(1,3), of decode signature] decodeJwtPayload_segment [OF assms(2,3), of decode signature']
  have plain: "CHR '' '' \<notin> set (header @ ''.'' @ payload @ ''.'' @ signature)" "CHR '' '' \<notin> set (header' @ ''.'' @ payload @ ''.'' @ signature')"
    using assms(4,5) by simp_all
  have "verifySep10Token decode now (header @ ''.'' @ payload @ ''.'' @ signature) =
      verifySep10Token decode now (header' @ ''.'' @ payload @ ''.'' @ signature')"
    unfolding verifySep10Token_def seg by (rule refl)
  moreover have "verifySep10Token decode now (header @ ''.'' @ payload @ ''.'' @ signature) = Inr (JObject claims)"
    if "payload \<noteq> []" "decode (b64_normalize payload) = Some (JObject claims)" "map_of claims ''exp'' = Some (JNumber (Num e))"
      "of_int (now div 1000) < e"
    using that unfolding verifySep10Token_def seg(1) by (simp add: json_field_def isFinite_def)
  ultimately show ?thesis unfolding guard_plain [OF plain(1)] guard_plain [OF plain(2)] by (auto simp: json_field_def)
qed

theorem sep10_guard_ignores_signature_witness:
  "sep10_canActivate (\<lambda>_. Some (JObject [(''iss'', JNull), (''sub'', JString ''GA''), (''exp'', JNumber (Num 2000000000))]))
     1700000000000 (Some (''Bearer e30.cGF5.forged'')) = Inr (Some (JString ''GA'')) \<and>
   sep10_canActivate (\<lambda>_. Some JNull) 1700000000000 (Some (''Bearer e30.cGF5.forged'')) =
     sep10_canActivate (\<lambda>_. Some JNull) 1700000000000 (Some (''Bearer .cGF5.''))"
proof -
  let ?claims = "[(''iss'', JNull), (''sub'', JString ''GA''), (''exp'', JNumber (Num 2000000000))]"
  have "sep10_canActivate (\<lambda>_. Some (JObject ?claims)) 1700000000000 (Some (''Bearer e30.cGF5.forged'')) = Inr (Some (JString ''GA''))"
    using sep10_guard_ignores_signature [of "''e30''" "''e30''" "''cGF5''" "''forged''" "''forged''"
        "\<lambda>_. Some (JObject ?claims)" 1700000000000 ?claims 2000000000 "JString ''GA''"] by simp
  moreover have "sep10_canActivate (\<lambda>_. Some JNull) 1700000000000 (Some (''Bearer e30.cGF5.forged'')) =
      sep10_canActivate (\<lambda>_. Some JNull) 1700000000000 (Some (''Bearer .cGF5.''))"
    using sep10_guard_ignores_signature [of "''e30''" "[]" "''cGF5''" "''forged''" "[]" "\<lambda>_. Some JNull" 1700000000000] by simp
  ultimately show ?thesis by (rule conjI)
qed

end
