(* ===== verification/Kyc.thy ===== *)
theory Kyc
  imports Anchor
begin

text \<open>
  KYC (\<open>apps/api/src/kyc/kyc.service.ts\<close>, \<open>kyc.guard.ts\<close>): presigned uploads and their
  confirmation, the KYC record of a user, and the daily limit in USD that the guard enforces in
  front of a transfer. The object store (a third-party service), SHA-256, the rendering of dates
  and the start of the local day are arguments. A call reads the clock once.
\<close>

section \<open>State and constants\<close>

record kyc_state =
  ks_db :: db
  ks_anchor :: anchor

definition ALLOWED_CONTENT_TYPES :: "string list" where
  "ALLOWED_CONTENT_TYPES = [''image/jpeg'', ''image/png'', ''image/webp'', ''application/pdf'']"

definition MAX_UPLOAD_BYTES :: int where
  "MAX_UPLOAD_BYTES = 10 * 1024 * 1024"

definition PRESIGNED_URL_TTL_SECONDS :: int where
  "PRESIGNED_URL_TTL_SECONDS = 15 * 60"

definition extensionForContentType :: "string \<Rightarrow> string" where
  "extensionForContentType contentType =
     (case map_of [(''image/jpeg'', ''.jpg''), (''image/png'', ''.png''), (''image/webp'', ''.webp''),
                   (''application/pdf'', ''.pdf'')] contentType of
        Some e \<Rightarrow> e | None \<Rightarrow> [])"

text \<open>The answers of the object store to \<open>HeadObject\<close>.\<close>

datatype s3_head = HeadOk "int option" | HeadNotFound | HeadError

text \<open>
  What the service takes from its environment: \<open>s3_chunks\<close> is the body \<open>GetObject\<close> streams,
  \<open>None\<close> when the request or the stream fails.
\<close>

record kyc_env =
  toISO :: "int \<Rightarrow> string"
  startOfDay :: "int \<Rightarrow> int"
  sha256 :: "string \<Rightarrow> string"
  bucketName :: string
  getSignedUrl :: "string \<Rightarrow> string \<Rightarrow> int \<Rightarrow> string option"
  s3_head :: "string \<Rightarrow> s3_head"
  s3_chunks :: "string \<Rightarrow> string list option"

definition hashStream :: "kyc_env \<Rightarrow> string list \<Rightarrow> string" where
  "hashStream env chunks = sha256 env (concat chunks)"

section \<open>Audit entries and records\<close>

definition writeAuditLog ::
  "int \<Rightarrow> string \<Rightarrow> string \<Rightarrow> string \<Rightarrow> string \<Rightarrow> (string \<times> json) list \<Rightarrow> (kyc_state, unit) M" where
  "writeAuditLog now newId userId operation outcome metadata =
     modifyM (\<lambda>s. s\<lparr>ks_db := (ks_db s)\<lparr>auditLogs := auditLogs (ks_db s) @
       [\<lparr>a_id = newId, a_userId = Some userId, a_category = ''KYC'', a_operation = operation,
         a_outcome = outcome, a_walletPublicKey = None, a_amount = None, a_assetCode = None,
         a_destination = None, a_txHash = None, a_metadata = Some (JObject metadata),
         a_previousHash = None, a_hash = None, a_createdAt = now\<rparr>]\<rparr>\<rparr>)"

definition new_kyc :: "string \<Rightarrow> KycRecord" where
  "new_kyc userId = \<lparr>k_userId = userId, k_status = KycPENDING, k_tier = TierNONE,
     k_documentType = None, k_documentRef = None, k_submittedAt = None, k_reviewedAt = None,
     k_rejectionReason = None\<rparr>"

text \<open>\<open>prisma.kycRecord.upsert\<close>: the same fields are written whether the row exists or not.\<close>

definition upsert_kyc :: "string \<Rightarrow> (KycRecord \<Rightarrow> KycRecord) \<Rightarrow> KycRecord list \<Rightarrow> KycRecord list" where
  "upsert_kyc userId f rows =
     (if find (\<lambda>r. k_userId r = userId) rows = None then rows @ [f (new_kyc userId)]
      else update_where (\<lambda>r. k_userId r = userId) f rows)"

definition upsertM :: "string \<Rightarrow> (KycRecord \<Rightarrow> KycRecord) \<Rightarrow> (kyc_state, unit) M" where
  "upsertM userId f =
     modifyM (\<lambda>s. s\<lparr>ks_db := (ks_db s)\<lparr>kycRecords := upsert_kyc userId f (kycRecords (ks_db s))\<rparr>\<rparr>)"

definition getKycRecord :: "string \<Rightarrow> kyc_state \<Rightarrow> KycRecord option" where
  "getKycRecord userId s = find (\<lambda>r. k_userId r = userId) (kycRecords (ks_db s))"

section \<open>Uploads\<close>

definition s3_key_prefix :: "string \<Rightarrow> string" where
  "s3_key_prefix userId = ''kyc/'' @ userId @ ''/''"

text \<open>\<open>objectId\<close> is the random UUID; the result is the URL, the key and the expiry.\<close>

definition generateUploadUrl ::
  "kyc_env \<Rightarrow> int \<Rightarrow> string \<Rightarrow> string \<Rightarrow> string \<Rightarrow> string \<Rightarrow> (kyc_state, string \<times> string \<times> int) M" where
  "generateUploadUrl env now objectId auditId userId contentType =
     (if contentType \<notin> set ALLOWED_CONTENT_TYPES
      then throw (BadRequestException ''Unsupported content type'')
      else
        let s3Key = s3_key_prefix userId @ objectId @ extensionForContentType contentType;
            expiresAt = now + PRESIGNED_URL_TTL_SECONDS * 1000
        in case getSignedUrl env s3Key contentType PRESIGNED_URL_TTL_SECONDS of
             None \<Rightarrow> throw (InternalServerErrorException ''Could not generate upload URL'')
           | Some uploadUrl \<Rightarrow>
               thenM (writeAuditLog now auditId userId ''KYC_UPLOAD_URL_GENERATED'' ''SUCCESS''
                        [(''s3Key'', JString s3Key), (''contentType'', JString contentType),
                         (''expiresAt'', JString (toISO env expiresAt)),
                         (''bucket'', JString (bucketName env))])
                 (ret (uploadUrl, s3Key, expiresAt)))"

text \<open>\<open>/^[0-9a-f]{64}$/i\<close>.\<close>

definition is_sha256_hex :: "string \<Rightarrow> bool" where
  "is_sha256_hex s = (length s = 64 \<and> list_all is_hex s)"

definition confirmUpload ::
  "kyc_env \<Rightarrow> int \<Rightarrow> string \<Rightarrow> string \<Rightarrow> string \<Rightarrow> string \<Rightarrow> (kyc_state, string \<times> int) M" where
  "confirmUpload env now auditId userId s3Key expectedSha256 =
     (if \<not> prefix (s3_key_prefix userId) s3Key
      then throw (ForbiddenException ''S3 key does not belong to this user'')
      else if \<not> is_sha256_hex expectedSha256
      then throw (BadRequestException ''expectedSha256 must be a 64-char hex string'')
      else case s3_head env s3Key of
        HeadNotFound \<Rightarrow> throw (NotFoundException
          ''Uploaded document not found in storage. Upload may have expired.'')
      | HeadError \<Rightarrow> throw (InternalServerErrorException ''Could not verify upload'')
      | HeadOk contentLength \<Rightarrow>
          let size = (case contentLength of None \<Rightarrow> 0 | Some n \<Rightarrow> n)
          in if MAX_UPLOAD_BYTES < size
             then throw (BadRequestException ''Document exceeds maximum size of 10 MB'')
             else case s3_chunks env s3Key of
               None \<Rightarrow> throw (InternalServerErrorException ''Could not verify document hash'')
             | Some chunks \<Rightarrow>
                 let computedHash = hashStream env chunks;
                     normalizedExpected = toLowerCase expectedSha256
                 in if computedHash \<noteq> normalizedExpected
                    then thenM (writeAuditLog now auditId userId ''KYC_HASH_MISMATCH'' ''FAILURE''
                                  [(''s3Key'', JString s3Key),
                                   (''expectedSha256'', JString normalizedExpected),
                                   (''computedHash'', JString computedHash)])
                           (throw (BadRequestException ''SHA-256 hash mismatch''))
                    else
                      let documentRef = s3Key @ '':'' @ computedHash
                      in thenM (upsertM userId (\<lambda>r. r\<lparr>k_documentRef := Some documentRef,
                                  k_submittedAt := Some now, k_status := KycPENDING\<rparr>))
                           (thenM (writeAuditLog now auditId userId ''KYC_UPLOAD_CONFIRMED'' ''SUCCESS''
                                    [(''s3Key'', JString s3Key), (''sha256'', JString computedHash),
                                     (''sizeBytes'', JNumber (round64 (of_int size))),
                                     (''documentRef'', JString documentRef)])
                             (ret (documentRef, now))))"

definition submitKyc :: "int \<Rightarrow> string \<Rightarrow> string option \<Rightarrow> string option \<Rightarrow> (kyc_state, unit) M" where
  "submitKyc now userId documentType documentUrl =
     (if truthy documentType \<and>
         documentType \<notin> Some ` {''PASSPORT'', ''NATIONAL_ID'', ''DRIVERS_LICENSE''}
      then throw (BadRequestException ''Invalid document type'')
      else upsertM userId (\<lambda>r. r\<lparr>k_status := KycPENDING,
             k_documentType := (if documentType = None then k_documentType r else documentType),
             k_documentRef := (if truthy documentUrl then documentUrl else None),
             k_submittedAt := Some now\<rparr>))"

text \<open>\<open>updateKycRecord\<close>: a field that is absent from \<open>updates\<close> is left as it is.\<close>

definition updateKycRecord ::
  "int \<Rightarrow> string \<Rightarrow> KycStatus option \<Rightarrow> KycTier option \<Rightarrow> string option \<Rightarrow> (kyc_state, unit) M" where
  "updateKycRecord now userId status tier rejectionReason =
     upsertM userId (\<lambda>r. r\<lparr>k_status := (case status of Some x \<Rightarrow> x | None \<Rightarrow> k_status r),
       k_tier := (case tier of Some x \<Rightarrow> x | None \<Rightarrow> k_tier r),
       k_rejectionReason := (case rejectionReason of Some x \<Rightarrow> Some x | None \<Rightarrow> k_rejectionReason r),
       k_reviewedAt := Some now\<rparr>)"

section \<open>The daily limit\<close>

definition getLimitForTier :: "KycTier \<Rightarrow> rat" where
  "getLimitForTier tier = (case tier of TierNONE \<Rightarrow> 100 | TierBASIC \<Rightarrow> 5000 | TierFULL \<Rightarrow> 50000)"

definition tier_of :: "string \<Rightarrow> kyc_state \<Rightarrow> KycTier" where
  "tier_of userId s = (case getKycRecord userId s of None \<Rightarrow> TierNONE | Some r \<Rightarrow> k_tier r)"

text \<open>\<open>normalizeAmountToUsd\<close> after \<open>parseFloat\<close>; the rate provider is that of the anchor service.\<close>

definition normalize_number ::
  "anchor_conf \<Rightarrow> (string \<Rightarrow> string \<Rightarrow> jsnum option res) \<Rightarrow> int \<Rightarrow> jsnum \<Rightarrow> string \<Rightarrow> (kyc_state, jsnum) M" where
  "normalize_number conf fetch now numericAmount assetCode s =
     (if numericAmount = NaN \<or> js_lt numericAmount (Num 0)
      then (Inl (BadRequestException ''Invalid amount''), s)
      else if assetCode = [] then (Inl (BadRequestException ''Asset code is required''), s)
      else let normalizedAsset = toUpperCase (js_trim assetCode)
           in if normalizedAsset = ''USD'' \<or> normalizedAsset = ''USDC'' then (Inr numericAmount, s)
              else case getFxRate conf fetch now normalizedAsset ''USD'' (ks_anchor s) of
                     (fx, a) \<Rightarrow>
                       (case fx_rate fx of
                          None \<Rightarrow> (Inl (BadRequestException
                            (''Unable to normalize '' @ normalizedAsset @ '' to USD for KYC calculation'')),
                            s\<lparr>ks_anchor := a\<rparr>)
                        | Some rate \<Rightarrow>
                            if \<not> js_truthy rate
                            then (Inl (BadRequestException
                              (''Unable to normalize '' @ normalizedAsset @ '' to USD for KYC calculation'')),
                              s\<lparr>ks_anchor := a\<rparr>)
                            else (Inr (js_mul numericAmount rate), s\<lparr>ks_anchor := a\<rparr>)))"

definition normalizeAmountToUsd ::
  "anchor_conf \<Rightarrow> (string \<Rightarrow> string \<Rightarrow> jsnum option res) \<Rightarrow> int \<Rightarrow> string \<Rightarrow> string \<Rightarrow> (kyc_state, jsnum) M" where
  "normalizeAmountToUsd conf fetch now amount assetCode =
     normalize_number conf fetch now (parseFloat amount) assetCode"

text \<open>
  \<open>Promise.all\<close> over a list: every computation runs, in order; the result is the list of the
  values, or the first rejection.
\<close>

fun promise_all :: "('s, 'a) M list \<Rightarrow> ('s, 'a list) M" where
  "promise_all [] s = (Inr [], s)"
| "promise_all (m # ms) s =
     (case m s of (r, s') \<Rightarrow>
        (case promise_all ms s' of (rs, s'') \<Rightarrow>
           ((case r of Inl e \<Rightarrow> Inl e
             | Inr x \<Rightarrow> (case rs of Inl e \<Rightarrow> Inl e | Inr xs \<Rightarrow> Inr (x # xs))), s'')))"

definition spent_today :: "int \<Rightarrow> string \<Rightarrow> Transaction \<Rightarrow> bool" where
  "spent_today today userId t =
     (tx_userId t = userId \<and> tx_status t = TxSUCCESS \<and> today \<le> tx_createdAt t)"

definition daily_values ::
  "kyc_env \<Rightarrow> anchor_conf \<Rightarrow> (string \<Rightarrow> string \<Rightarrow> jsnum option res) \<Rightarrow> int \<Rightarrow> string \<Rightarrow> (kyc_state, jsnum list) M" where
  "daily_values env conf fetch now userId s =
     promise_all (map (\<lambda>t. normalizeAmountToUsd conf fetch now (tx_amount t) (tx_assetCode t))
       (filter (spent_today (startOfDay env now) userId) (transactions (ks_db s)))) s"

definition getDailySpent ::
  "kyc_env \<Rightarrow> anchor_conf \<Rightarrow> (string \<Rightarrow> string \<Rightarrow> jsnum option res) \<Rightarrow> int \<Rightarrow> string \<Rightarrow> (kyc_state, jsnum) M" where
  "getDailySpent env conf fetch now userId =
     bindM (daily_values env conf fetch now userId) (\<lambda>vs. ret (js_sum vs))"

definition assertWithinDailyLimit ::
  "kyc_env \<Rightarrow> anchor_conf \<Rightarrow> (string \<Rightarrow> string \<Rightarrow> jsnum option res) \<Rightarrow> int \<Rightarrow> string \<Rightarrow> jsnum \<Rightarrow> (kyc_state, unit) M" where
  "assertWithinDailyLimit env conf fetch now userId amountUsd =
     bindM (getDailySpent env conf fetch now userId) (\<lambda>dailySpent.
     bindM (readM (tier_of userId)) (\<lambda>tier.
     guardM (\<not> js_lt (Num (getLimitForTier tier)) (js_add dailySpent amountUsd))
       (ForbiddenException ''Transaction limit exceeded'')))"

record kyc_status =
  st_status :: KycStatus
  st_tier :: KycTier
  st_dailyLimit :: rat
  st_dailyUsed :: jsnum
  st_remainingToday :: jsnum

definition getKycStatus ::
  "kyc_env \<Rightarrow> anchor_conf \<Rightarrow> (string \<Rightarrow> string \<Rightarrow> jsnum option res) \<Rightarrow> int \<Rightarrow> string \<Rightarrow> (kyc_state, kyc_status) M" where
  "getKycStatus env conf fetch now userId =
     bindM (readM (getKycRecord userId)) (\<lambda>record.
     bindM (getDailySpent env conf fetch now userId) (\<lambda>dailySpent.
       let tier = (case record of None \<Rightarrow> TierNONE | Some r \<Rightarrow> k_tier r);
           limit = getLimitForTier tier
       in ret \<lparr>st_status = (case record of None \<Rightarrow> KycPENDING | Some r \<Rightarrow> k_status r),
               st_tier = tier, st_dailyLimit = limit, st_dailyUsed = dailySpent,
               st_remainingToday = js_max (Num 0) (js_sub (Num limit) dailySpent)\<rparr>))"

text \<open>
  \<open>KycGuard.canActivate\<close>. The guard passes \<open>amount.toString()\<close> on, whose \<open>parseFloat\<close> is
  \<open>amount\<close> again. A request without a usable amount or asset is left to the validators.
\<close>

definition kyc_canActivate ::
  "kyc_env \<Rightarrow> anchor_conf \<Rightarrow> (string \<Rightarrow> string \<Rightarrow> jsnum option res) \<Rightarrow> int \<Rightarrow>
     string option \<Rightarrow> string option \<Rightarrow> string option \<Rightarrow> (kyc_state, bool) M" where
  "kyc_canActivate env conf fetch now userId amount assetCode =
     (let a = (case amount of None \<Rightarrow> NaN | Some x \<Rightarrow> parseFloat x)
      in case userId of
           None \<Rightarrow> throw (UnauthorizedException ''User not found'')
         | Some uid \<Rightarrow>
             if uid = [] then throw (UnauthorizedException ''User not found'')
             else if \<not> js_truthy a \<or> js_le a (Num 0) \<or> \<not> truthy assetCode then ret True
             else bindM (normalize_number conf fetch now a (the assetCode)) (\<lambda>amountUsd.
                  thenM (assertWithinDailyLimit env conf fetch now uid amountUsd) (ret True)))"

section \<open>Lemmas\<close>

text \<open>A computation that neither reads nor writes the database.\<close>

definition db_blind :: "(kyc_state, 'a) M \<Rightarrow> bool" where
  "db_blind m = (\<forall>s d. m (s\<lparr>ks_db := d\<rparr>) = (fst (m s), (snd (m s))\<lparr>ks_db := d\<rparr>))"

lemma db_blindD: "db_blind m \<Longrightarrow> m (s\<lparr>ks_db := d\<rparr>) = (fst (m s), (snd (m s))\<lparr>ks_db := d\<rparr>)"
  by (simp add: db_blind_def)

lemma db_blind_keeps: "db_blind m \<Longrightarrow> ks_db (snd (m s)) = ks_db s"
proof -
  assume "db_blind m"
  then have "m (s\<lparr>ks_db := ks_db s\<rparr>) = (fst (m s), (snd (m s))\<lparr>ks_db := ks_db s\<rparr>)" by (rule db_blindD)
  then have "snd (m s) = (snd (m s))\<lparr>ks_db := ks_db s\<rparr>" by (metis kyc_state.surjective kyc_state.update_convs(1) snd_conv)
  then show ?thesis by (metis kyc_state.select_convs(1) kyc_state.surjective kyc_state.update_convs(1))
qed

lemma normalize_blind: "db_blind (normalize_number conf fetch now a c)"
  by (simp add: db_blind_def normalize_number_def Let_def split: prod.split option.split)

lemma promise_all_blind: "list_all db_blind ms \<Longrightarrow> db_blind (promise_all ms)"
proof (induction ms)
  case (Cons m ms)
  then have m: "db_blind m" and ms: "db_blind (promise_all ms)" by simp_all
  show ?case
    unfolding db_blind_def
    by (simp add: db_blindD [OF m] db_blindD [OF ms] prod.case_eq_if split: sum.split)
qed (simp add: db_blind_def)

definition day_values ::
  "anchor_conf \<Rightarrow> (string \<Rightarrow> string \<Rightarrow> jsnum option res) \<Rightarrow> int \<Rightarrow> Transaction list \<Rightarrow> (kyc_state, jsnum list) M" where
  "day_values conf fetch now ts =
     promise_all (map (\<lambda>t. normalizeAmountToUsd conf fetch now (tx_amount t) (tx_assetCode t)) ts)"

lemma day_values_blind: "db_blind (day_values conf fetch now ts)"
  unfolding day_values_def
  by (rule promise_all_blind) (auto simp: list_all_iff normalizeAmountToUsd_def normalize_blind)

lemma daily_values_eq: "daily_values env conf fetch now uid s =
    day_values conf fetch now (filter (spent_today (startOfDay env now) uid) (transactions (ks_db s))) s"
  by (simp add: daily_values_def day_values_def)

lemma daily_values_keeps_db: "ks_db (snd (daily_values env conf fetch now uid s)) = ks_db s"
  unfolding daily_values_eq by (rule db_blind_keeps [OF day_values_blind])

lemma daily_values_unsettled:
  assumes "list_all (\<lambda>t. tx_status t \<noteq> TxSUCCESS) queued"
  shows "fst (daily_values env conf fetch now uid
      (s\<lparr>ks_db := (ks_db s)\<lparr>transactions := transactions (ks_db s) @ queued\<rparr>\<rparr>)) =
    fst (daily_values env conf fetch now uid s)"
proof -
  have "filter (spent_today (startOfDay env now) uid) queued = []"
    using assms by (auto simp: filter_empty_conv list_all_iff spent_today_def)
  then show ?thesis by (simp add: daily_values_eq db_blindD [OF day_values_blind])
qed

lemma tier_of_db: "ks_db s = ks_db s' \<Longrightarrow> tier_of uid s = tier_of uid s'"
  by (simp add: tier_of_def getKycRecord_def)

text \<open>The check, once the values of the day are known.\<close>

lemma assertWithinDailyLimit_eq:
  assumes "daily_values env conf fetch now uid s = (Inr vs, s')"
  shows "assertWithinDailyLimit env conf fetch now uid amount s =
    ((if js_lt (Num (getLimitForTier (tier_of uid s))) (js_sum (vs @ [amount]))
      then Inl (ForbiddenException ''Transaction limit exceeded'') else Inr ()), s')"
proof -
  have "tier_of uid s' = tier_of uid s"
    using daily_values_keeps_db [of env conf fetch now uid s] assms by (intro tier_of_db) simp
  then show ?thesis
    by (simp add: assertWithinDailyLimit_def getDailySpent_def bindM_def assms ret_def readM_def
        guardM_def js_sum_snoc)
qed

lemma limit_bounds: "0 \<le> getLimitForTier t" "getLimitForTier t \<le> 50000"
  by (simp_all add: getLimitForTier_def split: KycTier.split)

lemma find_upsert_kyc:
  assumes "\<And>r. k_userId (f r) = k_userId r"
  shows "find (\<lambda>r. k_userId r = v) (upsert_kyc u f rows) =
    (if v = u then Some (f (case find (\<lambda>r. k_userId r = u) rows of None \<Rightarrow> new_kyc u | Some r \<Rightarrow> r))
     else find (\<lambda>r. k_userId r = v) rows)"
proof (cases "find (\<lambda>r. k_userId r = u) rows")
  case None
  then show ?thesis
    by (auto simp: upsert_kyc_def find_append assms new_kyc_def split: option.split)
next
  case (Some r)
  have up: "find (\<lambda>r. k_userId r = v) (upsert_kyc u f rows) =
      map_option (\<lambda>r. if k_userId r = u then f r else r) (find (\<lambda>r. k_userId r = v) rows)"
    using Some by (simp add: upsert_kyc_def find_update_where assms)
  show ?thesis
  proof (cases "find (\<lambda>r. k_userId r = v) rows")
    case None
    then show ?thesis using Some up by auto
  next
    case (Some x)
    from find_Some_D [OF this] have "k_userId x = v" by simp
    then show ?thesis using Some up by auto
  qed
qed

lemma getKycRecord_upsertM:
  assumes "\<And>r. k_userId (f r) = k_userId r"
  shows "getKycRecord v (snd (upsertM u f s)) =
    (if v = u then Some (f (case getKycRecord u s of None \<Rightarrow> new_kyc u | Some r \<Rightarrow> r))
     else getKycRecord v s)"
  using find_upsert_kyc [of f v u, OF assms] by (simp add: getKycRecord_def upsertM_def modifyM_def)

lemma getKycRecord_writeAuditLog [simp]:
  "getKycRecord v (snd (writeAuditLog now i u opn out meta s)) = getKycRecord v s"
  "fst (writeAuditLog now i u opn out meta s) = Inr ()"
  by (simp_all add: getKycRecord_def writeAuditLog_def modifyM_def)

section \<open>Properties\<close>

text \<open>
  The verdict in terms of the values of the day: the binary rounding of the sum decides only within \<open>2 ^ -37\<close> per addend.
\<close>

lemma limit_verdict:
  assumes "daily_values env conf fetch now uid s = (Inr (map Num vs), s')"
    and "list_all (\<lambda>v. 0 \<le> v) vs" and "0 \<le> amount" and "length vs < 2 ^ 40"
    and "exact = sum_list vs + amount"
    and "margin = of_nat (length vs + 1) / 2 ^ 37"
    and "bound = getLimitForTier (tier_of uid s)"
  shows "(bound + margin < exact \<longrightarrow>
      fst (assertWithinDailyLimit env conf fetch now uid (Num amount) s) =
        Inl (ForbiddenException ''Transaction limit exceeded'')) \<and>
    (exact + margin \<le> bound \<longrightarrow>
      fst (assertWithinDailyLimit env conf fetch now uid (Num amount) s) = Inr ())"
proof -
  let ?all = "vs @ [amount]"
  have nn: "list_all (\<lambda>v. 0 \<le> v) ?all" using assms(2,3) by simp
  have margin: "margin = of_nat (length ?all) * eps37" using assms(6) by (simp add: eps37_def)
  have "rat_of_nat (length ?all) \<le> of_nat (2 ^ 40)" using assms(4) by (simp only: of_nat_le_iff) simp
  then have small: "of_nat (length ?all) * eps37 \<le> 5000" by (simp add: eps37_def)
  have exact: "sum_list ?all = exact" using assms(5) by simp
  have nums: "map Num vs @ [Num amount] = map Num ?all" by simp
  note eq = assertWithinDailyLimit_eq [OF assms(1), of "Num amount", unfolded nums]
  show ?thesis
    using js_sum_above [OF nn _ _ small, of bound] js_sum_below [OF nn, of bound] limit_bounds
    unfolding margin exact [symmetric] assms(7) eq
    by (cases "js_sum (map Num ?all)") (auto simp del: map_append sum_list_append)
qed

text \<open>The amount of a row in exact arithmetic, and the rows that the limit is about.\<close>

definition usd_amount :: "Transaction \<Rightarrow> rat" where
  "usd_amount t = (case parseFloat (tx_amount t) of Num v \<Rightarrow> v | _ \<Rightarrow> 0)"

definition dollar_row :: "Transaction \<Rightarrow> bool" where
  "dollar_row t =
     (toUpperCase (js_trim (tx_assetCode t)) \<in> {''USD'', ''USDC''} \<and> parseFloat (tx_amount t) = Num (usd_amount t) \<and> 0 \<le> usd_amount t)"

lemma dollar_row_value:
  assumes "dollar_row t"
  shows "normalizeAmountToUsd conf fetch now (tx_amount t) (tx_assetCode t) s = (Inr (Num (usd_amount t)), s)"
proof -
  have "tx_assetCode t \<noteq> []" using assms by (auto simp: dollar_row_def toUpperCase_def js_trim_def)
  then show ?thesis using assms by (auto simp: dollar_row_def normalizeAmountToUsd_def normalize_number_def Let_def)
qed

lemma dollar_values: "list_all dollar_row ts \<Longrightarrow> day_values conf fetch now ts s = (Inr (map Num (map usd_amount ts)), s)"
  by (induction ts) (simp_all add: day_values_def dollar_row_value)

text \<open>
  C8. The daily limit, against the table and exact arithmetic. Take the transactions of the user that have settled and were created
  since the start of the day, and let them be in USD or USDC, so that no exchange rate enters. A further transfer is refused
  when their exact total and its own amount exceed the limit of the user's tier by more than \<open>2 ^ -37\<close> dollars per addend, and admitted when
  they stay below the limit by that margin; no other row of the table counts, in particular none that is still in the queue. There are
  fewer than \<open>2 ^ 40\<close> such transactions.
\<close>

theorem kyc_daily_limit:
  assumes "settled = filter (\<lambda>t. tx_userId t = uid \<and> tx_status t = TxSUCCESS \<and> startOfDay env now \<le> tx_createdAt t) (transactions (ks_db s))"
    and "list_all dollar_row settled" and "0 \<le> amount" and "length settled < 2 ^ 40"
    and "exact = (\<Sum>t\<leftarrow>settled. usd_amount t) + amount" and "margin = of_nat (length settled + 1) / 2 ^ 37"
    and "bound = (case find (\<lambda>r. k_userId r = uid) (kycRecords (ks_db s)) of None \<Rightarrow> 100
                  | Some r \<Rightarrow> (case k_tier r of TierNONE \<Rightarrow> 100 | TierBASIC \<Rightarrow> 5000 | TierFULL \<Rightarrow> 50000))"
  shows "(bound + margin < exact \<longrightarrow>
      fst (assertWithinDailyLimit env conf fetch now uid (Num amount) s) =
        Inl (ForbiddenException ''Transaction limit exceeded'')) \<and>
    (exact + margin \<le> bound \<longrightarrow>
      fst (assertWithinDailyLimit env conf fetch now uid (Num amount) s) = Inr ())"
proof -
  have rows: "filter (spent_today (startOfDay env now) uid) (transactions (ks_db s)) = settled"
    unfolding assms(1) by (intro filter_cong refl) (simp add: spent_today_def)
  have vals: "daily_values env conf fetch now uid s = (Inr (map Num (map usd_amount settled)), s)"
    unfolding daily_values_eq rows by (rule dollar_values [OF assms(2)])
  have nn: "list_all (\<lambda>v. 0 \<le> v) (map usd_amount settled)" using assms(2) by (auto simp: list_all_iff dollar_row_def)
  have tier: "bound = getLimitForTier (tier_of uid s)"
    by (simp add: assms(7) tier_of_def getKycRecord_def getLimitForTier_def split: option.split)
  have n: "length (map usd_amount settled) < 2 ^ 40" "margin = of_nat (length (map usd_amount settled) + 1) / 2 ^ 37"
    using assms(4,6) by simp_all
  show ?thesis by (rule limit_verdict [OF vals nn assms(3) n(1) assms(5) n(2) tier])
qed

text \<open>Sixty dollars of today count; those of yesterday, of another user and in the queue do not.\<close>

definition limit_row :: "string \<Rightarrow> TransactionStatus \<Rightarrow> int \<Rightarrow> Transaction" where
  "limit_row u st t =
     \<lparr>tx_id = ''t'', tx_userId = u, tx_walletId = ''w'', tx_destination = ''G'', tx_amount = ''60'', tx_assetCode = ''USDC'', tx_assetIssuer = None,
      tx_memo = None, tx_idempotencyKey = None, tx_status = st, tx_stellarTxHash = None, tx_riskScore = None, tx_flagged = False,
      tx_createdAt = t, tx_updatedAt = t\<rparr>"

definition limit_state :: kyc_state where
  "limit_state = \<lparr>ks_db = empty_db\<lparr>transactions := [limit_row ''u'' TxSUCCESS 900, limit_row ''u'' TxSUCCESS 2000, limit_row ''v'' TxSUCCESS 2000,
     limit_row ''u'' TxPENDING 2000]\<rparr>, ks_anchor = \<lparr>an_store = Map.empty, an_breakers = Map.empty\<rparr>\<rparr>"

definition limit_env :: kyc_env where
  "limit_env = \<lparr>toISO = show_int, startOfDay = (\<lambda>t. 1000), sha256 = (\<lambda>x. x :: string),
    bucketName = ''b'', getSignedUrl = (\<lambda>_ _ _. None), s3_head = (\<lambda>_. HeadError), s3_chunks = (\<lambda>_. None)\<rparr>"

lemma limit_row_value: "usd_amount (limit_row u st t) = 60" "dollar_row (limit_row u st t)"
proof -
  have "parseFloat ''60'' = Num 60"
    by (simp add: parseFloat_def strip_sign_def parse_decimal_def js_white_def code_of_def is_digit_def digit_val_def Let_def
        digits_val_def scale10_def)
  then show "usd_amount (limit_row u st t) = 60" by (simp add: usd_amount_def limit_row_def)
  moreover have "toUpperCase (js_trim ''USDC'') = ''USDC''"
    by (simp add: toUpperCase_def upper_char_def js_trim_def js_white_def code_of_def Let_def)
  ultimately show "dollar_row (limit_row u st t)" using \<open>parseFloat ''60'' = Num 60\<close> by (simp add: dollar_row_def limit_row_def)
qed

theorem kyc_daily_limit_witness:
  "fst (assertWithinDailyLimit limit_env default_conf (\<lambda>_ _. Inr None) 3000 ''u'' (Num 39) limit_state) = Inr () \<and>
   fst (assertWithinDailyLimit limit_env default_conf (\<lambda>_ _. Inr None) 3000 ''u'' (Num 41) limit_state) =
     Inl (ForbiddenException ''Transaction limit exceeded'')"
proof -
  have rows: "[limit_row ''u'' TxSUCCESS 2000] = filter (\<lambda>t. tx_userId t = ''u'' \<and> tx_status t = TxSUCCESS \<and> startOfDay limit_env 3000 \<le> tx_createdAt t)
      (transactions (ks_db limit_state))"
    by (simp add: limit_state_def limit_row_def limit_env_def)
  have tier: "(100::rat) = (case find (\<lambda>r. k_userId r = ''u'') (kycRecords (ks_db limit_state)) of None \<Rightarrow> 100
      | Some r \<Rightarrow> (case k_tier r of TierNONE \<Rightarrow> 100 | TierBASIC \<Rightarrow> 5000 | TierFULL \<Rightarrow> 50000))"
    by (simp add: limit_state_def empty_db_def)
  note verdict = kyc_daily_limit [OF rows _ _ _ refl refl tier, of 39 default_conf "\<lambda>_ _. Inr None"]
    kyc_daily_limit [OF rows _ _ _ refl refl tier, of 41 default_conf "\<lambda>_ _. Inr None"]
  show ?thesis using verdict by (simp add: limit_row_value)
qed

text \<open>
  The daily limit counts settled transfers only: transactions that are pending, retrying,
  failed or under review do not enter the sum, so that any number of accepted transfers that
  are still in the queue leaves the verdict on the next one as it was.
\<close>

theorem kyc_limit_ignores_unsettled:
  assumes "list_all (\<lambda>t. tx_status t \<noteq> TxSUCCESS) queued"
  shows "fst (assertWithinDailyLimit env conf fetch now uid amount
      (s\<lparr>ks_db := (ks_db s)\<lparr>transactions := transactions (ks_db s) @ queued\<rparr>\<rparr>)) =
    fst (assertWithinDailyLimit env conf fetch now uid amount s)"
proof -
  define s' where "s' = s\<lparr>ks_db := (ks_db s)\<lparr>transactions := transactions (ks_db s) @ queued\<rparr>\<rparr>"
  have same: "fst (daily_values env conf fetch now uid s') = fst (daily_values env conf fetch now uid s)"
    unfolding s'_def by (rule daily_values_unsettled [OF assms])
  have tier: "tier_of uid s' = tier_of uid s" by (simp add: s'_def tier_of_def getKycRecord_def)
  show ?thesis
  proof (cases "fst (daily_values env conf fetch now uid s)")
    case (Inl e)
    with same show ?thesis
      unfolding s'_def [symmetric]
      by (simp add: assertWithinDailyLimit_def getDailySpent_def bindM_def split: prod.split)
        (auto split: prod.splits sum.splits)
  next
    case (Inr vs)
    with same tier show ?thesis
      unfolding s'_def [symmetric]
      using assertWithinDailyLimit_eq [of env conf fetch now uid s vs _ amount]
        assertWithinDailyLimit_eq [of env conf fetch now uid s' vs _ amount]
      by (metis eq_fst_iff fst_conv)
  qed
qed

theorem kyc_limit_ignores_unsettled_witness:
  "let env = \<lparr>toISO = show_int, startOfDay = (\<lambda>t. t), sha256 = (\<lambda>x. x), bucketName = ''b'',
         getSignedUrl = (\<lambda>_ _ _. None), s3_head = (\<lambda>_. HeadError), s3_chunks = (\<lambda>_. None)\<rparr>;
       s = \<lparr>ks_db = empty_db, ks_anchor = \<lparr>an_store = Map.empty, an_breakers = Map.empty\<rparr>\<rparr>;
       t = \<lparr>tx_id = ''t'', tx_userId = ''u'', tx_walletId = ''w'', tx_destination = ''GB'',
         tx_amount = ''100'', tx_assetCode = ''USDC'', tx_assetIssuer = None, tx_memo = None,
         tx_idempotencyKey = None, tx_status = TxPENDING, tx_stellarTxHash = None,
         tx_riskScore = None, tx_flagged = False, tx_createdAt = 1000, tx_updatedAt = 1000\<rparr>
   in fst (assertWithinDailyLimit env default_conf (\<lambda>_ _. Inr None) 1000 ''u'' (Num 99)
        (s\<lparr>ks_db := (ks_db s)\<lparr>transactions := transactions (ks_db s) @ [t, t]\<rparr>\<rparr>)) =
      fst (assertWithinDailyLimit env default_conf (\<lambda>_ _. Inr None) 1000 ''u'' (Num 99) s)"
  unfolding Let_def by (rule kyc_limit_ignores_unsettled) simp

text \<open>
  Confirming an upload. It succeeds only for a key under the user's own prefix whose object
  has at most ten megabytes and the digest the client announced; then the user's record refers
  to that key and digest, is pending and keeps its tier. A failed confirmation leaves every record as it
  was, and the records of other users never change.
\<close>

theorem confirm_upload_integrity:
  assumes "confirmUpload env now auditId uid key expected s = (r, s')"
  shows "(case r of
      Inl _ \<Rightarrow> kycRecords (ks_db s') = kycRecords (ks_db s)
    | Inr (ref, _) \<Rightarrow>
        prefix (''kyc/'' @ uid @ ''/'') key \<and> length expected = 64 \<and>
        (\<exists>size chunks. s3_head env key = HeadOk size \<and> (case size of None \<Rightarrow> True | Some n \<Rightarrow> n \<le> 10485760) \<and>
           s3_chunks env key = Some chunks \<and> sha256 env (concat chunks) = toLowerCase expected) \<and>
        ref = key @ '':'' @ toLowerCase expected \<and>
        (\<exists>rec. getKycRecord uid s' = Some rec \<and> k_documentRef rec = Some ref \<and>
           k_status rec = KycPENDING \<and> k_tier rec = tier_of uid s)) \<and>
    (v \<noteq> uid \<longrightarrow> getKycRecord v s' = getKycRecord v s)"
proof (cases r)
  case (Inl e)
  then have "kycRecords (ks_db s') = kycRecords (ks_db s)"
    using assms
    by (auto simp: confirmUpload_def throw_def thenM_def bindM_def writeAuditLog_def modifyM_def ret_def
        upsertM_def Let_def split: if_splits s3_head.splits option.splits)
  with Inl show ?thesis by (simp add: getKycRecord_def)
next
  case (Inr p)
  obtain ref t where p: "p = (ref, t)" by (cases p)
  from assms Inr p obtain size chunks where parts:
    "prefix (s3_key_prefix uid) key" "is_sha256_hex expected" "s3_head env key = HeadOk size"
    "(case size of None \<Rightarrow> 0 | Some n \<Rightarrow> n) \<le> MAX_UPLOAD_BYTES"
    "s3_chunks env key = Some chunks" "hashStream env chunks = toLowerCase expected"
    by (auto simp: confirmUpload_def throw_def thenM_def bindM_def writeAuditLog_def modifyM_def Let_def
        split: if_splits s3_head.splits option.splits)
  define upd :: "KycRecord \<Rightarrow> KycRecord" where "upd = (\<lambda>r. r\<lparr>k_documentRef := Some (key @ '':'' @ toLowerCase expected),
    k_submittedAt := Some now, k_status := KycPENDING\<rparr>)"
  have run: "ref = key @ '':'' @ toLowerCase expected"
    "getKycRecord w s' = getKycRecord w (snd (upsertM uid upd s))" for w
    using assms Inr p parts
    by (auto simp: confirmUpload_def thenM_def bindM_def ret_def upsertM_def modifyM_def Let_def
        writeAuditLog_def upd_def getKycRecord_def)
  have rows: "getKycRecord w s' =
      (if w = uid then Some (upd (case getKycRecord uid s of None \<Rightarrow> new_kyc uid | Some r \<Rightarrow> r))
       else getKycRecord w s)" for w
    unfolding run(2) by (rule getKycRecord_upsertM) (simp add: upd_def)
  show ?thesis
    using parts run(1) rows
    by (simp add: Inr p s3_key_prefix_def is_sha256_hex_def hashStream_def MAX_UPLOAD_BYTES_def upd_def
        tier_of_def new_kyc_def split: option.splits)
qed

theorem confirm_upload_integrity_witness:
  "let env = \<lparr>toISO = show_int, startOfDay = (\<lambda>t. t), sha256 = (\<lambda>x. replicate 64 (CHR ''a'')), bucketName = ''b'',
         getSignedUrl = (\<lambda>_ _ _. None), s3_head = (\<lambda>_. HeadOk (Some 5)), s3_chunks = (\<lambda>_. Some [''doc''])\<rparr>;
       s = \<lparr>ks_db = empty_db, ks_anchor = \<lparr>an_store = Map.empty, an_breakers = Map.empty\<rparr>\<rparr>
   in getKycRecord ''v'' (snd (confirmUpload env 1000 ''i'' ''u'' ''kyc/u/x.pdf'' (replicate 64 (CHR ''A'')) s)) =
      getKycRecord ''v'' s"
  unfolding Let_def
  using confirm_upload_integrity [OF surjective_pairing, of
    "\<lparr>toISO = show_int, startOfDay = (\<lambda>t. t), sha256 = (\<lambda>x. replicate 64 (CHR ''a'')), bucketName = ''b'',
      getSignedUrl = (\<lambda>_ _ _. None), s3_head = (\<lambda>_. HeadOk (Some 5)), s3_chunks = (\<lambda>_. Some [''doc''])\<rparr>"
    1000 "''i''" "''u''" "''kyc/u/x.pdf''" "replicate 64 (CHR ''A'')"
    "\<lparr>ks_db = empty_db, ks_anchor = \<lparr>an_store = Map.empty, an_breakers = Map.empty\<rparr>\<rparr>" "''v''"]
  by simp

end
