(* ===== verification/Transactions.thy ===== *)
theory Transactions
  imports Kyc
begin

text \<open>
  The transaction service (\<open>apps/api/src/transaction/transaction.service.ts\<close>), the
  idempotency key of its controller and the queue options: submitting a transfer at most once per
  key, reading the history by cursor and by page, and the updates of a transaction's status and
  risk score. The job queue is Bull's: \<open>add\<close> enqueues and \<open>jobs\<close> lists what it holds, and
  \<open>bull_dedup\<close> states the behaviour the service relies on.

  A call of \<open>sendTransfer\<close> is cut into the phases that other requests can interleave with: one for each of its
  accesses to the cache, the rows and the queue; the reads before the row is created (the wallet, and the exchange rate with the limit) share
  a phase with the access after them. The method is the phases in a row; \<open>send_step\<close> lets any number of requests
  take their phases in any order.
\<close>

section \<open>Data\<close>

definition HISTORY_MAX_LIMIT :: int where "HISTORY_MAX_LIMIT = 100"
definition HISTORY_DEFAULT_LIMIT :: int where "HISTORY_DEFAULT_LIMIT = 25"
definition IDEMPOTENCY_TTL_SECONDS :: int where "IDEMPOTENCY_TTL_SECONDS = 24 * 60 * 60"
definition TRANSACTION_MAX_ATTEMPTS :: nat where "TRANSACTION_MAX_ATTEMPTS = 3"
definition TRANSACTION_BACKOFF_DELAY_MS :: nat where "TRANSACTION_BACKOFF_DELAY_MS = 2000"

record SendDto =
  sd_destinationPublicKey :: string
  sd_amount :: string
  sd_assetCode :: string
  sd_assetIssuer :: "string option"
  sd_memo :: "string option"

record SendTransferResponse =
  r_txId :: string
  r_status :: TransactionStatus

record JobOptions =
  attempts :: nat
  backoff_delay :: nat
  jobId :: "string option"

record tx_job =
  j_txId :: string
  j_userId :: string
  j_dto :: SendDto
  j_options :: JobOptions

definition TRANSACTION_QUEUE_OPTIONS :: JobOptions where
  "TRANSACTION_QUEUE_OPTIONS = \<lparr>attempts = TRANSACTION_MAX_ATTEMPTS,
     backoff_delay = TRANSACTION_BACKOFF_DELAY_MS, jobId = None\<rparr>"

text \<open>The state the service works on: that of KYC, its cache, the queue and the cached balances.\<close>

record 'q tx_state =
  ts_kyc :: kyc_state
  ts_cache :: "SendTransferResponse ttl_map"
  ts_queue :: 'q
  ts_balances :: "string \<rightharpoonup> string"

abbreviation rows_of :: "'q tx_state \<Rightarrow> Transaction list" where
  "rows_of s \<equiv> transactions (ks_db (ts_kyc s))"

definition set_rows :: "Transaction list \<Rightarrow> 'q tx_state \<Rightarrow> 'q tx_state" where
  "set_rows rows s =
     s\<lparr>ts_kyc := (ts_kyc s)\<lparr>ks_db := (ks_db (ts_kyc s))\<lparr>transactions := rows\<rparr>\<rparr>\<rparr>"

text \<open>
  Bull ignores a job whose \<open>jobId\<close> is the one of a job it holds, and keeps jobs that have run
  (the options set no \<open>removeOnComplete\<close>).
\<close>

definition bull_dedup :: "('q \<Rightarrow> tx_job \<Rightarrow> 'q) \<Rightarrow> ('q \<Rightarrow> tx_job list) \<Rightarrow> bool" where
  "bull_dedup add jobs =
     (\<forall>q j. jobs (add q j) =
        (if jobId (j_options j) \<noteq> None \<and> jobId (j_options j) \<in> set (map (jobId \<circ> j_options) (jobs q))
         then jobs q else jobs q @ [j]))"

section \<open>The idempotency key\<close>

text \<open>The controller's pattern: five groups of hexadecimal digits.\<close>

definition is_uuid :: "string \<Rightarrow> bool" where
  "is_uuid s =
     (let groups = split_on (CHR ''-'') s
      in map length groups = [8, 4, 4, 4, 12] \<and> list_all (list_all is_hex) groups)"

definition normalizeIdempotencyKey :: "string option \<Rightarrow> string res" where
  "normalizeIdempotencyKey raw =
     (case raw of
        None \<Rightarrow> Inl (BadRequestException ''Idempotency-Key header is required'')
      | Some r \<Rightarrow>
          if js_trim r = [] then Inl (BadRequestException ''Idempotency-Key header is required'')
          else let key = js_trim r
               in if \<not> is_uuid key
                  then Inl (BadRequestException ''Idempotency-Key header must be a valid UUID'')
                  else Inr key)"

definition idempotencyCacheKey :: "string \<Rightarrow> string \<Rightarrow> string" where
  "idempotencyCacheKey userId key = ''idempotency:'' @ userId @ '':'' @ key"

definition sendJobId :: "string \<Rightarrow> string \<Rightarrow> string" where
  "sendJobId userId key = ''send:'' @ userId @ '':'' @ key"

section \<open>The phases of a submission\<close>

definition readCachedResponse ::
  "int \<Rightarrow> string \<Rightarrow> string \<Rightarrow> 'q tx_state \<Rightarrow> SendTransferResponse option \<times> 'q tx_state" where
  "readCachedResponse now userId key s =
     (case ttl_get now (idempotencyCacheKey userId key) (ts_cache s) of
        (raw, c) \<Rightarrow> (Option.bind raw json_parse, s\<lparr>ts_cache := c\<rparr>))"

definition writeCachedResponse ::
  "int \<Rightarrow> string \<Rightarrow> string \<Rightarrow> SendTransferResponse \<Rightarrow> ('q tx_state, unit) M" where
  "writeCachedResponse now userId key response =
     modifyM (\<lambda>s. s\<lparr>ts_cache := ttl_set now (idempotencyCacheKey userId key) (Json response)
       (Some IDEMPOTENCY_TTL_SECONDS) (ts_cache s)\<rparr>)"

definition enqueueJob ::
  "('q \<Rightarrow> tx_job \<Rightarrow> 'q) \<Rightarrow> string \<Rightarrow> string \<Rightarrow> SendDto \<Rightarrow> string option \<Rightarrow> ('q tx_state, unit) M" where
  "enqueueJob add txId userId dto idempotencyKey =
     (let options = (if truthy idempotencyKey
                     then TRANSACTION_QUEUE_OPTIONS\<lparr>jobId := Some (sendJobId userId (the idempotencyKey))\<rparr>
                     else TRANSACTION_QUEUE_OPTIONS)
      in modifyM (\<lambda>s. s\<lparr>ts_queue := add (ts_queue s)
           \<lparr>j_txId = txId, j_userId = userId, j_dto = dto, j_options = options\<rparr>\<rparr>))"

text \<open>The check of the daily limit.\<close>

definition admitTransfer ::
  "kyc_env \<Rightarrow> anchor_conf \<Rightarrow> (string \<Rightarrow> string \<Rightarrow> jsnum option res) \<Rightarrow> int \<Rightarrow> string \<Rightarrow> SendDto \<Rightarrow>
     ('q tx_state, unit) M" where
  "admitTransfer env conf fetch now userId dto =
     zoomM ts_kyc (\<lambda>k s. s\<lparr>ts_kyc := k\<rparr>)
       (bindM (normalizeAmountToUsd conf fetch now (sd_amount dto) (sd_assetCode dto))
          (\<lambda>amountUsd. assertWithinDailyLimit env conf fetch now userId amountUsd))"

definition find_wallet :: "string \<Rightarrow> 'q tx_state \<Rightarrow> Wallet option" where
  "find_wallet userId s = find (\<lambda>w. w_userId w = userId) (wallets (ks_db (ts_kyc s)))"

definition new_transaction :: "int \<Rightarrow> string \<Rightarrow> string \<Rightarrow> Wallet \<Rightarrow> SendDto \<Rightarrow> string option \<Rightarrow> Transaction" where
  "new_transaction now newId userId wallet dto idempotencyKey =
     \<lparr>tx_id = newId, tx_userId = userId, tx_walletId = w_id wallet,
      tx_destination = sd_destinationPublicKey dto, tx_amount = sd_amount dto,
      tx_assetCode = sd_assetCode dto, tx_assetIssuer = sd_assetIssuer dto, tx_memo = sd_memo dto,
      tx_idempotencyKey = idempotencyKey, tx_status = TxPENDING, tx_stellarTxHash = None,
      tx_riskScore = None, tx_flagged = False, tx_createdAt = now, tx_updatedAt = now\<rparr>"

definition has_key :: "string \<Rightarrow> string \<Rightarrow> Transaction \<Rightarrow> bool" where
  "has_key userId key t = (tx_userId t = userId \<and> tx_idempotencyKey t = Some key)"

text \<open>
  \<open>prisma.transaction.create\<close> under the constraint \<open>@@unique([userId, idempotencyKey])\<close>, in
  which null keys do not conflict. The wallet is looked up just before.
\<close>

definition createTransaction ::
  "int \<Rightarrow> string \<Rightarrow> string \<Rightarrow> SendDto \<Rightarrow> string option \<Rightarrow> ('q tx_state, Transaction) M" where
  "createTransaction now newId userId dto idempotencyKey s =
     (case find_wallet userId s of
        None \<Rightarrow> (Inl (NotFoundException ''Wallet not found for user''), s)
      | Some wallet \<Rightarrow>
          if (case idempotencyKey of None \<Rightarrow> False | Some k \<Rightarrow> \<exists>t \<in> set (rows_of s). has_key userId k t)
          then (Inl (PrismaError ''P2002''), s)
          else let tx = new_transaction now newId userId wallet dto idempotencyKey
               in (Inr tx, set_rows (rows_of s @ [tx]) s))"

definition isUniqueViolation :: "exn \<Rightarrow> bool" where
  "isUniqueViolation e = (e = PrismaError ''P2002'')"

definition findByKey :: "string \<Rightarrow> string \<Rightarrow> 'q tx_state \<Rightarrow> SendTransferResponse res" where
  "findByKey userId key s =
     (case find (has_key userId key) (rows_of s) of
        None \<Rightarrow> Inl (BadRequestException ''Idempotency key conflict could not be resolved'')
      | Some t \<Rightarrow> Inr \<lparr>r_txId = tx_id t, r_status = tx_status t\<rparr>)"

definition replayFromDb ::
  "('q \<Rightarrow> tx_job \<Rightarrow> 'q) \<Rightarrow> int \<Rightarrow> string \<Rightarrow> string \<Rightarrow> SendDto \<Rightarrow>
     ('q tx_state, SendTransferResponse \<times> bool) M" where
  "replayFromDb add now userId key dto =
     bindM (\<lambda>s. (findByKey userId key s, s)) (\<lambda>response.
     thenM (enqueueJob add (r_txId response) userId dto (Some key))
    (thenM (writeCachedResponse now userId key response)
           (ret (response, True))))"

text \<open>
  \<open>sendTransfer\<close>; the boolean of the result is \<open>idempotentReplay\<close>. \<open>newId\<close> is the id the
  database draws for a new row.
\<close>

definition sendTransfer ::
  "kyc_env \<Rightarrow> anchor_conf \<Rightarrow> (string \<Rightarrow> string \<Rightarrow> jsnum option res) \<Rightarrow> ('q \<Rightarrow> tx_job \<Rightarrow> 'q) \<Rightarrow>
     int \<Rightarrow> string \<Rightarrow> string \<Rightarrow> SendDto \<Rightarrow> string option \<Rightarrow>
     ('q tx_state, SendTransferResponse \<times> bool) M" where
  "sendTransfer env conf fetch add now newId userId dto idempotencyKey s0 =
     (case (if truthy idempotencyKey then readCachedResponse now userId (the idempotencyKey) s0
            else (None, s0)) of
        (Some replay, s1) \<Rightarrow> (Inr (replay, True), s1)
      | (None, s1) \<Rightarrow>
          thenM (admitTransfer env conf fetch now userId dto) (\<lambda>s2.
            (case createTransaction now newId userId dto idempotencyKey s2 of
               (Inl e, s3) \<Rightarrow>
                 if truthy idempotencyKey \<and> isUniqueViolation e
                 then replayFromDb add now userId (the idempotencyKey) dto s3
                 else (Inl e, s3)
             | (Inr tx, s3) \<Rightarrow>
                 let response = \<lparr>r_txId = tx_id tx, r_status = tx_status tx\<rparr>
                 in thenM (enqueueJob add (tx_id tx) userId dto idempotencyKey)
                      (thenM (if truthy idempotencyKey
                              then writeCachedResponse now userId (the idempotencyKey) response
                              else ret ())
                        (ret (response, False))) s3)) s1)"

text \<open>The controller's \<open>sendPayment\<close>: the body, and the status 200 for a replay, 201 otherwise.\<close>

definition sendPayment ::
  "kyc_env \<Rightarrow> anchor_conf \<Rightarrow> (string \<Rightarrow> string \<Rightarrow> jsnum option res) \<Rightarrow> ('q \<Rightarrow> tx_job \<Rightarrow> 'q) \<Rightarrow>
     int \<Rightarrow> string \<Rightarrow> string \<Rightarrow> SendDto \<Rightarrow> string option \<Rightarrow>
     ('q tx_state, nat \<times> SendTransferResponse) M" where
  "sendPayment env conf fetch add now newId userId dto header =
     bindM (liftR (normalizeIdempotencyKey header)) (\<lambda>key.
     bindM (sendTransfer env conf fetch add now newId userId dto (Some key)) (\<lambda>(response, replay).
     ret (if replay then 200 else 201, response)))"

section \<open>Interleaved submissions\<close>

record request =
  rq_user :: string
  rq_dto :: SendDto
  rq_key :: string

text \<open>Where a request stands, and what it has in hand.\<close>

datatype pc =
    Start
  | Missed
  | Admitted
  | Created SendTransferResponse
  | Conflict
  | Found SendTransferResponse
  | Queued SendTransferResponse bool
  | Done "(SendTransferResponse \<times> bool) res"

text \<open>One phase of a request: what \<open>sendTransfer\<close> does between two points where others can run.\<close>

definition phase ::
  "kyc_env \<Rightarrow> anchor_conf \<Rightarrow> (string \<Rightarrow> string \<Rightarrow> jsnum option res) \<Rightarrow> ('q \<Rightarrow> tx_job \<Rightarrow> 'q) \<Rightarrow>
     int \<Rightarrow> string \<Rightarrow> request \<Rightarrow> pc \<Rightarrow> 'q tx_state \<Rightarrow> pc \<times> 'q tx_state" where
  "phase env conf fetch add now newId rq p s =
     (let u = rq_user rq; k = rq_key rq; dto = rq_dto rq
      in case p of
           Start \<Rightarrow>
             (case readCachedResponse now u k s of
                (Some r, s') \<Rightarrow> (Done (Inr (r, True)), s') | (None, s') \<Rightarrow> (Missed, s'))
         | Missed \<Rightarrow>
             (case admitTransfer env conf fetch now u dto s of
                (Inl e, s') \<Rightarrow> (Done (Inl e), s') | (Inr _, s') \<Rightarrow> (Admitted, s'))
         | Admitted \<Rightarrow>
             (case createTransaction now newId u dto (Some k) s of
                (Inl e, s') \<Rightarrow> (if isUniqueViolation e then Conflict else Done (Inl e), s')
              | (Inr tx, s') \<Rightarrow> (Created \<lparr>r_txId = tx_id tx, r_status = tx_status tx\<rparr>, s'))
         | Created r \<Rightarrow> (Queued r False, snd (enqueueJob add (r_txId r) u dto (Some k) s))
         | Conflict \<Rightarrow>
             (case findByKey u k s of Inl e \<Rightarrow> (Done (Inl e), s) | Inr r \<Rightarrow> (Found r, s))
         | Found r \<Rightarrow> (Queued r True, snd (enqueueJob add (r_txId r) u dto (Some k) s))
         | Queued r replay \<Rightarrow> (Done (Inr (r, replay)), snd (writeCachedResponse now u k r s))
         | Done res \<Rightarrow> (Done res, s))"

fun phases ::
  "kyc_env \<Rightarrow> anchor_conf \<Rightarrow> (string \<Rightarrow> string \<Rightarrow> jsnum option res) \<Rightarrow> ('q \<Rightarrow> tx_job \<Rightarrow> 'q) \<Rightarrow>
     int \<Rightarrow> string \<Rightarrow> request \<Rightarrow> nat \<Rightarrow> pc \<times> 'q tx_state \<Rightarrow> pc \<times> 'q tx_state" where
  "phases env conf fetch add now newId rq 0 c = c"
| "phases env conf fetch add now newId rq (Suc n) (p, s) =
     phases env conf fetch add now newId rq n (phase env conf fetch add now newId rq p s)"

text \<open>
  The steps of the system: request \<open>i\<close> takes its next phase (a new row gets an unused id), or
  the status of a stored transaction changes.
\<close>

type_synonym 'q config = "(nat \<Rightarrow> pc) \<times> 'q tx_state"

inductive send_step ::
  "kyc_env \<Rightarrow> anchor_conf \<Rightarrow> (string \<Rightarrow> string \<Rightarrow> jsnum option res) \<Rightarrow> ('q \<Rightarrow> tx_job \<Rightarrow> 'q) \<Rightarrow>
     (nat \<Rightarrow> request) \<Rightarrow> 'q config \<Rightarrow> 'q config \<Rightarrow> bool"
  for env conf fetch add req where
  advance: "newId \<notin> tx_id ` set (rows_of s) \<Longrightarrow>
     phase env conf fetch add now newId (req i) (pcs i) s = (p', s') \<Longrightarrow>
     send_step env conf fetch add req (pcs, s) (pcs(i := p'), s')"
| settle: "send_step env conf fetch add req (pcs, s)
     (pcs, set_rows (update_where (\<lambda>t. tx_id t = x) (\<lambda>t. t\<lparr>tx_status := st\<rparr>) (rows_of s)) s)"

inductive send_reachable ::
  "kyc_env \<Rightarrow> anchor_conf \<Rightarrow> (string \<Rightarrow> string \<Rightarrow> jsnum option res) \<Rightarrow> ('q \<Rightarrow> tx_job \<Rightarrow> 'q) \<Rightarrow>
     (nat \<Rightarrow> request) \<Rightarrow> 'q config \<Rightarrow> 'q config \<Rightarrow> bool"
  for env conf fetch add req c0 where
  start: "send_reachable env conf fetch add req c0 c0"
| step: "send_reachable env conf fetch add req c0 c \<Longrightarrow> send_step env conf fetch add req c c' \<Longrightarrow>
     send_reachable env conf fetch add req c0 c'"

section \<open>Reading the history\<close>

record GetHistoryOptions =
  h_limit :: "int option"
  h_cursor :: "string option"

text \<open>
  \<open>findMany\<close> with an order, a cursor, \<open>skip\<close> and \<open>take\<close>: the ordered rows from the cursor row
  on. \<open>ord\<close> is the order in which the database returns the rows of this query under \<open>orderBy createdAt desc\<close>; rows with
  equal stamps may come in another order in the next query.
\<close>

definition from_cursor :: "string option \<Rightarrow> Transaction list \<Rightarrow> Transaction list" where
  "from_cursor cursor rows =
     (case cursor of None \<Rightarrow> rows | Some c \<Rightarrow> dropWhile (\<lambda>t. tx_id t \<noteq> c) rows)"

definition getHistory ::
  "(Transaction list \<Rightarrow> Transaction list) \<Rightarrow> string \<Rightarrow> GetHistoryOptions \<Rightarrow> Transaction list \<Rightarrow>
     (Transaction list \<times> string option \<times> nat) res" where
  "getHistory ord userId opts table =
     (let rawLimit = (case h_limit opts of None \<Rightarrow> HISTORY_DEFAULT_LIMIT | Some n \<Rightarrow> n)
      in if HISTORY_MAX_LIMIT < rawLimit
         then Inl (BadRequestException
                (''limit must not exceed 100. Received: '' @ show_int rawLimit))
         else
           let limit = nat (max 1 rawLimit);
               mine = filter (\<lambda>t. tx_userId t = userId) table;
               rows = take (limit + 1)
                        (if truthy (h_cursor opts) then drop 1 (from_cursor (h_cursor opts) (ord mine))
                         else ord mine);
               hasNextPage = limit < length rows;
               data = (if hasNextPage then take limit rows else rows);
               nextCursor = (if hasNextPage then Some (tx_id (data ! (length data - 1))) else None)
           in Inr (data, nextCursor, length mine))"

record GetTransactionsOptions =
  g_page :: "int option"
  g_limit :: "int option"
  g_status :: "TransactionStatus option"
  g_assetCode :: "string option"
  g_from :: "int option"
  g_to :: "int option"

definition tx_where :: "string \<Rightarrow> GetTransactionsOptions \<Rightarrow> Transaction \<Rightarrow> bool" where
  "tx_where userId o' t =
     (tx_userId t = userId \<and>
      (case g_status o' of None \<Rightarrow> True | Some st \<Rightarrow> tx_status t = st) \<and>
      (truthy (g_assetCode o') \<longrightarrow> g_assetCode o' = Some (tx_assetCode t)) \<and>
      (case g_from o' of None \<Rightarrow> True | Some a \<Rightarrow> a \<le> tx_createdAt t) \<and>
      (case g_to o' of None \<Rightarrow> True | Some b \<Rightarrow> tx_createdAt t \<le> b))"

definition getTransactions ::
  "(Transaction list \<Rightarrow> Transaction list) \<Rightarrow> string \<Rightarrow> GetTransactionsOptions \<Rightarrow> Transaction list \<Rightarrow>
     Transaction list \<times> nat \<times> int \<times> int" where
  "getTransactions ord userId o' table =
     (let page = max 1 (case g_page o' of None \<Rightarrow> 1 | Some p \<Rightarrow> p);
          limit = min HISTORY_MAX_LIMIT (max 1 (case g_limit o' of None \<Rightarrow> HISTORY_DEFAULT_LIMIT | Some l \<Rightarrow> l));
          rows = filter (tx_where userId o') table
      in (take (nat limit) (drop (nat ((page - 1) * limit)) (ord rows)), length rows, page, limit))"

definition getTransactionsByWallet ::
  "(Transaction list \<Rightarrow> Transaction list) \<Rightarrow> string \<Rightarrow> Transaction list \<Rightarrow> Transaction list" where
  "getTransactionsByWallet ord walletId table =
     take 50 (ord (filter (\<lambda>t. tx_walletId t = walletId) table))"

definition getTransaction :: "string \<Rightarrow> string option \<Rightarrow> Transaction list \<Rightarrow> Transaction res" where
  "getTransaction txId userId table =
     (case find (\<lambda>t. tx_id t = txId) table of
        None \<Rightarrow> Inl (NotFoundException ''Transaction not found'')
      | Some t \<Rightarrow>
          if truthy userId \<and> userId \<noteq> Some (tx_userId t)
          then Inl (NotFoundException ''Transaction not found'') else Inr t)"

section \<open>Updates\<close>

definition update_tx :: "string \<Rightarrow> (Transaction \<Rightarrow> Transaction) \<Rightarrow> ('q tx_state, Transaction) M" where
  "update_tx txId f s =
     (case update_one (\<lambda>t. tx_id t = txId) f (rows_of s) of
        None \<Rightarrow> (Inl (PrismaError ''P2025''), s)
      | Some (t, rows) \<Rightarrow> (Inr t, set_rows rows s))"

definition updateRiskScore :: "string \<Rightarrow> jsnum \<Rightarrow> bool \<Rightarrow> ('q tx_state, Transaction) M" where
  "updateRiskScore txId riskScore flagged s =
     (case find (\<lambda>t. tx_id t = txId) (rows_of s) of
        None \<Rightarrow> (Inl (NotFoundException ''Transaction not found''), s)
      | Some t \<Rightarrow>
          let review = flagged \<and> (tx_status t = TxPENDING \<or> tx_status t = TxRETRYING)
          in update_tx txId (\<lambda>t. t\<lparr>tx_riskScore := Some riskScore, tx_flagged := flagged,
               tx_status := (if review then TxPENDING_REVIEW else tx_status t)\<rparr>) s)"

definition updateTransactionStatus ::
  "string \<Rightarrow> TransactionStatus \<Rightarrow> string option \<Rightarrow> ('q tx_state, Transaction) M" where
  "updateTransactionStatus txId status stellarTxHash =
     bindM (update_tx txId (\<lambda>t. t\<lparr>tx_status := status,
              tx_stellarTxHash := (if truthy stellarTxHash then stellarTxHash else tx_stellarTxHash t)\<rparr>))
       (\<lambda>updated.
          if status = TxSUCCESS
          then thenM (modifyM (\<lambda>s. s\<lparr>ts_balances := (ts_balances s)(''wallet_balances:'' @ tx_userId updated := None)\<rparr>))
                 (ret updated)
          else ret updated)"

record attestation =
  at_escrowId :: "string option"
  at_deliverySuccess :: bool
  at_signature :: "string option"

text \<open>
  \<open>submitOracleAttestation\<close>; \<open>release\<close> is \<open>SorobanService.releaseToAgent\<close>. The attestation is
  untyped: a missing \<open>escrowId\<close> makes the condition on \<open>memo\<close> void, a missing signature leaves the hash.
\<close>

definition submitOracleAttestation ::
  "(attestation \<Rightarrow> unit res) \<Rightarrow> attestation \<Rightarrow> ('q tx_state, unit) M" where
  "submitOracleAttestation release att =
     thenM (liftR (release att)) (\<lambda>s.
       (case find (\<lambda>t. at_escrowId att = None \<or> tx_memo t = at_escrowId att) (rows_of s) of
          None \<Rightarrow> (Inr (), s)
        | Some t \<Rightarrow>
            thenM (update_tx (tx_id t) (\<lambda>r. r\<lparr>tx_status := (if at_deliverySuccess att then TxSUCCESS else TxFAILED),
                     tx_stellarTxHash := (case at_signature att of None \<Rightarrow> tx_stellarTxHash r | Some x \<Rightarrow> Some x)\<rparr>))
              (ret ()) s))"

section \<open>Keys\<close>

lemma in_split_on: "x \<in> set s \<Longrightarrow> x = c \<or> (\<exists>g \<in> set (split_on c s). x \<in> set g)"
  by (induction s) (auto split: list.splits)

definition key_free :: "string \<Rightarrow> bool" where
  "key_free k = (k \<noteq> [] \<and> CHR '':'' \<notin> set k)"

lemma normalized_key_free:
  assumes "normalizeIdempotencyKey raw = Inr k"
  shows "key_free k"
proof -
  have u: "is_uuid k" and n: "k \<noteq> []"
    using assms by (auto simp: normalizeIdempotencyKey_def Let_def split: option.splits if_splits)
  have "list_all (list_all is_hex) (split_on (CHR ''-'') k)" using u by (simp add: is_uuid_def Let_def)
  then have "x = CHR ''-'' \<or> is_hex x" if "x \<in> set k" for x
    using in_split_on [OF that, of "CHR ''-''"] by (auto simp: list_all_iff)
  moreover have "\<not> is_hex (CHR '':'')" by (simp add: is_hex_def code_of_def)
  ultimately show ?thesis using n by (auto simp: key_free_def)
qed

lemma last_segment:
  assumes "c \<notin> set k" and "c \<notin> set k'" and "u @ c # k = u' @ c # k'"
  shows "u = u' \<and> k = k'"
proof -
  have "takeWhile (\<lambda>x. x \<noteq> c) (rev (v @ c # w)) = rev w" if "c \<notin> set w" for v w
    using that by (auto simp: takeWhile_append2 takeWhile_tail)
  from this [OF assms(1), of u] this [OF assms(2), of u'] assms(3) have "k = k'" by simp
  with assms(3) show ?thesis by simp
qed

lemma cacheKey_inj:
  "key_free k \<Longrightarrow> key_free k' \<Longrightarrow> idempotencyCacheKey u k = idempotencyCacheKey u' k' \<longleftrightarrow> u = u' \<and> k = k'"
  using last_segment [of "CHR '':''" k k' u u'] by (auto simp: idempotencyCacheKey_def key_free_def)

lemma jobId_inj:
  "key_free k \<Longrightarrow> key_free k' \<Longrightarrow> sendJobId u k = sendJobId u' k' \<longleftrightarrow> u = u' \<and> k = k'"
  using last_segment [of "CHR '':''" k k' u u'] by (auto simp: sendJobId_def key_free_def)

section \<open>The invariant of interleaved submissions\<close>

definition owner :: "Transaction list \<Rightarrow> string \<Rightarrow> string \<Rightarrow> string \<Rightarrow> bool" where
  "owner rows u k i = (\<exists>t \<in> set rows. has_key u k t \<and> tx_id t = i)"

abbreviation job_ids :: "tx_job list \<Rightarrow> string option list" where
  "job_ids js \<equiv> map (jobId \<circ> j_options) js"

definition queued :: "tx_job list \<Rightarrow> string \<Rightarrow> string \<Rightarrow> bool" where
  "queued js u k = (Some (sendJobId u k) \<in> set (job_ids js))"

definition rows_ok :: "Transaction list \<Rightarrow> bool" where
  "rows_ok rows = (distinct (map tx_id rows) \<and> (\<forall>u k. length (filter (has_key u k) rows) \<le> 1))"

definition cache_ok :: "Transaction list \<Rightarrow> tx_job list \<Rightarrow> SendTransferResponse ttl_map \<Rightarrow> bool" where
  "cache_ok rows js c =
     (\<forall>ck e r. c ck = Some e \<and> e_value e = Json r \<longrightarrow>
        (\<exists>u k. key_free k \<and> ck = idempotencyCacheKey u k \<and> owner rows u k (r_txId r) \<and> queued js u k))"

definition jobs_ok :: "Transaction list \<Rightarrow> tx_job list \<Rightarrow> bool" where
  "jobs_ok rows js =
     (distinct (filter (\<lambda>x. x \<noteq> None) (job_ids js)) \<and>
      (\<forall>j \<in> set js. \<forall>u k. key_free k \<and> jobId (j_options j) = Some (sendJobId u k) \<longrightarrow> owner rows u k (j_txId j)))"

fun holds :: "pc \<Rightarrow> SendTransferResponse option" where
  "holds (Created r) = Some r"
| "holds (Found r) = Some r"
| "holds (Queued r _) = Some r"
| "holds (Done (Inr (r, _))) = Some r"
| "holds _ = None"

fun is_creator :: "pc \<Rightarrow> bool" where
  "is_creator (Created _) = True"
| "is_creator (Queued _ replay) = (\<not> replay)"
| "is_creator (Done (Inr (_, replay))) = (\<not> replay)"
| "is_creator _ = False"

fun has_queued :: "pc \<Rightarrow> bool" where
  "has_queued (Queued _ _) = True"
| "has_queued (Done (Inr _)) = True"
| "has_queued _ = False"

definition pcs_ok :: "Transaction list \<Rightarrow> tx_job list \<Rightarrow> (nat \<Rightarrow> request) \<Rightarrow> (nat \<Rightarrow> pc) \<Rightarrow> bool" where
  "pcs_ok rows js req pcs =
     ((\<forall>i r. holds (pcs i) = Some r \<longrightarrow> owner rows (rq_user (req i)) (rq_key (req i)) (r_txId r)) \<and>
      (\<forall>i. has_queued (pcs i) \<longrightarrow> queued js (rq_user (req i)) (rq_key (req i))) \<and>
      (\<forall>i j. is_creator (pcs i) \<and> is_creator (pcs j) \<and> rq_user (req i) = rq_user (req j) \<and>
         rq_key (req i) = rq_key (req j) \<longrightarrow> i = j))"

definition send_inv :: "('q \<Rightarrow> tx_job list) \<Rightarrow> (nat \<Rightarrow> request) \<Rightarrow> 'q config \<Rightarrow> bool" where
  "send_inv jobs req c =
     (let rows = rows_of (snd c); js = jobs (ts_queue (snd c))
      in rows_ok rows \<and> cache_ok rows js (ts_cache (snd c)) \<and> jobs_ok rows js \<and> pcs_ok rows js req (fst c))"

text \<open>Facts about owners and queued jobs survive later rows and later jobs.\<close>

definition grows :: "Transaction list \<Rightarrow> tx_job list \<Rightarrow> Transaction list \<Rightarrow> tx_job list \<Rightarrow> bool" where
  "grows rows js rows' js' =
     ((\<forall>u k i. owner rows u k i \<longrightarrow> owner rows' u k i) \<and> set (job_ids js) \<subseteq> set (job_ids js'))"

lemma grows_refl [simp]: "grows rows js rows js"
  by (simp add: grows_def)

lemma owner_grows: "grows rows js rows' js' \<Longrightarrow> owner rows u k i \<Longrightarrow> owner rows' u k i"
  by (simp add: grows_def)

lemma queued_grows: "grows rows js rows' js' \<Longrightarrow> queued js u k \<Longrightarrow> queued js' u k"
  by (auto simp: grows_def queued_def)

lemma cache_ok_D:
  assumes "cache_ok rows js c" and "c ck = Some e" and "e_value e = Json r"
  obtains u k where "key_free k" and "ck = idempotencyCacheKey u k" and "owner rows u k (r_txId r)"
    and "queued js u k"
  using assms unfolding cache_ok_def by blast

lemma cache_ok_grows: "grows rows js rows' js' \<Longrightarrow> cache_ok rows js c \<Longrightarrow> cache_ok rows' js' c"
  unfolding cache_ok_def by (meson owner_grows queued_grows)

lemma cache_ok_sub: "cache_ok rows js c \<Longrightarrow> c' \<subseteq>\<^sub>m c \<Longrightarrow> cache_ok rows js c'"
  unfolding cache_ok_def map_le_def by (metis domI)

text \<open>The state of one request changes.\<close>

lemma pcs_ok_update:
  assumes "pcs_ok rows js req pcs" and "grows rows js rows' js'"
    and "\<And>r. holds p = Some r \<Longrightarrow> owner rows' (rq_user (req i)) (rq_key (req i)) (r_txId r)"
    and "has_queued p \<Longrightarrow> queued js' (rq_user (req i)) (rq_key (req i))"
    and "is_creator p \<Longrightarrow> is_creator (pcs i) \<or> (\<forall>x. \<not> owner rows (rq_user (req i)) (rq_key (req i)) x)"
  shows "pcs_ok rows' js' req (pcs(i := p))"
proof -
  have creator_holds: "\<exists>r. holds q = Some r" if "is_creator q" for q
    using that by (cases q rule: is_creator.cases) auto
  have new: "j = i" if "is_creator p" "is_creator (pcs j)" "rq_user (req i) = rq_user (req j)"
    "rq_key (req i) = rq_key (req j)" for j
    using that assms(1,5) creator_holds [of "pcs j"] unfolding pcs_ok_def by metis
  show ?thesis
    using assms(1-4) new unfolding pcs_ok_def
    by (auto intro: owner_grows [OF assms(2)] queued_grows [OF assms(2)])
qed


text \<open>The phases keep the invariant.\<close>

lemma send_inv_I:
  assumes "rows_ok (rows_of s')" and "cache_ok (rows_of s') (jobs (ts_queue s')) (ts_cache s')"
    and "jobs_ok (rows_of s') (jobs (ts_queue s'))" and "pcs_ok (rows_of s') (jobs (ts_queue s')) req pcs'"
  shows "send_inv jobs req (pcs', s')"
  using assms by (simp add: send_inv_def)

lemma send_inv_D:
  assumes "send_inv jobs req (pcs, s)"
  shows "rows_ok (rows_of s)" and "cache_ok (rows_of s) (jobs (ts_queue s)) (ts_cache s)"
    and "jobs_ok (rows_of s) (jobs (ts_queue s))" and "pcs_ok (rows_of s) (jobs (ts_queue s)) req pcs"
  using assms by (simp_all add: send_inv_def Let_def)

lemma ttl_get_sub: "snd (ttl_get now k m) \<subseteq>\<^sub>m m"
  by (auto simp: ttl_get_def map_le_def split: option.split)

lemma readCachedResponse_facts:
  assumes "readCachedResponse now u k s = (r, s')"
  shows "ts_cache s' \<subseteq>\<^sub>m ts_cache s" and "ts_kyc s' = ts_kyc s" and "ts_queue s' = ts_queue s"
    and "r = Some v \<Longrightarrow> \<exists>e. ts_cache s (idempotencyCacheKey u k) = Some e \<and> e_value e = Json v"
  using assms ttl_get_sub [of now "idempotencyCacheKey u k" "ts_cache s"]
  by (auto simp: readCachedResponse_def ttl_get_def json_parse_def split: prod.splits option.splits
      if_splits raw.splits)

lemma inv_start:
  assumes inv: "send_inv jobs req (pcs, s)" and kf: "key_free (rq_key (req i))"
    and rd: "readCachedResponse now (rq_user (req i)) (rq_key (req i)) s = (r, s')"
  shows "send_inv jobs req (pcs(i := (case r of Some v \<Rightarrow> Done (Inr (v, True)) | None \<Rightarrow> Missed)), s')"
proof (rule send_inv_I)
  note D = send_inv_D [OF inv] and F = readCachedResponse_facts [OF rd]
  show "rows_ok (rows_of s')" "jobs_ok (rows_of s') (jobs (ts_queue s'))"
    using D F by simp_all
  show "cache_ok (rows_of s') (jobs (ts_queue s')) (ts_cache s')"
    using cache_ok_sub [OF D(2) F(1)] F by simp
  have hit: "owner (rows_of s) (rq_user (req i)) (rq_key (req i)) (r_txId v) \<and>
      queued (jobs (ts_queue s)) (rq_user (req i)) (rq_key (req i))" if rv: "r = Some v" for v
  proof -
    from F(4) [OF rv] obtain e
      where e: "ts_cache s (idempotencyCacheKey (rq_user (req i)) (rq_key (req i))) = Some e"
        "e_value e = Json v" by (elim exE conjE)
    from cache_ok_D [OF D(2) e] obtain u k where "key_free k"
      and eq: "idempotencyCacheKey (rq_user (req i)) (rq_key (req i)) = idempotencyCacheKey u k"
      and own: "owner (rows_of s) u k (r_txId v)" "queued (jobs (ts_queue s)) u k" .
    from cacheKey_inj [OF kf this(1)] eq have "rq_user (req i) = u \<and> rq_key (req i) = k" by simp
    with own show ?thesis by simp
  qed
  show "pcs_ok (rows_of s') (jobs (ts_queue s')) req
      (pcs(i := (case r of Some v \<Rightarrow> Done (Inr (v, True)) | None \<Rightarrow> Missed)))"
    by (rule pcs_ok_update [OF D(4)]) (use F hit in \<open>auto split: option.splits\<close>)
qed

lemma admit_keeps:
  "ts_cache (snd (admitTransfer env conf fetch now u dto s)) = ts_cache s"
  "ts_queue (snd (admitTransfer env conf fetch now u dto s)) = ts_queue s"
  "ks_db (ts_kyc (snd (admitTransfer env conf fetch now u dto s))) = ks_db (ts_kyc s)"
proof -
  have kyc: "ks_db (snd (assertWithinDailyLimit env conf fetch now u v k)) = ks_db k" for v k
    using daily_values_keeps_db [of env conf fetch now u k]
    by (auto simp: assertWithinDailyLimit_def getDailySpent_def bindM_def guardM_def readM_def ret_def
        split: prod.splits sum.splits)
  have norm: "ks_db (snd (normalizeAmountToUsd conf fetch now a c k)) = ks_db k" for a c k
    unfolding normalizeAmountToUsd_def by (rule db_blind_keeps [OF normalize_blind])
  show "ts_cache (snd (admitTransfer env conf fetch now u dto s)) = ts_cache s"
    "ts_queue (snd (admitTransfer env conf fetch now u dto s)) = ts_queue s"
    by (simp_all add: admitTransfer_def zoomM_def split: prod.split)
  show "ks_db (ts_kyc (snd (admitTransfer env conf fetch now u dto s))) = ks_db (ts_kyc s)"
    using norm [of "sd_amount dto" "sd_assetCode dto" "ts_kyc s"]
    by (auto simp: admitTransfer_def zoomM_def bindM_def kyc split: prod.split sum.split)
       (metis kyc snd_conv)
qed

lemma inv_admit:
  assumes inv: "send_inv jobs req (pcs, s)"
    and ad: "admitTransfer env conf fetch now u dto s = (r, s')"
    and p: "holds p = None" "\<not> has_queued p" "\<not> is_creator p"
  shows "send_inv jobs req (pcs(i := p), s')"
proof (rule send_inv_I)
  note D = send_inv_D [OF inv]
  have F: "ts_cache s' = ts_cache s" "ts_queue s' = ts_queue s" "rows_of s' = rows_of s"
    using admit_keeps [of env conf fetch now u dto s] by (simp_all add: ad)
  show "rows_ok (rows_of s')" "jobs_ok (rows_of s') (jobs (ts_queue s'))"
    "cache_ok (rows_of s') (jobs (ts_queue s')) (ts_cache s')"
    using D F by simp_all
  show "pcs_ok (rows_of s') (jobs (ts_queue s')) req (pcs(i := p))"
    by (rule pcs_ok_update [OF D(4)]) (use F p in auto)
qed

lemma set_rows_simps [simp]:
  "rows_of (set_rows rows s) = rows" "ts_cache (set_rows rows s) = ts_cache s"
  "ts_queue (set_rows rows s) = ts_queue s"
  by (simp_all add: set_rows_def)

lemma jobs_ok_grows: "grows rows js rows' js \<Longrightarrow> jobs_ok rows js \<Longrightarrow> jobs_ok rows' js"
  unfolding jobs_ok_def by (meson owner_grows)

lemma inv_create:
  assumes inv: "send_inv jobs req (pcs, s)" and fresh: "newId \<notin> tx_id ` set (rows_of s)"
    and cr: "createTransaction now newId (rq_user (req i)) dto (Some (rq_key (req i))) s = (Inr tx, s')"
  shows "send_inv jobs req (pcs(i := Created \<lparr>r_txId = tx_id tx, r_status = tx_status tx\<rparr>), s')"
proof (rule send_inv_I)
  note D = send_inv_D [OF inv]
  let ?u = "rq_user (req i)" and ?k = "rq_key (req i)"
  obtain w where tx: "tx = new_transaction now newId ?u w dto (Some ?k)"
    and s': "s' = set_rows (rows_of s @ [tx]) s" and none: "\<And>t. t \<in> set (rows_of s) \<Longrightarrow> \<not> has_key ?u ?k t"
    using cr by (auto simp: createTransaction_def Let_def split: option.splits if_splits)
  have g: "grows (rows_of s) (jobs (ts_queue s)) (rows_of s') (jobs (ts_queue s'))"
    by (auto simp: grows_def s' owner_def)
  have key: "has_key u k tx \<longleftrightarrow> u = ?u \<and> k = ?k" for u k
    by (auto simp: has_key_def tx new_transaction_def)
  have "length (filter (has_key u k) (rows_of s')) \<le> 1" for u k
    using D(1) none by (cases "u = ?u \<and> k = ?k") (auto simp: s' rows_ok_def key filter_empty_conv)
  then show "rows_ok (rows_of s')"
    using D(1) fresh by (auto simp: rows_ok_def s' tx new_transaction_def)
  show "jobs_ok (rows_of s') (jobs (ts_queue s'))"
    using jobs_ok_grows D(3) g by (metis s' set_rows_simps(3))
  show "cache_ok (rows_of s') (jobs (ts_queue s')) (ts_cache s')"
    using cache_ok_grows [OF g D(2)] by (simp add: s')
  show "pcs_ok (rows_of s') (jobs (ts_queue s')) req
      (pcs(i := Created \<lparr>r_txId = tx_id tx, r_status = tx_status tx\<rparr>))"
    by (rule pcs_ok_update [OF D(4) g]) (use none key in \<open>auto simp: owner_def s'\<close>)
qed

lemma inv_same_state:
  assumes inv: "send_inv jobs req (pcs, s)"
    and "\<And>r. holds p = Some r \<Longrightarrow> owner (rows_of s) (rq_user (req i)) (rq_key (req i)) (r_txId r)"
    and "\<not> has_queued p" and "\<not> is_creator p"
  shows "send_inv jobs req (pcs(i := p), s)"
  by (rule send_inv_I)
    (use send_inv_D [OF inv] assms in \<open>auto intro!: pcs_ok_update [OF send_inv_D(4) [OF inv] grows_refl]\<close>)


lemma enqueueJob_simps [simp]:
  "rows_of (snd (enqueueJob add i u dto k s)) = rows_of s"
  "ts_cache (snd (enqueueJob add i u dto k s)) = ts_cache s"
  by (simp_all add: enqueueJob_def Let_def modifyM_def)

lemma enqueueJob_jobs:
  assumes "bull_dedup add jobs" and "key_free k"
  shows "jobs (ts_queue (snd (enqueueJob add i u dto (Some k) s))) =
    (if queued (jobs (ts_queue s)) u k then jobs (ts_queue s)
     else jobs (ts_queue s) @ [\<lparr>j_txId = i, j_userId = u, j_dto = dto,
       j_options = TRANSACTION_QUEUE_OPTIONS\<lparr>jobId := Some (sendJobId u k)\<rparr>\<rparr>])"
  using assms by (simp add: enqueueJob_def Let_def modifyM_def bull_dedup_def queued_def key_free_def)

lemma inv_enqueue:
  assumes inv: "send_inv jobs req (pcs, s)" and bull: "bull_dedup add jobs"
    and kf: "key_free (rq_key (req i))"
    and r: "holds (pcs i) = Some r" and c: "\<not> replay \<longrightarrow> is_creator (pcs i)"
  shows "send_inv jobs req (pcs(i := Queued r replay),
    snd (enqueueJob add (r_txId r) (rq_user (req i)) dto (Some (rq_key (req i))) s))"
proof (rule send_inv_I)
  let ?u = "rq_user (req i)" and ?k = "rq_key (req i)"
  define s' where "s' = snd (enqueueJob add (r_txId r) ?u dto (Some ?k) s)"
  note D = send_inv_D [OF inv] and J = enqueueJob_jobs [OF bull kf, of "r_txId r" ?u dto s]
  have own: "owner (rows_of s) ?u ?k (r_txId r)" using D(4) r by (simp add: pcs_ok_def)
  have rows: "rows_of s' = rows_of s" by (simp add: s'_def)
  have g: "grows (rows_of s) (jobs (ts_queue s)) (rows_of s') (jobs (ts_queue s'))"
    unfolding rows by (auto simp: s'_def J grows_def)
  have q: "queued (jobs (ts_queue s')) ?u ?k" by (auto simp: s'_def J queued_def)
  show "rows_ok (rows_of s')" using D(1) rows by simp
  show "cache_ok (rows_of s') (jobs (ts_queue s')) (ts_cache s')"
    using cache_ok_grows [OF g D(2)] by (simp add: s'_def)
  show "jobs_ok (rows_of s') (jobs (ts_queue s'))"
    using D(3) own unfolding rows jobs_ok_def
    by (auto simp: s'_def J queued_def jobId_inj [OF kf])
  show "pcs_ok (rows_of s') (jobs (ts_queue s')) req (pcs(i := Queued r replay))"
    by (rule pcs_ok_update [OF D(4) g]) (use own q c rows in auto)
qed

lemma inv_write:
  assumes inv: "send_inv jobs req (pcs, s)" and kf: "key_free (rq_key (req i))" and p: "pcs i = Queued r replay"
  shows "send_inv jobs req (pcs(i := Done (Inr (r, replay))),
    snd (writeCachedResponse now (rq_user (req i)) (rq_key (req i)) r s))"
proof (rule send_inv_I)
  let ?u = "rq_user (req i)" and ?k = "rq_key (req i)"
  define s' where "s' = snd (writeCachedResponse now ?u ?k r s)"
  note D = send_inv_D [OF inv]
  have F: "rows_of s' = rows_of s" "ts_queue s' = ts_queue s"
    by (simp_all add: s'_def writeCachedResponse_def modifyM_def)
  have own: "owner (rows_of s) ?u ?k (r_txId r)" "queued (jobs (ts_queue s)) ?u ?k"
    using D(4) p unfolding pcs_ok_def by (metis holds.simps(3), metis has_queued.simps(1))
  show "rows_ok (rows_of s')" "jobs_ok (rows_of s') (jobs (ts_queue s'))" using D F by simp_all
  show "cache_ok (rows_of s') (jobs (ts_queue s')) (ts_cache s')"
    using D(2) own kf unfolding cache_ok_def F
    by (auto simp: s'_def writeCachedResponse_def modifyM_def ttl_set_def store_set_def)
  show "pcs_ok (rows_of s') (jobs (ts_queue s')) req (pcs(i := Done (Inr (r, replay))))"
    unfolding F by (rule pcs_ok_update [OF D(4) grows_refl]) (use own p in auto)
qed

lemma inv_settle:
  assumes inv: "send_inv jobs req (pcs, s)"
  shows "send_inv jobs req
    (pcs, set_rows (update_where (\<lambda>t. tx_id t = x) (\<lambda>t. t\<lparr>tx_status := st\<rparr>) (rows_of s)) s)"
proof -
  define rows' where "rows' = update_where (\<lambda>t. tx_id t = x) (\<lambda>t. t\<lparr>tx_status := st\<rparr>) (rows_of s)"
  note D = send_inv_D [OF inv]
  have key: "has_key u k (t\<lparr>tx_status := st\<rparr>) = has_key u k t" for u k t by (simp add: has_key_def)
  have "\<exists>t' \<in> set rows'. has_key u k t' \<and> tx_id t' = tx_id t" if "t \<in> set (rows_of s)" "has_key u k t" for t u k
    using that by (intro bexI [of _ "if tx_id t = x then t\<lparr>tx_status := st\<rparr> else t"])
      (auto simp: rows'_def set_update_where key)
  then have g: "grows (rows_of s) (jobs (ts_queue s)) rows' (jobs (ts_queue s))"
    by (auto simp: grows_def owner_def) 
  have "length (filter (has_key u k) rows') = length (filter (has_key u k) (rows_of s))" for u k
    using count_where_update_where [of "\<lambda>t. tx_id t = x" "has_key u k"] key
    by (simp add: count_where_def rows'_def)
  moreover have "map tx_id rows' = map tx_id (rows_of s)" by (simp add: rows'_def)
  ultimately have "rows_ok rows'" using D(1) by (simp add: rows_ok_def)
  moreover have "pcs_ok rows' (jobs (ts_queue s)) req pcs"
    using D(4) g unfolding pcs_ok_def by (meson owner_grows)
  ultimately show ?thesis
    unfolding rows'_def [symmetric]
    by (intro send_inv_I) (use cache_ok_grows [OF g D(2)] jobs_ok_grows [OF g D(3)] in simp_all)
qed

lemma findByKey_owner: "findByKey u k s = Inr r \<Longrightarrow> owner (rows_of s) u k (r_txId r)"
  by (auto simp: findByKey_def owner_def split: option.splits dest: find_Some_D)

lemma createTransaction_error: "createTransaction now i u dto k s = (Inl e, s') \<Longrightarrow> s' = s"
  by (auto simp: createTransaction_def Let_def split: option.splits if_splits)

lemma inv_phase:
  assumes inv: "send_inv jobs req (pcs, s)" and bull: "bull_dedup add jobs"
    and kf: "key_free (rq_key (req i))" and fresh: "newId \<notin> tx_id ` set (rows_of s)"
    and ph: "phase env conf fetch add now newId (req i) (pcs i) s = (p', s')"
  shows "send_inv jobs req (pcs(i := p'), s')"
proof (cases "pcs i")
  case Start
  obtain r s1 where rd: "readCachedResponse now (rq_user (req i)) (rq_key (req i)) s = (r, s1)" by fastforce
  from inv_start [OF inv kf rd] ph Start rd show ?thesis
    by (cases r) (auto simp: phase_def Let_def)
next
  case Missed
  then show ?thesis
    using ph by (auto simp: phase_def Let_def split: prod.splits sum.splits intro: inv_admit [OF inv])
next
  case Admitted
  obtain r s1 where cr: "createTransaction now newId (rq_user (req i)) (rq_dto (req i)) (Some (rq_key (req i))) s = (r, s1)"
    by fastforce
  show ?thesis
  proof (cases r)
    case (Inl e)
    with cr createTransaction_error have "s1 = s" by blast
    with Inl cr ph Admitted
    have "p' = (if isUniqueViolation e then Conflict else Done (Inl e))" "s' = s"
      by (auto simp: phase_def Let_def)
    then show ?thesis by (cases "isUniqueViolation e") (auto intro: inv_same_state [OF inv])
  next
    case (Inr tx)
    with cr ph Admitted show ?thesis
      using inv_create [OF inv fresh, of now i _ tx s1] by (auto simp: phase_def Let_def)
  qed
next
  case (Created r)
  then show ?thesis
    using ph inv_enqueue [OF inv bull kf, of r False] by (auto simp: phase_def Let_def)
next
  case Conflict
  with ph have "s' = s" "p' = (case findByKey (rq_user (req i)) (rq_key (req i)) s of
      Inl e \<Rightarrow> Done (Inl e) | Inr r \<Rightarrow> Found r)"
    by (auto simp: phase_def Let_def split: sum.splits)
  then show ?thesis
    using findByKey_owner [of "rq_user (req i)" "rq_key (req i)" s]
    by (auto split: sum.splits intro!: inv_same_state [OF inv])
next
  case (Found r)
  then show ?thesis
    using ph inv_enqueue [OF inv bull kf, of r True] by (auto simp: phase_def Let_def)
next
  case (Queued r b)
  then show ?thesis
    using ph inv_write [OF inv kf Queued] by (auto simp: phase_def Let_def)
next
  case (Done res)
  then have "pcs(i := p') = pcs" "s' = s" using ph by (auto simp: phase_def Let_def)
  then show ?thesis using inv by simp
qed

lemma send_reachable_inv:
  assumes "send_reachable env conf fetch add req c0 c" and "send_inv jobs req c0"
    and "bull_dedup add jobs" and "\<And>i. key_free (rq_key (req i))"
  shows "send_inv jobs req c"
  using assms
proof (induction rule: send_reachable.induct)
  case (step c c')
  then have inv: "send_inv jobs req c" by blast
  from step(2) show ?case
  proof cases
    case (advance newId s now i pcs p' s')
    then show ?thesis using inv_phase [of jobs req pcs s add i] inv step.prems by metis
  next
    case (settle pcs s x st)
    then show ?thesis using inv_settle inv by metis
  qed
qed


lemma filter_key_length:
  assumes "jobs_ok rows js" and "queued js u k"
  shows "length (filter (\<lambda>j. jobId (j_options j) = Some (sendJobId u k)) js) = 1"
proof -
  define f :: "tx_job \<Rightarrow> string option" where "f = (jobId \<circ> j_options)"
  have "distinct (filter (\<lambda>x. x \<noteq> None) (map f js)) \<Longrightarrow> Some y \<in> set (map f js) \<Longrightarrow>
      length (filter (\<lambda>j. f j = Some y) js) = 1" for y
  proof (induction js)
    case (Cons j js)
    have "filter (\<lambda>j. f j = Some y) js = []" if "f j = Some y"
      using Cons.prems(1) that by (auto simp: filter_empty_conv) (metis image_eqI option.discI)
    then show ?case using Cons by (cases "f j = Some y") (auto split: if_splits)
  qed simp
  from this [of "sendJobId u k"] assms show ?thesis
    by (simp add: jobs_ok_def queued_def f_def)
qed

lemma initial_inv:
  assumes "rows_ok (rows_of s)" and "ts_cache s = Map.empty" and "jobs (ts_queue s) = []"
  shows "send_inv jobs req (\<lambda>_. Start, s)"
  using assms by (simp add: send_inv_def cache_ok_def jobs_ok_def pcs_ok_def)

lemma owner_unique:
  assumes "rows_ok rows" and "owner rows u k i" and "owner rows u k j"
  shows "i = j" and "length (filter (has_key u k) rows) = 1"
proof -
  obtain t t' where t: "t \<in> set (filter (has_key u k) rows)" "tx_id t = i"
    "t' \<in> set (filter (has_key u k) rows)" "tx_id t' = j"
    using assms(2,3) by (auto simp: owner_def)
  moreover have le: "length (filter (has_key u k) rows) \<le> 1" using assms(1) by (simp add: rows_ok_def)
  ultimately obtain x where "filter (has_key u k) rows = [x]"
    by (cases "filter (has_key u k) rows") auto
  with t show "i = j" and "length (filter (has_key u k) rows) = 1" by auto
qed

section \<open>Paging\<close>

text \<open>
  A client that reads the whole history page by page; \<open>fuel\<close> bounds the number of requests. Each request has its own order of the rows,
  because the query orders by \<open>createdAt\<close> alone and the database may return rows with equal stamps in any order.
\<close>

fun history_pages ::
  "(nat \<Rightarrow> Transaction list \<Rightarrow> Transaction list) \<Rightarrow> string \<Rightarrow> int option \<Rightarrow> Transaction list \<Rightarrow> nat \<Rightarrow>
     string option \<Rightarrow> Transaction list option" where
  "history_pages ords userId limit table 0 cursor = None"
| "history_pages ords userId limit table (Suc n) cursor =
     (case getHistory (ords 0) userId \<lparr>h_limit = limit, h_cursor = cursor\<rparr> table of
        Inl _ \<Rightarrow> None
      | Inr (data, None, _) \<Rightarrow> Some data
      | Inr (data, Some c, _) \<Rightarrow> map_option ((@) data) (history_pages (\<lambda>i. ords (Suc i)) userId limit table n (Some c)))"

text \<open>An order that the query allows: the same rows, the newest first.\<close>

definition newest_first :: "(Transaction list \<Rightarrow> Transaction list) \<Rightarrow> bool" where
  "newest_first ord =
     (\<forall>rows. set (ord rows) = set rows \<and> (distinct rows \<longrightarrow> distinct (ord rows)) \<and>
        sorted_wrt (\<lambda>a b. tx_createdAt b \<le> tx_createdAt a) (ord rows))"

lemma strictly_descending:
  fixes f :: "'a \<Rightarrow> int"
  assumes "distinct (map f xs)" and "sorted_wrt (\<lambda>a b. f b \<le> f a) xs"
  shows "sorted_wrt (\<lambda>a b. f b < f a) xs"
  using assms by (induction xs) (auto simp: less_le image_iff)

lemma newest_first_strict:
  assumes "newest_first ord" and "distinct (map tx_createdAt rows)"
  shows "sorted_wrt (\<lambda>a b. tx_createdAt b < tx_createdAt a) (ord rows)" and "distinct (ord rows)"
proof -
  have "distinct (ord rows)" "inj_on tx_createdAt (set (ord rows))" "sorted_wrt (\<lambda>a b. tx_createdAt b \<le> tx_createdAt a) (ord rows)"
    using assms by (auto simp: newest_first_def distinct_map)
  then show "sorted_wrt (\<lambda>a b. tx_createdAt b < tx_createdAt a) (ord rows)" "distinct (ord rows)"
    by (simp_all add: strictly_descending distinct_map)
qed

text \<open>Without equal stamps there is only one such order.\<close>

lemma newest_first_unique:
  assumes "newest_first f" and "newest_first g" and "distinct (map tx_createdAt rows)"
  shows "f rows = g rows"
proof -
  note sf = newest_first_strict [OF assms(1,3)] and sg = newest_first_strict [OF assms(2,3)]
  have sets: "set (f rows) = set rows" "set (g rows) = set rows" using assms(1,2) by (simp_all add: newest_first_def)
  have "sorted_wrt (<) (map tx_createdAt (rev (f rows)))" "sorted_wrt (<) (map tx_createdAt (rev (g rows)))"
    using sf(1) sg(1) by (simp_all add: sorted_wrt_map sorted_wrt_rev)
  then have "map tx_createdAt (rev (f rows)) = map tx_createdAt (rev (g rows))"
    using strict_sorted_equal [of "map tx_createdAt (rev (g rows))" "map tx_createdAt (rev (f rows))"] by (simp add: sets)
  then have "map tx_createdAt (f rows) = map tx_createdAt (g rows)" by (simp add: rev_map [symmetric])
  moreover have "inj_on tx_createdAt (set (f rows) \<union> set (g rows))" using assms(3) by (simp add: sets distinct_map)
  ultimately show ?thesis by (rule map_inj_on)
qed

lemma dropWhile_cursor:
  assumes "distinct (map tx_id (xs @ ys))" and "xs \<noteq> []"
  shows "dropWhile (\<lambda>t. tx_id t \<noteq> tx_id (last xs)) (xs @ ys) = last xs # ys"
  using assms by (induction xs) (auto simp: image_iff)

definition cursor_after :: "Transaction list \<Rightarrow> string option" where
  "cursor_after xs = (if xs = [] then None else Some (tx_id (last xs)))"

lemma getHistory_page:
  assumes mine: "ord (filter (\<lambda>t. tx_userId t = uid) table) = xs @ ys"
    and ids: "distinct (map tx_id (xs @ ys))" "[] \<notin> tx_id ` set xs"
    and L: "1 \<le> L" "L \<le> 100"
  shows "\<exists>total. getHistory ord uid \<lparr>h_limit = Some (int L), h_cursor = cursor_after xs\<rparr> table =
    Inr (take L ys, (if L < length ys then cursor_after (take L ys) else None), total)"
proof -
  have base: "(if truthy (cursor_after xs) then drop 1 (from_cursor (cursor_after xs) (xs @ ys)) else xs @ ys) = ys"
  proof (cases "xs = []")
    case False
    then have "tx_id (last xs) \<noteq> []" using ids(2) by (metis image_eqI last_in_set)
    with False show ?thesis
      using dropWhile_cursor [OF ids(1)] by (simp add: cursor_after_def from_cursor_def)
  qed (simp add: cursor_after_def)
  have nat_L: "nat (max 1 (int L)) = L" using L(1) by simp
  have ne: "L < length ys \<Longrightarrow> take L ys \<noteq> []" using L(1) by auto
  show ?thesis
    using L ne
    unfolding getHistory_def GetHistoryOptions.simps option.case Let_def mine base nat_L
    by (auto simp: HISTORY_MAX_LIMIT_def cursor_after_def last_conv_nth min_def)
qed

lemma history_pages_suffix:
  assumes "\<And>i. ords i (filter (\<lambda>t. tx_userId t = uid) table) = xs @ ys"
    and "distinct (map tx_id (xs @ ys))" and "[] \<notin> tx_id ` set (xs @ ys)"
    and "1 \<le> L" "L \<le> 100" and "length ys < fuel"
  shows "history_pages ords uid (Some (int L)) table fuel (cursor_after xs) = Some ys"
  using assms
proof (induction fuel arbitrary: ords xs ys)
  case (Suc n)
  have nx: "[] \<notin> tx_id ` set xs" using Suc.prems(3) by auto
  obtain total where page: "getHistory (ords 0) uid \<lparr>h_limit = Some (int L), h_cursor = cursor_after xs\<rparr> table =
      Inr (take L ys, (if L < length ys then cursor_after (take L ys) else None), total)"
    using getHistory_page [of "ords 0" uid table xs ys L] Suc.prems nx by blast
  show ?case
  proof (cases "L < length ys")
    case True
    have ne: "take L ys \<noteq> []" using True Suc.prems(4) by auto
    have eq: "xs @ ys = (xs @ take L ys) @ drop L ys" by simp
    have "history_pages (\<lambda>i. ords (Suc i)) uid (Some (int L)) table n (cursor_after (xs @ take L ys)) = Some (drop L ys)"
      by (rule Suc.IH) (use Suc.prems True in \<open>simp_all only: eq [symmetric]\<close>, auto)
    moreover have "cursor_after (xs @ take L ys) = cursor_after (take L ys)"
      using ne by (simp add: cursor_after_def)
    ultimately show ?thesis using page True ne by (simp add: cursor_after_def)
  next
    case False
    with page show ?thesis by simp
  qed
qed simp


section \<open>The method as a sequence of phases\<close>

lemma phases_Done: "phases env conf fetch add now newId rq n (Done r, s) = (Done r, s)"
  by (induction n) (simp_all add: phase_def Let_def)

lemma phases_unfold:
  "phases env conf fetch add now newId rq 6 c =
     (let f = (\<lambda>(p, s). phase env conf fetch add now newId rq p s) in f (f (f (f (f (f c))))))"
  by (cases c) (simp add: eval_nat_numeral Let_def phases.simps(2) [where s = s and p = p for p s] split: prod.split)

lemma bindM_run: "m s = (r, s') \<Longrightarrow> bindM m f s = (case r of Inl e \<Rightarrow> (Inl e, s') | Inr x \<Rightarrow> f x s')"
  by (simp add: bindM_def split: sum.split)

lemma phase_effects:
  "bindM (enqueueJob add i u dto k) f s = f () (snd (enqueueJob add i u dto k s))"
  "bindM (writeCachedResponse now u k' r) f' s = f' () (snd (writeCachedResponse now u k' r s))"
  "bindM (\<lambda>s. (findByKey u k' s, s)) f'' s =
     (case findByKey u k' s of Inl e \<Rightarrow> (Inl e, s) | Inr x \<Rightarrow> f'' x s)"
  by (simp_all add: bindM_def enqueueJob_def writeCachedResponse_def modifyM_def Let_def split: sum.split)

section \<open>Schedules\<close>

text \<open>An executable scheduler: each entry lets a request take its next phase.\<close>

fun run_schedule ::
  "kyc_env \<Rightarrow> anchor_conf \<Rightarrow> (string \<Rightarrow> string \<Rightarrow> jsnum option res) \<Rightarrow> ('q \<Rightarrow> tx_job \<Rightarrow> 'q) \<Rightarrow>
     (nat \<Rightarrow> request) \<Rightarrow> (nat \<times> int \<times> string) list \<Rightarrow> 'q config \<Rightarrow> 'q config option" where
  "run_schedule env conf fetch add req [] c = Some c"
| "run_schedule env conf fetch add req ((i, now, newId) # xs) (pcs, s) =
     (if newId \<in> set (map tx_id (rows_of s)) then None
      else case phase env conf fetch add now newId (req i) (pcs i) s of
             (p', s') \<Rightarrow> run_schedule env conf fetch add req xs (pcs(i := p'), s'))"

lemma send_reachable_trans:
  assumes "send_reachable env conf fetch add req c1 c2" and "send_reachable env conf fetch add req c0 c1"
  shows "send_reachable env conf fetch add req c0 c2"
  using assms by (induction rule: send_reachable.induct) (auto intro: send_reachable.step)

lemma run_schedule_reachable:
  "run_schedule env conf fetch add req xs c = Some c' \<Longrightarrow> send_reachable env conf fetch add req c c'"
proof (induction xs arbitrary: c)
  case (Cons x xs)
  obtain i now newId where x: "x = (i, now, newId)" by (cases x)
  obtain pcs s where c: "c = (pcs, s)" by (cases c)
  obtain p' s' where ph: "phase env conf fetch add now newId (req i) (pcs i) s = (p', s')" by fastforce
  have fresh: "newId \<notin> tx_id ` set (rows_of s)"
    and run: "run_schedule env conf fetch add req xs (pcs(i := p'), s') = Some c'"
    using Cons.prems by (simp_all add: x c ph split: if_splits)
  have "send_reachable env conf fetch add req c (pcs(i := p'), s')"
    unfolding c using fresh ph by (intro send_reachable.step [OF send_reachable.start] send_step.advance)
  then show ?case by (rule send_reachable_trans [OF Cons.IH [OF run]])
qed (simp add: send_reachable.start)

section \<open>A concrete instance\<close>

text \<open>A queue as a list of jobs, one user with a wallet, and requests with one key.\<close>

definition example_env :: kyc_env where "example_env = \<lparr>toISO = show_int, startOfDay = (\<lambda>t. t), sha256 = (\<lambda>x. x), bucketName = ''b'',
         getSignedUrl = (\<lambda>_ _ _. None), s3_head = (\<lambda>_. HeadError), s3_chunks = (\<lambda>_. None)\<rparr>"

definition example_add :: "tx_job list \<Rightarrow> tx_job \<Rightarrow> tx_job list" where
  "example_add q j = (if jobId (j_options j) \<noteq> None \<and> jobId (j_options j) \<in> set (map (jobId \<circ> j_options) q) then q else q @ [j])"

definition example_state :: "tx_job list tx_state" where
  "example_state = \<lparr>ts_kyc = \<lparr>ks_db = empty_db\<lparr>wallets := [\<lparr>w_id = ''w'', w_userId = ''u'', w_publicKey = ''G'', w_alias = None, w_isDefault = True\<rparr>]\<rparr>,
      ks_anchor = \<lparr>an_store = Map.empty, an_breakers = Map.empty\<rparr>\<rparr>,
      ts_cache = Map.empty, ts_queue = [], ts_balances = Map.empty\<rparr>"

definition example_req :: "nat \<Rightarrow> request" where
  "example_req i = \<lparr>rq_user = ''u'', rq_dto = \<lparr>sd_destinationPublicKey = ''G'', sd_amount = ''10'', sd_assetCode = ''USDC'', sd_assetIssuer = None, sd_memo = None\<rparr>,
     rq_key = ''00000000-0000-0000-0000-000000000001''\<rparr>"


lemma example_bull: "bull_dedup example_add (\<lambda>q. q)"
  by (simp add: bull_dedup_def example_add_def)

section \<open>Properties\<close>

text \<open>
  C1. A transfer is submitted at most once per idempotency key, whatever the interleaving. Any
  number of requests with keys the controller admits run concurrently, cut into their phases, while
  stored transactions change their status. When two requests of one user with one key have
  been answered, they were given the same transaction, at most one of them created it, and the
  database holds exactly one transaction and the queue exactly one job for the key.
\<close>

theorem send_at_most_once:
  assumes "bull_dedup add jobs"
    and "\<And>i. normalizeIdempotencyKey (header i) = Inr (rq_key (req i))"
    and "rows_ok (rows_of s0)" and "ts_cache s0 = Map.empty" and "jobs (ts_queue s0) = []"
    and "send_reachable env conf fetch add req (\<lambda>_. Start, s0) (pcs, s)"
    and "pcs i = Done (Inr (r, replay))" and "pcs j = Done (Inr (r', replay'))"
    and "rq_user (req i) = u" "rq_user (req j) = u" "rq_key (req i) = k" "rq_key (req j) = k"
  shows "r_txId r' = r_txId r \<and> (i \<noteq> j \<longrightarrow> replay \<or> replay') \<and>
    length (filter (has_key u k) (rows_of s)) = 1 \<and>
    length (filter (\<lambda>job. jobId (j_options job) = Some (sendJobId u k)) (jobs (ts_queue s))) = 1"
proof -
  have kf: "key_free (rq_key (req n))" for n by (rule normalized_key_free [OF assms(2)])
  have inv: "send_inv jobs req (pcs, s)"
    by (rule send_reachable_inv [OF assms(6) initial_inv [of s0 jobs req] assms(1) kf])
      (use assms(3-5) in simp_all)
  note D = send_inv_D [OF inv]
  have own: "owner (rows_of s) u k (r_txId r)" "owner (rows_of s) u k (r_txId r')"
    and q: "queued (jobs (ts_queue s)) u k"
    and cr: "is_creator (pcs i) \<and> is_creator (pcs j) \<longrightarrow> i = j"
    using D(4) assms(7-) unfolding pcs_ok_def by (metis holds.simps(4), metis holds.simps(4),
      metis has_queued.simps(2), metis)
  have "i \<noteq> j \<longrightarrow> replay \<or> replay'" using cr assms(7,8) by auto
  with owner_unique [OF D(1) own] filter_key_length [OF D(3) q] show ?thesis by simp
qed

theorem send_at_most_once_witness:
  "case run_schedule example_env default_conf (\<lambda>_ _. Inr None) example_add example_req
     [(0, 1000, ''a''), (1, 1000, ''b''), (0, 1001, ''a''), (1, 1001, ''b''), (0, 1002, ''a''), (1, 1002, ''b''),
      (1, 1003, ''b''), (1, 1004, ''b''), (0, 1005, ''c''), (0, 1006, ''c''), (1, 1007, ''c'')]
     (\<lambda>_. Start, example_state) of
     None \<Rightarrow> False
   | Some (pcs, s) \<Rightarrow>
       (\<exists>r. pcs 0 = Done (Inr (r, False)) \<and> pcs 1 = Done (Inr (r, True))) \<and>
       length (filter (has_key ''u'' ''00000000-0000-0000-0000-000000000001'') (rows_of s)) = 1 \<and>
       length (filter (\<lambda>job. jobId (j_options job) =
         Some (sendJobId ''u'' ''00000000-0000-0000-0000-000000000001'')) (ts_queue s)) = 1"
proof -
  define sched :: "(nat \<times> int \<times> string) list" where "sched =
    [(0, 1000, ''a''), (1, 1000, ''b''), (0, 1001, ''a''), (1, 1001, ''b''), (0, 1002, ''a''), (1, 1002, ''b''),
     (1, 1003, ''b''), (1, 1004, ''b''), (0, 1005, ''c''), (0, 1006, ''c''), (1, 1007, ''c'')]"
  define out where "out = run_schedule example_env default_conf (\<lambda>_ _. Inr None) example_add example_req
    sched (\<lambda>_. Start, example_state)"
  have "case run_schedule example_env default_conf (\<lambda>_ _. Inr None) example_add example_req
      [(0, 1000, ''a''), (1, 1000, ''b''), (0, 1001, ''a''), (1, 1001, ''b''), (0, 1002, ''a''), (1, 1002, ''b''),
       (1, 1003, ''b''), (1, 1004, ''b''), (0, 1005, ''c''), (0, 1006, ''c''), (1, 1007, ''c'')]
      (\<lambda>_. Start, example_state) of
      Some (pcs, s) \<Rightarrow> pcs 0 = Done (Inr (\<lparr>r_txId = ''a'', r_status = TxPENDING\<rparr>, False)) \<and>
        pcs 1 = Done (Inr (\<lparr>r_txId = ''a'', r_status = TxPENDING\<rparr>, True))
    | None \<Rightarrow> False"
    by code_simp
  then obtain pcs s where out: "out = Some (pcs, s)"
    and d0: "pcs 0 = Done (Inr (\<lparr>r_txId = ''a'', r_status = TxPENDING\<rparr>, False))"
    and d1: "pcs 1 = Done (Inr (\<lparr>r_txId = ''a'', r_status = TxPENDING\<rparr>, True))"
    by (auto simp: out_def sched_def split: option.splits)
  have key: "normalizeIdempotencyKey (Some (rq_key (example_req i))) = Inr (rq_key (example_req i))" for i
    unfolding example_req_def request.simps by code_simp
  have init: "rows_ok (rows_of example_state)" "ts_cache example_state = Map.empty"
    "(\<lambda>q. q) (ts_queue example_state) = []"
    by (simp_all add: example_state_def empty_db_def rows_ok_def)
  have "send_reachable example_env default_conf (\<lambda>_ _. Inr None) example_add example_req
      (\<lambda>_. Start, example_state) (pcs, s)"
    by (rule run_schedule_reachable) (rule out [unfolded out_def])
  from send_at_most_once [OF example_bull key init this d0 d1, of "''u''" "''00000000-0000-0000-0000-000000000001''"]
  show ?thesis unfolding sched_def [symmetric] out_def [symmetric] out
    using d0 d1 by (simp add: example_req_def)
qed

text \<open>
  \<open>sendTransfer\<close> is its phases in a row: six phases from the start always answer, with the
  outcome and the state of the method.
\<close>

theorem sendTransfer_phases:
  assumes "rq_key rq \<noteq> []"
  shows "phases env conf fetch add now newId rq 6 (Start, s) =
    (let (res, s') = sendTransfer env conf fetch add now newId (rq_user rq) (rq_dto rq) (Some (rq_key rq)) s
     in (Done res, s'))"
proof -
  let ?u = "rq_user rq" and ?k = "rq_key rq" and ?dto = "rq_dto rq"
  note [simp] = phases_unfold assms sendTransfer_def Let_def
  obtain c s1 where rd: "readCachedResponse now ?u ?k s = (c, s1)" by fastforce
  obtain a s2 where ad: "admitTransfer env conf fetch now ?u ?dto s1 = (a, s2)" by fastforce
  note run = bindM_run [where m = "admitTransfer env conf fetch now ?u ?dto" and s = s1, OF ad]
  obtain t s3 where cr: "createTransaction now newId ?u ?dto (Some ?k) s2 = (t, s3)" by fastforce
  show ?thesis
  proof (cases c)
    case None
    note miss = this
    show ?thesis
    proof (cases a)
      case (Inr y)
      note ok = this
      show ?thesis
      proof (cases t)
        case (Inl e)
        then show ?thesis
          using rd miss ad ok cr
          by (cases "findByKey ?u ?k s3")
            (simp_all add: phase_def thenM_def run replayFromDb_def phase_effects ret_def)
      next
        case (Inr tx)
        then show ?thesis
          using rd miss ad ok cr by (simp add: phase_def thenM_def run phase_effects ret_def)
      qed
    qed (use rd miss ad in \<open>simp add: phase_def thenM_def run\<close>)
  qed (use rd in \<open>simp add: phase_def\<close>)
qed

theorem sendTransfer_phases_witness:
  "phases example_env default_conf (\<lambda>_ _. Inr None) example_add 1000 ''a'' (example_req 0) 6 (Start, example_state) =
    (let (res, s') = sendTransfer example_env default_conf (\<lambda>_ _. Inr None) example_add 1000 ''a''
         ''u'' (rq_dto (example_req 0)) (Some (rq_key (example_req 0))) example_state
     in (Done res, s'))"
  using sendTransfer_phases [of "example_req 0" example_env default_conf "\<lambda>_ _. Inr None" example_add 1000
      "''a''" example_state]
  by (simp add: example_req_def)

text \<open>
  C10. Reading the history page by page, following \<open>nextCursor\<close>, returns every transaction of the user exactly once, the newest first,
  with any page size from 1 to 100, in at most one request per transaction and one more. This holds while the table does not change between
  the requests and no two transactions of the user have the same \<open>createdAt\<close>; their ids are unique and not empty. Each request may order
  the rows in any way that is descending in \<open>createdAt\<close>.
\<close>

theorem history_pages_complete:
  assumes "\<And>i. newest_first (ords i)" and "mine = filter (\<lambda>t. tx_userId t = uid) table"
    and "distinct (map tx_createdAt mine)" and "distinct (map tx_id mine)" and "[] \<notin> tx_id ` set mine"
    and "1 \<le> L" and "L \<le> 100" and "length mine < fuel"
  shows "\<exists>h. history_pages ords uid (Some (int L)) table fuel None = Some h \<and> set h = set mine \<and> distinct h \<and>
    sorted_wrt (\<lambda>a b. tx_createdAt b < tx_createdAt a) h"
proof -
  define h where "h = ords 0 mine"
  have one: "ords i (filter (\<lambda>t. tx_userId t = uid) table) = [] @ h" for i
    using newest_first_unique [OF assms(1,1,3)] by (simp add: h_def assms(2) [symmetric])
  have set_h: "set h = set mine" using assms(1) by (simp add: h_def newest_first_def)
  note strict = newest_first_strict [OF assms(1) [of 0] assms(3), folded h_def]
  have "length h = length mine"
    using strict(2) set_h assms(3) by (metis distinct_card distinct_map)
  moreover have "distinct (map tx_id h)" using strict(2) set_h assms(4) by (simp add: distinct_map)
  ultimately have "history_pages ords uid (Some (int L)) table fuel (cursor_after []) = Some h"
    using history_pages_suffix [of ords uid table "[]" h L fuel, OF one] assms(5-8) set_h by simp
  then show ?thesis using strict set_h by (auto simp: cursor_after_def)
qed

definition page_row :: "string \<Rightarrow> int \<Rightarrow> Transaction" where
  "page_row i t = new_transaction t i ''u'' \<lparr>w_id = ''w'', w_userId = ''u'', w_publicKey = ''G'', w_alias = None, w_isDefault = True\<rparr>
     (rq_dto (example_req 0)) None"

lemma page_row_simps [simp]: "tx_id (page_row i t) = i" "tx_createdAt (page_row i t) = t" "tx_userId (page_row i t) = ''u''"
  by (simp_all add: page_row_def new_transaction_def)

text \<open>Two orders that the query allows; they differ on rows with equal stamps.\<close>

definition newest_stable :: "Transaction list \<Rightarrow> Transaction list" where
  "newest_stable rows = rev (sort_key tx_createdAt rows)"

definition newest_flipped :: "Transaction list \<Rightarrow> Transaction list" where
  "newest_flipped rows = rev (sort_key tx_createdAt (rev rows))"

lemma newest_orders: "newest_first newest_stable" "newest_first newest_flipped"
  by (auto simp: newest_first_def newest_stable_def newest_flipped_def sorted_wrt_rev sorted_wrt_map [symmetric] sorted_sort_key)

theorem history_pages_complete_witness:
  "\<exists>h. history_pages (\<lambda>i. if even i then newest_stable else newest_flipped) ''u'' (Some (int 2))
      [page_row ''1'' 1000, page_row ''2'' 1003, page_row ''3'' 1002] 4 None = Some h \<and>
    set h = {page_row ''1'' 1000, page_row ''2'' 1003, page_row ''3'' 1002}"
proof -
  let ?ords = "\<lambda>i::nat. if even i then newest_stable else newest_flipped"
  let ?rows = "[page_row ''1'' 1000, page_row ''2'' 1003, page_row ''3'' 1002]"
  have "newest_first (?ords i)" for i by (simp add: newest_orders)
  from history_pages_complete [of ?ords, OF this, of ?rows "''u''" ?rows 2 4]
  obtain h where "history_pages ?ords ''u'' (Some (int 2)) ?rows 4 None = Some h" "set h = set ?rows" by auto
  then show ?thesis by (intro exI [of _ h] conjI) (simp_all only: list.set)
qed

text \<open>
  Rows with equal stamps can be lost between two pages: when the database returns them in another order for the second request, the
  row that had not been shown now stands before the cursor.
\<close>

theorem equal_stamps_lose_a_row:
  "history_pages (\<lambda>i. if i = 0 then newest_stable else newest_flipped) ''u'' (Some 1) [page_row ''1'' 1000, page_row ''2'' 1000] 3 None =
     Some [page_row ''2'' 1000]"
  by (simp add: getHistory_def newest_stable_def newest_flipped_def from_cursor_def HISTORY_MAX_LIMIT_def numeral_3_eq_3)

end
