(* ===== verification/Processor.thy ===== *)
theory Processor
  imports Transactions AuditTrail Integrity Lock
begin

text \<open>
  The worker of the queue \<open>transactions\<close> (\<open>apps/api/src/transaction/transaction.processor.ts\<close>)
  and the client of the fraud service (\<open>fraud.service.ts\<close>): a job loads its transaction, is
  skipped when that has settled, and is otherwise processed under a lock: amount integrity, fraud
  score, submission. The fraud service and the submission to the network are arguments;
  \<open>ps_submitted\<close> records which transactions were handed to the network, in order.

  The handler is cut where other handlers can interleave: \<open>handler_load\<close> reads the row and
  decides, \<open>handler_run\<close> works under the lock on the row that was read. A dash in two messages of
  the source is written as a colon.
\<close>

section \<open>Data\<close>

definition FRAUD_BLOCK_THRESHOLD :: jsnum where "FRAUD_BLOCK_THRESHOLD = round64 (8 / 10)"
definition FRAUD_REVIEW_THRESHOLD :: jsnum where "FRAUD_REVIEW_THRESHOLD = round64 (1 / 2)"

record TransactionJobData =
  jd_txId :: string
  jd_userId :: string
  jd_destinationPublicKey :: string
  jd_amount :: string
  jd_assetCode :: string

record FraudScoreRequest =
  fq_tx_id :: string
  fq_user_id :: string
  fq_amount :: jsnum
  fq_asset_code :: string
  fq_destination :: string

text \<open>The body of the answer is not validated: a field may be missing.\<close>

record FraudScoreResponse =
  fr_risk_score :: "jsnum option"
  fr_flagged :: "bool option"
  fr_reasons :: "json"

record proc_env =
  pe_digest :: "json \<Rightarrow> string"
  pe_toISO :: "int \<Rightarrow> string"
  pe_trigger :: bool
  pe_newId :: "AuditLog list \<Rightarrow> string"
  pe_fraud :: "FraudScoreRequest \<Rightarrow> FraudScoreResponse res"
  pe_submit :: "Transaction \<Rightarrow> string res"

record proc_state =
  ps_rows :: "Transaction list"
  ps_audit :: "AuditLog list"
  ps_locks :: lock_map
  ps_submitted :: "string list"

text \<open>The submission in the repository: a stub that returns a random hash.\<close>

definition processOnChain :: "string \<Rightarrow> Transaction \<Rightarrow> string res" where
  "processOnChain random t = Inr (''0x'' @ random)"

fun error_message :: "exn \<Rightarrow> string" where
  "error_message (HttpException _ m) = m"
| "error_message (PrismaError c) = c"
| "error_message (JsError _ m) = m"

section \<open>Effects\<close>

definition p_audit ::
  "proc_env \<Rightarrow> int \<Rightarrow> string \<Rightarrow> string \<Rightarrow> string \<Rightarrow> string option \<Rightarrow> (string \<times> json) list \<Rightarrow> (proc_state, unit) M" where
  "p_audit env now userId operation outcome txHash metadata =
     modifyM (\<lambda>s. s\<lparr>ps_audit := audit_log (pe_digest env) (pe_toISO env) (pe_trigger env) now
       (pe_newId env (ps_audit s))
       (Options (no_options\<lparr>o_userId := Some userId, o_category := Some ''TRANSACTION'',
          o_operation := Some operation, o_outcome := Some outcome, o_txHash := txHash,
          o_metadata := Some (JObject metadata)\<rparr>))
       (ps_audit s)\<rparr>)"

definition p_update :: "string \<Rightarrow> (Transaction \<Rightarrow> Transaction) \<Rightarrow> (proc_state, Transaction) M" where
  "p_update txId f s =
     (case update_one (\<lambda>t. tx_id t = txId) f (ps_rows s) of
        None \<Rightarrow> (Inl (PrismaError ''P2025''), s)
      | Some (t, rows) \<Rightarrow> (Inr t, s\<lparr>ps_rows := rows\<rparr>))"

definition p_submit :: "proc_env \<Rightarrow> Transaction \<Rightarrow> (proc_state, string) M" where
  "p_submit env t s = (pe_submit env t, s\<lparr>ps_submitted := ps_submitted s @ [tx_id t]\<rparr>)"

section \<open>The fraud check\<close>

text \<open>\<open>undefined >= x\<close> is false.\<close>

definition at_least :: "jsnum option \<Rightarrow> jsnum \<Rightarrow> bool" where
  "at_least r x = (case r of None \<Rightarrow> False | Some v \<Rightarrow> js_le x v)"

definition jnum :: "jsnum option \<Rightarrow> json" where
  "jnum r = (case r of None \<Rightarrow> JNull | Some v \<Rightarrow> JNumber v)"

datatype fraud_result = Blocked Transaction | Cleared "jsnum option" "bool option"

definition set_risk :: "jsnum option \<Rightarrow> bool option \<Rightarrow> Transaction \<Rightarrow> Transaction" where
  "set_risk riskScore flagged t =
     t\<lparr>tx_riskScore := (case riskScore of None \<Rightarrow> tx_riskScore t | Some v \<Rightarrow> Some v),
       tx_flagged := (case flagged of None \<Rightarrow> tx_flagged t | Some b \<Rightarrow> b)\<rparr>"

definition runFraudCheck ::
  "proc_env \<Rightarrow> int \<Rightarrow> string \<Rightarrow> Transaction \<Rightarrow> string \<Rightarrow> string \<Rightarrow> string \<Rightarrow> (proc_state, fraud_result) M" where
  "runFraudCheck env now userId t amount assetCode destination =
     (case pe_fraud env \<lparr>fq_tx_id = tx_id t, fq_user_id = userId, fq_amount = parseFloat amount,
             fq_asset_code = assetCode, fq_destination = destination\<rparr> of
        Inl err \<Rightarrow>
          bindM (p_update (tx_id t) (\<lambda>r. r\<lparr>tx_status := TxFAILED, tx_riskScore := None, tx_flagged := False\<rparr>))
            (\<lambda>updatedTx.
          thenM (p_audit env now userId ''TRANSACTION_FAILED'' ''FAILURE'' None
                   [(''transactionId'', JString (tx_id t)),
                    (''reason'', JString ''Fraud service unavailable''),
                    (''error'', JString (error_message err))])
            (ret (Blocked updatedTx)))
      | Inr resp \<Rightarrow>
          let riskScore = fr_risk_score resp; flagged = fr_flagged resp; reasons = fr_reasons resp
          in if at_least riskScore FRAUD_BLOCK_THRESHOLD then
               bindM (p_update (tx_id t) (\<lambda>r. r\<lparr>tx_status := TxFAILED, tx_riskScore := riskScore, tx_flagged := True\<rparr>))
                 (\<lambda>updatedTx.
               thenM (p_audit env now userId ''TRANSACTION_BLOCKED'' ''FAILURE'' None
                        [(''transactionId'', JString (tx_id t)), (''riskScore'', jnum riskScore),
                         (''reasons'', reasons),
                         (''reason'', JString ''High fraud risk score: transaction blocked'')])
                 (ret (Blocked updatedTx)))
             else if at_least riskScore FRAUD_REVIEW_THRESHOLD then
               bindM (p_update (tx_id t) (\<lambda>r. r\<lparr>tx_status := TxPENDING_REVIEW, tx_riskScore := riskScore, tx_flagged := True\<rparr>))
                 (\<lambda>updatedTx.
               thenM (p_audit env now userId ''TRANSACTION_PENDING_REVIEW'' ''SUCCESS'' None
                        [(''transactionId'', JString (tx_id t)), (''riskScore'', jnum riskScore),
                         (''reasons'', reasons),
                         (''reason'', JString ''Medium fraud risk score: held for manual review'')])
                 (ret (Blocked updatedTx)))
             else
               bindM (p_update (tx_id t) (set_risk riskScore flagged))
                 (\<lambda>_. ret (Cleared riskScore flagged)))"

section \<open>Processing\<close>

definition submit_and_settle ::
  "proc_env \<Rightarrow> int \<Rightarrow> string \<Rightarrow> Transaction \<Rightarrow> string \<Rightarrow> string \<Rightarrow> jsnum option \<Rightarrow> bool option \<Rightarrow>
     (proc_state, Transaction) M" where
  "submit_and_settle env now userId t amount toAddress riskScore flagged =
     bindM (p_submit env t) (\<lambda>hash.
     bindM (p_update (tx_id t) (\<lambda>r. (set_risk riskScore flagged r)\<lparr>tx_status := TxSUCCESS,
              tx_stellarTxHash := Some hash\<rparr>)) (\<lambda>updated.
     thenM (p_audit env now userId ''TRANSACTION_COMPLETE'' ''SUCCESS'' (Some hash)
              [(''transactionId'', JString (tx_id t)), (''toAddress'', JString toAddress),
               (''amount'', JString amount)])
       (ret updated)))"

definition processTransaction ::
  "proc_env \<Rightarrow> int \<Rightarrow> string \<Rightarrow> Transaction \<Rightarrow> string \<Rightarrow> string \<Rightarrow> string \<Rightarrow> (proc_state, Transaction) M" where
  "processTransaction env now userId t amount assetCode toAddress =
     thenM (liftR (assertTransactionAmountIntegrity amount (tx_amount t)))
    (thenM (p_audit env now userId ''TRANSACTION_INITIATE'' ''SUCCESS'' None
              [(''transactionId'', JString (tx_id t)), (''toAddress'', JString toAddress),
               (''amount'', JString amount), (''assetCode'', JString assetCode)])
    (bindM (runFraudCheck env now userId t amount assetCode toAddress) (\<lambda>fraudResult.
       case fraudResult of
         Blocked updatedTx \<Rightarrow> ret updatedTx
       | Cleared riskScore flagged \<Rightarrow>
           catchM (submit_and_settle env now userId t amount toAddress riskScore flagged)
             (\<lambda>e. bindM (p_update (tx_id t) (\<lambda>r. r\<lparr>tx_status := TxFAILED\<rparr>)) (\<lambda>_.
                  thenM (p_audit env now userId ''TRANSACTION_FAILED'' ''FAILURE'' None
                           [(''transactionId'', JString (tx_id t)), (''toAddress'', JString toAddress),
                            (''amount'', JString amount), (''error'', JString (error_message e))])
                    (throw e))))))"

definition terminal :: "TransactionStatus \<Rightarrow> bool" where
  "terminal st = (st \<in> {TxSUCCESS, TxFAILED, TxPENDING_REVIEW})"

text \<open>The first part of the handler: \<open>Inl\<close> the row that is returned as it is, \<open>Inr\<close> the row to process.\<close>

definition handler_load :: "string \<Rightarrow> TransactionJobData \<Rightarrow> (proc_state, Transaction + Transaction) M" where
  "handler_load jobIdent job s =
     (case find (\<lambda>t. tx_id t = jd_txId job) (ps_rows s) of
        None \<Rightarrow> (Inl (JsError ''Error'' (''Transaction '' @ jd_txId job @ '' not found for job '' @ jobIdent)), s)
      | Some t \<Rightarrow> (Inr (if terminal (tx_status t) then Inl t else Inr t), s))"

definition escrow_lock :: "Transaction \<Rightarrow> string" where
  "escrow_lock t = ''lock:escrow:'' @ tx_id t"

text \<open>The second part, on the row the first part has read; \<open>token\<close> and \<open>lost\<close> are the lock's.\<close>

definition handler_run ::
  "proc_env \<Rightarrow> int \<Rightarrow> string \<Rightarrow> bool \<Rightarrow> TransactionJobData \<Rightarrow> Transaction \<Rightarrow> (proc_state, Transaction) M" where
  "handler_run env now token lost job t =
     withLock ps_locks (\<lambda>m s. s\<lparr>ps_locks := m\<rparr>) now token (escrow_lock t) lost
       (processTransaction env now (jd_userId job) t (jd_amount job) (jd_assetCode job)
          (jd_destinationPublicKey job)) LOCK_TTL_MS"

definition handleSendTransaction ::
  "proc_env \<Rightarrow> int \<Rightarrow> string \<Rightarrow> bool \<Rightarrow> string \<Rightarrow> TransactionJobData \<Rightarrow> (proc_state, Transaction) M" where
  "handleSendTransaction env now token lost jobIdent job =
     bindM (handler_load jobIdent job) (\<lambda>d.
       case d of Inl t \<Rightarrow> ret t | Inr t \<Rightarrow> handler_run env now token lost job t)"

section \<open>The policy\<close>

text \<open>
  What is to happen to a transaction, decided from the two amounts, the answer of the fraud
  service and the answer of the network. This is the specification of \<open>processTransaction\<close>.
\<close>

datatype verdict =
    Tampered exn
  | Unscored
  | HighRisk "jsnum option"
  | MediumRisk "jsnum option"
  | Settled "jsnum option" "bool option" string
  | Rejected "jsnum option" "bool option" exn

definition fraud_request :: "string \<Rightarrow> Transaction \<Rightarrow> string \<Rightarrow> string \<Rightarrow> string \<Rightarrow> FraudScoreRequest" where
  "fraud_request userId t amount assetCode destination =
     \<lparr>fq_tx_id = tx_id t, fq_user_id = userId, fq_amount = parseFloat amount,
      fq_asset_code = assetCode, fq_destination = destination\<rparr>"

definition judge :: "proc_env \<Rightarrow> string \<Rightarrow> Transaction \<Rightarrow> string \<Rightarrow> string \<Rightarrow> string \<Rightarrow> verdict" where
  "judge env userId t amount assetCode destination =
     (case assertTransactionAmountIntegrity amount (tx_amount t) of
        Inl e \<Rightarrow> Tampered e
      | Inr _ \<Rightarrow>
          (case pe_fraud env (fraud_request userId t amount assetCode destination) of
             Inl _ \<Rightarrow> Unscored
           | Inr resp \<Rightarrow>
               if at_least (fr_risk_score resp) FRAUD_BLOCK_THRESHOLD then HighRisk (fr_risk_score resp)
               else if at_least (fr_risk_score resp) FRAUD_REVIEW_THRESHOLD then MediumRisk (fr_risk_score resp)
               else (case pe_submit env t of
                       Inl e \<Rightarrow> Rejected (fr_risk_score resp) (fr_flagged resp) e
                     | Inr hash \<Rightarrow> Settled (fr_risk_score resp) (fr_flagged resp) hash)))"

fun verdict_row :: "verdict \<Rightarrow> Transaction \<Rightarrow> Transaction" where
  "verdict_row (Tampered _) r = r"
| "verdict_row Unscored r = r\<lparr>tx_status := TxFAILED, tx_riskScore := None, tx_flagged := False\<rparr>"
| "verdict_row (HighRisk v) r = r\<lparr>tx_status := TxFAILED, tx_riskScore := v, tx_flagged := True\<rparr>"
| "verdict_row (MediumRisk v) r = r\<lparr>tx_status := TxPENDING_REVIEW, tx_riskScore := v, tx_flagged := True\<rparr>"
| "verdict_row (Settled v f hash) r =
     (set_risk v f r)\<lparr>tx_status := TxSUCCESS, tx_stellarTxHash := Some hash\<rparr>"
| "verdict_row (Rejected v f _) r = (set_risk v f r)\<lparr>tx_status := TxFAILED\<rparr>"

fun verdict_submits :: "verdict \<Rightarrow> bool" where
  "verdict_submits (Settled _ _ _) = True"
| "verdict_submits (Rejected _ _ _) = True"
| "verdict_submits _ = False"

fun verdict_result :: "verdict \<Rightarrow> Transaction \<Rightarrow> Transaction res" where
  "verdict_result (Tampered e) r = Inl e"
| "verdict_result (Rejected _ _ e) r = Inl e"
| "verdict_result v r = Inr (verdict_row v r)"

section \<open>Lemmas\<close>

lemma p_update_found:
  assumes "find (\<lambda>t. tx_id t = i) (ps_rows s) = Some r"
  shows "p_update i f s = (Inr (f r), s\<lparr>ps_rows := update_where (\<lambda>t. tx_id t = i) f (ps_rows s)\<rparr>)"
  using assms by (simp add: p_update_def update_one_def)

lemma find_after_update:
  assumes "find (\<lambda>t. tx_id t = i) rows = Some r" and "\<And>t. tx_id (f t) = tx_id t"
  shows "find (\<lambda>t. tx_id t = i) (update_where (\<lambda>t. tx_id t = i) f rows) = Some (f r)"
  using assms find_Some_D [OF assms(1)] by (simp add: find_update_where)

lemma update_where_twice:
  assumes "\<And>t. tx_id (f t) = tx_id t"
  shows "update_where (\<lambda>t. tx_id t = i) g (update_where (\<lambda>t. tx_id t = i) f rows) =
    update_where (\<lambda>t. tx_id t = i) (\<lambda>t. g (f t)) rows"
  by (induction rows) (auto simp: assms)

lemma set_risk_id [simp]: "tx_id (set_risk v f t) = tx_id t" "tx_status (set_risk v f t) = tx_status t"
  by (simp_all add: set_risk_def)

lemma set_risk_twice [simp]: "set_risk v f (set_risk v f t) = set_risk v f t"
  by (simp add: set_risk_def split: option.split)

lemma verdict_row_id [simp]: "tx_id (verdict_row v t) = tx_id t"
  by (cases v) simp_all

lemma verdict_row_fun:
  "verdict_row Unscored = (\<lambda>r. r\<lparr>tx_status := TxFAILED, tx_riskScore := None, tx_flagged := False\<rparr>)"
  "verdict_row (HighRisk v) = (\<lambda>r. r\<lparr>tx_status := TxFAILED, tx_riskScore := v, tx_flagged := True\<rparr>)"
  "verdict_row (MediumRisk v) = (\<lambda>r. r\<lparr>tx_status := TxPENDING_REVIEW, tx_riskScore := v, tx_flagged := True\<rparr>)"
  "verdict_row (Settled v f hash) =
     (\<lambda>r. (set_risk v f r)\<lparr>tx_status := TxSUCCESS, tx_stellarTxHash := Some hash\<rparr>)"
  "verdict_row (Rejected v f e) = (\<lambda>r. (set_risk v f r)\<lparr>tx_status := TxFAILED\<rparr>)"
  by (simp_all add: fun_eq_iff)

text \<open>The processing of a stored transaction carries out the verdict.\<close>

lemma processTransaction_verdict:
  assumes row: "find (\<lambda>r. tx_id r = tx_id t) (ps_rows s) = Some r"
    and v: "v = judge env userId t amount assetCode dest"
  shows "processTransaction env now userId t amount assetCode dest s =
    (verdict_result v r,
     s\<lparr>ps_rows := update_where (\<lambda>x. tx_id x = tx_id t) (verdict_row v) (ps_rows s),
       ps_audit := ps_audit (snd (processTransaction env now userId t amount assetCode dest s)),
       ps_submitted := ps_submitted s @ (if verdict_submits v then [tx_id t] else [])\<rparr>)"
proof -
  note run = processTransaction_def runFraudCheck_def fraud_request_def judge_def p_audit_def Let_def
    thenM_def liftR_def bindM_def ret_def throw_def modifyM_def
  have row': "find (\<lambda>r. tx_id r = tx_id t) (update_where (\<lambda>x. tx_id x = tx_id t) (set_risk a b) (ps_rows s)) =
      Some (set_risk a b r)" for a b
    by (rule find_after_update [OF row]) simp
  have same: "update_where P (verdict_row (Tampered e)) rows = rows" for P rows e
    by (induction rows) auto
  show ?thesis
  proof (cases "assertTransactionAmountIntegrity amount (tx_amount t)")
    case (Inl e)
    then show ?thesis by (cases s) (simp add: v run same)
  next
    case (Inr x)
    note ok = this
    show ?thesis
    proof (cases "pe_fraud env (fraud_request userId t amount assetCode dest)")
      case (Inl e)
      then show ?thesis using ok row by (simp add: v run p_update_found verdict_row_fun)
    next
      case (Inr resp)
      note resp = this
      consider (high) "at_least (fr_risk_score resp) FRAUD_BLOCK_THRESHOLD"
        | (medium) "\<not> at_least (fr_risk_score resp) FRAUD_BLOCK_THRESHOLD"
            "at_least (fr_risk_score resp) FRAUD_REVIEW_THRESHOLD"
        | (low) "\<not> at_least (fr_risk_score resp) FRAUD_BLOCK_THRESHOLD"
            "\<not> at_least (fr_risk_score resp) FRAUD_REVIEW_THRESHOLD" by blast
      then show ?thesis
      proof cases
        case high
        then show ?thesis using ok resp row by (simp add: v run p_update_found verdict_row_fun)
      next
        case medium
        then show ?thesis using ok resp row by (simp add: v run p_update_found verdict_row_fun)
      next
        case low
        then show ?thesis
          using ok resp row
          by (cases "pe_submit env t")
            (simp_all add: v run p_update_found row' catchM_def submit_and_settle_def p_submit_def
              update_where_twice verdict_row_fun)
      qed
    qed
  qed
qed

text \<open>A job on an unsettled row with a free lock.\<close>

lemma handler_run_verdict:
  assumes row: "find (\<lambda>r. tx_id r = tx_id t) (ps_rows s) = Some r"
    and free: "mem_holder now (ps_locks s) (escrow_lock t) = None"
    and v: "v = judge env (jd_userId job) t (jd_amount job) (jd_assetCode job) (jd_destinationPublicKey job)"
  shows "\<exists>a. handler_run env now token lost job t s =
    (verdict_result v r,
     s\<lparr>ps_rows := update_where (\<lambda>x. tx_id x = tx_id t) (verdict_row v) (ps_rows s),
       ps_audit := a, ps_locks := (ps_locks s)(escrow_lock t := None),
       ps_submitted := ps_submitted s @ (if verdict_submits v then [tx_id t] else [])\<rparr>)"
proof -
  define s1 where "s1 = s\<lparr>ps_locks := (ps_locks s)(escrow_lock t \<mapsto>
    \<lparr>l_token = token, l_expiresAt = now + LOCK_TTL_MS\<rparr>)\<rparr>"
  have "find (\<lambda>r. tx_id r = tx_id t) (ps_rows s1) = Some r" using row by (simp add: s1_def)
  note pt = processTransaction_verdict [OF this v, of now]
  define s2 where "s2 = snd (processTransaction env now (jd_userId job) t (jd_amount job) (jd_assetCode job)
    (jd_destinationPublicKey job) s1)"
  have s2: "s2 = s1\<lparr>ps_rows := update_where (\<lambda>x. tx_id x = tx_id t) (verdict_row v) (ps_rows s1),
      ps_audit := ps_audit s2,
      ps_submitted := ps_submitted s1 @ (if verdict_submits v then [tx_id t] else [])\<rparr>"
    unfolding s2_def by (subst pt) (simp only: snd_conv)
  have "handler_run env now token lost job t s =
      (verdict_result v r, s2\<lparr>ps_locks := (ps_locks s)(escrow_lock t := None)\<rparr>)"
    unfolding handler_run_def
  proof (rule withLock_free)
    show "mem_holder now (ps_locks s) (escrow_lock t) = None" by (rule free)
    show "processTransaction env now (jd_userId job) t (jd_amount job) (jd_assetCode job)
        (jd_destinationPublicKey job) (s\<lparr>ps_locks := (ps_locks s)(escrow_lock t \<mapsto>
          \<lparr>l_token = token, l_expiresAt = now + LOCK_TTL_MS\<rparr>)\<rparr>) = (verdict_result v r, s2)"
      unfolding s1_def [symmetric] using pt s2_def by (simp add: prod_eq_iff)
    show "ps_locks s2 = (ps_locks s)(escrow_lock t \<mapsto> \<lparr>l_token = token, l_expiresAt = now + LOCK_TTL_MS\<rparr>)"
      by (subst s2) (simp add: s1_def)
  qed simp
  then show ?thesis
    by (subst (asm) s2) (rule exI [of _ "ps_audit s2"], simp add: s1_def)
qed

lemma handle_unsettled:
  assumes row: "find (\<lambda>r. tx_id r = jd_txId job) (ps_rows s) = Some t" and "\<not> terminal (tx_status t)"
  shows "handleSendTransaction env now token lost j job s = handler_run env now token lost job t s"
  using assms by (simp add: handleSendTransaction_def bindM_def handler_load_def)

lemma handle_settled:
  assumes "find (\<lambda>r. tx_id r = jd_txId job) (ps_rows s) = Some t" and "terminal (tx_status t)"
  shows "handleSendTransaction env now token lost j job s = (Inr t, s)"
  using assms by (simp add: handleSendTransaction_def bindM_def handler_load_def ret_def)

lemma verdict_terminal: "\<forall>e. v \<noteq> Tampered e \<Longrightarrow> terminal (tx_status (verdict_row v t))"
  by (cases v) (auto simp: terminal_def)

section \<open>A concrete instance\<close>

text \<open>A fraud service with a fixed answer, the stub of the submission, and one pending transfer.\<close>

definition example_penv :: "FraudScoreResponse res \<Rightarrow> proc_env" where
  "example_penv answer = \<lparr>pe_digest = (\<lambda>_. ''h''), pe_toISO = show_int, pe_trigger = False,
     pe_newId = (\<lambda>rows. show_nat (length rows)), pe_fraud = (\<lambda>_. answer), pe_submit = processOnChain ''ab''\<rparr>"

definition example_answer :: "jsnum option \<Rightarrow> FraudScoreResponse res" where
  "example_answer score = Inr \<lparr>fr_risk_score = score, fr_flagged = Some False, fr_reasons = JArray []\<rparr>"

definition example_row :: Transaction where
  "example_row = \<lparr>tx_id = ''t1'', tx_userId = ''u'', tx_walletId = ''w'', tx_destination = ''GB'',
     tx_amount = ''10.50'', tx_assetCode = ''USDC'', tx_assetIssuer = None, tx_memo = None,
     tx_idempotencyKey = None, tx_status = TxPENDING, tx_stellarTxHash = None, tx_riskScore = None,
     tx_flagged = False, tx_createdAt = 1000, tx_updatedAt = 1000\<rparr>"

definition example_job :: TransactionJobData where
  "example_job = \<lparr>jd_txId = ''t1'', jd_userId = ''u'', jd_destinationPublicKey = ''GB'',
     jd_amount = ''010.5'', jd_assetCode = ''USDC''\<rparr>"

definition example_pstate :: proc_state where
  "example_pstate = \<lparr>ps_rows = [example_row], ps_audit = [], ps_locks = Map.empty, ps_submitted = []\<rparr>"

lemma example_judge:
  "judge (example_penv (example_answer (Some (Num (1 / 4))))) ''u'' example_row ''010.5'' ''USDC'' ''GB'' =
    Settled (Some (Num (1 / 4))) (Some False) ''0xab''"
  "judge (example_penv (example_answer None)) ''u'' example_row ''010.5'' ''USDC'' ''GB'' =
    Settled None (Some False) ''0xab''"
  by code_simp+

lemma example_state_simps:
  "find (\<lambda>r. tx_id r = ''t1'') (ps_rows example_pstate) = Some example_row"
  "tx_id example_row = ''t1''" "tx_status example_row = TxPENDING" "ps_submitted example_pstate = []"
  "ps_locks example_pstate = Map.empty" "\<not> terminal TxPENDING"
  by (simp_all add: example_pstate_def example_row_def terminal_def)

lemma example_job_simps:
  "jd_txId example_job = ''t1''" "jd_userId example_job = ''u''" "jd_destinationPublicKey example_job = ''GB''"
  "jd_amount example_job = ''010.5''" "jd_assetCode example_job = ''USDC''"
  by (simp_all add: example_job_def)

section \<open>Properties\<close>

text \<open>
  C5. Processing a stored transaction carries out the fraud policy, in every case: the row
  becomes what the verdict says, every other row stays as it is, the network is called exactly when the
  verdict is to submit, and the outcome is the updated row or the error.
\<close>

theorem process_refines_policy:
  assumes "find (\<lambda>r. tx_id r = tx_id t) (ps_rows s) = Some r"
    and "v = judge env userId t amount assetCode dest"
    and "processTransaction env now userId t amount assetCode dest s = (res, s')"
  shows "res = verdict_result v r \<and>
    ps_rows s' = update_where (\<lambda>x. tx_id x = tx_id t) (verdict_row v) (ps_rows s) \<and>
    ps_submitted s' = ps_submitted s @ (if verdict_submits v then [tx_id t] else []) \<and>
    ps_locks s' = ps_locks s"
proof -
  define a where "a = ps_audit s'"
  have "(res, s') = (verdict_result v r,
      s\<lparr>ps_rows := update_where (\<lambda>x. tx_id x = tx_id t) (verdict_row v) (ps_rows s), ps_audit := a,
        ps_submitted := ps_submitted s @ (if verdict_submits v then [tx_id t] else [])\<rparr>)"
    using processTransaction_verdict [OF assms(1,2), of now] unfolding assms(3) a_def snd_conv .
  then show ?thesis by simp
qed

theorem process_refines_policy_witness:
  "let env = example_penv (example_answer (Some (Num (1 / 4))));
       (res, s') = processTransaction env 2000 ''u'' example_row ''010.5'' ''USDC'' ''GB'' example_pstate
   in ps_submitted s' = [''t1''] \<and>
      res = Inr (verdict_row (Settled (Some (Num (1 / 4))) (Some False) ''0xab'') example_row)"
  using process_refines_policy [of example_row example_pstate example_row _
      "example_penv (example_answer (Some (Num (1 / 4))))" "''u''" "''010.5''" "''USDC''" "''GB''" 2000,
      OF _ refl surjective_pairing]
  by (simp add: example_judge example_state_simps Let_def split: prod.split) auto

text \<open>
  C6. Nothing is submitted past the guards. A transaction is handed to the network only if the
  amount of the job and the stored amount denote the same number, the fraud service answered,
  and its answer did not report a risk score of one half or more.
\<close>

theorem submission_guarded:
  assumes "find (\<lambda>r. tx_id r = tx_id t) (ps_rows s) = Some r"
    and "processTransaction env now userId t amount assetCode dest s = (res, s')"
    and "ps_submitted s' \<noteq> ps_submitted s"
  shows "amount_value amount \<noteq> None \<and> amount_value amount = amount_value (tx_amount t) \<and>
    (\<exists>resp. pe_fraud env (fraud_request userId t amount assetCode dest) = Inr resp \<and>
       \<not> at_least (fr_risk_score resp) FRAUD_REVIEW_THRESHOLD)"
proof -
  have "ps_submitted (snd (processTransaction env now userId t amount assetCode dest s)) =
      ps_submitted s @ (if verdict_submits (judge env userId t amount assetCode dest) then [tx_id t] else [])"
    by (subst processTransaction_verdict [OF assms(1) refl]) simp
  then have v: "verdict_submits (judge env userId t amount assetCode dest)"
    using assms(2,3) by (auto split: if_splits)
  have "assertTransactionAmountIntegrity amount (tx_amount t) = Inr ()"
    using v by (auto simp: judge_def split: sum.splits)
  moreover have "\<exists>resp. pe_fraud env (fraud_request userId t amount assetCode dest) = Inr resp \<and>
      \<not> at_least (fr_risk_score resp) FRAUD_REVIEW_THRESHOLD"
    using v by (auto simp: judge_def split: sum.splits if_splits)
  ultimately show ?thesis unfolding integrity_passes_iff by blast
qed

theorem submission_guarded_witness:
  "amount_value ''010.5'' = amount_value (tx_amount example_row)"
proof -
  let ?env = "example_penv (example_answer (Some (Num (1 / 4))))"
  have f: "find (\<lambda>r. tx_id r = tx_id example_row) (ps_rows example_pstate) = Some example_row"
    by (simp add: example_state_simps)
  have "ps_submitted (snd (processTransaction ?env 2000 ''u'' example_row ''010.5'' ''USDC'' ''GB'' example_pstate)) \<noteq>
      ps_submitted example_pstate"
    by (subst processTransaction_verdict [OF f refl]) (simp add: example_judge)
  then show ?thesis
    using submission_guarded [OF f surjective_pairing] by blast
qed

text \<open>
  An answer of the fraud service without a risk score counts as low risk: the transaction is
  submitted. The comparison of a missing score with the thresholds is false, so that a malformed answer
  opens the gate that an unreachable service closes.
\<close>

theorem missing_score_is_submitted:
  assumes "assertTransactionAmountIntegrity amount (tx_amount t) = Inr ()"
    and "pe_fraud env (fraud_request userId t amount assetCode dest) = Inr resp"
    and "fr_risk_score resp = None"
    and "find (\<lambda>r. tx_id r = tx_id t) (ps_rows s) = Some r"
  shows "ps_submitted (snd (processTransaction env now userId t amount assetCode dest s)) =
    ps_submitted s @ [tx_id t]"
proof -
  have "verdict_submits (judge env userId t amount assetCode dest)"
    using assms(1-3) by (auto simp: judge_def at_least_def split: sum.split)
  then show ?thesis by (subst processTransaction_verdict [OF assms(4) refl]) simp
qed

theorem missing_score_is_submitted_witness:
  "ps_submitted (snd (processTransaction (example_penv (example_answer None)) 2000 ''u'' example_row
     ''10.5'' ''USDC'' ''GB'' example_pstate)) = [''t1'']"
proof -
  have "assertTransactionAmountIntegrity ''10.5'' (tx_amount example_row) = Inr ()" by code_simp
  from missing_score_is_submitted [OF this, of "example_penv (example_answer None)" "''u''" "''USDC''" "''GB''"
      _ example_pstate example_row 2000]
  show ?thesis by (simp add: example_penv_def example_answer_def example_state_simps)
qed

text \<open>
  Jobs that run one after the other process a transaction once: after a run that was not
  refused for a changed amount, a second job for the transaction returns the settled row and
  changes nothing.
\<close>

theorem handler_runs_once:
  assumes "find (\<lambda>r. tx_id r = jd_txId job) (ps_rows s) = Some t" and "\<not> terminal (tx_status t)"
    and "mem_holder now (ps_locks s) (escrow_lock t) = None"
    and "assertTransactionAmountIntegrity (jd_amount job) (tx_amount t) = Inr ()"
    and "handleSendTransaction env now token lost j job s = (res, s')"
    and "jd_txId job' = jd_txId job"
  shows "\<exists>t'. terminal (tx_status t') \<and>
    handleSendTransaction env now' token' lost' j' job' s' = (Inr t', s')"
proof -
  define v where "v = judge env (jd_userId job) t (jd_amount job) (jd_assetCode job) (jd_destinationPublicKey job)"
  have id: "tx_id t = jd_txId job" using find_Some_D [OF assms(1)] by simp
  have row: "find (\<lambda>r. tx_id r = tx_id t) (ps_rows s) = Some t" using assms(1) id by simp
  have "ps_rows s' = update_where (\<lambda>x. tx_id x = tx_id t) (verdict_row v) (ps_rows s)"
    using handler_run_verdict [OF row assms(3) v_def, of token lost]
      handle_unsettled [OF assms(1,2), of env now token lost j] assms(5) by auto
  then have "find (\<lambda>r. tx_id r = jd_txId job') (ps_rows s') = Some (verdict_row v t)"
    using find_after_update [OF row, of "verdict_row v"] by (simp add: id assms(6))
  moreover have "terminal (tx_status (verdict_row v t))"
    by (rule verdict_terminal) (use assms(4) in \<open>auto simp: v_def judge_def split: sum.splits if_splits\<close>)
  ultimately show ?thesis using handle_settled by blast
qed

theorem handler_runs_once_witness:
  "\<exists>t'. terminal (tx_status t') \<and>
    handleSendTransaction (example_penv (example_answer None)) 3000 ''k2'' False ''2'' example_job
      (snd (handleSendTransaction (example_penv (example_answer None)) 2000 ''k1'' False ''1'' example_job example_pstate)) =
    (Inr t', snd (handleSendTransaction (example_penv (example_answer None)) 2000 ''k1'' False ''1'' example_job example_pstate))"
proof -
  have "assertTransactionAmountIntegrity (jd_amount example_job) (tx_amount example_row) = Inr ()" by code_simp
  then show ?thesis
    by (intro handler_runs_once [of example_job example_pstate example_row 2000,
          OF _ _ _ _ surjective_pairing refl])
      (simp_all add: example_state_simps example_job_simps mem_holder_def)
qed

text \<open>
  Jobs that overlap can submit a transaction twice. The status is read before the lock is
  taken and not read again under it: when two workers have both loaded the pending row, each
  submits it in turn, although every run holds the lock.
\<close>

theorem overlapping_jobs_submit_twice:
  assumes "find (\<lambda>r. tx_id r = jd_txId job) (ps_rows s) = Some t" and "\<not> terminal (tx_status t)"
    and "ps_locks s = Map.empty"
    and "verdict_submits (judge env (jd_userId job) t (jd_amount job) (jd_assetCode job) (jd_destinationPublicKey job))"
  shows "fst (handler_load j1 job s) = Inr (Inr t) \<and> fst (handler_load j2 job s) = Inr (Inr t) \<and>
    (let s1 = snd (handler_run env now token1 False job t s);
         s2 = snd (handler_run env now token2 False job t s1)
     in ps_submitted s2 = ps_submitted s @ [tx_id t, tx_id t])"
proof -
  define v where "v = judge env (jd_userId job) t (jd_amount job) (jd_assetCode job) (jd_destinationPublicKey job)"
  have id: "tx_id t = jd_txId job" using find_Some_D [OF assms(1)] by simp
  have row: "find (\<lambda>r. tx_id r = tx_id t) (ps_rows s) = Some t" using assms(1) id by simp
  have free: "mem_holder now (ps_locks s) (escrow_lock t) = None" by (simp add: assms(3) mem_holder_def)
  define s1 where "s1 = snd (handler_run env now token1 False job t s)"
  obtain a where "s1 = s\<lparr>ps_rows := update_where (\<lambda>x. tx_id x = tx_id t) (verdict_row v) (ps_rows s),
      ps_audit := a, ps_locks := (ps_locks s)(escrow_lock t := None),
      ps_submitted := ps_submitted s @ [tx_id t]\<rparr>"
    using handler_run_verdict [OF row free v_def, of token1 False] assms(4)
    unfolding s1_def v_def [symmetric] by auto
  then have s1: "find (\<lambda>r. tx_id r = tx_id t) (ps_rows s1) = Some (verdict_row v t)"
    "mem_holder now (ps_locks s1) (escrow_lock t) = None" "ps_submitted s1 = ps_submitted s @ [tx_id t]"
    using find_after_update [OF row, of "verdict_row v"] by (simp_all add: mem_holder_def)
  have "ps_submitted (snd (handler_run env now token2 False job t s1)) = ps_submitted s @ [tx_id t, tx_id t]"
    using handler_run_verdict [OF s1(1,2) v_def, of token2 False] assms(4) s1(3)
    unfolding v_def [symmetric] by auto
  then show ?thesis using assms(1,2) by (simp add: handler_load_def s1_def Let_def)
qed

theorem overlapping_jobs_submit_twice_witness:
  "let env = example_penv (example_answer (Some (Num (1 / 4))));
       s1 = snd (handler_run env 2000 ''k1'' False example_job example_row example_pstate);
       s2 = snd (handler_run env 2000 ''k2'' False example_job example_row s1)
   in ps_submitted s2 = [''t1'', ''t1'']"
  using overlapping_jobs_submit_twice [of example_job example_pstate example_row
      "example_penv (example_answer (Some (Num (1 / 4))))" "''1''" "''2''" 2000 "''k1''" "''k2''"]
  by (simp add: example_state_simps example_job_simps example_judge Let_def)

end
