(* ===== verification/Dlq.thy ===== *)
theory Dlq
  imports Processor
begin

text \<open>
  The dead-letter queue (\<open>apps/api/src/transaction/transaction-dlq.service.ts\<close>): a failed job
  is routed to it after its last attempt, administrators list its entries and replay them. Both
  queues are Bull's: the operations of the dead-letter queue are arguments whose documented
  behaviour is \<open>dlq_laws\<close>, the transaction queue is \<open>add\<close> and \<open>jobs\<close> as in the transaction service.
\<close>

section \<open>Data\<close>

record TransactionDlqPayload =
  dp_originalQueue :: string
  dp_originalJobId :: string
  dp_originalJobName :: string
  dp_payload :: TransactionJobData
  dp_errorMessage :: string
  dp_stacktrace :: "string list"
  dp_attemptsMade :: nat
  dp_maxAttempts :: nat
  dp_failedAt :: int
  dp_replayedAt :: "int option"
  dp_replayJobId :: "string option"

text \<open>What the service reads of a Bull job.\<close>

record bull_job =
  bj_id :: "string option"
  bj_name :: string
  bj_data :: TransactionJobData
  bj_attempts :: "nat option"
  bj_attemptsMade :: nat
  bj_failedReason :: "string option"
  bj_stacktrace :: "string list option"

definition TRANSACTION_QUEUE_NAME :: string where "TRANSACTION_QUEUE_NAME = ''transactions''"
definition TRANSACTION_DLQ_JOB_NAME :: string where "TRANSACTION_DLQ_JOB_NAME = ''failed-transaction''"

text \<open>
  The dead-letter queue: \<open>add\<close> under a job id keeps a job that is already there (the entries are
  never removed), \<open>update\<close> replaces the data of a job.
\<close>

definition dlq_laws ::
  "('d \<Rightarrow> string \<Rightarrow> TransactionDlqPayload \<Rightarrow> 'd) \<Rightarrow> ('d \<Rightarrow> string \<Rightarrow> TransactionDlqPayload option) \<Rightarrow>
     ('d \<Rightarrow> string \<Rightarrow> TransactionDlqPayload \<Rightarrow> 'd) \<Rightarrow> bool" where
  "dlq_laws add get update =
     ((\<forall>d j p. get (add d j p) = (if get d j = None then (get d)(j \<mapsto> p) else get d)) \<and>
      (\<forall>d j p. get (update d j p) = (if get d j = None then get d else (get d)(j \<mapsto> p))))"

section \<open>Operations\<close>

definition job_ident :: "bull_job \<Rightarrow> string" where
  "job_ident job = (case bj_id job of None \<Rightarrow> ''unknown'' | Some i \<Rightarrow> i)"

definition dlqJobId :: "bull_job \<Rightarrow> string" where
  "dlqJobId job = TRANSACTION_DLQ_JOB_NAME @ '':'' @ job_ident job @ '':'' @ show_nat (bj_attemptsMade job)"

definition max_attempts :: "bull_job \<Rightarrow> nat" where
  "max_attempts job = (case bj_attempts job of None \<Rightarrow> TRANSACTION_MAX_ATTEMPTS | Some n \<Rightarrow> n)"

definition dlq_payload :: "int \<Rightarrow> bull_job \<Rightarrow> exn \<Rightarrow> string option \<Rightarrow> TransactionDlqPayload" where
  "dlq_payload now job error stack =
     \<lparr>dp_originalQueue = TRANSACTION_QUEUE_NAME, dp_originalJobId = job_ident job,
      dp_originalJobName = bj_name job, dp_payload = bj_data job,
      dp_errorMessage = (if truthy (bj_failedReason job) then the (bj_failedReason job) else error_message error),
      dp_stacktrace = (case bj_stacktrace job of
         Some (x # xs) \<Rightarrow> x # xs
       | _ \<Rightarrow> if truthy stack then [the stack] else []),
      dp_attemptsMade = bj_attemptsMade job, dp_maxAttempts = max_attempts job, dp_failedAt = now,
      dp_replayedAt = None, dp_replayJobId = None\<rparr>"

text \<open>\<open>routeFailedJobToDlq\<close>, the listener of the event \<open>failed\<close>: it fires after every failed attempt.\<close>

definition routeFailedJobToDlq ::
  "('d \<Rightarrow> string \<Rightarrow> TransactionDlqPayload \<Rightarrow> 'd) \<Rightarrow> int \<Rightarrow> bull_job \<Rightarrow> exn \<Rightarrow> string option \<Rightarrow> 'd \<Rightarrow> bool \<times> 'd" where
  "routeFailedJobToDlq add now job error stack d =
     (if 0 < max_attempts job \<and> bj_attemptsMade job < max_attempts job then (False, d)
      else (True, add d (dlqJobId job) (dlq_payload now job error stack)))"

text \<open>\<open>list\<close>: the page, the page size and the range of jobs that is requested; \<open>Number(x) || n\<close> reads 0 as absent.\<close>

definition or_default :: "int option \<Rightarrow> int \<Rightarrow> int" where
  "or_default x n = (case x of None \<Rightarrow> n | Some v \<Rightarrow> if v = 0 then n else v)"

definition dlq_list_window :: "int option \<Rightarrow> int option \<Rightarrow> int \<times> int \<times> int \<times> int" where
  "dlq_list_window page limit =
     (let p = max 1 (or_default page 1);
          l = min 100 (max 1 (or_default limit 25));
          start = (p - 1) * l
      in (p, l, start, start + l - 1))"

text \<open>\<open>replay\<close>: \<open>jobName\<close> falls back to \<open>process\<close>; the id of the new job is the one requested.\<close>

definition replay ::
  "('d \<Rightarrow> string \<Rightarrow> TransactionDlqPayload option) \<Rightarrow> ('d \<Rightarrow> string \<Rightarrow> TransactionDlqPayload \<Rightarrow> 'd) \<Rightarrow>
     ('q \<Rightarrow> string \<Rightarrow> TransactionJobData \<Rightarrow> JobOptions \<Rightarrow> 'q) \<Rightarrow> int \<Rightarrow> string \<Rightarrow> ('d \<times> 'q, string) M" where
  "replay get update add now jobId' = (\<lambda>(d, q).
     (case get d jobId' of
        None \<Rightarrow> (Inl (NotFoundException (''DLQ job '' @ jobId' @ '' not found'')), (d, q))
      | Some payload \<Rightarrow>
          let replayId = ''replay:'' @ jobId' @ '':'' @ show_int now;
              options = TRANSACTION_QUEUE_OPTIONS\<lparr>jobId := Some replayId\<rparr>;
              name = (if dp_originalJobName payload = [] then ''process'' else dp_originalJobName payload)
          in (Inr replayId,
              (update d jobId' (payload\<lparr>dp_replayedAt := Some now, dp_replayJobId := Some replayId\<rparr>),
               add q name (dp_payload payload) options))))"

section \<open>Lemmas\<close>

text \<open>The events of a job that fails in every one of its attempts, in order.\<close>

fun failed_events ::
  "('d \<Rightarrow> string \<Rightarrow> TransactionDlqPayload \<Rightarrow> 'd) \<Rightarrow> int \<Rightarrow> bull_job \<Rightarrow> exn \<Rightarrow> string option \<Rightarrow> nat list \<Rightarrow> 'd \<Rightarrow> 'd" where
  "failed_events add now job error stack [] d = d"
| "failed_events add now job error stack (n # ns) d =
     failed_events add now job error stack ns
       (snd (routeFailedJobToDlq add now (job\<lparr>bj_attemptsMade := n\<rparr>) error stack d))"

lemma failed_events_early:
  "list_all (\<lambda>n. n < max_attempts job) ns \<Longrightarrow> failed_events add now job error stack ns d = d"
  by (induction ns) (auto simp: routeFailedJobToDlq_def max_attempts_def)

lemma failed_events_append:
  "failed_events add now job error stack (ns @ ms) d =
    failed_events add now job error stack ms (failed_events add now job error stack ns d)"
  by (induction ns arbitrary: d) auto

section \<open>Properties\<close>

text \<open>
  C18. A job that fails in each of its attempts enters the dead-letter queue once, after the last
  attempt, under the id that names it and that attempt, with its data and the number of attempts;
  no other entry changes.
\<close>

theorem dlq_once_after_last_attempt:
  assumes "dlq_laws add get update" and "max_attempts job = Suc n"
    and "get d (dlqJobId (job\<lparr>bj_attemptsMade := Suc n\<rparr>)) = None"
  shows "get (failed_events add now job error stack [1..<Suc (Suc n)] d) =
      (get d)(dlqJobId (job\<lparr>bj_attemptsMade := Suc n\<rparr>) \<mapsto>
        dlq_payload now (job\<lparr>bj_attemptsMade := Suc n\<rparr>) error stack) \<and>
    dp_payload (dlq_payload now (job\<lparr>bj_attemptsMade := Suc n\<rparr>) error stack) = bj_data job \<and>
    get (failed_events add now job error stack [1..<Suc n] d) = get d"
proof -
  have early: "failed_events add now job error stack [1..<Suc n] d = d"
    using assms(2) by (intro failed_events_early) (auto simp: list_all_iff)
  have split: "[1..<Suc (Suc n)] = [1..<Suc n] @ [Suc n]" by simp
  show ?thesis
    using assms unfolding split failed_events_append early
    by (simp add: routeFailedJobToDlq_def max_attempts_def dlq_laws_def dlq_payload_def)
qed

theorem dlq_once_after_last_attempt_witness:
  "let job = \<lparr>bj_id = Some ''7'', bj_name = ''process'', bj_data = example_job, bj_attempts = Some 3,
         bj_attemptsMade = 0, bj_failedReason = None, bj_stacktrace = None\<rparr>;
       add = (\<lambda>d j x. if d j = None then d(j \<mapsto> x) else d)
   in failed_events add 1000 job (JsError ''Error'' ''x'') None [1..<3] Map.empty = Map.empty \<and>
      failed_events add 1000 job (JsError ''Error'' ''x'') None [1..<4] Map.empty =
        [dlqJobId (job\<lparr>bj_attemptsMade := 3\<rparr>) \<mapsto>
         dlq_payload 1000 (job\<lparr>bj_attemptsMade := 3\<rparr>) (JsError ''Error'' ''x'') None]"
proof -
  define job where "job = \<lparr>bj_id = Some ''7'', bj_name = ''process'', bj_data = example_job,
    bj_attempts = Some 3, bj_attemptsMade = 0, bj_failedReason = None, bj_stacktrace = None\<rparr>"
  have laws: "dlq_laws (\<lambda>d j x. if d j = None then d(j \<mapsto> x) else d) (\<lambda>d. d)
      (\<lambda>d j x. if d j = None then d else d(j \<mapsto> x))"
    by (auto simp: dlq_laws_def)
  have max: "max_attempts job = Suc 2" by (simp add: max_attempts_def job_def)
  have num: "Suc 2 = (3 :: nat)" "Suc 3 = (4 :: nat)" by simp_all
  from dlq_once_after_last_attempt [OF laws max, of Map.empty 1000 "JsError ''Error'' ''x''" None]
  show ?thesis unfolding job_def [symmetric] Let_def num by blast
qed

text \<open>
  A transfer that the network rejects is never retried and never reaches the dead-letter
  queue. The failed attempt marks the transaction as failed and throws; the listener does
  nothing, since attempts are left; and the next attempt finds a settled row, submits
  nothing and completes the job.
\<close>

theorem network_rejection_not_retried:
  assumes "find (\<lambda>r. tx_id r = jd_txId (bj_data job)) (ps_rows s) = Some t" and "\<not> terminal (tx_status t)"
    and "mem_holder now (ps_locks s) (escrow_lock t) = None"
    and "judge env (jd_userId (bj_data job)) t (jd_amount (bj_data job)) (jd_assetCode (bj_data job))
      (jd_destinationPublicKey (bj_data job)) = Rejected score flagged e"
    and "bj_attempts job = Some TRANSACTION_MAX_ATTEMPTS" and "bj_attemptsMade job = 1"
    and "handleSendTransaction env now token lost ident (bj_data job) s = (res, s')"
  shows "res = Inl e \<and>
    routeFailedJobToDlq add now job e stack d = (False, d) \<and>
    (\<exists>t'. tx_status t' = TxFAILED \<and>
      handleSendTransaction env now' token' lost' ident (bj_data job) s' = (Inr t', s'))"
proof -
  define v where "v = judge env (jd_userId (bj_data job)) t (jd_amount (bj_data job))
    (jd_assetCode (bj_data job)) (jd_destinationPublicKey (bj_data job))"
  have id: "tx_id t = jd_txId (bj_data job)" using find_Some_D [OF assms(1)] by simp
  have row: "find (\<lambda>r. tx_id r = tx_id t) (ps_rows s) = Some t" using assms(1) id by simp
  have run: "res = verdict_result v t"
    "ps_rows s' = update_where (\<lambda>x. tx_id x = tx_id t) (verdict_row v) (ps_rows s)"
    using handler_run_verdict [OF row assms(3) v_def, of token lost]
      handle_unsettled [OF assms(1,2), of env now token lost ident] assms(7) by auto
  have "find (\<lambda>r. tx_id r = jd_txId (bj_data job)) (ps_rows s') = Some (verdict_row v t)"
    using find_after_update [OF row, of "verdict_row v"] run(2) by (simp add: id)
  moreover have failed: "tx_status (verdict_row v t) = TxFAILED" using assms(4) by (simp add: v_def)
  ultimately have "handleSendTransaction env now' token' lost' ident (bj_data job) s' = (Inr (verdict_row v t), s')"
    by (intro handle_settled) (simp_all add: terminal_def)
  then show ?thesis
    using run(1) assms(4-6) failed
    by (auto simp: v_def routeFailedJobToDlq_def max_attempts_def TRANSACTION_MAX_ATTEMPTS_def)
qed

theorem network_rejection_not_retried_witness:
  "let env = (example_penv (example_answer None))\<lparr>pe_submit := (\<lambda>_. Inl (JsError ''Error'' ''tx_failed''))\<rparr>;
       (res, s') = handleSendTransaction env 2000 ''k1'' False ''7'' example_job example_pstate
   in res = Inl (JsError ''Error'' ''tx_failed'') \<and>
      (\<exists>t'. tx_status t' = TxFAILED \<and>
         handleSendTransaction env 9000 ''k2'' False ''7'' example_job s' = (Inr t', s'))"
proof -
  define env where "env = (example_penv (example_answer None))\<lparr>pe_submit := (\<lambda>_. Inl (JsError ''Error'' ''tx_failed''))\<rparr>"
  define job where "job = \<lparr>bj_id = Some ''7'', bj_name = ''process'', bj_data = example_job,
    bj_attempts = Some TRANSACTION_MAX_ATTEMPTS, bj_attemptsMade = 1, bj_failedReason = None, bj_stacktrace = None\<rparr>"
  have ok: "assertTransactionAmountIntegrity ''010.5'' (tx_amount example_row) = Inr ()" by code_simp
  have "judge env (jd_userId (bj_data job)) example_row (jd_amount (bj_data job)) (jd_assetCode (bj_data job))
      (jd_destinationPublicKey (bj_data job)) = Rejected None (Some False) (JsError ''Error'' ''tx_failed'')"
    using ok by (simp add: env_def job_def example_job_simps judge_def example_penv_def example_answer_def at_least_def)
  note rej = this
  obtain res s' where run: "handleSendTransaction env 2000 ''k1'' False ''7'' (bj_data job) example_pstate = (res, s')"
    by (cases "handleSendTransaction env 2000 ''k1'' False ''7'' (bj_data job) example_pstate")
  have data: "bj_data job = example_job" by (simp add: job_def)
  from network_rejection_not_retried [of job example_pstate example_row 2000 env None "Some False"
      "JsError ''Error'' ''tx_failed''" "''k1''" False "''7''" res s' "\<lambda>d j p. d" _ "()" 9000 "''k2''" False] rej run
  have "res = Inl (JsError ''Error'' ''tx_failed'') \<and> (\<exists>t'. tx_status t' = TxFAILED \<and>
      handleSendTransaction env 9000 ''k2'' False ''7'' example_job s' = (Inr t', s'))"
    by (simp add: data example_job_simps example_state_simps mem_holder_def) (simp add: job_def)
  with run show ?thesis unfolding env_def [symmetric] data by (simp add: Let_def)
qed

text \<open>
  Replaying an entry puts the original data on the transaction queue under an id that
  contains the time of the call, so that two replays of one entry at different times are two jobs
  for one transaction, which the queue does not collapse; the entry stays, marked with the
  last replay.
\<close>

theorem replays_are_not_collapsed:
  assumes "dlq_laws dadd get update" and "get d j = Some p" and "t1 \<noteq> t2"
    and "replay get update (\<lambda>q name data opts. q @ [(data, jobId opts)]) t1 j (d, []) = (r1, d1, q1)"
    and "replay get update (\<lambda>q name data opts. q @ [(data, jobId opts)]) t2 j (d1, q1) = (r2, d2, q2)"
  shows "\<exists>i1 i2. i1 \<noteq> i2 \<and> q2 = [(dp_payload p, Some i1), (dp_payload p, Some i2)] \<and>
    get d2 j = Some (p\<lparr>dp_replayedAt := Some t2, dp_replayJobId := Some i2\<rparr>)"
proof -
  define rid where "rid t = ''replay:'' @ j @ '':'' @ show_int t" for t
  have ne: "rid t1 \<noteq> rid t2" using assms(3) show_int_inj [of t1 t2] by (auto simp: rid_def)
  have up: "get (update d' j x) = (get d')(j \<mapsto> x)" if "get d' j \<noteq> None" for d' x
    using assms(1) that by (auto simp: dlq_laws_def)
  have d1: "d1 = update d j (p\<lparr>dp_replayedAt := Some t1, dp_replayJobId := Some (rid t1)\<rparr>)"
    and q1: "q1 = [(dp_payload p, Some (rid t1))]"
    using assms(2,4) by (auto simp: replay_def Let_def rid_def)
  have g1: "get d1 j = Some (p\<lparr>dp_replayedAt := Some t1, dp_replayJobId := Some (rid t1)\<rparr>)"
    using up [of d] assms(2) by (simp add: d1)
  have "d2 = update d1 j (p\<lparr>dp_replayedAt := Some t2, dp_replayJobId := Some (rid t2)\<rparr>)"
    and "q2 = q1 @ [(dp_payload p, Some (rid t2))]"
    using assms(5) g1 by (auto simp: replay_def Let_def rid_def)
  then show ?thesis using up [of d1] g1 ne q1 by auto
qed

theorem replays_are_not_collapsed_witness:
  "let p = dlq_payload 1000 \<lparr>bj_id = Some ''7'', bj_name = ''process'', bj_data = example_job,
         bj_attempts = Some 3, bj_attemptsMade = 3, bj_failedReason = None, bj_stacktrace = None\<rparr>
         (JsError ''Error'' ''x'') None;
       add = (\<lambda>q name data opts. q @ [(data, jobId opts)]);
       (r1, d1, q1) = replay (\<lambda>d. d) (\<lambda>d j x. if d j = None then d else d(j \<mapsto> x)) add 2000 ''e'' ([''e'' \<mapsto> p], []);
       (r2, d2, q2) = replay (\<lambda>d. d) (\<lambda>d j x. if d j = None then d else d(j \<mapsto> x)) add 3000 ''e'' (d1, q1)
   in length q2 = 2"
proof -
  define p where "p = dlq_payload 1000 \<lparr>bj_id = Some ''7'', bj_name = ''process'', bj_data = example_job,
    bj_attempts = Some 3, bj_attemptsMade = 3, bj_failedReason = None, bj_stacktrace = None\<rparr>
    (JsError ''Error'' ''x'') None"
  define upd where "upd = (\<lambda>(d :: string \<rightharpoonup> TransactionDlqPayload) j x. if d j = None then d else d(j \<mapsto> x))"
  define add :: "(TransactionJobData \<times> string option) list \<Rightarrow> string \<Rightarrow> TransactionJobData \<Rightarrow> JobOptions \<Rightarrow>
    (TransactionJobData \<times> string option) list" where "add = (\<lambda>q name data opts. q @ [(data, jobId opts)])"
  have laws: "dlq_laws (\<lambda>d j x. if d j = None then d(j \<mapsto> x) else d) (\<lambda>d. d) upd"
    by (auto simp: dlq_laws_def upd_def)
  obtain r1 d1 q1 where 1: "replay (\<lambda>d. d) upd add 2000 ''e'' ([''e'' \<mapsto> p], []) = (r1, d1, q1)"
    by (cases "replay (\<lambda>d. d) upd add 2000 ''e'' ([''e'' \<mapsto> p], [])") auto
  obtain r2 d2 q2 where 2: "replay (\<lambda>d. d) upd add 3000 ''e'' (d1, q1) = (r2, d2, q2)"
    by (cases "replay (\<lambda>d. d) upd add 3000 ''e'' (d1, q1)") auto
  have "length q2 = 2"
    using replays_are_not_collapsed [OF laws, of "[''e'' \<mapsto> p]" "''e''" p 2000 3000 r1 d1 q1 r2 d2 q2]
      1 2 unfolding add_def by auto
  then show ?thesis
    unfolding p_def [symmetric] upd_def [symmetric] using 1 2 unfolding add_def by (simp add: Let_def)
qed

end
