(* ===== verification/Compliance.thy ===== *)
theory Compliance
  imports AuditTrail
begin

text \<open>
  Freeze and clawback actions (\<open>apps/api/src/transaction/compliance-action.service.ts\<close>,
  \<open>compliance-executor.ts\<close>): an administrator requests an action and signs it, further
  administrators approve it, the second signature dispatches it to the worker's Redis list, and
  the worker's result is recorded. SHA-256, the secret and the network are arguments.

  \<open>approve\<close> and the dispatch are also cut at their awaits, into \<open>ca_phase\<close>, and \<open>ca_step\<close>
  interleaves any number of approvals with each other and with the other operations.
\<close>

section \<open>State\<close>

definition REQUIRED_COMPLIANCE_APPROVALS :: nat where "REQUIRED_COMPLIANCE_APPROVALS = 2"

record ComplianceDto =
  cd_targetAccount :: string
  cd_assetCode :: string
  cd_assetIssuer :: "string option"
  cd_amount :: "string option"
  cd_reason :: "string option"

record ComplianceJobPayload =
  cj_actionId :: string
  cj_actionType :: ComplianceActionType
  cj_targetAccount :: string
  cj_assetCode :: string
  cj_assetIssuer :: "string option"
  cj_amount :: "string option"
  cj_network :: string

text \<open>\<open>ce_redis\<close> is the outcome of a connection to Redis.\<close>

record comp_env =
  ce_digest :: "json \<Rightarrow> string"
  ce_toISO :: "int \<Rightarrow> string"
  ce_trigger :: bool
  ce_newId :: "AuditLog list \<Rightarrow> string"
  ce_sha256 :: "string \<Rightarrow> string"
  ce_secret :: string
  ce_mainnet :: bool
  ce_redis :: "unit res"

record comp_state =
  cs_db :: db
  cs_jobs :: "ComplianceJobPayload list"

abbreviation actions_of :: "comp_state \<Rightarrow> ComplianceAction list" where
  "actions_of s \<equiv> complianceActions (cs_db s)"

abbreviation approvals_of :: "comp_state \<Rightarrow> ComplianceApproval list" where
  "approvals_of s \<equiv> complianceApprovals (cs_db s)"

section \<open>Database and audit\<close>

definition ca_audit ::
  "comp_env \<Rightarrow> int \<Rightarrow> string option \<Rightarrow> string \<Rightarrow> string \<Rightarrow> string option \<Rightarrow> (string \<times> json) list \<Rightarrow> (comp_state, unit) M" where
  "ca_audit env now userId operation outcome txHash metadata =
     modifyM (\<lambda>s. s\<lparr>cs_db := (cs_db s)\<lparr>auditLogs := audit_log (ce_digest env) (ce_toISO env) (ce_trigger env) now
       (ce_newId env (auditLogs (cs_db s)))
       (Options (no_options\<lparr>o_userId := userId, o_category := Some ''COMPLIANCE'',
          o_operation := Some operation, o_outcome := Some outcome, o_txHash := txHash,
          o_metadata := Some (JObject metadata)\<rparr>))
       (auditLogs (cs_db s))\<rparr>\<rparr>)"

definition ca_update :: "string \<Rightarrow> (ComplianceAction \<Rightarrow> ComplianceAction) \<Rightarrow> (comp_state, ComplianceAction) M" where
  "ca_update actionId f s =
     (case update_one (\<lambda>a. ca_id a = actionId) f (actions_of s) of
        None \<Rightarrow> (Inl (PrismaError ''P2025''), s)
      | Some (a, rows) \<Rightarrow> (Inr a, s\<lparr>cs_db := (cs_db s)\<lparr>complianceActions := rows\<rparr>\<rparr>))"

definition set_status :: "string \<Rightarrow> ComplianceActionStatus \<Rightarrow> (comp_state, ComplianceAction) M" where
  "set_status actionId st = ca_update actionId (\<lambda>a. a\<lparr>ca_status := st\<rparr>)"

definition ca_assertAdmin :: "string \<Rightarrow> (comp_state, unit) M" where
  "ca_assertAdmin userId = zoomM cs_db (\<lambda>d s. s\<lparr>cs_db := d\<rparr>) (assertAdmin userId)"

definition approvals_for :: "string \<Rightarrow> comp_state \<Rightarrow> ComplianceApproval list" where
  "approvals_for actionId s = filter (\<lambda>p. ap_actionId p = actionId) (approvals_of s)"

definition loadAction :: "string \<Rightarrow> (comp_state, ComplianceAction \<times> ComplianceApproval list) M" where
  "loadAction actionId s =
     (case find (\<lambda>a. ca_id a = actionId) (actions_of s) of
        None \<Rightarrow> (Inl (NotFoundException ''Compliance action not found''), s)
      | Some a \<Rightarrow> (Inr (a, approvals_for actionId s), s))"

definition getAction :: "string \<Rightarrow> (comp_state, ComplianceAction \<times> ComplianceApproval list) M" where
  "getAction actionId = loadAction actionId"

fun ca_status_name :: "ComplianceActionStatus \<Rightarrow> string" where
  "ca_status_name CaPENDING_APPROVAL = ''PENDING_APPROVAL''"
| "ca_status_name CaAPPROVED = ''APPROVED''"
| "ca_status_name CaEXECUTING = ''EXECUTING''"
| "ca_status_name CaEXECUTED = ''EXECUTED''"
| "ca_status_name CaFAILED = ''FAILED''"
| "ca_status_name CaREJECTED = ''REJECTED''"

definition assertAwaitingApproval :: "ComplianceAction \<Rightarrow> (comp_state, unit) M" where
  "assertAwaitingApproval a =
     guardM (ca_status a = CaPENDING_APPROVAL)
       (ConflictException (''Action is '' @ ca_status_name (ca_status a) @ '', not awaiting approval''))"

definition signApproval :: "comp_env \<Rightarrow> string \<Rightarrow> ComplianceAction \<Rightarrow> string" where
  "signApproval env officerId a =
     ce_sha256 env (officerId @ '':'' @ ca_id a @ '':'' @ ca_targetAccount a @ '':'' @ ca_assetCode a @ '':'' @
       (case ca_amount a of None \<Rightarrow> [] | Some x \<Rightarrow> x) @ '':'' @ ce_secret env)"

text \<open>\<open>complianceApproval.create\<close> under the constraint \<open>@@unique([actionId, officerId])\<close>.\<close>

definition createApproval :: "comp_env \<Rightarrow> string \<Rightarrow> ComplianceAction \<Rightarrow> (comp_state, unit) M" where
  "createApproval env officerId a s =
     (if \<exists>p \<in> set (approvals_of s). ap_actionId p = ca_id a \<and> ap_officerId p = officerId
      then (Inl (PrismaError ''P2002''), s)
      else (Inr (), s\<lparr>cs_db := (cs_db s)\<lparr>complianceApprovals := approvals_of s @
             [\<lparr>ap_actionId = ca_id a, ap_officerId = officerId, ap_signature = signApproval env officerId a\<rparr>]\<rparr>\<rparr>))"

section \<open>Operations\<close>

definition new_action :: "int \<Rightarrow> string \<Rightarrow> string \<Rightarrow> ComplianceActionType \<Rightarrow> ComplianceDto \<Rightarrow> ComplianceAction" where
  "new_action now newId officerId type dto =
     \<lparr>ca_id = newId, ca_type = type, ca_status = CaPENDING_APPROVAL,
      ca_targetAccount = cd_targetAccount dto, ca_assetCode = cd_assetCode dto,
      ca_assetIssuer = cd_assetIssuer dto, ca_amount = cd_amount dto, ca_reason = cd_reason dto,
      ca_requestedBy = officerId, ca_txHash = None, ca_createdAt = now\<rparr>"

definition requestAction ::
  "comp_env \<Rightarrow> int \<Rightarrow> string \<Rightarrow> string \<Rightarrow> ComplianceActionType \<Rightarrow> ComplianceDto \<Rightarrow>
     (comp_state, ComplianceAction \<times> ComplianceApproval list) M" where
  "requestAction env now newId officerId type dto =
     (let action = new_action now newId officerId type dto
      in thenM (ca_assertAdmin officerId)
        (thenM (modifyM (\<lambda>s. s\<lparr>cs_db := (cs_db s)\<lparr>complianceActions := actions_of s @ [action]\<rparr>\<rparr>))
        (thenM (createApproval env officerId action)
        (thenM (ca_audit env now (Some officerId)
                 (case type of FREEZE \<Rightarrow> ''COMPLIANCE_FREEZE_REQUESTED'' | CLAWBACK \<Rightarrow> ''COMPLIANCE_CLAWBACK_REQUESTED'')
                 ''SUCCESS'' None
                 [(''actionId'', JString newId), (''targetAccount'', JString (ca_targetAccount action)),
                  (''assetCode'', JString (ca_assetCode action)), (''assetIssuer'', jopt (ca_assetIssuer action)),
                  (''amount'', jopt (ca_amount action)), (''reason'', jopt (ca_reason action))])
          (getAction newId)))))"

definition requestFreeze ::
  "comp_env \<Rightarrow> int \<Rightarrow> string \<Rightarrow> string \<Rightarrow> ComplianceDto \<Rightarrow> (comp_state, ComplianceAction \<times> ComplianceApproval list) M" where
  "requestFreeze env now newId officerId dto = requestAction env now newId officerId FREEZE dto"

definition requestClawback ::
  "comp_env \<Rightarrow> int \<Rightarrow> string \<Rightarrow> string \<Rightarrow> ComplianceDto \<Rightarrow> (comp_state, ComplianceAction \<times> ComplianceApproval list) M" where
  "requestClawback env now newId officerId dto = requestAction env now newId officerId CLAWBACK dto"

definition job_of :: "comp_env \<Rightarrow> ComplianceAction \<Rightarrow> ComplianceJobPayload" where
  "job_of env a =
     \<lparr>cj_actionId = ca_id a, cj_actionType = ca_type a, cj_targetAccount = ca_targetAccount a,
      cj_assetCode = ca_assetCode a, cj_assetIssuer = ca_assetIssuer a, cj_amount = ca_amount a,
      cj_network = (if ce_mainnet env then ''mainnet'' else ''testnet'')\<rparr>"

text \<open>\<open>RedisComplianceExecutor.execute\<close>: push the job, return its reference.\<close>

definition executor_execute :: "comp_env \<Rightarrow> ComplianceJobPayload \<Rightarrow> (comp_state, string) M" where
  "executor_execute env job =
     thenM (liftR (ce_redis env))
       (thenM (modifyM (\<lambda>s. s\<lparr>cs_jobs := cs_jobs s @ [job]\<rparr>)) (ret (cj_actionId job)))"

definition dispatched_audit :: "comp_env \<Rightarrow> int \<Rightarrow> ComplianceAction \<Rightarrow> string \<Rightarrow> (comp_state, unit) M" where
  "dispatched_audit env now a jobRef =
     ca_audit env now None ''COMPLIANCE_ACTION_DISPATCHED'' ''SUCCESS'' None
       [(''actionId'', JString (ca_id a)), (''jobRef'', JString jobRef),
        (''actionType'', JString (case ca_type a of FREEZE \<Rightarrow> ''FREEZE'' | CLAWBACK \<Rightarrow> ''CLAWBACK''))]"

definition execute :: "comp_env \<Rightarrow> int \<Rightarrow> ComplianceAction \<Rightarrow> (comp_state, unit) M" where
  "execute env now a =
     thenM (set_status (ca_id a) CaAPPROVED)
    (bindM (executor_execute env (job_of env a)) (\<lambda>jobRef.
     thenM (set_status (ca_id a) CaEXECUTING)
       (dispatched_audit env now a jobRef)))"

text \<open>The checks at the start of \<open>approve\<close>, and the signature with its audit entry.\<close>

definition approve_checks :: "string \<Rightarrow> string \<Rightarrow> (comp_state, ComplianceAction) M" where
  "approve_checks officerId actionId =
     thenM (ca_assertAdmin officerId)
    (bindM (loadAction actionId) (\<lambda>(a, _).
     thenM (assertAwaitingApproval a)
    (bindM (readM (\<lambda>s. \<exists>p \<in> set (approvals_of s). ap_actionId p = actionId \<and> ap_officerId p = officerId))
       (\<lambda>already. thenM (guardM (\<not> already) (ConflictException ''Officer has already approved this action''))
          (ret a)))))"

definition approve_sign :: "comp_env \<Rightarrow> int \<Rightarrow> string \<Rightarrow> ComplianceAction \<Rightarrow> (comp_state, unit) M" where
  "approve_sign env now officerId a =
     thenM (createApproval env officerId a)
       (ca_audit env now (Some officerId) ''COMPLIANCE_ACTION_APPROVED'' ''SUCCESS'' None
          [(''actionId'', JString (ca_id a)), (''officerId'', JString officerId),
           (''targetAccount'', JString (ca_targetAccount a))])"

definition enough_approvals :: "string \<Rightarrow> comp_state \<Rightarrow> bool" where
  "enough_approvals actionId s = (REQUIRED_COMPLIANCE_APPROVALS \<le> length (approvals_for actionId s))"

definition approve ::
  "comp_env \<Rightarrow> int \<Rightarrow> string \<Rightarrow> string \<Rightarrow> (comp_state, ComplianceAction \<times> ComplianceApproval list) M" where
  "approve env now officerId actionId =
     bindM (approve_checks officerId actionId) (\<lambda>a.
     thenM (approve_sign env now officerId a)
    (bindM (readM (enough_approvals actionId)) (\<lambda>enough.
     thenM (if enough then execute env now a else ret ())
       (getAction (ca_id a)))))"

definition reject :: "comp_env \<Rightarrow> int \<Rightarrow> string \<Rightarrow> string \<Rightarrow> string option \<Rightarrow> (comp_state, ComplianceAction) M" where
  "reject env now officerId actionId reason =
     thenM (ca_assertAdmin officerId)
    (bindM (loadAction actionId) (\<lambda>(a, _).
     thenM (assertAwaitingApproval a)
    (bindM (set_status actionId CaREJECTED) (\<lambda>updated.
     thenM (ca_audit env now (Some officerId) ''COMPLIANCE_ACTION_REJECTED'' ''SUCCESS'' None
              [(''actionId'', JString actionId), (''rejectedBy'', JString officerId), (''reason'', jopt reason)])
       (ret updated)))))"

definition recordExecutionResult ::
  "comp_env \<Rightarrow> int \<Rightarrow> string \<Rightarrow> string \<Rightarrow> bool \<Rightarrow> (comp_state, ComplianceAction) M" where
  "recordExecutionResult env now actionId txHash success =
     bindM (loadAction actionId) (\<lambda>(a, _).
     thenM (guardM (ca_status a = CaEXECUTING \<or> ca_status a = CaAPPROVED)
              (ConflictException (''Cannot record a result for an action in state '' @ ca_status_name (ca_status a))))
    (bindM (ca_update actionId (\<lambda>a. if success then a\<lparr>ca_status := CaEXECUTED, ca_txHash := Some txHash\<rparr>
                                   else a\<lparr>ca_status := CaFAILED\<rparr>)) (\<lambda>updated.
     thenM (ca_audit env now None
              (if success then ''COMPLIANCE_ACTION_EXECUTED'' else ''COMPLIANCE_ACTION_FAILED'')
              (if success then ''SUCCESS'' else ''FAILURE'') (if success then Some txHash else None)
              [(''actionId'', JString actionId)])
       (ret updated))))"

definition compliance_list ::
  "(ComplianceAction list \<Rightarrow> ComplianceAction list) \<Rightarrow> ComplianceActionStatus option \<Rightarrow> int option \<Rightarrow> int option \<Rightarrow>
     comp_state \<Rightarrow> nat \<times> (ComplianceAction \<times> ComplianceApproval list) list" where
  "compliance_list ord status limit offset s =
     (let l = min 100 (max 1 (or_else limit 25)); k = max 0 (or_else offset 0);
          rows = filter (\<lambda>a. case status of None \<Rightarrow> True | Some st \<Rightarrow> ca_status a = st) (actions_of s)
      in (length rows, map (\<lambda>a. (a, approvals_for (ca_id a) s)) (take (nat l) (drop (nat k) (ord rows)))))"

section \<open>Sequences of operations\<close>

datatype comp_op =
    OpRequest string string ComplianceActionType ComplianceDto
  | OpApprove string string
  | OpReject string string "string option"
  | OpResult string string bool

fun comp_exec :: "comp_env \<Rightarrow> int \<Rightarrow> comp_op \<Rightarrow> comp_state \<Rightarrow> comp_state" where
  "comp_exec env now (OpRequest newId officer type dto) s =
     (if newId \<in> set (map ca_id (actions_of s)) then s else snd (requestAction env now newId officer type dto s))"
| "comp_exec env now (OpApprove officer actionId) s = snd (approve env now officer actionId s)"
| "comp_exec env now (OpReject officer actionId reason) s = snd (reject env now officer actionId reason s)"
| "comp_exec env now (OpResult actionId txHash success) s =
     snd (recordExecutionResult env now actionId txHash success s)"

fun comp_run :: "comp_env \<Rightarrow> (int \<times> comp_op) list \<Rightarrow> comp_state \<Rightarrow> comp_state" where
  "comp_run env [] s = s"
| "comp_run env ((now, op) # ops) s = comp_run env ops (comp_exec env now op s)"

section \<open>Interleaved approvals\<close>

datatype ca_pc =
    CStart
  | CChecked ComplianceAction
  | CSigned ComplianceAction
  | CDispatch ComplianceAction
  | CMarked ComplianceAction
  | CPushed ComplianceAction
  | CDone bool

text \<open>One phase of an approval by an officer; an exception ends it.\<close>

definition ca_phase ::
  "comp_env \<Rightarrow> int \<Rightarrow> string \<Rightarrow> string \<Rightarrow> ca_pc \<Rightarrow> comp_state \<Rightarrow> ca_pc \<times> comp_state" where
  "ca_phase env now officerId actionId p s =
     (case p of
        CStart \<Rightarrow>
          (case approve_checks officerId actionId s of
             (Inl e, s') \<Rightarrow> (CDone False, s') | (Inr a, s') \<Rightarrow> (CChecked a, s'))
      | CChecked a \<Rightarrow>
          (case approve_sign env now officerId a s of
             (Inl e, s') \<Rightarrow> (CDone False, s') | (Inr _, s') \<Rightarrow> (CSigned a, s'))
      | CSigned a \<Rightarrow> (if enough_approvals actionId s then CDispatch a else CDone True, s)
      | CDispatch a \<Rightarrow>
          (case set_status (ca_id a) CaAPPROVED s of
             (Inl e, s') \<Rightarrow> (CDone False, s') | (Inr _, s') \<Rightarrow> (CMarked a, s'))
      | CMarked a \<Rightarrow>
          (case executor_execute env (job_of env a) s of
             (Inl e, s') \<Rightarrow> (CDone False, s') | (Inr _, s') \<Rightarrow> (CPushed a, s'))
      | CPushed a \<Rightarrow>
          (case thenM (set_status (ca_id a) CaEXECUTING) (dispatched_audit env now a (ca_id a)) s of
             (Inl e, s') \<Rightarrow> (CDone False, s') | (Inr _, s') \<Rightarrow> (CDone True, s'))
      | CDone b \<Rightarrow> (CDone b, s))"

type_synonym ca_config = "(nat \<Rightarrow> ca_pc) \<times> comp_state"

text \<open>\<open>who i\<close> is the officer and the action of the \<open>i\<close>-th approval.\<close>

inductive ca_step ::
  "comp_env \<Rightarrow> (nat \<Rightarrow> string \<times> string) \<Rightarrow> ca_config \<Rightarrow> ca_config \<Rightarrow> bool"
  for env who where
  advance: "who i = (officer, actionId) \<Longrightarrow> ca_phase env now officer actionId (pcs i) s = (p', s') \<Longrightarrow>
     ca_step env who (pcs, s) (pcs(i := p'), s')"
| operation: "(\<forall>officer actionId. oper \<noteq> OpApprove officer actionId) \<Longrightarrow>
     ca_step env who (pcs, s) (pcs, comp_exec env now oper s)"

inductive ca_reachable ::
  "comp_env \<Rightarrow> (nat \<Rightarrow> string \<times> string) \<Rightarrow> ca_config \<Rightarrow> ca_config \<Rightarrow> bool"
  for env who c0 where
  start: "ca_reachable env who c0 c0"
| step: "ca_reachable env who c0 c \<Longrightarrow> ca_step env who c c' \<Longrightarrow> ca_reachable env who c0 c'"

section \<open>The invariant\<close>

definition safe :: "comp_env \<Rightarrow> comp_state \<Rightarrow> bool" where
  "safe env s =
     (distinct (map ca_id (actions_of s)) \<and>
      distinct (map (\<lambda>p. (ap_actionId p, ap_officerId p)) (approvals_of s)) \<and>
      (\<forall>p \<in> set (approvals_of s). is_admin (cs_db s) (ap_officerId p) \<and>
         (\<exists>a \<in> set (actions_of s). ca_id a = ap_actionId p \<and> ap_signature p = signApproval env (ap_officerId p) a)) \<and>
      (\<forall>j \<in> set (cs_jobs s). enough_approvals (cj_actionId j) s \<and> (\<exists>a \<in> set (actions_of s). job_of env a = j)))"

text \<open>What every operation preserves: users, the content of actions, approvals.\<close>

definition ext :: "comp_env \<Rightarrow> comp_state \<Rightarrow> comp_state \<Rightarrow> bool" where
  "ext env s s' =
     (users (cs_db s') = users (cs_db s) \<and>
      (\<forall>a \<in> set (actions_of s). \<exists>b \<in> set (actions_of s'). job_of env b = job_of env a) \<and>
      (\<exists>ps. approvals_of s' = approvals_of s @ ps))"

definition known :: "comp_env \<Rightarrow> ComplianceAction \<Rightarrow> comp_state \<Rightarrow> bool" where
  "known env a s = (\<exists>b \<in> set (actions_of s). job_of env b = job_of env a)"

definition admin :: "string \<Rightarrow> comp_state \<Rightarrow> bool" where
  "admin u s = is_admin (cs_db s) u"

lemma ext_refl [simp]: "ext env s s"
  by (auto simp: ext_def)

lemma ext_trans: "ext env s t \<Longrightarrow> ext env t r \<Longrightarrow> ext env s r"
  by (fastforce simp: ext_def)

lemma stable:
  assumes "ext env s s'"
  shows "known env a s \<Longrightarrow> known env a s'" and "admin u s \<Longrightarrow> admin u s'"
    and "enough_approvals i s \<Longrightarrow> enough_approvals i s'"
  using assms by (fastforce simp: ext_def known_def admin_def is_admin_def enough_approvals_def approvals_for_def)+

lemma sign_content: "job_of env a = job_of env b \<Longrightarrow> signApproval env u a = signApproval env u b"
  by (simp add: job_of_def signApproval_def)

lemma content_id: "job_of env a = job_of env b \<Longrightarrow> ca_id a = ca_id b"
  by (simp add: job_of_def)

text \<open>
  Partial correctness under the invariant: from a safe state in which \<open>P\<close> holds, the
  computation leads to a safe extension of the state, in which \<open>Q\<close> holds of the value if it returns one.
\<close>

definition triple ::
  "comp_env \<Rightarrow> (comp_state \<Rightarrow> bool) \<Rightarrow> (comp_state, 'a) M \<Rightarrow> ('a \<Rightarrow> comp_state \<Rightarrow> bool) \<Rightarrow> bool" where
  "triple env P m Q =
     (\<forall>s. safe env s \<longrightarrow> P s \<longrightarrow> safe env (snd (m s)) \<and> ext env s (snd (m s)) \<and>
        (case fst (m s) of Inl _ \<Rightarrow> True | Inr x \<Rightarrow> Q x (snd (m s))))"

lemma tripleD:
  assumes "triple env P m Q" and "safe env s" and "P s" and "m s = (r, s')"
  shows "safe env s'" and "ext env s s'" and "r = Inr x \<Longrightarrow> Q x s'"
  using assms by (auto simp: triple_def)

lemma triple_bind:
  assumes "triple env P m Q" and "\<And>x. triple env (Q x) (f x) R"
  shows "triple env P (bindM m f) R"
  unfolding triple_def
proof (intro allI impI)
  fix s assume s: "safe env s" "P s"
  obtain r s' where m: "m s = (r, s')" by (cases "m s")
  note D = tripleD [OF assms(1) s m]
  show "safe env (snd (bindM m f s)) \<and> ext env s (snd (bindM m f s)) \<and>
      (case fst (bindM m f s) of Inl _ \<Rightarrow> True | Inr x \<Rightarrow> R x (snd (bindM m f s)))"
  proof (cases r)
    case (Inl e)
    then show ?thesis using m D by (simp add: bindM_def)
  next
    case (Inr x)
    obtain r2 s2 where f: "f x s' = (r2, s2)" by (cases "f x s'")
    have eq: "bindM m f s = (r2, s2)" using m f Inr by (simp add: bindM_def)
    note E = tripleD [OF assms(2) D(1) D(3) [OF Inr] f]
    have "ext env s s2" by (rule ext_trans [OF D(2) E(2)])
    with E eq show ?thesis by (auto split: sum.split)
  qed
qed

lemma triple_then:
  assumes "triple env P m Q" and "triple env (\<lambda>s. \<exists>x. Q x s) k R"
  shows "triple env P (thenM m k) R"
  unfolding thenM_def
  by (rule triple_bind [OF assms(1)]) (use assms(2) in \<open>auto simp: triple_def\<close>)

lemma triple_pre: "triple env P m Q \<Longrightarrow> (\<And>s. P' s \<Longrightarrow> P s) \<Longrightarrow> triple env P' m Q"
  by (auto simp: triple_def)

lemma triple_post: "triple env P m Q \<Longrightarrow> (\<And>x s. Q x s \<Longrightarrow> Q' x s) \<Longrightarrow> triple env P m Q'"
  by (auto simp: triple_def split: sum.splits)

definition stable_fact :: "comp_env \<Rightarrow> (comp_state \<Rightarrow> bool) \<Rightarrow> bool" where
  "stable_fact env F = (\<forall>s s'. ext env s s' \<longrightarrow> F s \<longrightarrow> F s')"

lemma triple_frame:
  assumes "triple env P m Q" and "stable_fact env F"
  shows "triple env (\<lambda>s. P s \<and> F s) m (\<lambda>x s. Q x s \<and> F s)"
  unfolding triple_def
proof (intro allI impI)
  fix s assume s: "safe env s" "P s \<and> F s"
  obtain r s' where m: "m s = (r, s')" by (cases "m s")
  note D = tripleD [OF assms(1) s(1) conjunct1 [OF s(2)] m]
  have "F s'" using assms(2) D(2) s(2) by (simp add: stable_fact_def)
  with D show "safe env (snd (m s)) \<and> ext env s (snd (m s)) \<and>
      (case fst (m s) of Inl _ \<Rightarrow> True | Inr x \<Rightarrow> Q x (snd (m s)) \<and> F (snd (m s)))"
    by (simp add: m split: sum.split)
qed

lemma stable_facts [simp]:
  "stable_fact env (known env a)" "stable_fact env (admin u)" "stable_fact env (enough_approvals i)"
  "stable_fact env (\<lambda>s. C)"
  using stable by (auto simp: stable_fact_def)

lemma stable_conj [simp]: "stable_fact env F \<Longrightarrow> stable_fact env G \<Longrightarrow> stable_fact env (\<lambda>s. F s \<and> G s)"
  unfolding stable_fact_def by blast

text \<open>A computation that leaves the state alone.\<close>

lemma triple_read:
  assumes "\<And>s. snd (m s) = s" and "\<And>s x. P s \<Longrightarrow> fst (m s) = Inr x \<Longrightarrow> Q x s"
  shows "triple env P m Q"
  using assms by (auto simp: triple_def split: sum.split)

section \<open>The operations keep the invariant\<close>

lemma audit_triple:
  assumes "stable_fact env F"
  shows "triple env F (ca_audit env now u opn out h meta) (\<lambda>_. F)"
proof -
  define f where "f = (\<lambda>s :: comp_state. snd (ca_audit env now u opn out h meta s))"
  have f: "ca_audit env now u opn out h meta s = (Inr (), f s)" for s
    by (simp add: f_def ca_audit_def modifyM_def)
  have same: "users (cs_db (f s)) = users (cs_db s)" "actions_of (f s) = actions_of s"
    "approvals_of (f s) = approvals_of s" "cs_jobs (f s) = cs_jobs s" for s
    by (simp_all add: f_def ca_audit_def modifyM_def)
  have e: "ext env s (f s)" for s by (auto simp: ext_def same)
  have "safe env (f s)" if "safe env s" for s
    using that by (simp add: safe_def same is_admin_def enough_approvals_def approvals_for_def)
  then show ?thesis using assms e unfolding triple_def stable_fact_def f by auto
qed

lemma load_triple: "triple env (\<lambda>_. True) (loadAction i) (\<lambda>x s. known env (fst x) s \<and> ca_id (fst x) = i)"
  by (rule triple_read)
    (auto simp: loadAction_def known_def split: option.splits dest: find_Some_D)

lemma admin_triple: "triple env (\<lambda>_. True) (ca_assertAdmin u) (\<lambda>_. admin u)"
  by (rule triple_read) (auto simp: ca_assertAdmin_def zoomM_def admin_def split: if_splits)

lemma approvals_for_append:
  "approvals_of s' = approvals_of s @ ps \<Longrightarrow>
     approvals_for i s' = approvals_for i s @ filter (\<lambda>p. ap_actionId p = i) ps"
  by (simp add: approvals_for_def)

lemma create_triple:
  "triple env (\<lambda>s. admin u s \<and> known env a s) (createApproval env u a) (\<lambda>_ _. True)"
  unfolding triple_def
proof (intro allI impI)
  fix s assume s: "safe env s" "admin u s \<and> known env a s"
  define s' where "s' = snd (createApproval env u a s)"
  show "safe env (snd (createApproval env u a s)) \<and> ext env s (snd (createApproval env u a s)) \<and>
      (case fst (createApproval env u a s) of Inl _ \<Rightarrow> True | Inr _ \<Rightarrow> True)"
  proof (cases "\<exists>p \<in> set (approvals_of s). ap_actionId p = ca_id a \<and> ap_officerId p = u")
    case True
    then show ?thesis using s by (simp add: createApproval_def)
  next
    case False
    define p where "p = \<lparr>ap_actionId = ca_id a, ap_officerId = u, ap_signature = signApproval env u a\<rparr>"
    have s': "s' = s\<lparr>cs_db := (cs_db s)\<lparr>complianceApprovals := approvals_of s @ [p]\<rparr>\<rparr>"
      using False by (auto simp: s'_def createApproval_def p_def)
    obtain b where b: "b \<in> set (actions_of s)" "job_of env b = job_of env a" using s(2) by (auto simp: known_def)
    have "ca_id b = ap_actionId p \<and> ap_signature p = signApproval env u b"
      using content_id [OF b(2)] sign_content [OF b(2)] by (simp add: p_def)
    moreover have "enough_approvals i s \<Longrightarrow> enough_approvals i s'" for i
      by (auto simp: enough_approvals_def approvals_for_def s')
    ultimately have "safe env s'"
      using s b(1) False by (auto simp: safe_def s' admin_def is_admin_def p_def image_iff)
    then show ?thesis by (auto simp: ext_def s'_def [symmetric]) (auto simp: s' split: sum.split)
  qed
qed

lemma update_triple:
  assumes "\<And>a. job_of env (f a) = job_of env a" and "stable_fact env F"
  shows "triple env F (ca_update i f) (\<lambda>_. F)"
  unfolding triple_def
proof (intro allI impI)
  fix s assume s: "safe env s" "F s"
  show "safe env (snd (ca_update i f s)) \<and> ext env s (snd (ca_update i f s)) \<and>
      (case fst (ca_update i f s) of Inl _ \<Rightarrow> True | Inr _ \<Rightarrow> F (snd (ca_update i f s)))"
  proof (cases "find (\<lambda>a. ca_id a = i) (actions_of s)")
    case None
    then show ?thesis using s by (simp add: ca_update_def update_one_def)
  next
    case (Some r)
    define g where "g a = (if ca_id a = i then f a else a)" for a
    define s' where "s' = s\<lparr>cs_db := (cs_db s)\<lparr>complianceActions := map g (actions_of s)\<rparr>\<rparr>"
    have run: "ca_update i f s = (Inr (f r), s')"
      using Some by (simp add: ca_update_def update_one_def s'_def update_where_def g_def)
    have g: "job_of env (g a) = job_of env a" "ca_id (g a) = ca_id a"
      "signApproval env u (g a) = signApproval env u a" for a u
      using assms(1) content_id [OF assms(1)] sign_content [OF assms(1)] by (simp_all add: g_def)
    have ids: "map ca_id (map g (actions_of s)) = map ca_id (actions_of s)" by (simp add: g)
    have "safe env s'"
      using s(1) unfolding safe_def
      by (simp add: s'_def is_admin_def enough_approvals_def approvals_for_def g ids del: map_map)
    moreover have "ext env s s'" by (auto simp: ext_def s'_def g)
    ultimately show ?thesis using s(2) assms(2) by (auto simp: run stable_fact_def)
  qed
qed

lemma status_triple: "stable_fact env F \<Longrightarrow> triple env F (set_status i st) (\<lambda>_. F)"
  unfolding set_status_def by (rule update_triple) (simp_all add: job_of_def)

lemma push_triple:
  "triple env (\<lambda>s. known env a s \<and> enough_approvals (ca_id a) s) (executor_execute env (job_of env a)) (\<lambda>_ _. True)"
  unfolding triple_def
proof (intro allI impI)
  fix s assume s: "safe env s" "known env a s \<and> enough_approvals (ca_id a) s"
  define s' where "s' = s\<lparr>cs_jobs := cs_jobs s @ [job_of env a]\<rparr>"
  have run: "executor_execute env (job_of env a) s =
      (case ce_redis env of Inl e \<Rightarrow> (Inl e, s) | Inr _ \<Rightarrow> (Inr (ca_id a), s'))"
    by (simp add: executor_execute_def thenM_def bindM_def liftR_def modifyM_def ret_def s'_def job_of_def split: sum.split)
  have same: "enough_approvals i s' = enough_approvals i s" for i
    by (simp add: s'_def enough_approvals_def approvals_for_def)
  have "cj_actionId (job_of env a) = ca_id a" by (simp add: job_of_def)
  moreover have "\<exists>b \<in> set (actions_of s). job_of env b = job_of env a" using s(2) by (simp add: known_def)
  ultimately have "safe env s'"
    using s unfolding safe_def same by (auto simp: s'_def)
  moreover have "ext env s s'" by (auto simp: ext_def s'_def)
  ultimately show "safe env (snd (executor_execute env (job_of env a) s)) \<and>
      ext env s (snd (executor_execute env (job_of env a) s)) \<and>
      (case fst (executor_execute env (job_of env a) s) of Inl _ \<Rightarrow> True | Inr _ \<Rightarrow> True)"
    using s(1) by (simp add: run split: sum.split)
qed

lemma execute_triple:
  "triple env (\<lambda>s. known env a s \<and> enough_approvals (ca_id a) s) (execute env now a) (\<lambda>_ _. True)"
  unfolding execute_def dispatched_audit_def
  by (intro triple_then [OF status_triple] triple_bind [OF triple_pre [OF push_triple]]
      triple_then [OF status_triple] triple_pre [OF audit_triple]) auto

lemma checks_triple:
  "triple env (\<lambda>_. True) (approve_checks u i) (\<lambda>a s. known env a s \<and> admin u s \<and> ca_id a = i)"
proof -
  have load: "triple env (admin u) (loadAction i) (\<lambda>x s. (known env (fst x) s \<and> ca_id (fst x) = i) \<and> admin u s)"
    using triple_frame [OF load_triple, of env "admin u" i] by simp
  show ?thesis
    unfolding approve_checks_def
    by (rule triple_then [OF admin_triple], rule triple_pre [OF triple_bind [OF load]])
      (auto intro!: triple_read simp: assertAwaitingApproval_def thenM_def bindM_def guardM_def readM_def
        ret_def split: if_splits)
qed

lemma sign_triple:
  "triple env (\<lambda>s. admin u s \<and> known env a s) (approve_sign env now u a) (\<lambda>_ _. True)"
  unfolding approve_sign_def
  by (intro triple_then [OF create_triple] triple_pre [OF audit_triple]) auto

lemma approve_triple: "triple env (\<lambda>_. True) (approve env now u i) (\<lambda>_ _. True)"
proof -
  have sign: "triple env (\<lambda>s. known env a s \<and> admin u s \<and> ca_id a = i) (approve_sign env now u a)
      (\<lambda>_ s. known env a s \<and> ca_id a = i)" for a
    by (rule triple_pre [OF triple_post [OF triple_frame [OF sign_triple, of env "\<lambda>s. known env a s \<and> ca_id a = i"]]])
      auto
  have cnt: "triple env (\<lambda>s. \<exists>x. known env a s \<and> ca_id a = i) (readM (enough_approvals i))
      (\<lambda>b s. known env a s \<and> ca_id a = i \<and> (b \<longrightarrow> enough_approvals (ca_id a) s))" for a
    by (rule triple_read) (auto simp: readM_def)
  have exec: "triple env (\<lambda>s. known env a s \<and> ca_id a = i \<and> (b \<longrightarrow> enough_approvals (ca_id a) s))
      (if b then execute env now a else ret ()) (\<lambda>_ _. True)" for a b
    by (cases b) (auto intro: triple_pre [OF execute_triple] triple_read simp: ret_def)
  have get: "triple env (\<lambda>_. True) (getAction j) (\<lambda>_ _. True)" for j
    unfolding getAction_def by (rule triple_post [OF load_triple]) simp
  show ?thesis
    unfolding approve_def
    by (intro triple_bind [OF checks_triple] triple_then [OF sign] triple_bind [OF cnt] triple_then [OF exec]
        triple_pre [OF get]) auto
qed

lemma reject_triple: "triple env (\<lambda>_. True) (reject env now u i reason) (\<lambda>_ _. True)"
  unfolding reject_def assertAwaitingApproval_def case_prod_beta
  by (intro triple_then [OF admin_triple] triple_bind [OF triple_pre [OF load_triple]]
      triple_then [OF triple_read [where Q = "\<lambda>_ _. True"]] triple_bind [OF status_triple]
      triple_then [OF audit_triple] triple_read)
    (auto simp: guardM_def ret_def)

lemma result_triple: "triple env (\<lambda>_. True) (recordExecutionResult env now i h ok) (\<lambda>_ _. True)"
  unfolding recordExecutionResult_def case_prod_beta
  by (intro triple_bind [OF load_triple] triple_then [OF triple_read [where Q = "\<lambda>_ _. True"]]
      triple_bind [OF update_triple] triple_then [OF audit_triple] triple_read)
    (auto simp: guardM_def ret_def job_of_def)


lemma insert_triple:
  "triple env (\<lambda>s. ca_id a \<notin> set (map ca_id (actions_of s)) \<and> admin u s)
     (modifyM (\<lambda>s. s\<lparr>cs_db := (cs_db s)\<lparr>complianceActions := actions_of s @ [a]\<rparr>\<rparr>))
     (\<lambda>_ s. admin u s \<and> known env a s)"
  by (auto simp: triple_def modifyM_def safe_def ext_def admin_def is_admin_def known_def
      enough_approvals_def approvals_for_def)

lemma request_triple:
  "triple env (\<lambda>s. newId \<notin> set (map ca_id (actions_of s))) (requestAction env now newId u ty dto) (\<lambda>_ _. True)"
proof -
  define a where "a = new_action now newId u ty dto"
  have id: "ca_id a = newId" by (simp add: a_def new_action_def)
  have adm: "triple env (\<lambda>s. newId \<notin> set (map ca_id (actions_of s))) (ca_assertAdmin u)
      (\<lambda>_ s. ca_id a \<notin> set (map ca_id (actions_of s)) \<and> admin u s)"
    by (rule triple_read) (auto simp: id ca_assertAdmin_def zoomM_def admin_def split: if_splits)
  have get: "triple env (\<lambda>_. True) (getAction j) (\<lambda>_ _. True)" for j
    unfolding getAction_def by (rule triple_post [OF load_triple]) simp
  show ?thesis
    unfolding requestAction_def a_def [symmetric] Let_def
    by (intro triple_then [OF adm] triple_pre [OF triple_then [OF insert_triple]]
        triple_pre [OF triple_then [OF create_triple]] triple_pre [OF triple_then [OF audit_triple]]
        triple_pre [OF get]) auto
qed

lemma exec_safe:
  assumes "safe env s"
  shows "safe env (comp_exec env now oper s) \<and> ext env s (comp_exec env now oper s)"
proof (cases oper)
  case (OpRequest i u ty dto)
  then show ?thesis
    using assms request_triple [of env i now u ty dto] by (auto simp: triple_def)
next
  case (OpApprove u i)
  then show ?thesis using assms approve_triple [of env now u i] by (simp add: triple_def)
next
  case (OpReject u i reason)
  then show ?thesis using assms reject_triple [of env now u i reason] by (simp add: triple_def)
next
  case (OpResult i h ok)
  then show ?thesis using assms result_triple [of env now i h ok] by (simp add: triple_def)
qed

section \<open>The invariant of interleaved approvals\<close>

fun pc_action :: "ca_pc \<Rightarrow> ComplianceAction option" where
  "pc_action (CChecked a) = Some a"
| "pc_action (CSigned a) = Some a"
| "pc_action (CDispatch a) = Some a"
| "pc_action (CMarked a) = Some a"
| "pc_action (CPushed a) = Some a"
| "pc_action _ = None"

fun pc_dispatching :: "ca_pc \<Rightarrow> bool" where
  "pc_dispatching (CDispatch _) = True"
| "pc_dispatching (CMarked _) = True"
| "pc_dispatching _ = False"

definition pc_ok :: "comp_env \<Rightarrow> string \<times> string \<Rightarrow> ca_pc \<Rightarrow> comp_state \<Rightarrow> bool" where
  "pc_ok env w p s =
     ((\<forall>a. pc_action p = Some a \<longrightarrow> known env a s \<and> admin (fst w) s \<and> ca_id a = snd w) \<and>
      (pc_dispatching p \<longrightarrow> enough_approvals (snd w) s))"

lemma pc_ok_ext: "ext env s s' \<Longrightarrow> pc_ok env w p s \<Longrightarrow> pc_ok env w p s'"
  using stable [of env s s'] by (auto simp: pc_ok_def)

lemma ca_phase_safe:
  assumes s: "safe env s" and p: "pc_ok env (u, i) p s"
    and ph: "ca_phase env now u i p s = (p', s')"
  shows "safe env s' \<and> ext env s s' \<and> pc_ok env (u, i) p' s'"
proof (cases p)
  case CStart
  obtain r t where c: "approve_checks u i s = (r, t)" by fastforce
  from tripleD [OF checks_triple s TrueI c] ph CStart c show ?thesis
    by (cases r) (auto simp: ca_phase_def pc_ok_def)
next
  case (CChecked a)
  have a: "admin u s \<and> known env a s" "ca_id a = i" using p CChecked by (auto simp: pc_ok_def)
  obtain r t where c: "approve_sign env now u a s = (r, t)" by fastforce
  note D = tripleD [OF sign_triple s a(1) c]
  from D stable [OF D(2)] a ph CChecked c show ?thesis
    by (cases r) (auto simp: ca_phase_def pc_ok_def)
next
  case (CSigned a)
  with p ph s show ?thesis by (auto simp: ca_phase_def pc_ok_def split: if_splits)
next
  case (CDispatch a)
  then have a: "known env a s \<and> admin u s \<and> enough_approvals i s" "ca_id a = i"
    using p by (auto simp: pc_ok_def)
  obtain r t where c: "set_status (ca_id a) CaAPPROVED s = (r, t)" by fastforce
  have "stable_fact env (\<lambda>s. known env a s \<and> admin u s \<and> enough_approvals i s)" by simp
  from tripleD [OF status_triple [OF this] s a(1) c] ph CDispatch c a(2) show ?thesis
    by (cases r) (auto simp: ca_phase_def pc_ok_def)
next
  case (CMarked a)
  then have a: "known env a s \<and> enough_approvals (ca_id a) s" "ca_id a = i" "admin u s"
    using p by (auto simp: pc_ok_def)
  obtain r t where c: "executor_execute env (job_of env a) s = (r, t)" by fastforce
  note D = tripleD [OF push_triple s a(1) c]
  from D stable [OF D(2)] ph CMarked c a show ?thesis
    by (cases r) (auto simp: ca_phase_def pc_ok_def)
next
  case (CPushed a)
  obtain r t where c: "thenM (set_status (ca_id a) CaEXECUTING) (dispatched_audit env now a (ca_id a)) s = (r, t)"
    by fastforce
  have tr: "triple env (\<lambda>_. True) (thenM (set_status (ca_id a) CaEXECUTING) (dispatched_audit env now a (ca_id a))) (\<lambda>_ _. True)"
    unfolding dispatched_audit_def
    by (intro triple_then [OF status_triple] triple_pre [OF audit_triple]) auto
  from tripleD [OF tr s TrueI c] ph CPushed c show ?thesis
    by (cases r) (auto simp: ca_phase_def pc_ok_def)
next
  case (CDone b)
  with p ph s show ?thesis by (auto simp: ca_phase_def)
qed

lemma ca_reachable_safe:
  assumes "ca_reachable env who c0 c" and "safe env (snd c0)" and "\<And>i. fst c0 i = CStart"
  shows "safe env (snd c) \<and> ext env (snd c0) (snd c) \<and> (\<forall>i. pc_ok env (who i) (fst c i) (snd c))"
  using assms
proof (induction rule: ca_reachable.induct)
  case start
  then show ?case by (simp add: pc_ok_def)
next
  case (step c c')
  then have IH: "safe env (snd c)" "ext env (snd c0) (snd c)" "\<And>i. pc_ok env (who i) (fst c i) (snd c)"
    by blast+
  from step(2) show ?case
  proof cases
    case (advance i u a now pcs s p' s')
    have ph: "safe env s' \<and> ext env s s' \<and> pc_ok env (u, a) p' s'"
      using ca_phase_safe [of env s u a "pcs i" now p' s'] IH advance by (metis fst_conv snd_conv)
    have "pc_ok env (who j) (pcs j) s'" for j
      by (rule pc_ok_ext) (use ph IH advance in auto)
    then show ?thesis using IH advance ph ext_trans by auto
  next
    case (operation oper pcs s now)
    have ex: "safe env (comp_exec env now oper s) \<and> ext env s (comp_exec env now oper s)"
      using exec_safe IH operation by simp
    have "pc_ok env (who j) (pcs j) (comp_exec env now oper s)" for j
      by (rule pc_ok_ext) (use ex IH operation in auto)
    then show ?thesis using IH operation ex ext_trans by auto
  qed
qed


section \<open>What one operation does to the actions and the jobs\<close>

lemma audit_view [simp]:
  "actions_of (snd (ca_audit env now u opn out h meta s)) = actions_of s"
  "cs_jobs (snd (ca_audit env now u opn out h meta s)) = cs_jobs s"
  "fst (ca_audit env now u opn out h meta s) = Inr ()"
  by (simp_all add: ca_audit_def modifyM_def)

lemma create_view [simp]:
  "actions_of (snd (createApproval env u a s)) = actions_of s"
  "cs_jobs (snd (createApproval env u a s)) = cs_jobs s"
  by (simp_all add: createApproval_def)

lemma sign_view:
  "actions_of (snd (approve_sign env now u a s)) = actions_of s"
  "cs_jobs (snd (approve_sign env now u a s)) = cs_jobs s"
  by (auto simp: approve_sign_def thenM_def bindM_def split: prod.split sum.split)
    (metis create_view snd_conv audit_view)+

lemma checks_view:
  "snd (approve_checks u i s) = s"
  "fst (approve_checks u i s) = Inr a \<Longrightarrow>
     find (\<lambda>a. ca_id a = i) (actions_of s) = Some a \<and> ca_status a = CaPENDING_APPROVAL"
  by (auto simp: approve_checks_def ca_assertAdmin_def zoomM_def thenM_def bindM_def loadAction_def
      assertAwaitingApproval_def guardM_def readM_def ret_def split: option.splits if_splits)

definition with_status :: "string \<Rightarrow> ComplianceActionStatus \<Rightarrow> ComplianceAction list \<Rightarrow> ComplianceAction list" where
  "with_status i st = update_where (\<lambda>a. ca_id a = i) (\<lambda>a. a\<lparr>ca_status := st\<rparr>)"

lemma set_status_view:
  assumes "find (\<lambda>a. ca_id a = i) (actions_of s) = Some a"
  shows "set_status i st s = (Inr (a\<lparr>ca_status := st\<rparr>),
    s\<lparr>cs_db := (cs_db s)\<lparr>complianceActions := with_status i st (actions_of s)\<rparr>\<rparr>)"
  using assms by (simp add: set_status_def ca_update_def update_one_def with_status_def)

lemma find_with_status:
  assumes "find (\<lambda>a. ca_id a = i) rows = Some a"
  shows "find (\<lambda>a. ca_id a = i) (with_status i st rows) = Some (a\<lparr>ca_status := st\<rparr>)"
  using assms find_Some_D [OF assms] by (simp add: with_status_def find_update_where)

lemma with_status_twice [simp]: "with_status i st (with_status i st' rows) = with_status i st rows"
  by (induction rows) (auto simp: with_status_def)

lemma execute_view:
  assumes "find (\<lambda>a. ca_id a = ca_id b) (actions_of s) = Some a"
  shows "actions_of (snd (execute env now b s)) =
      with_status (ca_id b) (if isl (ce_redis env) then CaAPPROVED else CaEXECUTING) (actions_of s) \<and>
    cs_jobs (snd (execute env now b s)) = cs_jobs s @ (if isl (ce_redis env) then [] else [job_of env b])"
proof -
  define s1 where "s1 = s\<lparr>cs_db := (cs_db s)\<lparr>complianceActions := with_status (ca_id b) CaAPPROVED (actions_of s)\<rparr>\<rparr>"
  have 1: "set_status (ca_id b) CaAPPROVED s = (Inr (a\<lparr>ca_status := CaAPPROVED\<rparr>), s1)"
    unfolding s1_def by (rule set_status_view [OF assms])
  define s2 where "s2 = s1\<lparr>cs_jobs := cs_jobs s1 @ [job_of env b]\<rparr>"
  have f2: "find (\<lambda>a. ca_id a = ca_id b) (actions_of s2) = Some (a\<lparr>ca_status := CaAPPROVED\<rparr>)"
    using find_with_status [OF assms] by (simp add: s2_def s1_def)
  have jid: "cj_actionId (job_of env b) = ca_id b" by (simp add: job_of_def)
  show ?thesis
  proof (cases "ce_redis env")
    case (Inl e)
    then show ?thesis
      by (simp add: execute_def thenM_def bindM_def 1 executor_execute_def liftR_def) (simp add: s1_def)
  next
    case (Inr x)
    then have "execute env now b s = dispatched_audit env now b (ca_id b)
        (s2\<lparr>cs_db := (cs_db s2)\<lparr>complianceActions := with_status (ca_id b) CaEXECUTING (actions_of s2)\<rparr>\<rparr>)"
      by (simp add: execute_def thenM_def bindM_def 1 executor_execute_def liftR_def modifyM_def ret_def
          s2_def [symmetric] set_status_view [OF f2] jid)
    then show ?thesis using Inr by (simp add: dispatched_audit_def s2_def s1_def)
  qed
qed

lemma get_view [simp]: "snd (getAction i s) = s"
  by (simp add: getAction_def loadAction_def split: option.split)

text \<open>An approval either leaves actions and jobs alone or dispatches a pending action.\<close>

lemma approve_view:
  assumes s'_def: "s' = snd (approve env now u i s)"
  shows "actions_of s' = actions_of s \<and> cs_jobs s' = cs_jobs s \<or>
    (\<exists>a. find (\<lambda>a. ca_id a = i) (actions_of s) = Some a \<and> ca_status a = CaPENDING_APPROVAL \<and>
       actions_of s' = with_status i (if isl (ce_redis env) then CaAPPROVED else CaEXECUTING) (actions_of s) \<and>
       cs_jobs s' = cs_jobs s @ (if isl (ce_redis env) then [] else [job_of env a]))"
proof -
  obtain r where c: "approve_checks u i s = (r, s)"
    using checks_view(1) [of u i s] by (cases "approve_checks u i s") auto
  show ?thesis
  proof (cases r)
    case (Inl e)
    then show ?thesis by (simp add: s'_def approve_def bindM_def c)
  next
    case (Inr a)
    with c checks_view(2) [of u i s a] have a: "find (\<lambda>a. ca_id a = i) (actions_of s) = Some a"
      "ca_status a = CaPENDING_APPROVAL" by simp_all
    then have id: "ca_id a = i" using find_Some_D by fastforce
    obtain q t where sg: "approve_sign env now u a s = (q, t)" by fastforce
    have t: "actions_of t = actions_of s" "cs_jobs t = cs_jobs s"
      using sign_view [of env now u a s] by (simp_all add: sg)
    have s': "s' = (case q of Inl _ \<Rightarrow> t
        | Inr _ \<Rightarrow> if enough_approvals i t then snd (execute env now a t) else t)"
      by (auto simp: s'_def approve_def bindM_def thenM_def c Inr sg readM_def ret_def split: sum.split prod.split)
    have "find (\<lambda>a. ca_id a = ca_id a') (actions_of t) = Some a" if "a' = a" for a'
      using a(1) t(1) id that by simp
    from execute_view [OF this [OF refl], of env now] show ?thesis
      using a t id by (auto simp: s' split: sum.split)
  qed
qed


text \<open>The moves of the life cycle that one operation can make.\<close>

fun ca_allowed :: "ComplianceActionStatus \<Rightarrow> ComplianceActionStatus \<Rightarrow> bool" where
  "ca_allowed CaPENDING_APPROVAL st = (st \<in> {CaPENDING_APPROVAL, CaREJECTED, CaAPPROVED, CaEXECUTING})"
| "ca_allowed CaAPPROVED st = (st \<in> {CaAPPROVED, CaEXECUTED, CaFAILED})"
| "ca_allowed CaEXECUTING st = (st \<in> {CaEXECUTING, CaEXECUTED, CaFAILED})"
| "ca_allowed st st' = (st' = st)"

lemma ca_allowed_refl [simp]: "ca_allowed st st"
  by (cases st) auto

text \<open>The content of an action: everything but its status and the hash of its transaction.\<close>

definition same_content :: "ComplianceAction \<Rightarrow> ComplianceAction \<Rightarrow> bool" where
  "same_content a b = (b = a\<lparr>ca_status := ca_status b, ca_txHash := ca_txHash b\<rparr>)"

lemma same_content_refl [simp]: "same_content a a"
  by (simp add: same_content_def)

lemma same_content_id: "same_content a b \<Longrightarrow> ca_id b = ca_id a"
  by (metis same_content_def ComplianceAction.select_convs(1) ComplianceAction.surjective ComplianceAction.update_convs(3,10))

lemma same_content_updates [simp]:
  "same_content a (a\<lparr>ca_status := st\<rparr>)" "same_content a (a\<lparr>ca_status := st, ca_txHash := h\<rparr>)"
  by (simp_all add: same_content_def)

text \<open>
  The actions after an operation: as before, one more pending one, or the row with id \<open>i\<close>, which was not final, moved to
  a status that the life cycle allows.
\<close>

definition moved :: "string \<Rightarrow> ComplianceAction list \<Rightarrow> ComplianceAction list \<Rightarrow> bool" where
  "moved i rows rows' =
     (\<exists>f a. find (\<lambda>a. ca_id a = i) rows = Some a \<and> rows' = update_where (\<lambda>a. ca_id a = i) f rows \<and>
        (\<forall>b. ca_id (f b) = ca_id b \<and> same_content b (f b) \<and> ca_status (f b) \<noteq> CaPENDING_APPROVAL) \<and>
        ca_allowed (ca_status a) (ca_status (f a)) \<and> ca_status a \<notin> {CaREJECTED, CaEXECUTED, CaFAILED} \<and>
        (ca_txHash (f a) \<noteq> ca_txHash a \<longrightarrow> ca_status (f a) = CaEXECUTED))"

lemma moved_with_status:
  "find (\<lambda>a. ca_id a = i) rows = Some a \<Longrightarrow> st \<noteq> CaPENDING_APPROVAL \<Longrightarrow> ca_status a = CaPENDING_APPROVAL \<Longrightarrow>
     ca_allowed CaPENDING_APPROVAL st \<Longrightarrow> moved i rows (with_status i st rows)"
  unfolding moved_def with_status_def by (intro exI [of _ "\<lambda>a. a\<lparr>ca_status := st\<rparr>"] exI [of _ a]) simp

lemma reject_view:
  assumes s': "s' = snd (reject env now u i reason s)"
  shows "cs_jobs s' = cs_jobs s \<and> (actions_of s' = actions_of s \<or> moved i (actions_of s) (actions_of s'))"
proof (cases "find (\<lambda>a. ca_id a = i) (actions_of s)")
  case None
  then show ?thesis
    by (simp add: s' reject_def ca_assertAdmin_def zoomM_def thenM_def bindM_def loadAction_def)
next
  case (Some a)
  show ?thesis
  proof (cases "is_admin (cs_db s) u \<and> ca_status a = CaPENDING_APPROVAL")
    case True
    then have "s' = snd (ca_audit env now (Some u) ''COMPLIANCE_ACTION_REJECTED'' ''SUCCESS'' None
        [(''actionId'', JString i), (''rejectedBy'', JString u), (''reason'', jopt reason)]
        (s\<lparr>cs_db := (cs_db s)\<lparr>complianceActions := with_status i CaREJECTED (actions_of s)\<rparr>\<rparr>))"
      by (simp add: s' reject_def ca_assertAdmin_def zoomM_def thenM_def bindM_def loadAction_def Some
          assertAwaitingApproval_def guardM_def set_status_view [OF Some] ret_def ca_audit_def modifyM_def)
    then show ?thesis using moved_with_status [OF Some, of CaREJECTED] True by simp
  next
    case False
    then show ?thesis
      by (auto simp: s' reject_def ca_assertAdmin_def zoomM_def thenM_def bindM_def loadAction_def Some
          assertAwaitingApproval_def guardM_def)
  qed
qed

lemma result_view:
  assumes s': "s' = snd (recordExecutionResult env now i h ok s)"
  shows "cs_jobs s' = cs_jobs s \<and> (actions_of s' = actions_of s \<or> moved i (actions_of s) (actions_of s'))"
proof (cases "find (\<lambda>a. ca_id a = i) (actions_of s)")
  case None
  then show ?thesis by (simp add: s' recordExecutionResult_def bindM_def loadAction_def)
next
  case (Some a)
  show ?thesis
  proof (cases "ca_status a = CaEXECUTING \<or> ca_status a = CaAPPROVED")
    case True
    define f :: "ComplianceAction \<Rightarrow> ComplianceAction" where
      "f = (\<lambda>a. if ok then a\<lparr>ca_status := CaEXECUTED, ca_txHash := Some h\<rparr> else a\<lparr>ca_status := CaFAILED\<rparr>)"
    have "moved i (actions_of s) (update_where (\<lambda>a. ca_id a = i) f (actions_of s))"
      unfolding moved_def by (rule exI [of _ f], rule exI [of _ a]) (use Some True in \<open>auto simp: f_def\<close>)
    moreover have "actions_of s' = update_where (\<lambda>a. ca_id a = i) f (actions_of s)" "cs_jobs s' = cs_jobs s"
      using True Some
      by (auto simp: s' recordExecutionResult_def bindM_def thenM_def loadAction_def guardM_def ca_update_def
          update_one_def ret_def f_def ca_audit_def modifyM_def)
    ultimately show ?thesis by simp
  next
    case False
    then show ?thesis by (simp add: s' recordExecutionResult_def bindM_def thenM_def loadAction_def guardM_def Some)
  qed
qed

lemma request_view:
  assumes s': "s' = snd (requestAction env now newId u ty dto s)"
  shows "cs_jobs s' = cs_jobs s \<and>
    (actions_of s' = actions_of s \<or> actions_of s' = actions_of s @ [new_action now newId u ty dto])"
  by (auto simp: s' requestAction_def Let_def ca_assertAdmin_def zoomM_def thenM_def bindM_def modifyM_def
      createApproval_def ca_audit_def split: prod.split sum.split)

text \<open>Every operation, on the actions and on the jobs.\<close>

lemma exec_view:
  "cs_jobs (comp_exec env now oper s) = cs_jobs s \<and>
      (actions_of (comp_exec env now oper s) = actions_of s \<or>
       (\<exists>i. moved i (actions_of s) (actions_of (comp_exec env now oper s))) \<or>
       (\<exists>a. ca_id a \<notin> set (map ca_id (actions_of s)) \<and> ca_status a = CaPENDING_APPROVAL \<and>
            actions_of (comp_exec env now oper s) = actions_of s @ [a])) \<or>
    (\<exists>a. find (\<lambda>x. ca_id x = ca_id a) (actions_of s) = Some a \<and> ca_status a = CaPENDING_APPROVAL \<and>
       cs_jobs (comp_exec env now oper s) = cs_jobs s @ [job_of env a] \<and>
       actions_of (comp_exec env now oper s) = with_status (ca_id a) CaEXECUTING (actions_of s))"
proof (cases oper)
  case (OpRequest i u ty dto)
  then show ?thesis
    using request_view [OF refl, of env now i u ty dto s] by (auto simp: new_action_def)
next
  case (OpApprove u i)
  then show ?thesis
    using approve_view [OF refl, of env now u i s] moved_with_status [of i "actions_of s" _ CaAPPROVED]
    by (auto split: if_splits dest: find_Some_D)
next
  case (OpReject u i reason)
  then show ?thesis using reject_view [OF refl, of env now u i reason s] by auto
next
  case (OpResult i h ok)
  then show ?thesis using result_view [OF refl, of env now i h ok s] by auto
qed


section \<open>Operations one after the other\<close>

definition once_inv :: "comp_state \<Rightarrow> bool" where
  "once_inv s =
     (distinct (map ca_id (actions_of s)) \<and> distinct (map cj_actionId (cs_jobs s)) \<and>
      (\<forall>j \<in> set (cs_jobs s). \<exists>a \<in> set (actions_of s). ca_id a = cj_actionId j \<and> ca_status a \<noteq> CaPENDING_APPROVAL))"

lemma once_moved:
  assumes "moved i rows rows'" and "a \<in> set rows" and "ca_status a \<noteq> CaPENDING_APPROVAL"
  shows "\<exists>b \<in> set rows'. ca_id b = ca_id a \<and> ca_status b \<noteq> CaPENDING_APPROVAL"
    and "map ca_id rows' = map ca_id rows"
proof -
  obtain f where f: "rows' = update_where (\<lambda>a. ca_id a = i) f rows"
    "\<And>b. ca_id (f b) = ca_id b \<and> ca_status (f b) \<noteq> CaPENDING_APPROVAL"
    using assms(1) unfolding moved_def by blast
  show "map ca_id rows' = map ca_id rows" using f by simp
  show "\<exists>b \<in> set rows'. ca_id b = ca_id a \<and> ca_status b \<noteq> CaPENDING_APPROVAL"
    using assms(2,3) f by (intro bexI [of _ "if ca_id a = i then f a else a"]) (auto simp: set_update_where)
qed

lemma moved_ids: "moved i rows rows' \<Longrightarrow> map ca_id rows' = map ca_id rows"
  by (auto simp: moved_def)

lemma once_exec:
  assumes inv: "once_inv s"
  shows "once_inv (comp_exec env now oper s)"
proof -
  define s' where "s' = comp_exec env now oper s"
  have ids: "distinct (map ca_id (actions_of s))" "distinct (map cj_actionId (cs_jobs s))"
    and sent: "\<And>j. j \<in> set (cs_jobs s) \<Longrightarrow>
      \<exists>a \<in> set (actions_of s). ca_id a = cj_actionId j \<and> ca_status a \<noteq> CaPENDING_APPROVAL"
    using inv by (auto simp: once_inv_def)
  consider (same) "cs_jobs s' = cs_jobs s" "actions_of s' = actions_of s"
    | (move) i where "cs_jobs s' = cs_jobs s" "moved i (actions_of s) (actions_of s')"
    | (add) a where "cs_jobs s' = cs_jobs s" "ca_id a \<notin> set (map ca_id (actions_of s))"
        "actions_of s' = actions_of s @ [a]"
    | (dispatch) a where "find (\<lambda>x. ca_id x = ca_id a) (actions_of s) = Some a" "ca_status a = CaPENDING_APPROVAL"
        "cs_jobs s' = cs_jobs s @ [job_of env a]" "actions_of s' = with_status (ca_id a) CaEXECUTING (actions_of s)"
    using exec_view [of env now oper s] unfolding s'_def by metis
  then have "once_inv s'"
  proof cases
    case same
    then show ?thesis using inv by (simp add: once_inv_def)
  next
    case (move i)
    then show ?thesis
      using ids sent moved_ids [OF move(2)] once_moved(1) [OF move(2)] unfolding once_inv_def by metis
  next
    case (add a)
    then show ?thesis using ids sent unfolding once_inv_def by auto
  next
    case (dispatch a)
    have a: "a \<in> set (actions_of s)" using find_Some_D [OF dispatch(1)] by simp
    have mv: "moved (ca_id a) (actions_of s) (actions_of s')"
      using moved_with_status [OF dispatch(1), of CaEXECUTING] dispatch by simp
    have "ca_id a \<notin> cj_actionId ` set (cs_jobs s)"
    proof
      assume "ca_id a \<in> cj_actionId ` set (cs_jobs s)"
      then obtain b where "b \<in> set (actions_of s)" "ca_id b = ca_id a" "ca_status b \<noteq> CaPENDING_APPROVAL"
        using sent by fastforce
      with a ids(1) dispatch(2) show False by (metis distinct_map inj_onD)
    qed
    moreover have "\<exists>b \<in> set (actions_of s'). ca_id b = ca_id a \<and> ca_status b \<noteq> CaPENDING_APPROVAL"
      using a dispatch(4)
      by (intro bexI [of _ "a\<lparr>ca_status := CaEXECUTING\<rparr>"]) (auto simp: with_status_def set_update_where)
    ultimately show ?thesis
      using ids sent moved_ids [OF mv] once_moved(1) [OF mv] dispatch(3) unfolding once_inv_def
      by (fastforce simp: job_of_def)
  qed
  then show ?thesis by (simp add: s'_def)
qed

lemma once_run: "once_inv s \<Longrightarrow> once_inv (comp_run env ops s)"
  by (induction env ops s rule: comp_run.induct) (simp_all add: once_exec)

section \<open>Schedules\<close>

text \<open>An executable scheduler: \<open>Inl i\<close> advances approval \<open>i\<close>, \<open>Inr op\<close> runs another operation.\<close>

fun is_approve :: "comp_op \<Rightarrow> bool" where
  "is_approve (OpApprove _ _) = True"
| "is_approve _ = False"

fun ca_schedule ::
  "comp_env \<Rightarrow> (nat \<Rightarrow> string \<times> string) \<Rightarrow> (int \<times> (nat + comp_op)) list \<Rightarrow> ca_config \<Rightarrow> ca_config" where
  "ca_schedule env who [] c = c"
| "ca_schedule env who ((now, Inl i) # xs) (pcs, s) =
     (case ca_phase env now (fst (who i)) (snd (who i)) (pcs i) s of
        (p', s') \<Rightarrow> ca_schedule env who xs (pcs(i := p'), s'))"
| "ca_schedule env who ((now, Inr oper) # xs) (pcs, s) =
     ca_schedule env who xs (pcs, if is_approve oper then s else comp_exec env now oper s)"

lemma ca_schedule_reachable: "ca_reachable env who c0 c \<Longrightarrow> ca_reachable env who c0 (ca_schedule env who xs c)"
proof (induction xs arbitrary: c)
  case (Cons x xs)
  obtain pcs s where c: "c = (pcs, s)" by (cases c)
  obtain now y where x: "x = (now, y)" by (cases x)
  show ?case
  proof (cases y)
    case (Inl i)
    obtain p' s' where ph: "ca_phase env now (fst (who i)) (snd (who i)) (pcs i) s = (p', s')" by fastforce
    have "ca_step env who (pcs, s) (pcs(i := p'), s')"
      by (rule ca_step.advance [where now = now and officer = "fst (who i)" and actionId = "snd (who i)"])
        (simp_all add: ph)
    then have "ca_reachable env who c0 (pcs(i := p'), s')"
      using Cons.prems c ca_reachable.step by blast
    from Cons.IH [OF this] show ?thesis by (simp add: x Inl c ph)
  next
    case (Inr oper)
    show ?thesis
    proof (cases "is_approve oper")
      case True
      then show ?thesis using Cons.IH [OF Cons.prems] by (simp add: x Inr c)
    next
      case False
      then have "\<forall>u i. oper \<noteq> OpApprove u i" by auto
      then have "ca_step env who (pcs, s) (pcs, comp_exec env now oper s)" by (rule ca_step.operation)
      then have "ca_reachable env who c0 (pcs, comp_exec env now oper s)"
        using Cons.prems c ca_reachable.step by blast
      from Cons.IH [OF this] show ?thesis using False by (simp add: x Inr c)
    qed
  qed
qed simp

section \<open>A concrete instance\<close>

text \<open>Three administrators and one clawback that the first has requested.\<close>

definition example_cenv :: "unit res \<Rightarrow> comp_env" where
  "example_cenv redis = \<lparr>ce_digest = (\<lambda>_. ''h''), ce_toISO = show_int, ce_trigger = False,
     ce_newId = (\<lambda>rows. show_nat (length rows)), ce_sha256 = (\<lambda>x. x), ce_secret = ''k'', ce_mainnet = False,
     ce_redis = redis\<rparr>"

definition example_users :: "User list" where
  "example_users = map (\<lambda>i. \<lparr>u_id = i, u_role = RoleADMIN, u_erasedAt = None\<rparr>) [''o1'', ''o2'', ''o3'']"

definition example_dto :: ComplianceDto where
  "example_dto = \<lparr>cd_targetAccount = ''GT'', cd_assetCode = ''USDC'', cd_assetIssuer = None,
     cd_amount = Some ''5'', cd_reason = None\<rparr>"

definition example_start :: comp_state where
  "example_start = \<lparr>cs_db = empty_db\<lparr>users := example_users\<rparr>, cs_jobs = []\<rparr>"

definition example_who :: "nat \<Rightarrow> string \<times> string" where
  "example_who i = (if i = 0 then ''o2'' else ''o3'', ''a1'')"

lemma example_start_safe: "safe env example_start" "once_inv example_start"
  by (simp_all add: safe_def once_inv_def example_start_def empty_db_def)


lemma two_officers:
  assumes "safe env s" and "enough_approvals i s"
  shows "\<exists>p \<in> set (approvals_for i s). \<exists>q \<in> set (approvals_for i s). ap_officerId p \<noteq> ap_officerId q"
proof -
  obtain p q ps where pq: "approvals_for i s = p # q # ps"
    using assms(2) unfolding enough_approvals_def REQUIRED_COMPLIANCE_APPROVALS_def
    by (cases "approvals_for i s"; cases "tl (approvals_for i s)") auto
  have "distinct (map (\<lambda>p. (ap_actionId p, ap_officerId p)) (approvals_of s))"
    using assms(1) by (simp add: safe_def)
  then have "distinct (map (\<lambda>p. (ap_actionId p, ap_officerId p)) (approvals_for i s))"
    by (simp add: approvals_for_def distinct_map_filter)
  moreover have "ap_actionId p = i" "ap_actionId q = i"
    using pq by (auto simp: approvals_for_def dest!: arg_cong [where f = set])
  ultimately show ?thesis using pq by auto
qed

section \<open>Properties\<close>

text \<open>
  C2. No compliance action is dispatched without two officers. In every state that interleaved
  approvals, requests, rejections and results can reach from a database without approvals, each
  job on the worker's list has two approvals by different officers, both administrators, each
  signed over the very action whose account, asset and amount the job carries.
\<close>

theorem dispatch_needs_two_officers:
  assumes "approvals_of s0 = []" and "cs_jobs s0 = []" and "distinct (map ca_id (actions_of s0))"
    and "ca_reachable env who (\<lambda>_. CStart, s0) (pcs, s)" and "job \<in> set (cs_jobs s)"
  shows "\<exists>a \<in> set (actions_of s). \<exists>p \<in> set (approvals_of s). \<exists>q \<in> set (approvals_of s).
    job = job_of env a \<and> ap_actionId p = ca_id a \<and> ap_actionId q = ca_id a \<and>
    ap_officerId p \<noteq> ap_officerId q \<and>
    is_admin (cs_db s0) (ap_officerId p) \<and> is_admin (cs_db s0) (ap_officerId q) \<and>
    ap_signature p = signApproval env (ap_officerId p) a \<and> ap_signature q = signApproval env (ap_officerId q) a"
proof -
  have s0: "safe env s0" using assms(1-3) by (simp add: safe_def)
  have inv: "safe env s" "ext env s0 s"
    using ca_reachable_safe [OF assms(4)] s0 by auto
  obtain a where a: "a \<in> set (actions_of s)" "job_of env a = job" and en: "enough_approvals (cj_actionId job) s"
    using inv(1) assms(5) by (auto simp: safe_def)
  have id: "cj_actionId job = ca_id a" using a(2) by (auto simp: job_of_def)
  obtain p q where pq: "p \<in> set (approvals_for (ca_id a) s)" "q \<in> set (approvals_for (ca_id a) s)"
    "ap_officerId p \<noteq> ap_officerId q" using two_officers [OF inv(1) en] id by auto
  have sig: "is_admin (cs_db s0) (ap_officerId r) \<and> ap_signature r = signApproval env (ap_officerId r) a"
    if rr: "r \<in> set (approvals_for (ca_id a) s)" for r
  proof -
    obtain b where b: "b \<in> set (actions_of s)" "ca_id b = ca_id a"
      "ap_signature r = signApproval env (ap_officerId r) b" "is_admin (cs_db s) (ap_officerId r)"
      using inv(1) rr by (auto simp: safe_def approvals_for_def)
    moreover have "b = a" using inv(1) a(1) b(1,2) by (auto simp: safe_def distinct_map dest: inj_onD)
    moreover have "is_admin (cs_db s0) u = is_admin (cs_db s) u" for u
      using inv(2) by (simp add: ext_def is_admin_def)
    ultimately show ?thesis by simp
  qed
  show ?thesis
    using a pq sig [OF pq(1)] sig [OF pq(2)]
    by (intro bexI [of _ a] bexI [of _ p] bexI [of _ q]) (auto simp: approvals_for_def)
qed

theorem dispatch_needs_two_officers_witness:
  "let (pcs, s) = ca_schedule (example_cenv (Inr ())) example_who
       ((1000, Inr (OpRequest ''a1'' ''o1'' CLAWBACK example_dto)) # map (\<lambda>_. (2000, Inl 0)) [1 :: int .. 6])
       (\<lambda>_. CStart, example_start)
   in length (cs_jobs s) = 1 \<and>
      list_all (\<lambda>job. \<exists>p \<in> set (approvals_of s). \<exists>q \<in> set (approvals_of s).
        ap_actionId p = cj_actionId job \<and> ap_actionId q = cj_actionId job \<and> ap_officerId p \<noteq> ap_officerId q)
        (cs_jobs s)"
proof -
  define sched where "sched = (1000 :: int, Inr (OpRequest ''a1'' ''o1'' CLAWBACK example_dto) :: nat + comp_op) #
    map (\<lambda>_. (2000, Inl 0)) [1 :: int .. 6]"
  define c where "c = ca_schedule (example_cenv (Inr ())) example_who sched (\<lambda>_. CStart, example_start)"
  have one: "length (cs_jobs (snd c)) = 1"
    unfolding c_def sched_def by code_simp
  have reach: "ca_reachable (example_cenv (Inr ())) example_who (\<lambda>_. CStart, example_start) (fst c, snd c)"
    unfolding c_def prod.collapse by (rule ca_schedule_reachable [OF ca_reachable.start])
  have "\<exists>p \<in> set (approvals_of (snd c)). \<exists>q \<in> set (approvals_of (snd c)).
      ap_actionId p = cj_actionId job \<and> ap_actionId q = cj_actionId job \<and> ap_officerId p \<noteq> ap_officerId q"
    if "job \<in> set (cs_jobs (snd c))" for job
    using dispatch_needs_two_officers [OF _ _ _ reach that]
    by (fastforce simp: example_start_def empty_db_def job_of_def)
  with one show ?thesis unfolding sched_def [symmetric] c_def [symmetric] by (simp add: list_all_iff case_prod_beta)
qed

text \<open>
  Operations that run one after the other dispatch an action at most once: the jobs on the
  worker's list belong to different actions.
\<close>

theorem sequential_dispatch_once:
  assumes "cs_jobs s0 = []" and "distinct (map ca_id (actions_of s0))"
  shows "distinct (map cj_actionId (cs_jobs (comp_run env ops s0)))"
  using once_run [of s0 env ops] assms by (simp add: once_inv_def)

theorem sequential_dispatch_once_witness:
  "distinct (map cj_actionId (cs_jobs (comp_run (example_cenv (Inr ()))
     [(1, OpRequest ''a1'' ''o1'' CLAWBACK example_dto), (2, OpApprove ''o2'' ''a1''), (3, OpApprove ''o3'' ''a1'')]
     example_start)))"
  by (rule sequential_dispatch_once) (simp_all add: example_start_def empty_db_def)

text \<open>
  Approvals that overlap can dispatch an action twice: the second and the third officer have
  both passed the check that the action awaits approval before either signs, each then counts
  enough approvals, and the worker's list receives the clawback two times.
\<close>

theorem overlapping_approvals_dispatch_twice:
  "\<exists>pcs s. ca_reachable (example_cenv (Inr ())) example_who (\<lambda>_. CStart, example_start) (pcs, s) \<and>
     map cj_actionId (cs_jobs s) = [''a1'', ''a1'']"
proof -
  define c where "c = ca_schedule (example_cenv (Inr ())) example_who
    [(1, Inr (OpRequest ''a1'' ''o1'' CLAWBACK example_dto)), (2, Inl 0), (2, Inl 1), (3, Inl 0), (3, Inl 1),
     (4, Inl 0), (4, Inl 1), (5, Inl 0), (5, Inl 1), (6, Inl 0), (6, Inl 1)] (\<lambda>_. CStart, example_start)"
  have "map cj_actionId (cs_jobs (snd c)) = [''a1'', ''a1'']" unfolding c_def by code_simp
  moreover have "ca_reachable (example_cenv (Inr ())) example_who (\<lambda>_. CStart, example_start) (fst c, snd c)"
    unfolding c_def prod.collapse by (rule ca_schedule_reachable [OF ca_reachable.start])
  ultimately show ?thesis by (intro exI [of _ "fst c"] exI [of _ "snd c"] conjI)
qed

text \<open>
  A result can be lost. The worker may answer as soon as the job is on its list; when its
  result is recorded before the approving call writes the status \<open>EXECUTING\<close>, that write
  overwrites \<open>EXECUTED\<close>, and the finished action appears as still running.
\<close>

theorem early_result_is_overwritten:
  "\<exists>pcs s. ca_reachable (example_cenv (Inr ())) example_who (\<lambda>_. CStart, example_start) (pcs, s) \<and>
     pcs 0 = CDone True \<and> map (\<lambda>a. (ca_status a, ca_txHash a)) (actions_of s) = [(CaEXECUTING, Some ''tx'')] \<and>
     map a_operation (filter (\<lambda>r. a_txHash r = Some ''tx'') (auditLogs (cs_db s))) = [''COMPLIANCE_ACTION_EXECUTED'']"
proof -
  define c where "c = ca_schedule (example_cenv (Inr ())) example_who
    [(1, Inr (OpRequest ''a1'' ''o1'' CLAWBACK example_dto)), (2, Inl 0), (3, Inl 0), (4, Inl 0), (5, Inl 0),
     (6, Inl 0), (7, Inr (OpResult ''a1'' ''tx'' True)), (8, Inl 0)] (\<lambda>_. CStart, example_start)"
  have "fst c 0 = CDone True"
    "map (\<lambda>a. (ca_status a, ca_txHash a)) (actions_of (snd c)) = [(CaEXECUTING, Some ''tx'')]"
    "map a_operation (filter (\<lambda>r. a_txHash r = Some ''tx'') (auditLogs (cs_db (snd c)))) = [''COMPLIANCE_ACTION_EXECUTED'']"
    unfolding c_def by code_simp+
  moreover have "ca_reachable (example_cenv (Inr ())) example_who (\<lambda>_. CStart, example_start) (fst c, snd c)"
    unfolding c_def prod.collapse by (rule ca_schedule_reachable [OF ca_reachable.start])
  ultimately show ?thesis by (intro exI [of _ "fst c"] exI [of _ "snd c"] conjI)
qed

lemma lifecycle_moved:
  assumes "moved i (actions_of s) (actions_of s')" and "distinct (map ca_id (actions_of s))" and "a \<in> set (actions_of s)"
  shows "\<exists>b \<in> set (actions_of s'). same_content a b \<and> ca_allowed (ca_status a) (ca_status b) \<and>
    (ca_status a \<in> {CaREJECTED, CaEXECUTED, CaFAILED} \<longrightarrow> b = a) \<and> (ca_txHash b \<noteq> ca_txHash a \<longrightarrow> ca_status b = CaEXECUTED)"
proof -
  obtain f b where f: "find (\<lambda>a. ca_id a = i) (actions_of s) = Some b"
    "actions_of s' = update_where (\<lambda>a. ca_id a = i) f (actions_of s)" "\<And>c. same_content c (f c)"
    "ca_allowed (ca_status b) (ca_status (f b))" "ca_status b \<notin> {CaREJECTED, CaEXECUTED, CaFAILED}"
    "ca_txHash (f b) \<noteq> ca_txHash b \<longrightarrow> ca_status (f b) = CaEXECUTED"
    using assms(1) unfolding moved_def by blast
  have "b = a" if "ca_id a = i"
    using find_key [OF assms(2,3)] f(1) that by simp
  then show ?thesis
    using assms(3) f by (intro bexI [of _ "if ca_id a = i then f a else a"]) (auto simp: set_update_where)
qed

lemma lifecycle_step:
  assumes "distinct (map ca_id (actions_of s))" and "a \<in> set (actions_of s)"
  shows "\<exists>b \<in> set (actions_of (comp_exec env now oper s)). same_content a b \<and> ca_allowed (ca_status a) (ca_status b) \<and>
    (ca_status a \<in> {CaREJECTED, CaEXECUTED, CaFAILED} \<longrightarrow> b = a) \<and> (ca_txHash b \<noteq> ca_txHash a \<longrightarrow> ca_status b = CaEXECUTED)"
proof -
  define s' where "s' = comp_exec env now oper s"
  consider (move) i where "moved i (actions_of s) (actions_of s')" | (kept) "a \<in> set (actions_of s')"
    using exec_view [of env now oper s] moved_with_status [of _ "actions_of s" _ CaEXECUTING] assms(2)
    unfolding s'_def [symmetric] by (elim disjE exE conjE) auto
  then show ?thesis
  proof cases
    case (move i)
    show ?thesis unfolding s'_def [symmetric] by (rule lifecycle_moved [OF move assms])
  next
    case kept
    then show ?thesis unfolding s'_def [symmetric] by (intro bexI [of _ a]) simp_all
  qed
qed

lemma exec_ids:
  assumes "distinct (map ca_id (actions_of s))"
  shows "distinct (map ca_id (actions_of (comp_exec env now oper s)))"
  using exec_view [of env now oper s] assms moved_ids
  by (elim disjE exE conjE) (auto simp: with_status_def)

lemma final_stays:
  assumes "distinct (map ca_id (actions_of s))" and "a \<in> set (actions_of s)" and "ca_status a \<in> {CaREJECTED, CaEXECUTED, CaFAILED}"
  shows "a \<in> set (actions_of (comp_run env ops s))"
  using assms
proof (induction env ops s rule: comp_run.induct)
  case (2 env now oper ops s)
  have "a \<in> set (actions_of (comp_exec env now oper s))"
    using lifecycle_step [OF 2(2,3), of env now oper] 2(4) by blast
  then show ?case using 2(1) [OF exec_ids [OF 2(2)]] 2(4) by simp
qed simp

text \<open>
  C12. The life cycle, when operations do not overlap. An operation keeps every action: all its fields but the status and the hash of its
  transaction stay the same, the status moves only along the allowed edges (from pending to rejected, approved or executing, from
  there to executed or failed), and a hash is recorded only with the move to executed. A rejected, executed or failed action stays in the
  table unchanged through any further sequence of operations. Calls that overlap can undo this, as \<open>early_result_is_overwritten\<close> shows.
\<close>

theorem compliance_lifecycle:
  assumes "distinct (map ca_id (actions_of s))" and "a \<in> set (actions_of s)"
  shows "(\<exists>b \<in> set (actions_of (comp_exec env now oper s)).
      b = a\<lparr>ca_status := ca_status b, ca_txHash := ca_txHash b\<rparr> \<and> ca_allowed (ca_status a) (ca_status b) \<and>
      (ca_txHash b \<noteq> ca_txHash a \<longrightarrow> ca_status b = CaEXECUTED)) \<and>
    (ca_status a \<in> {CaREJECTED, CaEXECUTED, CaFAILED} \<longrightarrow> a \<in> set (actions_of (comp_run env ops s)))"
  using lifecycle_step [OF assms, of env now oper] final_stays [OF assms, of env ops] unfolding same_content_def by blast

text \<open>The second officer's approval moves a requested clawback to executing.\<close>

definition lifecycle_state :: comp_state where
  "lifecycle_state = comp_exec (example_cenv (Inr ())) 1 (OpRequest ''a1'' ''o1'' CLAWBACK example_dto) example_start"

theorem compliance_lifecycle_witness:
  "\<exists>b. actions_of (comp_exec (example_cenv (Inr ())) 2 (OpApprove ''o2'' ''a1'') lifecycle_state) = [b] \<and> ca_status b = CaEXECUTING \<and>
     b = (new_action 1 ''a1'' ''o1'' CLAWBACK example_dto)\<lparr>ca_status := CaEXECUTING, ca_txHash := ca_txHash b\<rparr>"
proof -
  let ?a = "new_action 1 ''a1'' ''o1'' CLAWBACK example_dto"
  let ?s' = "comp_exec (example_cenv (Inr ())) 2 (OpApprove ''o2'' ''a1'') lifecycle_state"
  have rows: "actions_of lifecycle_state = [?a]" by code_simp
  have st: "map ca_status (actions_of ?s') = [CaEXECUTING]" by code_simp
  from compliance_lifecycle [of lifecycle_state ?a "example_cenv (Inr ())" 2 "OpApprove ''o2'' ''a1''" "[]"]
  obtain b where b: "b \<in> set (actions_of ?s')" "b = ?a\<lparr>ca_status := ca_status b, ca_txHash := ca_txHash b\<rparr>"
    unfolding rows by auto
  have "actions_of ?s' = [b]" "ca_status b = CaEXECUTING" using st b(1) by (auto simp: map_eq_Cons_conv)
  then show ?thesis using b(2) by (intro exI [of _ b]) simp
qed

text \<open>
  An approval whose push to the worker's list fails strands the action: the status
  \<open>APPROVED\<close> was written before, no job is on the list, the caller gets the error, and from
  then on every approval and every rejection of the action is refused, so that nobody can
  dispatch or cancel it.
\<close>

theorem failed_push_strands_action:
  assumes "find (\<lambda>a. ca_id a = i) (actions_of s) = Some a" and "ce_redis env = Inl e"
    and "s' = snd (execute env now a s)"
  shows "fst (execute env now a s) = Inl e \<and> cs_jobs s' = cs_jobs s \<and>
    find (\<lambda>a. ca_id a = i) (actions_of s') = Some (a\<lparr>ca_status := CaAPPROVED\<rparr>) \<and>
    isl (fst (approve env' t u i s')) \<and> snd (approve env' t u i s') = s' \<and>
    isl (fst (reject env' t u i reason s')) \<and> snd (reject env' t u i reason s') = s'"
proof -
  have id: "ca_id a = i" using find_Some_D [OF assms(1)] by simp
  note st = set_status_view [OF assms(1), of CaAPPROVED]
  have run: "execute env now a s = (Inl e,
      s\<lparr>cs_db := (cs_db s)\<lparr>complianceActions := with_status i CaAPPROVED (actions_of s)\<rparr>\<rparr>)"
    by (simp add: execute_def thenM_def bindM_def id st executor_execute_def liftR_def assms(2))
  then have s': "s' = s\<lparr>cs_db := (cs_db s)\<lparr>complianceActions := with_status i CaAPPROVED (actions_of s)\<rparr>\<rparr>"
    using assms(3) by simp
  have fnd: "find (\<lambda>a. ca_id a = i) (actions_of s') = Some (a\<lparr>ca_status := CaAPPROVED\<rparr>)"
    using find_with_status [OF assms(1)] by (simp add: s')
  have chk: "isl (fst (approve_checks u i s'))" "snd (approve_checks u i s') = s'"
    using fnd checks_view(1) [of u i s']
    by (auto simp: approve_checks_def ca_assertAdmin_def zoomM_def thenM_def bindM_def loadAction_def
        assertAwaitingApproval_def guardM_def)
  then have "isl (fst (approve env' t u i s')) \<and> snd (approve env' t u i s') = s'"
    by (cases "approve_checks u i s'") (auto simp: approve_def bindM_def split: sum.split)
  moreover have "isl (fst (reject env' t u i reason s')) \<and> snd (reject env' t u i reason s') = s'"
    using fnd by (auto simp: reject_def ca_assertAdmin_def zoomM_def thenM_def bindM_def loadAction_def
        assertAwaitingApproval_def guardM_def)
  ultimately show ?thesis using run fnd by (simp add: s')
qed

theorem failed_push_strands_action_witness:
  "let a = new_action 1 ''a1'' ''o1'' FREEZE example_dto;
       s = example_start\<lparr>cs_db := (cs_db example_start)\<lparr>complianceActions := [a]\<rparr>\<rparr>;
       s' = snd (execute (example_cenv (Inl (JsError ''Error'' ''down''))) 2 a s)
   in cs_jobs s' = [] \<and> isl (fst (approve (example_cenv (Inr ())) 3 ''o3'' ''a1'' s'))"
proof -
  define a where "a = new_action 1 ''a1'' ''o1'' FREEZE example_dto"
  define s where "s = example_start\<lparr>cs_db := (cs_db example_start)\<lparr>complianceActions := [a]\<rparr>\<rparr>"
  have "find (\<lambda>a. ca_id a = ''a1'') (actions_of s) = Some a" by (simp add: s_def a_def new_action_def)
  from failed_push_strands_action [OF this, of "example_cenv (Inl (JsError ''Error'' ''down''))" _ _ 2
      "example_cenv (Inr ())" 3 "''o3''", OF _ refl]
  show ?thesis unfolding a_def [symmetric] s_def [symmetric] Let_def
    by (simp add: example_cenv_def) (simp add: s_def example_start_def)
qed

end
