(* ===== verification/Zkp.thy ===== *)
theory Zkp
  imports Schema
begin

text \<open>
  The verifier of zero-knowledge compliance proofs (\<open>apps/api/src/transaction/zkp-verify.ts\<close>) and
  the service in front of it (\<open>compliance.service.ts\<close>): modular arithmetic on big integers, the
  Fiat-Shamir challenge, the 1-of-2 proof for a bit, the range proof and the compliance check.
  The group is a record; \<open>afropay_group\<close> holds the constants of the source. The digest (SHA-256,
  read as a number) is an argument.
\<close>

section \<open>Big integers\<close>

text \<open>The operators \<open>/\<close> and \<open>%\<close> of \<open>bigint\<close> truncate towards zero.\<close>

definition js_quot :: "int \<Rightarrow> int \<Rightarrow> int" where
  "js_quot a b = sgn a * sgn b * (\<bar>a\<bar> div \<bar>b\<bar>)"

definition js_rem :: "int \<Rightarrow> int \<Rightarrow> int" where
  "js_rem a b = a - js_quot a b * b"

function modPow_loop :: "int \<Rightarrow> int \<Rightarrow> int \<Rightarrow> int \<Rightarrow> int" where
  "modPow_loop result base e m =
     (if 0 < e
      then modPow_loop (if odd e then js_rem (result * base) m else result) (js_rem (base * base) m) (e div 2) m
      else result)"
  by auto
termination by (relation "measure (\<lambda>(_, _, e, _). nat e)") auto

declare modPow_loop.simps [simp del]

definition modPow :: "int \<Rightarrow> int \<Rightarrow> int \<Rightarrow> int" where
  "modPow base e m = (if m = 1 then 0 else modPow_loop 1 (js_rem base m) e m)"

lemma js_rem_sgn: "js_rem a b = sgn a * (\<bar>a\<bar> mod \<bar>b\<bar>)"
proof -
  have "js_quot a b * b = sgn a * (\<bar>a\<bar> div \<bar>b\<bar>) * (b * sgn b)" by (simp add: js_quot_def mult_ac)
  also have "\<dots> = sgn a * (\<bar>a\<bar> div \<bar>b\<bar> * \<bar>b\<bar>)" by (simp add: abs_sgn [symmetric])
  finally have q: "js_quot a b * b = sgn a * (\<bar>a\<bar> div \<bar>b\<bar> * \<bar>b\<bar>)" .
  have "js_rem a b = sgn a * \<bar>a\<bar> - sgn a * (\<bar>a\<bar> div \<bar>b\<bar> * \<bar>b\<bar>)" by (simp add: js_rem_def q mult_sgn_abs)
  also have "\<dots> = sgn a * (\<bar>a\<bar> mod \<bar>b\<bar>)"
    by (simp only: right_diff_distrib [symmetric] minus_div_mult_eq_mod)
  finally show ?thesis .
qed

lemma js_rem_nonneg: "0 \<le> a \<Longrightarrow> 0 < b \<Longrightarrow> js_rem a b = a mod b"
  by (cases "a = 0") (simp_all add: js_rem_sgn)

lemma js_rem_less: "r \<noteq> 0 \<Longrightarrow> \<bar>oldR - js_quot oldR r * r\<bar> < \<bar>r\<bar>"
proof -
  assume "r \<noteq> 0"
  then have "\<bar>oldR\<bar> mod \<bar>r\<bar> < \<bar>r\<bar>" "0 \<le> \<bar>oldR\<bar> mod \<bar>r\<bar>" by simp_all
  moreover have "\<bar>js_rem oldR r\<bar> \<le> \<bar>oldR\<bar> mod \<bar>r\<bar>" using calculation by (simp add: js_rem_sgn abs_mult sgn_if)
  ultimately show ?thesis by (simp add: js_rem_def)
qed

function inverse_loop :: "int \<Rightarrow> int \<Rightarrow> int \<Rightarrow> int \<Rightarrow> int" where
  "inverse_loop oldR r oldS s =
     (if r \<noteq> 0
      then let q = js_quot oldR r in inverse_loop r (oldR - q * r) s (oldS - q * s)
      else oldS)"
  by auto
termination by (relation "measure (\<lambda>(_, r, _, _). nat \<bar>r\<bar>)") (auto simp: js_rem_less)

declare inverse_loop.simps [simp del]

definition modInverse :: "int \<Rightarrow> int \<Rightarrow> int" where
  "modInverse a m =
     (let a' = js_rem (js_rem a m + m) m
      in js_rem (js_rem (inverse_loop a' m 1 0) m + m) m)"

section \<open>Texts and bytes\<close>

text \<open>The hexadecimal digits of a number, most significant first: \<open>value.toString(16)\<close>.\<close>

fun nibbles :: "nat \<Rightarrow> nat list" where
  "nibbles n = (if n < 16 then [n] else nibbles (n div 16) @ [n mod 16])"

declare nibbles.simps [simp del]

fun bytes_of_nibbles :: "nat list \<Rightarrow> nat list" where
  "bytes_of_nibbles (a # b # xs) = (16 * a + b) # bytes_of_nibbles xs"
| "bytes_of_nibbles _ = []"

definition intBytes :: "int \<Rightarrow> nat list" where
  "intBytes v =
     (if v = 0 then [0]
      else let h = nibbles (nat v) in bytes_of_nibbles (if odd (length h) then 0 # h else h))"

definition text_bytes :: "string \<Rightarrow> nat list" where
  "text_bytes s = map code_of s"

text \<open>\<open>BigInt('0x...')\<close>: surrounding white space is dropped, at least one digit is needed.\<close>

definition SyntaxError :: exn where
  "SyntaxError = JsError ''SyntaxError'' ''Cannot convert to a BigInt''"

definition hex_number :: "string \<Rightarrow> nat" where
  "hex_number ds = foldl (\<lambda>n c. 16 * n + hex_val c) 0 ds"

definition parseHex :: "string \<Rightarrow> int res" where
  "parseHex v =
     (let t = js_trim (if prefix ''0x'' v then v else ''0x'' @ v); ds = drop 2 t
      in if ds \<noteq> [] \<and> list_all is_hex ds then Inr (int (hex_number ds)) else Inl SyntaxError)"

text \<open>\<open>BigInt(s)\<close> on the decimal texts of \<open>max_limit\<close>; the empty text is 0.\<close>

definition parseBigInt :: "string \<Rightarrow> int res" where
  "parseBigInt v =
     (let t = js_trim v; (neg, ds) = strip_sign t
      in if t = [] then Inr 0
         else if prefix ''0x'' t \<or> prefix ''0X'' t
         then (if drop 2 t \<noteq> [] \<and> list_all is_hex (drop 2 t) then Inr (int (hex_number (drop 2 t))) else Inl SyntaxError)
         else if ds \<noteq> [] \<and> list_all is_digit ds
         then Inr (if neg then - int (digits_val ds) else int (digits_val ds))
         else Inl SyntaxError)"

section \<open>The group\<close>

record zk_group =
  zP :: int
  zQ :: int
  zG :: int
  zH_EXP :: int

definition zH :: "zk_group \<Rightarrow> int" where
  "zH g = modPow (zG g) (zH_EXP g) (zP g)"

definition P_2048 :: int where
  "P_2048 = 0xFFFFFFFFFFFFFFFFC90FDAA22168C234C4C6628B80DC1CD129024E088A67CC74020BBEA63B139B22514A08798E3404DDEF9519B3CD3A431B302B0A6DF25F14374FE1356D6D51C245E485B576625E7EC6F44C42E9A637ED6B0BFF5CB6F406B7EDEE386BFB5A899FA5AE9F24117C4B1FE649286651ECE45B3DC2007CB8A163BF0598DA48361C55D39A69163FA8FD24CF5F83655D23DCA3AD961C62F356208552BB9ED529077096966D670C354E4ABC9804F1746C08CA18217C32905E462E36CE3BE39E772C180E86039B2783A2EC07A28FB5C55DF06F4C52C9DE2BCBF6955817183995497CEA956AE515D2261898FA051015728E5A8AACAA68FFFFFFFFFFFFFFFF"

definition afropay_group :: "(nat list \<Rightarrow> int) \<Rightarrow> zk_group" where
  "afropay_group digest = \<lparr>zP = P_2048, zQ = (P_2048 - 1) div 2, zG = 4,
     zH_EXP = digest (text_bytes ''AfroPay-ZKP-Pedersen-H-nothing-up-my-sleeve-v1'')\<rparr>"

section \<open>The proof\<close>

record BitProofDto =
  b_t0 :: string
  b_t1 :: string
  b_c0 :: string
  b_c1 :: string
  b_s0 :: string
  b_s1 :: string

record RangeProofDto =
  bit_commitments :: "string list"
  bit_proofs :: "BitProofDto list"

record ComplianceProofDto =
  cp_commitment :: string
  cp_max_limit :: string
  cp_k :: int
  amount_range :: RangeProofDto
  upper_range :: RangeProofDto

definition rbind :: "'a res \<Rightarrow> ('a \<Rightarrow> 'b res) \<Rightarrow> 'b res" where
  "rbind r f = (case r of Inl e \<Rightarrow> Inl e | Inr x \<Rightarrow> f x)"

text \<open>\<open>writeBigUInt64BE\<close> of the length of a part.\<close>

fun be_bytes :: "nat \<Rightarrow> nat \<Rightarrow> nat list" where
  "be_bytes 0 n = []"
| "be_bytes (Suc k) n = be_bytes k (n div 256) @ [n mod 256]"

definition hashToScalar :: "(nat list \<Rightarrow> int) \<Rightarrow> zk_group \<Rightarrow> nat list list \<Rightarrow> int" where
  "hashToScalar digest g parts =
     js_rem (digest (text_bytes ''AfroPay-ZKP-Compliance-v1'' @
       concat (map (\<lambda>p. be_bytes 8 (length p) @ p) parts))) (zQ g)"

definition verifyBit ::
  "(nat list \<Rightarrow> int) \<Rightarrow> zk_group \<Rightarrow> int \<Rightarrow> BitProofDto \<Rightarrow> nat list \<Rightarrow> bool res" where
  "verifyBit digest g commitmentB bp ctx =
     rbind (parseHex (b_t0 bp)) (\<lambda>t0. rbind (parseHex (b_t1 bp)) (\<lambda>t1.
     let c = hashToScalar digest g [ctx, intBytes commitmentB, intBytes t0, intBytes t1]
     in rbind (parseHex (b_c0 bp)) (\<lambda>c0. rbind (parseHex (b_c1 bp)) (\<lambda>c1.
        if js_rem (c0 + c1) (zQ g) \<noteq> c then Inr False
        else rbind (parseHex (b_s0 bp)) (\<lambda>s0.
          let lhs0 = modPow (zH g) s0 (zP g);
              rhs0 = js_rem (t0 * modPow commitmentB c0 (zP g)) (zP g)
          in if lhs0 \<noteq> rhs0 then Inr False
             else
               let x1 = js_rem (commitmentB * modInverse (zG g) (zP g)) (zP g)
               in rbind (parseHex (b_s1 bp)) (\<lambda>s1.
                 let lhs1 = modPow (zH g) s1 (zP g);
                     rhs1 = js_rem (t1 * modPow x1 c1 (zP g)) (zP g)
                 in if lhs1 \<noteq> rhs1 then Inr False else Inr True))))))"

text \<open>The loop over the bits; \<open>i\<close> is the index of the first of the remaining ones.\<close>

fun range_loop ::
  "(nat list \<Rightarrow> int) \<Rightarrow> zk_group \<Rightarrow> string \<Rightarrow> nat \<Rightarrow> (string \<times> BitProofDto) list \<Rightarrow> int \<Rightarrow> int option res" where
  "range_loop digest g baseCtx i [] reconstructed = Inr (Some reconstructed)"
| "range_loop digest g baseCtx i ((cHex, bp) # rest) reconstructed =
     rbind (parseHex cHex) (\<lambda>cI.
     rbind (verifyBit digest g cI bp (text_bytes baseCtx @ intBytes (int i))) (\<lambda>ok.
       if \<not> ok then Inr None
       else range_loop digest g baseCtx (Suc i) rest (js_rem (reconstructed * modPow cI (2 ^ i) (zP g)) (zP g))))"

definition verifyLtPow2 ::
  "(nat list \<Rightarrow> int) \<Rightarrow> zk_group \<Rightarrow> int \<Rightarrow> RangeProofDto \<Rightarrow> int \<Rightarrow> string \<Rightarrow> bool res" where
  "verifyLtPow2 digest g commitmentC rp k baseCtx =
     (if int (length (bit_commitments rp)) \<noteq> k \<or> int (length (bit_proofs rp)) \<noteq> k then Inr False
      else rbind (range_loop digest g baseCtx 0 (zip (bit_commitments rp) (bit_proofs rp)) 1) (\<lambda>r.
        case r of None \<Rightarrow> Inr False | Some v \<Rightarrow> Inr (v = js_rem commitmentC (zP g))))"

text \<open>The length of \<open>maxLimit.toString(2)\<close>.\<close>

fun bit_length :: "nat \<Rightarrow> nat" where
  "bit_length n = (if n < 2 then 1 else Suc (bit_length (n div 2)))"

declare bit_length.simps [simp del]

definition verifyCompliance ::
  "(nat list \<Rightarrow> int) \<Rightarrow> zk_group \<Rightarrow> string \<Rightarrow> int \<Rightarrow> ComplianceProofDto \<Rightarrow> bool res" where
  "verifyCompliance digest g commitmentHex maxLimit proof' =
     rbind (parseBigInt (cp_max_limit proof')) (\<lambda>lim.
     if lim \<noteq> maxLimit then Inr False
     else if cp_k proof' \<noteq> int (bit_length (nat maxLimit)) then Inr False
     else rbind (parseHex commitmentHex) (\<lambda>C.
       rbind (parseHex (cp_commitment proof')) (\<lambda>C'.
       if C' \<noteq> C then Inr False
       else rbind (verifyLtPow2 digest g C (amount_range proof') (cp_k proof') ''amount'') (\<lambda>ok.
         if \<not> ok then Inr False
         else
           let cU = js_rem (C * modPow (zG g) (2 ^ nat (cp_k proof') - 1 - maxLimit) (zP g)) (zP g)
           in verifyLtPow2 digest g cU (upper_range proof') (cp_k proof') ''upper''))))"

definition COMPLIANCE_LIMITS :: "int \<times> int" where
  "COMPLIANCE_LIMITS = (200000, 1000000)"

text \<open>\<open>ComplianceService.verifyComplianceProof\<close>: \<open>maxLimit\<close> is a number; the result is \<open>valid\<close>.\<close>

definition verifyComplianceProof ::
  "(nat list \<Rightarrow> int) \<Rightarrow> zk_group \<Rightarrow> string \<Rightarrow> jsnum \<Rightarrow> ComplianceProofDto \<Rightarrow> bool res" where
  "verifyComplianceProof digest g commitment maxLimit proof' =
     (case maxLimit of
        Num q \<Rightarrow>
          if commitment = [] \<or> of_int \<lfloor>q\<rfloor> \<noteq> q \<or> q \<le> 0
          then Inl (BadRequestException ''commitment and a positive integer max_limit are required'')
          else (case verifyCompliance digest g commitment \<lfloor>q\<rfloor> proof' of
                  Inl _ \<Rightarrow> Inl (BadRequestException ''malformed compliance proof'')
                | Inr valid \<Rightarrow> Inr valid)
      | _ \<Rightarrow> Inl (BadRequestException ''commitment and a positive integer max_limit are required''))"

definition getComplianceLimits :: "int \<times> int" where
  "getComplianceLimits = COMPLIANCE_LIMITS"

section \<open>Modular arithmetic is correct\<close>

lemma modPow_loop_correct:
  assumes "1 < m" and "0 \<le> result" "result < m" and "0 \<le> base"
  shows "modPow_loop result base e m = result * base ^ nat e mod m"
  using assms
proof (induction result base e m rule: modPow_loop.induct)
  case (1 result base e m)
  show ?case
  proof (cases "0 < e")
    case False
    then show ?thesis using 1 by (subst modPow_loop.simps) simp
  next
    case True
    define r' where "r' = (if odd e then result * base mod m else result)"
    define b' where "b' = base * base mod m"
    have step: "modPow_loop result base e m = modPow_loop r' b' (e div 2) m"
      using True 1(2-5) by (subst modPow_loop.simps) (simp add: r'_def b'_def js_rem_nonneg)
    have ih: "modPow_loop r' b' (e div 2) m = r' * b' ^ nat (e div 2) mod m"
      using 1(1) [OF True] 1(2-5) by (cases "odd e") (simp_all add: r'_def b'_def js_rem_nonneg)
    have sq: "b' ^ n mod m = base ^ (2 * n) mod m" for n
      by (simp add: b'_def power_mod power_mult power2_eq_square)
    have e: "nat e = 2 * nat (e div 2) + (if odd e then 1 else 0)"
      using True by (auto elim!: oddE evenE simp: nat_add_distrib nat_mult_distrib)
    have "r' * b' ^ nat (e div 2) mod m = (r' mod m) * (b' ^ nat (e div 2) mod m) mod m" by (simp add: mod_simps)
    also have "\<dots> = (r' mod m) * (base ^ (2 * nat (e div 2)) mod m) mod m" by (simp only: sq)
    also have "\<dots> = result * base ^ nat e mod m"
    proof (cases "odd e")
      case True
      then show ?thesis by (simp add: r'_def mod_simps e power_add mult_ac)
    next
      case False
      then show ?thesis by (simp add: r'_def mod_simps e)
    qed
    finally show ?thesis using step ih by simp
  qed
qed

lemma modPow_eq:
  assumes "0 < m" and "0 \<le> base"
  shows "modPow base e m = base ^ nat e mod m"
proof (cases "m = 1")
  case False
  with assms have "1 < m" by simp
  have "modPow base e m = 1 * (base mod m) ^ nat e mod m"
    unfolding modPow_def js_rem_nonneg [OF assms(2,1)] using False \<open>1 < m\<close> assms
    by (simp only: if_False) (rule modPow_loop_correct, simp_all)
  then show ?thesis by (simp add: power_mod)
qed (simp add: modPow_def)

lemma inverse_loop_correct:
  assumes "0 \<le> oldR" and "0 \<le> r" and "m dvd oldS * a - oldR" and "m dvd s * a - r" and "gcd oldR r = 1"
  shows "m dvd inverse_loop oldR r oldS s * a - 1"
  using assms
proof (induction oldR r oldS s rule: inverse_loop.induct)
  case (1 oldR r oldS s)
  show ?case
  proof (cases "r = 0")
    case True
    then show ?thesis using 1 by (subst inverse_loop.simps) simp
  next
    case False
    define q where "q = js_quot oldR r"
    have r': "oldR - q * r = oldR mod r"
      using js_rem_nonneg [of oldR r] 1(2,3) False by (simp add: js_rem_def q_def)
    have d: "m dvd (oldS - q * s) * a - (oldR - q * r)"
    proof -
      have eq: "(oldS - q * s) * a - (oldR - q * r) = (oldS * a - oldR) - q * (s * a - r)"
        by (simp add: algebra_simps)
      show ?thesis unfolding eq using 1(4,5) by (rule dvd_diff [OF _ dvd_mult])
    qed
    have "gcd r (oldR - q * r) = 1" unfolding r' using 1(6) by (metis gcd.commute gcd_red_int)
    moreover have "0 \<le> oldR - q * r" unfolding r' using 1(3) False by simp
    ultimately have "m dvd inverse_loop r (oldR - q * r) s (oldS - q * s) * a - 1"
      using 1(1) [OF False q_def] 1(3,5) d by simp
    then show ?thesis using False by (subst inverse_loop.simps) (simp add: q_def Let_def)
  qed
qed

lemma norm_mod: "0 < m \<Longrightarrow> js_rem (js_rem a m + m) m = a mod m"
proof -
  assume m: "0 < m"
  have "0 \<le> js_rem a m + m" using js_rem_less [of m a] m by (simp add: js_rem_def)
  then have "js_rem (js_rem a m + m) m = (js_rem a m + m) mod m" by (rule js_rem_nonneg [OF _ m])
  also have "\<dots> = (a - js_quot a m * m) mod m" by (simp add: js_rem_def)
  also have "\<dots> = a mod m" using mod_mult_self1 [of a "- js_quot a m" m] by simp
  finally show ?thesis .
qed

lemma modInverse_eq:
  assumes "1 < m" and "gcd a m = 1"
  shows "a * modInverse a m mod m = 1" and "0 \<le> modInverse a m" and "modInverse a m < m"
proof -
  define x where "x = inverse_loop (a mod m) m 1 0"
  have inv: "modInverse a m = x mod m" using assms by (simp add: modInverse_def norm_mod x_def Let_def)
  have "m dvd x * (a mod m) - 1"
    unfolding x_def by (rule inverse_loop_correct) (use assms gcd_red_int [of a m] in \<open>simp_all add: gcd.commute\<close>)
  then have "x * (a mod m) mod m = 1 mod m" by (simp add: mod_eq_dvd_iff)
  then show "a * modInverse a m mod m = 1" using assms(1) by (simp add: inv mod_simps mult.commute)
  show "0 \<le> modInverse a m" "modInverse a m < m" using assms(1) by (simp_all add: inv)
qed

section \<open>Numbers as texts\<close>

definition hex_char :: "nat \<Rightarrow> char" where
  "hex_char d = (if d < 10 then char_of (48 + d) else char_of (87 + d))"

definition to_hex :: "nat \<Rightarrow> string" where
  "to_hex n = map hex_char (nibbles n)"

lemma nibbles_value: "foldl (\<lambda>n d. 16 * n + d) 0 (nibbles n) = n"
  by (induction n rule: nibbles.induct) (subst nibbles.simps, simp)

lemma nibbles_small: "list_all (\<lambda>d. d < 16) (nibbles n)" "nibbles n \<noteq> []"
  by (induction n rule: nibbles.induct) (subst nibbles.simps, simp)+

lemma hex_char_val: "d < 16 \<Longrightarrow> hex_val (hex_char d) = d \<and> is_hex (hex_char d)"
  by (simp add: hex_char_def hex_val_def is_hex_def code_of_def Let_def)

lemma not_white_hex: "is_hex c \<Longrightarrow> \<not> js_white c"
  by (auto simp: is_hex_def js_white_def Let_def)

lemma trim_hex:
  assumes "list_all is_hex ds" and "ds \<noteq> []"
  shows "js_trim (''0x'' @ ds) = ''0x'' @ ds"
proof -
  obtain es e where ds: "ds = es @ [e]" using assms(2) by (cases ds rule: rev_cases) auto
  then have "\<not> js_white e" using assms(1) not_white_hex by simp
  moreover have "\<not> js_white (CHR ''0'')" by (simp add: js_white_def code_of_def)
  ultimately show ?thesis by (simp add: js_trim_def ds)
qed

lemma parseHex_to_hex [simp]: "parseHex (to_hex n) = Inr (int n)"
proof -
  have hex: "list_all is_hex (to_hex n)" and ne: "to_hex n \<noteq> []"
    using nibbles_small [of n] hex_char_val by (auto simp: to_hex_def list_all_iff)
  have "foldl (\<lambda>n c. 16 * n + hex_val c) k (map hex_char ds) = foldl (\<lambda>n d. 16 * n + d) k ds"
    if "list_all (\<lambda>d. d < 16) ds" for ds k
    using that by (induction ds arbitrary: k) (simp_all add: hex_char_val)
  from this [OF nibbles_small(1), of 0 n] have val: "hex_number (to_hex n) = n"
    by (simp add: hex_number_def to_hex_def nibbles_value)
  have "\<not> prefix ''0x'' (to_hex n)"
    using hex by (auto simp: prefix_def is_hex_def code_of_def)
  then show ?thesis
    using hex ne val trim_hex [OF hex ne] by (simp add: parseHex_def)
qed

lemma bit_length_bound: "n < 2 ^ bit_length n" "0 < bit_length n"
proof (induction n rule: bit_length.induct)
  case (1 n)
  { case 1 then show ?case
      using "1.IH"(1) by (cases "n < 2") (subst bit_length.simps, simp)+
  next case 2 show ?case by (subst bit_length.simps) simp }
qed


section \<open>Commitments whose generators are related\<close>

text \<open>
  What the constants of the source satisfy: the order of \<open>G\<close> divides \<open>Q\<close>, and \<open>w\<close> inverts the
  public exponent \<open>H_EXP\<close> modulo \<open>Q\<close>.
\<close>

definition related :: "zk_group \<Rightarrow> int \<Rightarrow> bool" where
  "related g w =
     (1 < zP g \<and> 0 < zQ g \<and> 0 \<le> zG g \<and> 0 \<le> zH_EXP g \<and> 0 \<le> w \<and>
      zG g ^ nat (zQ g) mod zP g = 1 \<and> zH_EXP g * w mod zQ g = 1)"

definition commit :: "zk_group \<Rightarrow> nat \<Rightarrow> nat \<Rightarrow> int" where
  "commit g amount blind = zG g ^ amount * zH g ^ blind mod zP g"

lemma pow_mod_order:
  assumes "g ^ q mod p = (1 :: int)"
  shows "g ^ (q * t + r) mod p = g ^ r mod p"
proof -
  have "(g ^ q) ^ t mod p = (g ^ q mod p) ^ t mod p" by (simp add: power_mod)
  then have one: "(g ^ q) ^ t mod p = 1 mod p" using assms by simp
  have "g ^ (q * t + r) mod p = ((g ^ q) ^ t mod p) * (g ^ r) mod p"
    by (simp add: power_add power_mult mod_simps)
  then show ?thesis by (simp add: one mod_simps)
qed

lemma zH_pow:
  assumes "related g w"
  shows "zH g = zG g ^ nat (zH_EXP g) mod zP g" and "0 \<le> zH g"
    and "zH g ^ n mod zP g = zG g ^ (nat (zH_EXP g) * n) mod zP g"
proof -
  have p: "0 < zP g" "0 \<le> zG g" using assms by (simp_all add: related_def)
  show eq: "zH g = zG g ^ nat (zH_EXP g) mod zP g" unfolding zH_def by (rule modPow_eq [OF p])
  then show "0 \<le> zH g" using p by simp
  show "zH g ^ n mod zP g = zG g ^ (nat (zH_EXP g) * n) mod zP g" by (simp add: eq power_mod power_mult)
qed

text \<open>Every power of \<open>G\<close> is a power of \<open>H\<close> with a known exponent.\<close>

lemma G_as_H:
  assumes "related g w"
  shows "zH g ^ (nat w * n) mod zP g = zG g ^ n mod zP g"
proof -
  have q: "zG g ^ nat (zQ g) mod zP g = 1" and pos: "0 < zQ g" "0 \<le> zH_EXP g" "0 \<le> w"
    and inv: "zH_EXP g * w mod zQ g = 1"
    using assms by (simp_all add: related_def)
  define t where "t = nat (zH_EXP g * w div zQ g)"
  have "zH_EXP g * w = zQ g * (zH_EXP g * w div zQ g) + 1"
    using mult_div_mod_eq [of "zQ g" "zH_EXP g * w"] inv by simp
  moreover have "0 \<le> zH_EXP g * w div zQ g" using pos by (simp add: pos_imp_zdiv_nonneg_iff)
  ultimately have "int (nat (zH_EXP g) * nat w) = int (nat (zQ g) * t + 1)"
    using pos by (simp add: t_def)
  then have "nat (zH_EXP g) * nat w = nat (zQ g) * t + 1" by (simp only: of_nat_eq_iff)
  then have "nat (zH_EXP g) * (nat w * n) = nat (zQ g) * (t * n) + n"
    by (metis mult.assoc distrib_right mult_1)
  then show ?thesis using pow_mod_order [OF q] zH_pow(3) [OF assms] by metis
qed

lemma commit_as_G:
  assumes "related g w"
  shows "commit g amount blind = zG g ^ (amount + nat (zH_EXP g) * blind) mod zP g"
proof -
  have "commit g amount blind = zG g ^ amount * (zH g ^ blind mod zP g) mod zP g"
    by (simp add: commit_def mod_simps)
  then show ?thesis by (simp add: zH_pow(3) [OF assms] mod_simps power_add)
qed

section \<open>Proofs for any commitment\<close>

definition challenge :: "(nat list \<Rightarrow> int) \<Rightarrow> zk_group \<Rightarrow> int \<Rightarrow> nat list \<Rightarrow> int" where
  "challenge digest g B ctx = hashToScalar digest g [ctx, intBytes B, intBytes 1, intBytes 1]"

definition forge_bit ::
  "(nat list \<Rightarrow> int) \<Rightarrow> zk_group \<Rightarrow> int \<Rightarrow> nat \<Rightarrow> int \<Rightarrow> nat list \<Rightarrow> BitProofDto" where
  "forge_bit digest g w y B ctx =
     (let c = nat (challenge digest g B ctx)
      in \<lparr>b_t0 = to_hex 1, b_t1 = to_hex 1, b_c0 = to_hex c, b_c1 = to_hex 0,
          b_s0 = to_hex (nat w * y * c), b_s1 = to_hex 0\<rparr>)"

lemma challenge_bounds:
  assumes "0 < zQ g" and "\<And>x. 0 \<le> digest x"
  shows "0 \<le> challenge digest g B ctx" and "challenge digest g B ctx < zQ g"
  using assms by (simp_all add: challenge_def hashToScalar_def js_rem_nonneg)

lemma forge_bit_accepted:
  assumes rel: "related g w" and dg: "\<And>x. 0 \<le> digest x" and B: "B = zG g ^ y mod zP g"
  shows "verifyBit digest g B (forge_bit digest g w y B ctx) ctx = Inr True"
proof -
  define c where "c = nat (challenge digest g B ctx)"
  have P: "1 < zP g" "0 < zP g" and Q: "0 < zQ g" using rel by (auto simp: related_def)
  note cb = challenge_bounds [of g digest B ctx, OF Q dg]
  have ci: "int c = challenge digest g B ctx" using cb by (simp add: c_def)
  have B0: "0 \<le> B" using P by (simp add: B)
  have lhs0: "modPow (zH g) (int (nat w * y * c)) (zP g) = B ^ c mod zP g"
  proof -
    have "modPow (zH g) (int (nat w * y * c)) (zP g) = zH g ^ (nat w * (y * c)) mod zP g"
      using modPow_eq [OF P(2) zH_pow(2) [OF rel]] by (simp only: nat_int mult.assoc)
    also have "\<dots> = zG g ^ (y * c) mod zP g" by (rule G_as_H [OF rel])
    also have "\<dots> = B ^ c mod zP g" by (simp add: B power_mod power_mult)
    finally show ?thesis .
  qed
  have rhs0: "js_rem (1 * modPow B (int c) (zP g)) (zP g) = B ^ c mod zP g"
    using modPow_eq [OF P(2) B0] P by (simp add: js_rem_nonneg)
  have lhs1: "modPow (zH g) 0 (zP g) = 1" using modPow_eq [OF P(2) zH_pow(2) [OF rel], of 0] P by simp
  have rhs1: "js_rem (1 * modPow x 0 (zP g)) (zP g) = 1" for x
    using P by (simp add: modPow_def modPow_loop.simps js_rem_nonneg)
  have sum: "js_rem (int c + 0) (zQ g) = challenge digest g B ctx"
    using cb Q by (simp add: ci js_rem_nonneg)
  show ?thesis
    unfolding verifyBit_def forge_bit_def Let_def c_def [symmetric] BitProofDto.simps parseHex_to_hex rbind_def
      sum.case of_nat_0 of_nat_1 challenge_def [symmetric] sum lhs0 rhs0 lhs1 rhs1
    by simp
qed

text \<open>The range proof: the commitment itself at bit 0 and commitments to nothing above it.\<close>

definition forge_range ::
  "(nat list \<Rightarrow> int) \<Rightarrow> zk_group \<Rightarrow> int \<Rightarrow> nat \<Rightarrow> nat \<Rightarrow> string \<Rightarrow> RangeProofDto" where
  "forge_range digest g w x k baseCtx =
     (let ctx = (\<lambda>i. text_bytes baseCtx @ intBytes (int i)); C = zG g ^ x mod zP g
      in \<lparr>bit_commitments = to_hex (nat C) # replicate (k - 1) (to_hex 1),
          bit_proofs = forge_bit digest g w x C (ctx 0) #
            map (\<lambda>i. forge_bit digest g w 0 1 (ctx i)) [1..<k]\<rparr>)"

lemma range_loop_ones:
  assumes rel: "related g w" and dg: "\<And>x. 0 \<le> digest x" and v: "0 \<le> v" "v < zP g"
  shows "range_loop digest g baseCtx i
      (zip (replicate n (to_hex 1)) (map (\<lambda>i. forge_bit digest g w 0 1 (text_bytes baseCtx @ intBytes (int i))) [i..<i + n])) v
    = Inr (Some v)"
proof (induction n arbitrary: i)
  case (Suc n)
  have P: "1 < zP g" using rel by (simp add: related_def)
  have one: "verifyBit digest g 1 (forge_bit digest g w 0 1 ctx) ctx = Inr True" for ctx
    by (rule forge_bit_accepted [OF rel dg]) (use P in simp)
  have pow: "js_rem (v * modPow 1 (2 ^ i) (zP g)) (zP g) = v"
    using P v by (simp add: modPow_eq js_rem_nonneg)
  have upt: "[i..<i + Suc n] = i # [Suc i..<Suc i + n]" by (simp add: upt_conv_Cons)
  show ?case
    unfolding upt using Suc.IH [of "Suc i"] by (simp add: rbind_def one pow)
qed simp

lemma forge_range_accepted:
  assumes rel: "related g w" and dg: "\<And>x. 0 \<le> digest x" and k: "0 < k"
  shows "verifyLtPow2 digest g (zG g ^ x mod zP g) (forge_range digest g w x k baseCtx) (int k) baseCtx = Inr True"
proof -
  define C where "C = zG g ^ x mod zP g"
  have P: "1 < zP g" "0 < zP g" using rel by (auto simp: related_def)
  have C: "0 \<le> C" "C < zP g" using P by (simp_all add: C_def)
  have first: "verifyBit digest g C (forge_bit digest g w x C ctx) ctx = Inr True" for ctx
    by (rule forge_bit_accepted [OF rel dg C_def])
  have pow: "js_rem (1 * modPow C (2 ^ 0) (zP g)) (zP g) = C"
    using P C by (simp add: modPow_eq js_rem_nonneg)
  have rest: "range_loop digest g baseCtx 1
      (zip (replicate (k - 1) (to_hex 1))
        (map (\<lambda>i. forge_bit digest g w 0 1 (text_bytes baseCtx @ intBytes (int i))) [1..<k])) C = Inr (Some C)"
    using range_loop_ones [of g w digest C baseCtx 1 "k - 1", OF rel dg C] k by simp
  show ?thesis
    using k first C P rest pow
    by (simp add: verifyLtPow2_def forge_range_def Let_def C_def [symmetric] rbind_def js_rem_nonneg)
qed


section \<open>What an accepted range proof establishes\<close>

fun weighted :: "nat \<Rightarrow> int list \<Rightarrow> int" where
  "weighted i [] = 1"
| "weighted i (c # cs) = c ^ (2 ^ i) * weighted (Suc i) cs"

lemma parseHex_nonneg: "parseHex v = Inr x \<Longrightarrow> 0 \<le> x"
  by (auto simp: parseHex_def Let_def split: if_splits)

lemma range_loop_sound:
  assumes "range_loop digest g baseCtx i xs v = Inr (Some r)" and "0 < zP g" and "0 \<le> v" and "v < zP g"
  shows "\<exists>cs. map (\<lambda>x. parseHex (fst x)) xs = map Inr cs \<and> r = v * weighted i cs mod zP g \<and>
    (\<forall>n < length xs. verifyBit digest g (cs ! n) (snd (xs ! n)) (text_bytes baseCtx @ intBytes (int (i + n))) = Inr True)"
  using assms
proof (induction xs arbitrary: i v)
  case Nil
  then show ?case by simp
next
  case (Cons x xs)
  obtain h bp where x: "x = (h, bp)" by (cases x)
  from Cons.prems(1) obtain c where c: "parseHex h = Inr c"
    and vb: "verifyBit digest g c bp (text_bytes baseCtx @ intBytes (int i)) = Inr True"
    and rest: "range_loop digest g baseCtx (Suc i) xs (js_rem (v * modPow c (2 ^ i) (zP g)) (zP g)) = Inr (Some r)"
    by (auto simp: x rbind_def split: sum.splits if_splits)
  have c0: "0 \<le> c" using parseHex_nonneg [OF c] .
  have pow: "modPow c (2 ^ i) (zP g) = c ^ (2 ^ i) mod zP g"
    using modPow_eq [OF Cons.prems(2) c0, of "2 ^ i"] by (simp add: nat_power_eq)
  have v': "js_rem (v * modPow c (2 ^ i) (zP g)) (zP g) = v * c ^ (2 ^ i) mod zP g"
    using Cons.prems(2,3) by (simp add: pow js_rem_nonneg mod_simps)
  obtain cs where cs: "map (\<lambda>x. parseHex (fst x)) xs = map Inr cs"
    "r = (v * c ^ (2 ^ i) mod zP g) * weighted (Suc i) cs mod zP g"
    "\<And>n. n < length xs \<Longrightarrow> verifyBit digest g (cs ! n) (snd (xs ! n))
      (text_bytes baseCtx @ intBytes (int (Suc i + n))) = Inr True"
    using Cons.IH [OF rest] Cons.prems(2) pos_mod_bound pos_mod_sign unfolding v' by metis
  have "verifyBit digest g ((c # cs) ! n) (snd ((x # xs) ! n)) (text_bytes baseCtx @ intBytes (int (i + n))) = Inr True"
    if "n < length (x # xs)" for n
    using that vb cs(3) by (cases n) (auto simp: x)
  then show ?case
    using cs(1,2) c by (intro exI [of _ "c # cs"]) (simp add: x mod_simps mult_ac)
qed

section \<open>Properties\<close>

text \<open>
  C15. The arithmetic of the verifier. Square-and-multiply computes the power modulo \<open>m\<close>, and the
  extended Euclidean algorithm terminates with the inverse, reduced modulo \<open>m\<close>, of every number that is prime to \<open>m\<close>.
\<close>

theorem modular_arithmetic_correct:
  assumes "1 < m" and "0 \<le> base" and "gcd a m = 1"
  shows "modPow base e m = base ^ nat e mod m \<and> a * modInverse a m mod m = 1 \<and>
    0 \<le> modInverse a m \<and> modInverse a m < m"
  using modPow_eq [of m base e] modInverse_eq [OF assms(1,3)] assms(1,2) by simp

theorem modular_arithmetic_correct_witness:
  "modPow 5 117 19 = 5 ^ 117 mod 19 \<and> 4 * modInverse 4 23 mod 23 = 1"
  using modular_arithmetic_correct [of 19 5 1 117] modular_arithmetic_correct [of 23 0 4 0]
    gcd_red_int [of 23 4] gcd_red_int [of 4 3] by (simp add: gcd.commute)

text \<open>
  C16. An accepted range proof has one commitment and one accepted bit proof per bit, and the
  commitments, weighted by the powers of two, multiply to the commitment in question.
\<close>

theorem range_proof_reconstructs:
  assumes "verifyLtPow2 digest g C rp k baseCtx = Inr True" and "1 < zP g"
  shows "\<exists>cs. map parseHex (bit_commitments rp) = map Inr cs \<and> int (length cs) = k \<and>
    length (bit_proofs rp) = length cs \<and> weighted 0 cs mod zP g = js_rem C (zP g) \<and>
    list_all (\<lambda>n. verifyBit digest g (cs ! n) (bit_proofs rp ! n) (text_bytes baseCtx @ intBytes (int n)) = Inr True)
      [0..<length cs]"
proof -
  have len: "int (length (bit_commitments rp)) = k" "int (length (bit_proofs rp)) = k"
    and loop: "range_loop digest g baseCtx 0 (zip (bit_commitments rp) (bit_proofs rp)) 1 =
      Inr (Some (js_rem C (zP g)))"
    using assms(1) by (auto simp: verifyLtPow2_def rbind_def split: if_splits sum.splits option.splits)
  have same: "length (bit_commitments rp) = length (bit_proofs rp)" using len by linarith
  obtain cs where cs: "map (\<lambda>x. parseHex (fst x)) (zip (bit_commitments rp) (bit_proofs rp)) = map Inr cs"
    "js_rem C (zP g) = 1 * weighted 0 cs mod zP g"
    "\<And>n. n < length (zip (bit_commitments rp) (bit_proofs rp)) \<Longrightarrow>
      verifyBit digest g (cs ! n) (snd (zip (bit_commitments rp) (bit_proofs rp) ! n))
        (text_bytes baseCtx @ intBytes (int (0 + n))) = Inr True"
    using range_loop_sound [OF loop] assms(2) by auto
  have "map parseHex (map fst (zip (bit_commitments rp) (bit_proofs rp))) = map Inr cs"
    using cs(1) by (simp add: comp_def)
  then have hex: "map parseHex (bit_commitments rp) = map Inr cs" using same by simp
  have "length cs = length (bit_proofs rp)" using arg_cong [OF hex, of length] same by simp
  with hex cs(2,3) len same show ?thesis
    by (intro exI [of _ cs]) (auto simp: list_all_iff)
qed

theorem range_proof_reconstructs_witness:
  "\<exists>cs. map parseHex (bit_commitments (forge_range (\<lambda>_. 7) \<lparr>zP = 23, zQ = 11, zG = 4, zH_EXP = 3\<rparr> 4 9 3 ''amount'')) = map Inr cs \<and>
     int (length cs) = 3 \<and> weighted 0 cs mod 23 = 4 ^ 9 mod 23"
proof -
  let ?g = "\<lparr>zP = 23, zQ = 11, zG = 4, zH_EXP = 3\<rparr> :: zk_group"
  have "verifyLtPow2 (\<lambda>_. 7) ?g (zG ?g ^ 9 mod zP ?g) (forge_range (\<lambda>_. 7) ?g 4 9 3 ''amount'') (int 3) ''amount'' = Inr True"
    by (rule forge_range_accepted) (simp_all add: related_def)
  then show ?thesis
    using range_proof_reconstructs [of "\<lambda>_. 7" ?g "zG ?g ^ 9 mod zP ?g" "forge_range (\<lambda>_. 7) ?g 4 9 3 ''amount''" "int 3" "''amount''"]
    by (auto simp: js_rem_nonneg)
qed

text \<open>
  The algorithm of a cheating prover: from the public constants of the group, his amount and his blinding he computes the inverse of the public
  exponent of \<open>H\<close>, reads his commitment as a power of \<open>G\<close> and opens it as a commitment to nothing with another blinding.
\<close>

definition forge_compliance ::
  "(nat list \<Rightarrow> int) \<Rightarrow> zk_group \<Rightarrow> nat \<Rightarrow> nat \<Rightarrow> string \<Rightarrow> int \<Rightarrow> ComplianceProofDto" where
  "forge_compliance digest g amount blind limitText maxLimit =
     (let w = modInverse (zH_EXP g) (zQ g);
          x = amount + nat (zH_EXP g) * blind;
          k = bit_length (nat maxLimit);
          d = nat (2 ^ k - 1 - maxLimit)
      in \<lparr>cp_commitment = to_hex (nat (commit g amount blind)), cp_max_limit = limitText, cp_k = int k,
          amount_range = forge_range digest g w x k ''amount'', upper_range = forge_range digest g w (x + d) k ''upper''\<rparr>)"

text \<open>
  C17. The compliance check does not bind the prover. The second generator is \<open>G\<close> raised to a public exponent, and \<open>forge_compliance\<close> is
  an algorithm that uses it: for a commitment to any amount with any blinding, and for any positive limit, above or below the amount, the
  proof that it computes from the public constants is accepted. The hypotheses are those of the group: \<open>G\<close> has an order that divides \<open>Q\<close>, the
  exponent is prime to \<open>Q\<close>, and the digest is a natural number; the text of the limit reads as the limit.
\<close>

theorem zkp_accepts_any_amount:
  assumes "1 < zP g" and "1 < zQ g" and "0 \<le> zG g" and "0 \<le> zH_EXP g" and "zG g ^ nat (zQ g) mod zP g = 1" and "gcd (zH_EXP g) (zQ g) = 1"
    and "\<And>x. 0 \<le> digest x" and "0 < maxLimit" and "parseBigInt limitText = Inr maxLimit"
  shows "verifyCompliance digest g (to_hex (nat (commit g amount blind))) maxLimit
           (forge_compliance digest g amount blind limitText maxLimit) = Inr True"
proof -
  define w where "w = modInverse (zH_EXP g) (zQ g)"
  have rel: "related g w"
    using assms(1-6) modInverse_eq [OF assms(2,6)] by (simp add: related_def w_def)
  define x where "x = amount + nat (zH_EXP g) * blind"
  define k where "k = bit_length (nat maxLimit)"
  define d where "d = nat (2 ^ k - 1 - maxLimit)"
  have P: "0 < zP g" "0 \<le> zG g" using assms(1,3) by auto
  have C: "commit g amount blind = zG g ^ x mod zP g" unfolding x_def by (rule commit_as_G [OF rel])
  have C0: "0 \<le> commit g amount blind" using P by (simp add: C)
  have k: "0 < k" and lim: "maxLimit < 2 ^ k"
    using bit_length_bound [of "nat maxLimit"] assms(8) by (simp_all add: k_def nat_less_iff)
  have cU: "js_rem (commit g amount blind * modPow (zG g) (2 ^ k - 1 - maxLimit) (zP g)) (zP g) =
      zG g ^ (x + d) mod zP g"
    using P lim by (simp add: C modPow_eq js_rem_nonneg d_def mod_simps power_add)
  have 1: "verifyLtPow2 digest g (commit g amount blind) (forge_range digest g w x k ''amount'') (int k) ''amount'' = Inr True"
    unfolding C by (rule forge_range_accepted [OF rel assms(7) k])
  have 2: "verifyLtPow2 digest g (zG g ^ (x + d) mod zP g) (forge_range digest g w (x + d) k ''upper'') (int k) ''upper'' = Inr True"
    by (rule forge_range_accepted [OF rel assms(7) k])
  show ?thesis
    using 1 2 C0 assms(8,9)
    by (simp add: verifyCompliance_def rbind_def forge_compliance_def Let_def w_def [symmetric] x_def [symmetric] k_def [symmetric]
        d_def [symmetric] cU)
qed

text \<open>An amount of nine passes for the limit five, in the subgroup of order 11 modulo 23.\<close>

theorem zkp_accepts_any_amount_witness:
  "verifyCompliance (\<lambda>bs. int (sum_list bs)) \<lparr>zP = 23, zQ = 11, zG = 4, zH_EXP = 3\<rparr>
     (to_hex (nat (commit \<lparr>zP = 23, zQ = 11, zG = 4, zH_EXP = 3\<rparr> 9 5))) 5
     (forge_compliance (\<lambda>bs. int (sum_list bs)) \<lparr>zP = 23, zQ = 11, zG = 4, zH_EXP = 3\<rparr> 9 5 ''5'' 5) = Inr True"
proof -
  have "parseBigInt ''5'' = Inr 5" by code_simp
  then show ?thesis
    using gcd_red_int [of 3 11] gcd_red_int [of 11 3] gcd_red_int [of 3 2]
    by (intro zkp_accepts_any_amount) (simp_all add: sum_list_nonneg gcd.commute)
qed

end
