(* ===== verification/Sep24.thy ===== *)
theory Sep24
  imports Schema RateLimit
begin

text \<open>
  The interactive deposits and withdrawals of SEP-24 (\<open>apps/api/src/anchor/sep24.service.ts\<close>
  and \<open>sep24.controller.ts\<close>): a session is created for an account, its token opens the
  webview, and the submitted form confirms it. The table of sessions is a list of rows; the
  token service (\<open>JwtService\<close>) is a parameter, with the behaviour the service relies on in
  \<open>jwt_laws\<close>. Readings of the clock between two awaits are one number; a call that awaits the
  database between two readings has two.
\<close>

section \<open>Data\<close>

record Sep24Transaction =
  s24_id :: string
  s24_kind :: string
  s24_status :: Sep24TransactionStatus
  s24_stellarAccount :: string
  s24_assetCode :: string
  s24_assetIssuer :: "string option"
  s24_amount :: "string option"
  s24_sessionToken :: string
  s24_sessionExpiresAt :: int
  s24_kycData :: "json option"
  s24_paymentMethod :: "string option"
  s24_stellarTxHash :: "string option"
  s24_memo :: "string option"
  s24_memoType :: "string option"
  s24_message :: "string option"
  s24_createdAt :: int
  s24_updatedAt :: int

record Sep24SessionPayload =
  sp_txId :: string
  sp_account :: string
  sp_kind :: string

text \<open>
  \<open>jwt_sign now payload seconds\<close> and \<open>jwt_verify now token\<close>, which is \<open>None\<close> where the library
  throws; \<open>base_url\<close> is the origin of \<open>INTERACTIVE_BASE_URL\<close>, \<open>ttl\<close> is \<open>SESSION_TTL_SECONDS\<close>.
\<close>

record sep24_env =
  jwt_sign :: "int \<Rightarrow> Sep24SessionPayload \<Rightarrow> int \<Rightarrow> string"
  jwt_verify :: "int \<Rightarrow> string \<Rightarrow> Sep24SessionPayload option"
  base_url :: string
  session_ttl :: int

text \<open>
  The documented behaviour of the library: \<open>iat\<close> is the second of signing and \<open>exp\<close> lies
  \<open>seconds\<close> after it; a token is accepted before the second \<open>exp\<close> and never from then on.
\<close>

definition jwt_laws :: "sep24_env \<Rightarrow> bool" where
  "jwt_laws env =
     (\<forall>t t' p n. jwt_verify env t' (jwt_sign env t p n) =
        (if t' div 1000 < t div 1000 + n then Some p else None))"

section \<open>Information\<close>

record asset_info =
  ai_enabled :: bool
  ai_min_amount :: rat
  ai_max_amount :: rat
  ai_fee_fixed :: rat
  ai_fee_percent :: rat

record sep24_info =
  in_deposit :: "(string \<times> asset_info) list"
  in_withdraw :: "(string \<times> asset_info) list"
  in_fee_enabled :: bool
  in_account_creation :: bool
  in_claimable_balances :: bool

definition getSep24Info :: sep24_info where
  "getSep24Info =
     (let usdc = \<lparr>ai_enabled = True, ai_min_amount = 1, ai_max_amount = 10000, ai_fee_fixed = 0, ai_fee_percent = 1 / 10\<rparr>;
          ngn = \<lparr>ai_enabled = True, ai_min_amount = 500, ai_max_amount = 5000000, ai_fee_fixed = 100, ai_fee_percent = 0\<rparr>
      in \<lparr>in_deposit = [(''USDC'', usdc), (''NGN'', ngn)], in_withdraw = [(''USDC'', usdc), (''NGN'', ngn)],
          in_fee_enabled = False, in_account_creation = False, in_claimable_balances = False\<rparr>)"

section \<open>Creating a session\<close>

definition signSessionToken :: "sep24_env \<Rightarrow> int \<Rightarrow> Sep24SessionPayload \<Rightarrow> string" where
  "signSessionToken env now payload = jwt_sign env now payload (session_ttl env)"

definition verifySessionToken :: "sep24_env \<Rightarrow> int \<Rightarrow> string \<Rightarrow> Sep24SessionPayload res" where
  "verifySessionToken env now token =
     (case jwt_verify env now token of
        None \<Rightarrow> Inl (UnauthorizedException ''Invalid or expired session token'')
      | Some p \<Rightarrow> Inr p)"

text \<open>\<open>URLSearchParams.set\<close> encodes a value as a form does.\<close>

definition hex_digit :: "nat \<Rightarrow> char" where
  "hex_digit n = (if n < 10 then char_of (48 + n) else char_of (55 + n))"

definition form_char :: "char \<Rightarrow> string" where
  "form_char c =
     (let n = code_of c
      in if is_digit c \<or> (65 \<le> n \<and> n \<le> 90) \<or> (97 \<le> n \<and> n \<le> 122) \<or> c \<in> set ''*-._'' then [c]
         else if c = CHR '' '' then ''+''
         else [CHR ''%'', hex_digit (n div 16), hex_digit (n mod 16)])"

definition interactive_url :: "sep24_env \<Rightarrow> string \<Rightarrow> string" where
  "interactive_url env token = base_url env @ ''/anchor/interactive?token='' @ concat (map form_char token)"

definition new_session ::
  "int \<Rightarrow> string \<Rightarrow> string \<Rightarrow> string \<Rightarrow> string \<Rightarrow> string option \<Rightarrow> string option \<Rightarrow> string \<Rightarrow> int \<Rightarrow> Sep24Transaction" where
  "new_session now newId account kind assetCode assetIssuer amount token expiresAt =
     \<lparr>s24_id = newId, s24_kind = kind, s24_status = Sep24Incomplete, s24_stellarAccount = account,
      s24_assetCode = assetCode, s24_assetIssuer = assetIssuer, s24_amount = amount,
      s24_sessionToken = token, s24_sessionExpiresAt = expiresAt, s24_kycData = None,
      s24_paymentMethod = None, s24_stellarTxHash = None, s24_memo = None, s24_memoType = None,
      s24_message = None, s24_createdAt = now, s24_updatedAt = now\<rparr>"

text \<open>
  \<open>createInteractiveSession\<close>; \<open>rand\<close> is the random id of the payload, \<open>newId\<close> the id the
  database draws. Both the id and the token are unique columns.
\<close>

definition createInteractiveSession ::
  "sep24_env \<Rightarrow> int \<Rightarrow> string \<Rightarrow> string \<Rightarrow> string \<Rightarrow> string \<Rightarrow> string \<Rightarrow> string option \<Rightarrow> string option \<Rightarrow>
     (Sep24Transaction list, string \<times> string \<times> string) M" where
  "createInteractiveSession env now rand newId account kind assetCode assetIssuer amount rows =
     (let expiresAt = now + session_ttl env * 1000;
          token = signSessionToken env now \<lparr>sp_txId = rand, sp_account = account, sp_kind = kind\<rparr>;
          tx = new_session now newId account kind assetCode assetIssuer amount token expiresAt
      in if \<exists>r \<in> set rows. s24_id r = newId \<or> s24_sessionToken r = token
         then (Inl (PrismaError ''P2002''), rows)
         else (Inr (''interactive_customer_info_needed'', interactive_url env token, newId), rows @ [tx]))"

section \<open>Opening and confirming a session\<close>

definition find_session :: "string \<Rightarrow> Sep24Transaction list \<Rightarrow> Sep24Transaction option" where
  "find_session token rows = find (\<lambda>r. s24_sessionToken r = token) rows"

definition update_session ::
  "string \<Rightarrow> (Sep24Transaction \<Rightarrow> Sep24Transaction) \<Rightarrow> (Sep24Transaction list, Sep24Transaction) M" where
  "update_session i f rows =
     (case update_one (\<lambda>r. s24_id r = i) f rows of
        None \<Rightarrow> (Inl (PrismaError ''P2025''), rows)
      | Some (r, rows') \<Rightarrow> (Inr r, rows'))"

definition mark_expired :: "int \<Rightarrow> Sep24Transaction \<Rightarrow> Sep24Transaction" where
  "mark_expired now r =
     r\<lparr>s24_status := Sep24Expired, s24_message := Some ''Session expired'', s24_updatedAt := now\<rparr>"

text \<open>
  What both calls do first: verify the token, look the session up, refuse one that is no longer
  incomplete, and mark one that is over. \<open>now\<close> is the clock at the verification, \<open>now'\<close> the
  clock after the query.
\<close>

definition load_session ::
  "sep24_env \<Rightarrow> int \<Rightarrow> int \<Rightarrow> string \<Rightarrow> (Sep24Transaction list, Sep24Transaction) M" where
  "load_session env now now' token =
     bindM (liftR (verifySessionToken env now token)) (\<lambda>payload.
     bindM (readM (find_session token)) (\<lambda>found.
     case found of
       None \<Rightarrow> throw (NotFoundException ''Interactive session not found'')
     | Some tx \<Rightarrow>
         if s24_status tx \<noteq> Sep24Incomplete
         then throw (BadRequestException ''Session has already been completed or expired'')
         else if s24_sessionExpiresAt tx < now'
         then thenM (update_session (s24_id tx) (mark_expired now'))
                (throw (BadRequestException ''Interactive session has expired''))
         else ret tx))"

record session_data =
  wv_id :: string
  wv_kind :: string
  wv_stellarAccount :: string
  wv_assetCode :: string
  wv_assetIssuer :: "string option"
  wv_amount :: "string option"
  wv_status :: Sep24TransactionStatus

definition getSessionData ::
  "sep24_env \<Rightarrow> int \<Rightarrow> int \<Rightarrow> string \<Rightarrow> (Sep24Transaction list, session_data) M" where
  "getSessionData env now now' token =
     bindM (load_session env now now' token) (\<lambda>tx.
       ret \<lparr>wv_id = s24_id tx, wv_kind = s24_kind tx, wv_stellarAccount = s24_stellarAccount tx,
            wv_assetCode = s24_assetCode tx, wv_assetIssuer = s24_assetIssuer tx,
            wv_amount = s24_amount tx, wv_status = s24_status tx\<rparr>)"

definition confirm_row ::
  "int \<Rightarrow> json \<Rightarrow> string \<Rightarrow> string option \<Rightarrow> string \<Rightarrow> Sep24Transaction \<Rightarrow> Sep24Transaction" where
  "confirm_row now kycData paymentMethod amount memo r =
     r\<lparr>s24_status := Sep24PendingUserTransferStart, s24_kycData := Some kycData,
       s24_paymentMethod := Some paymentMethod, s24_amount := amount, s24_memo := Some memo,
       s24_memoType := Some ''text'',
       s24_message := Some ''KYC data received. Waiting for on-chain transfer.'',
       s24_updatedAt := now\<rparr>"

record confirm_data =
  cd_id :: string
  cd_status :: Sep24TransactionStatus
  cd_kind :: string
  cd_assetCode :: string
  cd_amount :: "string option"
  cd_memo :: "string option"
  cd_memoType :: "string option"
  cd_message :: "string option"

text \<open>The second half of a confirmation: \<open>amount ?? tx.amount\<close> uses the row as it was loaded.\<close>

definition confirm_write ::
  "int \<Rightarrow> string \<Rightarrow> json \<Rightarrow> string \<Rightarrow> string option \<Rightarrow> Sep24Transaction \<Rightarrow>
     (Sep24Transaction list, confirm_data) M" where
  "confirm_write now memo kycData paymentMethod amount tx =
     bindM (update_session (s24_id tx)
              (confirm_row now kycData paymentMethod
                 (case amount of None \<Rightarrow> s24_amount tx | Some a \<Rightarrow> Some a) memo)) (\<lambda>updated.
       ret \<lparr>cd_id = s24_id updated, cd_status = s24_status updated, cd_kind = s24_kind updated,
            cd_assetCode = s24_assetCode updated, cd_amount = s24_amount updated,
            cd_memo = s24_memo updated, cd_memoType = s24_memoType updated,
            cd_message = s24_message updated\<rparr>)"

definition confirmInteractiveSession ::
  "sep24_env \<Rightarrow> int \<Rightarrow> int \<Rightarrow> string \<Rightarrow> string \<Rightarrow> json \<Rightarrow> string \<Rightarrow> string option \<Rightarrow>
     (Sep24Transaction list, confirm_data) M" where
  "confirmInteractiveSession env now now' memo token kycData paymentMethod amount =
     bindM (load_session env now now' token) (confirm_write now' memo kycData paymentMethod amount)"

section \<open>Queries\<close>

record sep24_response =
  fr_id :: string
  fr_kind :: string
  fr_status :: Sep24TransactionStatus
  fr_stellar_account :: string
  fr_asset_code :: string
  fr_asset_issuer :: "string option"
  fr_amount_in :: "string option"
  fr_amount_out :: "string option"
  fr_started_at :: int
  fr_completed_at :: "int option"
  fr_stellar_transaction_id :: "string option"
  fr_memo :: "string option"
  fr_memo_type :: "string option"
  fr_message :: "string option"

definition formatTransaction :: "Sep24Transaction \<Rightarrow> sep24_response" where
  "formatTransaction tx =
     \<lparr>fr_id = s24_id tx, fr_kind = s24_kind tx, fr_status = s24_status tx,
      fr_stellar_account = s24_stellarAccount tx, fr_asset_code = s24_assetCode tx,
      fr_asset_issuer = s24_assetIssuer tx, fr_amount_in = s24_amount tx, fr_amount_out = s24_amount tx,
      fr_started_at = s24_createdAt tx,
      fr_completed_at = (if s24_status tx = Sep24Completed then Some (s24_updatedAt tx) else None),
      fr_stellar_transaction_id = s24_stellarTxHash tx, fr_memo = s24_memo tx,
      fr_memo_type = s24_memoType tx, fr_message = s24_message tx\<rparr>"

definition getTransactionById :: "string \<Rightarrow> string \<Rightarrow> (Sep24Transaction list, sep24_response) M" where
  "getTransactionById i account rows =
     (case find (\<lambda>r. s24_id r = i) rows of
        None \<Rightarrow> (Inl (NotFoundException ''Transaction not found''), rows)
      | Some tx \<Rightarrow>
          if s24_stellarAccount tx \<noteq> account then (Inl (NotFoundException ''Transaction not found''), rows)
          else (Inr (formatTransaction tx), rows))"

text \<open>
  \<open>findMany\<close> with \<open>take\<close>: a negative number takes from the end, one that is no integer is
  refused. \<open>ord\<close> is the order of the database, newest first.
\<close>

definition prisma_take :: "jsnum \<Rightarrow> 'a list \<Rightarrow> 'a list res" where
  "prisma_take n xs =
     (case n of
        Num q \<Rightarrow>
          if of_int \<lfloor>q\<rfloor> \<noteq> q then Inl (JsError ''PrismaClientValidationError'' [])
          else if 0 \<le> \<lfloor>q\<rfloor> then Inr (take (nat \<lfloor>q\<rfloor>) xs)
          else Inr (drop (length xs - nat (- \<lfloor>q\<rfloor>)) xs)
      | _ \<Rightarrow> Inl (JsError ''PrismaClientValidationError'' []))"

definition getTransactionsByAccount ::
  "(Sep24Transaction list \<Rightarrow> Sep24Transaction list) \<Rightarrow> string \<Rightarrow> string option \<Rightarrow> string option \<Rightarrow>
     jsnum option \<Rightarrow> (Sep24Transaction list, sep24_response list) M" where
  "getTransactionsByAccount ord account assetCode kind limit rows =
     (let n = (case limit of None \<Rightarrow> Num 50 | Some l \<Rightarrow> l);
          matching = filter (\<lambda>r. s24_stellarAccount r = account \<and>
             (truthy assetCode \<longrightarrow> s24_assetCode r = the assetCode) \<and>
             (truthy kind \<longrightarrow> s24_kind r = the kind)) rows
      in (case prisma_take (js_min n (Num 100)) (ord matching) of
            Inl e \<Rightarrow> (Inl e, rows)
          | Inr xs \<Rightarrow> (Inr (map formatTransaction xs), rows)))"

section \<open>The controller\<close>

text \<open>
  The account is the text the guard attached to the request. \<open>!body.kyc_data\<close> holds for a
  missing value and for the false ones.
\<close>

fun json_truthy :: "json option \<Rightarrow> bool" where
  "json_truthy None = False"
| "json_truthy (Some JNull) = False"
| "json_truthy (Some (JBool b)) = b"
| "json_truthy (Some (JNumber n)) = js_truthy n"
| "json_truthy (Some (JString t)) = (t \<noteq> [])"
| "json_truthy (Some (JArray _)) = True"
| "json_truthy (Some (JObject _)) = True"

definition depositInteractive ::
  "sep24_env \<Rightarrow> int \<Rightarrow> string \<Rightarrow> string \<Rightarrow> string \<Rightarrow> string option \<Rightarrow> string option \<Rightarrow> string option \<Rightarrow>
     (Sep24Transaction list, string \<times> string \<times> string) M" where
  "depositInteractive env now rand newId account asset_code asset_issuer amount =
     (if \<not> truthy asset_code then throw (BadRequestException ''asset_code is required'')
      else createInteractiveSession env now rand newId account ''deposit'' (the asset_code) asset_issuer amount)"

definition withdrawInteractive ::
  "sep24_env \<Rightarrow> int \<Rightarrow> string \<Rightarrow> string \<Rightarrow> string \<Rightarrow> string option \<Rightarrow> string option \<Rightarrow> string option \<Rightarrow>
     (Sep24Transaction list, string \<times> string \<times> string) M" where
  "withdrawInteractive env now rand newId account asset_code asset_issuer amount =
     (if \<not> truthy asset_code then throw (BadRequestException ''asset_code is required'')
      else createInteractiveSession env now rand newId account ''withdraw'' (the asset_code) asset_issuer amount)"

definition ctl_getTransaction :: "string \<Rightarrow> string option \<Rightarrow> (Sep24Transaction list, sep24_response) M" where
  "ctl_getTransaction account i =
     (if \<not> truthy i then throw (BadRequestException ''id query parameter is required'')
      else getTransactionById (the i) account)"

definition ctl_getTransactions ::
  "(Sep24Transaction list \<Rightarrow> Sep24Transaction list) \<Rightarrow> string \<Rightarrow> string option \<Rightarrow> string option \<Rightarrow>
     string option \<Rightarrow> (Sep24Transaction list, sep24_response list) M" where
  "ctl_getTransactions ord account assetCode kind limit =
     getTransactionsByAccount ord account assetCode kind
       (if truthy limit then Some (case parseInt10 (the limit) of None \<Rightarrow> NaN | Some n \<Rightarrow> Num (of_int n)) else None)"

definition getInteractiveSession ::
  "sep24_env \<Rightarrow> int \<Rightarrow> int \<Rightarrow> string option \<Rightarrow> (Sep24Transaction list, session_data) M" where
  "getInteractiveSession env now now' token =
     (if \<not> truthy token then throw (BadRequestException ''token query parameter is required'')
      else getSessionData env now now' (the token))"

definition ctl_confirm ::
  "sep24_env \<Rightarrow> int \<Rightarrow> int \<Rightarrow> string \<Rightarrow> string option \<Rightarrow> json option \<Rightarrow> string option \<Rightarrow> string option \<Rightarrow>
     (Sep24Transaction list, confirm_data) M" where
  "ctl_confirm env now now' memo token kyc_data payment_method amount =
     (if \<not> truthy token then throw (BadRequestException ''token is required'')
      else if \<not> json_truthy kyc_data then throw (BadRequestException ''kyc_data is required'')
      else if \<not> truthy payment_method then throw (BadRequestException ''payment_method is required'')
      else confirmInteractiveSession env now now' memo (the token) (the kyc_data) (the payment_method) amount)"

section \<open>Runs of the service\<close>

datatype sep24_op =
    OpCreate int string string string string string "string option" "string option"
  | OpOpen int int string
  | OpConfirm int int string string json string "string option"

text \<open>One call: whether it was a confirmation that succeeded, and the rows after it.\<close>

fun sep24_exec :: "sep24_env \<Rightarrow> sep24_op \<Rightarrow> Sep24Transaction list \<Rightarrow> bool \<times> Sep24Transaction list" where
  "sep24_exec env (OpCreate now rand newId account kind assetCode issuer amount) rows =
     (False, snd (createInteractiveSession env now rand newId account kind assetCode issuer amount rows))"
| "sep24_exec env (OpOpen now now' token) rows = (False, snd (getSessionData env now now' token rows))"
| "sep24_exec env (OpConfirm now now' memo token kyc pm amount) rows =
     (case confirmInteractiveSession env now now' memo token kyc pm amount rows of
        (r, rows') \<Rightarrow> (\<not> isl r, rows'))"

fun sep24_run :: "sep24_env \<Rightarrow> sep24_op list \<Rightarrow> Sep24Transaction list \<Rightarrow> bool list" where
  "sep24_run env [] rows = []"
| "sep24_run env (x # xs) rows = (case sep24_exec env x rows of (ok, rows') \<Rightarrow> ok # sep24_run env xs rows')"

fun confirms :: "string \<Rightarrow> sep24_op \<Rightarrow> bool" where
  "confirms token (OpConfirm _ _ _ t _ _ _) = (t = token)"
| "confirms token _ = False"

definition confirmations :: "sep24_env \<Rightarrow> string \<Rightarrow> sep24_op list \<Rightarrow> Sep24Transaction list \<Rightarrow> nat" where
  "confirmations env token ops rows =
     length (filter (\<lambda>(x, ok). confirms token x \<and> ok) (zip ops (sep24_run env ops rows)))"

lemma confirmations_simps [simp]:
  "confirmations env token [] rows = 0"
  "confirmations env token (x # xs) rows =
     (if confirms token x \<and> fst (sep24_exec env x rows) then 1 else 0) +
     confirmations env token xs (snd (sep24_exec env x rows))"
  by (simp_all add: confirmations_def split: prod.splits)

section \<open>Lemmas on the calls\<close>

text \<open>A session that is no longer incomplete: later calls keep it so.\<close>

definition session_over :: "string \<Rightarrow> Sep24Transaction list \<Rightarrow> bool" where
  "session_over token rows =
     (case find_session token rows of None \<Rightarrow> False | Some tx \<Rightarrow> s24_status tx \<noteq> Sep24Incomplete)"

lemma updaters [simp]:
  "s24_sessionToken (mark_expired now r) = s24_sessionToken r"
  "s24_sessionToken (confirm_row now kyc pm amount memo r) = s24_sessionToken r"
  "s24_id (mark_expired now r) = s24_id r"
  "s24_id (confirm_row now kyc pm amount memo r) = s24_id r"
  "s24_status (mark_expired now r) = Sep24Expired"
  "s24_status (confirm_row now kyc pm amount memo r) = Sep24PendingUserTransferStart"
  by (simp_all add: mark_expired_def confirm_row_def)

lemma update_session_eq:
  assumes "find_session token rows = Some tx"
  shows "\<exists>r. find (\<lambda>r. s24_id r = s24_id tx) rows = Some r \<and>
    update_session (s24_id tx) f rows = (Inr (f r), update_where (\<lambda>r. s24_id r = s24_id tx) f rows)"
proof -
  have "tx \<in> set rows" using assms by (simp add: find_session_def find_Some_D)
  then obtain r where "find (\<lambda>r. s24_id r = s24_id tx) rows = Some r"
    by (cases "find (\<lambda>r. s24_id r = s24_id tx) rows") (auto simp: find_None_iff)
  then show ?thesis by (simp add: update_session_def update_one_def)
qed

lemma over_update_where:
  assumes "\<And>r. s24_sessionToken (f r) = s24_sessionToken r" and "\<And>r. s24_status (f r) \<noteq> Sep24Incomplete"
  shows "session_over token rows \<Longrightarrow> session_over token (update_where P f rows)"
    and "find_session token rows = Some tx \<Longrightarrow> P tx \<Longrightarrow> session_over token (update_where P f rows)"
  using assms by (auto simp: session_over_def find_session_def find_update_where split: option.splits)

lemma load_session_over:
  assumes "session_over token rows" and "load_session env now now' token' rows = (r, rows')"
  shows "session_over token rows' \<and> (token' = token \<longrightarrow> isl r)"
proof -
  have upd: "session_over token (snd (update_session (s24_id tx) (mark_expired now') rows))"
    if "find_session token' rows = Some tx" for tx
    using update_session_eq [OF that, of "mark_expired now'"] over_update_where(1) [OF _ _ assms(1), of "mark_expired now'"]
    by auto
  show ?thesis
    using assms upd
    by (auto simp: load_session_def M_defs session_over_def verifySessionToken_def
        split: option.splits if_splits prod.splits sum.splits)
qed

lemma load_session_Inr:
  assumes "load_session env now now' token rows = (Inr tx, rows')"
  shows "rows' = rows \<and> find_session token rows = Some tx \<and> s24_status tx = Sep24Incomplete \<and>
    now' \<le> s24_sessionExpiresAt tx \<and> jwt_verify env now token \<noteq> None"
  using assms
  by (auto simp: load_session_def M_defs verifySessionToken_def
      split: option.splits if_splits prod.splits sum.splits)

lemma confirm_write_eq:
  assumes "find (\<lambda>r. s24_id r = s24_id tx) rows = Some r"
  shows "confirm_write now memo kyc pm amount tx rows =
    (let r' = confirm_row now kyc pm (case amount of None \<Rightarrow> s24_amount tx | Some a \<Rightarrow> Some a) memo r
     in (Inr \<lparr>cd_id = s24_id r', cd_status = s24_status r', cd_kind = s24_kind r', cd_assetCode = s24_assetCode r',
              cd_amount = s24_amount r', cd_memo = s24_memo r', cd_memoType = s24_memoType r',
              cd_message = s24_message r'\<rparr>,
         update_where (\<lambda>r. s24_id r = s24_id tx)
           (confirm_row now kyc pm (case amount of None \<Rightarrow> s24_amount tx | Some a \<Rightarrow> Some a) memo) rows))"
  using assms by (simp add: confirm_write_def update_session_def update_one_def M_defs Let_def)

text \<open>A confirmation either fails in its first half or closes the session.\<close>

lemma confirm_cases:
  assumes "confirmInteractiveSession env now now' memo token kyc pm amount rows = (r, rows')"
  obtains (failed) e where "load_session env now now' token rows = (Inl e, rows')" and "r = Inl e"
    | (confirmed) tx where "load_session env now now' token rows = (Inr tx, rows)"
      and "rows' = update_where (\<lambda>r. s24_id r = s24_id tx)
        (confirm_row now' kyc pm (case amount of None \<Rightarrow> s24_amount tx | Some a \<Rightarrow> Some a) memo) rows"
proof (cases "load_session env now now' token rows")
  case (Pair l rows1)
  show thesis
  proof (cases l)
    case (Inl e)
    then show thesis using Pair assms failed by (simp add: confirmInteractiveSession_def bindM_def)
  next
    case (Inr tx)
    then have load: "load_session env now now' token rows = (Inr tx, rows1)" using Pair by simp
    then have rows1: "rows1 = rows" and fs: "find_session token rows = Some tx"
      using load_session_Inr by blast+
    obtain r0 where "find (\<lambda>r. s24_id r = s24_id tx) rows = Some r0"
      using update_session_eq [OF fs] by blast
    then show thesis
      using confirm_write_eq [of tx rows r0 now' memo kyc pm amount] assms load rows1 confirmed [of tx]
      by (simp add: confirmInteractiveSession_def bindM_def Let_def)
  qed
qed

lemma exec_keeps_over:
  assumes "session_over token rows"
  shows "session_over token (snd (sep24_exec env x rows)) \<and>
    \<not> (confirms token x \<and> fst (sep24_exec env x rows))"
proof (cases x)
  case (OpCreate now rand newId account kind assetCode issuer amount)
  then show ?thesis
    using assms
    by (auto simp: createInteractiveSession_def Let_def session_over_def find_session_def find_append
        split: option.splits)
next
  case (OpOpen now now' tok)
  then show ?thesis
    using load_session_over [OF assms, of env now now' tok]
    by (cases "load_session env now now' tok rows") (auto simp: getSessionData_def M_defs split: sum.splits)
next
  case (OpConfirm now now' memo tok kyc pm amount)
  obtain r rows' where c: "confirmInteractiveSession env now now' memo tok kyc pm amount rows = (r, rows')"
    by (cases "confirmInteractiveSession env now now' memo tok kyc pm amount rows")
  then show ?thesis
  proof (cases rule: confirm_cases)
    case (failed e)
    then show ?thesis using load_session_over [OF assms failed(1)] by (simp add: OpConfirm c)
  next
    case (confirmed tx)
    then show ?thesis
      using load_session_over [OF assms confirmed(1)] over_update_where(1) [OF _ _ assms]
      by (simp add: OpConfirm c)
  qed
qed

lemma confirm_closes:
  assumes "confirms token x" and "fst (sep24_exec env x rows)"
  shows "session_over token (snd (sep24_exec env x rows))"
proof -
  obtain now now' memo kyc pm amount where x: "x = OpConfirm now now' memo token kyc pm amount"
    using assms(1) by (cases x) auto
  obtain r rows' where c: "confirmInteractiveSession env now now' memo token kyc pm amount rows = (r, rows')"
    by (cases "confirmInteractiveSession env now now' memo token kyc pm amount rows")
  then show ?thesis
  proof (cases rule: confirm_cases)
    case (failed e)
    then show ?thesis using assms(2) by (simp add: x c)
  next
    case (confirmed tx)
    then show ?thesis
      using load_session_Inr [OF confirmed(1)] over_update_where(2) [of _ token rows tx] by (simp add: x c)
  qed
qed

lemma confirmations_over: "session_over token rows \<Longrightarrow> confirmations env token ops rows = 0"
  by (induction ops arbitrary: rows) (auto dest: exec_keeps_over)

text \<open>The rows after a sequence of calls. A session is as it was created, or over.\<close>

fun sep24_rows :: "sep24_env \<Rightarrow> sep24_op list \<Rightarrow> Sep24Transaction list \<Rightarrow> Sep24Transaction list" where
  "sep24_rows env [] rows = rows"
| "sep24_rows env (x # xs) rows = sep24_rows env xs (snd (sep24_exec env x rows))"

definition open_as :: "string \<Rightarrow> Sep24Transaction \<Rightarrow> Sep24Transaction list \<Rightarrow> bool" where
  "open_as token tx rows = (find_session token rows = Some tx \<or> session_over token rows)"

lemma open_as_update:
  assumes "find_session token rows = Some tx" and "\<And>r. s24_sessionToken (f r) = s24_sessionToken r" and "\<And>r. s24_status (f r) \<noteq> Sep24Incomplete"
  shows "open_as token tx (update_where P f rows)"
proof -
  have "find_session token (update_where P f rows) = Some (if P tx then f tx else tx)"
    using assms(1,2) by (simp add: find_session_def find_update_where)
  then show ?thesis using assms(3) by (simp add: open_as_def session_over_def)
qed

lemma open_as_load:
  assumes "find_session token rows = Some tx" and "load_session env now now' tok rows = (r, rows')"
  shows "open_as token tx rows'"
proof (cases "find_session tok rows")
  case None
  then show ?thesis using assms by (auto simp: load_session_def M_defs verifySessionToken_def open_as_def split: option.splits if_splits)
next
  case (Some tx')
  obtain r0 where u: "update_session (s24_id tx') (mark_expired now') rows =
      (Inr r0, update_where (\<lambda>r. s24_id r = s24_id tx') (mark_expired now') rows)"
    using update_session_eq [OF Some, of "mark_expired now'"] by blast
  have upd: "open_as token tx (update_where (\<lambda>r. s24_id r = s24_id tx') (mark_expired now') rows)"
    by (rule open_as_update [OF assms(1)]) simp_all
  have same: "open_as token tx rows" using assms(1) by (simp add: open_as_def)
  show ?thesis
    using assms(2) Some upd same by (auto simp: load_session_def M_defs verifySessionToken_def u split: option.splits if_splits)
qed

lemma open_as_exec:
  assumes "open_as token tx rows"
  shows "open_as token tx (snd (sep24_exec env x rows))"
proof (cases "session_over token rows")
  case True
  then show ?thesis using exec_keeps_over [OF True, of env x] by (simp add: open_as_def)
next
  case False
  then have fs: "find_session token rows = Some tx" using assms by (simp add: open_as_def)
  show ?thesis
  proof (cases x)
    case (OpCreate now rand newId account kind assetCode issuer amount)
    then show ?thesis
      using fs by (auto simp: createInteractiveSession_def Let_def open_as_def find_session_def find_append)
  next
    case (OpOpen now now' tok)
    obtain r rows' where l: "load_session env now now' tok rows = (r, rows')" by fastforce
    then have "snd (sep24_exec env x rows) = rows'" by (simp add: OpOpen getSessionData_def M_defs split: sum.splits)
    then show ?thesis using open_as_load [OF fs l] by simp
  next
    case (OpConfirm now now' memo tok kyc pm amount)
    obtain r rows' where c: "confirmInteractiveSession env now now' memo tok kyc pm amount rows = (r, rows')" by fastforce
    then show ?thesis
    proof (cases rule: confirm_cases)
      case (failed e)
      then show ?thesis using open_as_load [OF fs failed(1)] by (simp add: OpConfirm c)
    next
      case (confirmed tx')
      then show ?thesis using open_as_update [OF fs] by (simp add: OpConfirm c)
    qed
  qed
qed

lemma open_as_rows: "open_as token tx rows \<Longrightarrow> open_as token tx (sep24_rows env ops rows)"
  by (induction ops arbitrary: rows) (simp_all add: open_as_exec)

section \<open>An example\<close>

text \<open>A token service that meets the laws: the token spells out the payload and the expiry.\<close>

definition spell :: "string \<Rightarrow> string" where
  "spell t = concat (map (\<lambda>c. [CHR ''x'', c]) t) @ ''.''"

fun read_spelled :: "string \<Rightarrow> string \<times> string" where
  "read_spelled (a # c # r) =
     (if a = CHR ''x'' then (case read_spelled r of (t, u) \<Rightarrow> (c # t, u)) else ([], c # r))"
| "read_spelled _ = ([], [])"

definition spell_int :: "int \<Rightarrow> string" where
  "spell_int e = (if e < 0 then CHR ''-'' # replicate (nat (- e)) (CHR ''i'') else replicate (nat e) (CHR ''i''))"

definition read_int :: "string \<Rightarrow> int" where
  "read_int t = (case t of c # u \<Rightarrow> if c = CHR ''-'' then - int (length u) else int (length t) | [] \<Rightarrow> 0)"

definition demo_jwt :: "int \<Rightarrow> sep24_env" where
  "demo_jwt ttl = \<lparr>
     jwt_sign = (\<lambda>now p n. spell (sp_txId p) @ spell (sp_account p) @ spell (sp_kind p) @ spell (spell_int (now div 1000 + n)) @ ''.''),
     jwt_verify = (\<lambda>now tok.
       case read_spelled tok of (a, r) \<Rightarrow> case read_spelled r of (b, r') \<Rightarrow> case read_spelled r' of (c, r'') \<Rightarrow>
       case read_spelled r'' of (d, _) \<Rightarrow>
         if now div 1000 < read_int d then Some \<lparr>sp_txId = a, sp_account = b, sp_kind = c\<rparr> else None),
     base_url = ''http://localhost:3000'', session_ttl = ttl\<rparr>"

lemma read_spell: "r \<noteq> [] \<Longrightarrow> read_spelled (spell t @ r) = (t, r)"
proof (induction t)
  case Nil
  then show ?case by (cases r) (auto simp: spell_def)
qed (auto simp: spell_def)

lemma read_int_spell: "read_int (spell_int e) = e"
  by (cases "nat e") (auto simp: read_int_def spell_int_def split: list.splits)

lemma demo_jwt_laws: "jwt_laws (demo_jwt ttl)"
  by (simp add: jwt_laws_def demo_jwt_def read_spell read_int_spell)

definition demo_token :: string where
  "demo_token = signSessionToken (demo_jwt 1800) 5000 \<lparr>sp_txId = ''r'', sp_account = ''GA'', sp_kind = ''deposit''\<rparr>"

definition demo_rows :: "Sep24Transaction list" where
  "demo_rows = [new_session 5000 ''s1'' ''GA'' ''deposit'' ''USDC'' None (Some ''10'') demo_token 1805000]"

lemma demo_created:
  "createInteractiveSession (demo_jwt 1800) 5000 ''r'' ''s1'' ''GA'' ''deposit'' ''USDC'' None (Some ''10'') [] =
    (Inr (''interactive_customer_info_needed'', interactive_url (demo_jwt 1800) demo_token, ''s1''), demo_rows)"
proof -
  have "session_ttl (demo_jwt 1800) = 1800" by (simp add: demo_jwt_def)
  then show ?thesis by (simp add: createInteractiveSession_def demo_rows_def demo_token_def Let_def)
qed

lemma demo_verify: "t div 1000 < 1805 \<Longrightarrow> jwt_verify (demo_jwt 1800) t demo_token \<noteq> None"
  using demo_jwt_laws [of 1800] by (simp add: demo_token_def signSessionToken_def jwt_laws_def) (simp add: demo_jwt_def)

lemma demo_load: "load_session (demo_jwt 1800) 6000 6000 demo_token demo_rows = (Inr (hd demo_rows), demo_rows)"
  using demo_verify [of 6000]
  by (auto simp: load_session_def M_defs verifySessionToken_def find_session_def demo_rows_def new_session_def
      split: option.splits)

section \<open>Properties\<close>

text \<open>
  C20. A session is confirmed at most once: in any sequence of calls, on any sessions, that run
  one after the other, with any clock readings, at most one confirmation with a given token
  succeeds.
\<close>

theorem sep24_confirmed_once: "confirmations env token ops rows \<le> 1"
  by (induction ops arbitrary: rows) (auto simp: confirmations_over confirm_closes)

text \<open>
  Confirmations that overlap are not exclusive. Two calls that have both loaded the
  incomplete session both succeed and each is told its own memo, but the row keeps the memo of
  the later one only: a transfer sent with the memo of the first has no session.
\<close>

theorem sep24_overlapping_confirmations:
  assumes "load_session env now now' token rows = (Inr tx, rows)"
    and "distinct (map s24_id rows)"
    and "confirm_write t1 memo1 kyc1 pm1 amount1 tx rows = (r1, rows1)"
    and "confirm_write t2 memo2 kyc2 pm2 amount2 tx rows1 = (r2, rows2)"
  shows "\<exists>c1 c2 row. r1 = Inr c1 \<and> cd_memo c1 = Some memo1 \<and> r2 = Inr c2 \<and> cd_memo c2 = Some memo2 \<and>
    find_session token rows2 = Some row \<and> s24_memo row = Some memo2"
proof -
  let ?f1 = "confirm_row t1 kyc1 pm1 (case amount1 of None \<Rightarrow> s24_amount tx | Some a \<Rightarrow> Some a) memo1"
  let ?f2 = "confirm_row t2 kyc2 pm2 (case amount2 of None \<Rightarrow> s24_amount tx | Some a \<Rightarrow> Some a) memo2"
  let ?P = "\<lambda>r. s24_id r = s24_id tx"
  have fs: "find_session token rows = Some tx" using load_session_Inr [OF assms(1)] by blast
  have f: "find ?P rows = Some tx"
    using find_key [OF assms(2)] fs by (simp add: find_session_def find_Some_D)
  have w1: "rows1 = update_where ?P ?f1 rows" and r1: "\<exists>c1. r1 = Inr c1 \<and> cd_memo c1 = Some memo1"
    using assms(3) by (auto simp: confirm_write_eq [OF f] Let_def confirm_row_def)
  have f1: "find ?P rows1 = Some (?f1 tx)" using f by (simp add: w1 find_update_where)
  have w2: "rows2 = update_where ?P ?f2 rows1" and r2: "\<exists>c2. r2 = Inr c2 \<and> cd_memo c2 = Some memo2"
    using assms(4) by (auto simp: confirm_write_eq [where tx = tx, OF f1] Let_def confirm_row_def)
  have "find_session token rows2 = Some (?f2 (?f1 tx))"
    using fs by (simp add: w1 w2 find_session_def find_update_where)
  moreover have "s24_memo (?f2 (?f1 tx)) = Some memo2" by (simp add: confirm_row_def)
  ultimately show ?thesis using r1 r2 by blast
qed

theorem sep24_overlapping_confirmations_witness:
  "\<exists>c1 c2 row rows2.
    fst (confirm_write 6001 ''m1'' JNull ''bank'' None (hd demo_rows) demo_rows) = Inr c1 \<and>
    cd_memo c1 = Some ''m1'' \<and> cd_memo c2 = Some ''m2'' \<and>
    confirm_write 6002 ''m2'' JNull ''bank'' None (hd demo_rows)
      (snd (confirm_write 6001 ''m1'' JNull ''bank'' None (hd demo_rows) demo_rows)) = (Inr c2, rows2) \<and>
    find_session demo_token rows2 = Some row \<and> s24_memo row = Some ''m2''"
proof -
  obtain r1 rows1 where 1: "confirm_write 6001 ''m1'' JNull ''bank'' None (hd demo_rows) demo_rows = (r1, rows1)"
    by (cases "confirm_write 6001 ''m1'' JNull ''bank'' None (hd demo_rows) demo_rows")
  obtain r2 rows2 where 2: "confirm_write 6002 ''m2'' JNull ''bank'' None (hd demo_rows) rows1 = (r2, rows2)"
    by (cases "confirm_write 6002 ''m2'' JNull ''bank'' None (hd demo_rows) rows1")
  have "distinct (map s24_id demo_rows)" by (simp add: demo_rows_def)
  from sep24_overlapping_confirmations [OF demo_load this 1 2] show ?thesis using 1 2 by auto
qed

text \<open>
  C21. The life of a session link, when calls do not overlap. After the creation of a session and any further calls on any sessions, opening its
  link answers as follows, with the clock read at the check of the token (\<open>t\<close>) and after the answer of the database (\<open>t'\<close>). From the second in
  which the token expires the call is refused as unauthorized and changes nothing. Before it, a session that was confirmed or marked as expired
  in the meantime is refused; one that was not is opened with the account, kind, asset and amount it was created for, or, if the clock has passed
  the end of the session between the two readings, marked as expired.
\<close>

theorem sep24_session_window:
  assumes "jwt_laws env"
    and "createInteractiveSession env t0 rand i account kind asset issuer amount rows = (Inr resp, rows1)"
    and "token = signSessionToken env t0 \<lparr>sp_txId = rand, sp_account = account, sp_kind = kind\<rparr>"
    and "rows' = sep24_rows env ops rows1"
  shows "getSessionData env t t' token rows' =
    (if t0 div 1000 + session_ttl env \<le> t div 1000
     then (Inl (UnauthorizedException ''Invalid or expired session token''), rows')
     else if session_over token rows'
     then (Inl (BadRequestException ''Session has already been completed or expired''), rows')
     else if t0 + session_ttl env * 1000 < t'
     then (Inl (BadRequestException ''Interactive session has expired''),
           update_where (\<lambda>r. s24_id r = i) (mark_expired t') rows')
     else (Inr \<lparr>wv_id = i, wv_kind = kind, wv_stellarAccount = account, wv_assetCode = asset,
                wv_assetIssuer = issuer, wv_amount = amount, wv_status = Sep24Incomplete\<rparr>, rows'))"
proof -
  define tx where "tx = new_session t0 i account kind asset issuer amount token (t0 + session_ttl env * 1000)"
  have rows1: "rows1 = rows @ [tx]" and new: "\<not> (\<exists>r \<in> set rows. s24_id r = i \<or> s24_sessionToken r = token)"
    using assms(2,3) by (auto simp: createInteractiveSession_def Let_def tx_def split: if_splits)
  have tok: "s24_sessionToken tx = token" and tid: "s24_id tx = i"
    by (simp_all add: tx_def new_session_def)
  have "find_session token rows = None" using new by (auto simp: find_session_def find_None_iff)
  then have "find_session token rows1 = Some tx" by (simp add: rows1 find_session_def find_append tok)
  then have "open_as token tx rows'" unfolding assms(4) by (intro open_as_rows) (simp add: open_as_def)
  then consider (fresh) "find_session token rows' = Some tx" "\<not> session_over token rows'"
    | (over) tx' where "session_over token rows'" "find_session token rows' = Some tx'" "s24_status tx' \<noteq> Sep24Incomplete"
    by (auto simp: open_as_def session_over_def split: option.splits)
  moreover have ver: "jwt_verify env t token = (if t div 1000 < t0 div 1000 + session_ttl env
      then Some \<lparr>sp_txId = rand, sp_account = account, sp_kind = kind\<rparr> else None)"
    using assms(1) by (simp add: assms(3) signSessionToken_def jwt_laws_def)
  ultimately show ?thesis
  proof cases
    case fresh
    obtain r0 where u: "update_session i (mark_expired t') rows' = (Inr r0, update_where (\<lambda>r. s24_id r = i) (mark_expired t') rows')"
      using update_session_eq [OF fresh(1), of "mark_expired t'"] unfolding tid by blast
    show ?thesis
      using fresh(2)
      by (auto simp: getSessionData_def load_session_def verifySessionToken_def M_defs ver fresh(1) tid u)
        (simp_all add: tx_def new_session_def)
  next
    case over
    then show ?thesis by (auto simp: getSessionData_def load_session_def verifySessionToken_def M_defs ver)
  qed
qed

theorem sep24_session_window_witness:
  "getSessionData (demo_jwt 1800) 1804999 1804999 demo_token (sep24_rows (demo_jwt 1800) [OpOpen 6000 6000 demo_token] demo_rows) =
     (Inr \<lparr>wv_id = ''s1'', wv_kind = ''deposit'', wv_stellarAccount = ''GA'', wv_assetCode = ''USDC'',
           wv_assetIssuer = None, wv_amount = Some ''10'', wv_status = Sep24Incomplete\<rparr>, demo_rows) \<and>
   getSessionData (demo_jwt 1800) 1804999 1804999 demo_token
      (sep24_rows (demo_jwt 1800) [OpConfirm 6000 6000 ''m'' demo_token JNull ''bank'' None] demo_rows) =
     (Inl (BadRequestException ''Session has already been completed or expired''),
      sep24_rows (demo_jwt 1800) [OpConfirm 6000 6000 ''m'' demo_token JNull ''bank'' None] demo_rows)"
proof -
  have ttl: "session_ttl (demo_jwt 1800) = 1800" by (simp add: demo_jwt_def)
  have opened: "sep24_rows (demo_jwt 1800) [OpOpen 6000 6000 demo_token] demo_rows = demo_rows"
    by (simp add: getSessionData_def M_defs demo_load)
  have f: "find (\<lambda>r. s24_id r = s24_id (hd demo_rows)) demo_rows = Some (hd demo_rows)" by (simp add: demo_rows_def)
  have fresh: "\<not> session_over demo_token demo_rows"
    by (simp add: session_over_def find_session_def demo_rows_def new_session_def)
  have over: "session_over demo_token (sep24_rows (demo_jwt 1800) [OpConfirm 6000 6000 ''m'' demo_token JNull ''bank'' None] demo_rows)"
    by (simp add: confirmInteractiveSession_def bindM_def demo_load confirm_write_eq [OF f] Let_def)
      (simp add: session_over_def find_session_def demo_rows_def new_session_def confirm_row_def)
  note window = sep24_session_window [OF demo_jwt_laws demo_created demo_token_def refl]
  show ?thesis
    using window [where ops = "[OpOpen 6000 6000 demo_token]" and t = 1804999 and t' = 1804999]
      window [where ops = "[OpConfirm 6000 6000 ''m'' demo_token JNull ''bank'' None]" and t = 1804999 and t' = 1804999] over fresh
    by (simp add: ttl opened del: sep24_rows.simps)
qed

end
