(* ===== verification/Sep10.thy ===== *)
theory Sep10
  imports Schema TtlStore
begin

text \<open>
  SEP-10 web authentication (\<open>apps/api/src/auth/sep10.service.ts\<close> and \<open>sep10.controller.ts\<close>):
  a challenge transaction with a random nonce, signed by the server, which the client signs and
  posts back for a token. The Stellar SDK (keys, signatures, transaction envelopes) and the token
  service are parameters; the nonces are kept in \<open>InMemoryNonceStore\<close>. Verification reads the
  nonce and deletes it in two calls of the store, which are the two phases of the model.
\<close>

section \<open>Base64\<close>

definition b64_alphabet :: string where
  "b64_alphabet = ''ABCDEFGHIJKLMNOPQRSTUVWXYZabcdefghijklmnopqrstuvwxyz0123456789+/''"

definition b64_char :: "nat \<Rightarrow> char" where
  "b64_char n = b64_alphabet ! (n mod 64)"

text \<open>\<open>Buffer.toString('base64')\<close>.\<close>

fun b64_encode :: "nat list \<Rightarrow> string" where
  "b64_encode [] = []"
| "b64_encode [a] = [b64_char (a div 4), b64_char ((a mod 4) * 16), CHR ''='', CHR ''='']"
| "b64_encode [a, b] =
     [b64_char (a div 4), b64_char ((a mod 4) * 16 + b div 16), b64_char ((b mod 16) * 4), CHR ''='']"
| "b64_encode (a # b # c # r) =
     b64_char (a div 4) # b64_char ((a mod 4) * 16 + b div 16) # b64_char ((b mod 16) * 4 + c div 64) #
     b64_char (c mod 64) # b64_encode r"

text \<open>\<open>Buffer.from(text)\<close> on texts of code units below 128.\<close>

definition text_buffer :: "string \<Rightarrow> nat list" where
  "text_buffer t = map code_of t"

section \<open>Transactions and users\<close>

datatype stellar_op =
    ManageData string "nat list option" "string option"
  | OtherOp string

record signature =
  sg_hint :: string
  sg_signature :: string

record stellar_tx =
  st_source :: string
  st_sequence :: int
  st_ops :: "stellar_op list"
  st_timeBounds :: "(nat \<times> nat) option"
  st_signatures :: "signature list"

datatype parsed = ParsedTx stellar_tx | ParsedFeeBump | ParseError string

record Sep10User =
  su_id :: string
  su_email :: string
  su_password :: string
  su_stellarPublicKey :: "string option"

text \<open>
  \<open>valid_key\<close>: \<open>Keypair.fromPublicKey\<close> does not throw; \<open>key_verify k h s\<close>: the signature of the
  hash under the key, false also where the library throws; \<open>server_sign\<close> signs a hash with the
  server's key; \<open>jwt_token\<close> takes the subject, the key and the lifetime.
\<close>

record sep10_env =
  valid_key :: "string \<Rightarrow> bool"
  fromXDR :: "string \<Rightarrow> parsed"
  toXDR :: "stellar_tx \<Rightarrow> string"
  tx_hash :: "stellar_tx \<Rightarrow> string"
  key_hint :: "string \<Rightarrow> string"
  key_verify :: "string \<Rightarrow> string \<Rightarrow> string \<Rightarrow> bool"
  server_sign :: "string \<Rightarrow> string"
  server_key :: string
  home_domain :: string
  challenge_ttl :: int
  network_passphrase :: string
  jwt_token :: "string \<Rightarrow> string \<Rightarrow> int \<Rightarrow> string"
  jwt_expires_in :: int

record sep10_state =
  s10_nonces :: "string ttl_map"
  s10_users :: "Sep10User list"

definition DEFAULT_CHALLENGE_TTL :: int where "DEFAULT_CHALLENGE_TTL = 300"

definition NONCE_PREFIX :: string where "NONCE_PREFIX = ''sep10:nonce:''"

definition nonceKey :: "string \<Rightarrow> string \<Rightarrow> string" where
  "nonceKey client nonce = NONCE_PREFIX @ client @ '':'' @ nonce"

section \<open>Challenges\<close>

definition challenge_ops :: "sep10_env \<Rightarrow> string \<Rightarrow> string \<Rightarrow> stellar_op list" where
  "challenge_ops env client nonce =
     [ManageData (home_domain env @ '' auth'') (Some (text_buffer nonce)) (Some client),
      ManageData ''web_auth_domain'' (Some (text_buffer (home_domain env))) (Some (server_key env))]"

text \<open>
  \<open>generateChallenge\<close>: \<open>random\<close> are the 48 random bytes, \<open>now'\<close> the clock after the store
  answered. The builder gives the transaction the sequence number after -1. The store always
  answers \<open>OK\<close>, so that the retry of the code is never taken.
\<close>

definition challenge_tx :: "sep10_env \<Rightarrow> int \<Rightarrow> string \<Rightarrow> string \<Rightarrow> stellar_tx" where
  "challenge_tx env now' client nonce =
     (let tx = \<lparr>st_source = server_key env, st_sequence = 0, st_ops = challenge_ops env client nonce,
                st_timeBounds = Some (nat (now' div 1000), nat (now' div 1000 + challenge_ttl env)),
                st_signatures = []\<rparr>
      in tx\<lparr>st_signatures := [\<lparr>sg_hint = key_hint env (server_key env), sg_signature = server_sign env (tx_hash env tx)\<rparr>]\<rparr>)"

definition generateChallenge ::
  "sep10_env \<Rightarrow> int \<Rightarrow> int \<Rightarrow> nat list \<Rightarrow> string \<Rightarrow> (sep10_state, string \<times> string) M" where
  "generateChallenge env now now' random client s =
     (if \<not> valid_key env client
      then (Inl (BadRequestException (''Invalid Stellar public key: '' @ client)), s)
      else
        let nonce = b64_encode random;
            s' = s\<lparr>s10_nonces := nonce_set now (nonceKey client nonce) (Json ''1'') (Some (challenge_ttl env)) (s10_nonces s)\<rparr>
        in (Inr (toXDR env (challenge_tx env now' client nonce), network_passphrase env), s'))"

section \<open>The checks of a signed challenge\<close>

definition parse_challenge :: "sep10_env \<Rightarrow> string \<Rightarrow> stellar_tx res" where
  "parse_challenge env xdr =
     (case fromXDR env xdr of
        ParsedTx tx \<Rightarrow> Inr tx
      | ParsedFeeBump \<Rightarrow> Inl (BadRequestException (''Invalid transaction XDR: '' @
          ''SEP-10 challenge must be a regular Transaction, not a FeeBump transaction''))
      | ParseError m \<Rightarrow> Inl (BadRequestException (''Invalid transaction XDR: '' @ m)))"

text \<open>The bounds are decimal texts of 64-bit numbers, read with \<open>Number\<close>.\<close>

definition assertTimeboundsValid :: "int \<Rightarrow> stellar_tx \<Rightarrow> unit res" where
  "assertTimeboundsValid now tx =
     (case st_timeBounds tx of
        None \<Rightarrow> Inl (UnauthorizedException ''Challenge transaction must have timebounds set'')
      | Some (minTime, maxTime) \<Rightarrow>
          let seconds = Num (of_int (now div 1000));
              lo = round64 (of_nat minTime); hi = round64 (of_nat maxTime)
          in if js_lt seconds lo
             then Inl (UnauthorizedException ''Challenge transaction timebounds have not started yet'')
             else if js_lt hi seconds
             then Inl (UnauthorizedException ''Challenge transaction has expired'')
             else if js_lt (Num 300) (js_sub hi lo)
             then Inl (UnauthorizedException ''Challenge timebounds span more than 5 minutes'')
             else Inr ())"

definition extractChallengeOp :: "sep10_env \<Rightarrow> stellar_tx \<Rightarrow> (string \<times> string) res" where
  "extractChallengeOp env tx =
     (case st_ops tx of
        [] \<Rightarrow> Inl (BadRequestException ''Challenge transaction must contain at least one operation'')
      | OtherOp _ # _ \<Rightarrow> Inl (BadRequestException ''First operation must be a manage_data operation'')
      | ManageData name val src # _ \<Rightarrow>
          if name \<noteq> home_domain env @ '' auth''
          then Inl (BadRequestException ''manage_data key does not match the home domain'')
          else if \<not> truthy src
          then Inl (BadRequestException ''manage_data operation must have an explicit source (client public key)'')
          else if \<not> valid_key env (the src)
          then Inl (BadRequestException (''manage_data source is not a valid Stellar public key: '' @ the src))
          else (case val of
                  None \<Rightarrow> Inl (BadRequestException ''manage_data value (nonce) is missing'')
                | Some bytes \<Rightarrow> Inr (the src, b64_encode bytes)))"

definition NonceInvalid :: exn where
  "NonceInvalid = UnauthorizedException
     ''Challenge nonce is invalid, expired, or has already been used. Request a new challenge.''"

text \<open>The first half of \<open>consumeNonce\<close>: the value \<open>1\<close> is true, so only a missing key is refused.\<close>

definition check_nonce :: "int \<Rightarrow> string \<Rightarrow> string \<Rightarrow> (sep10_state, unit) M" where
  "check_nonce now client nonce s =
     (case nonce_get now (nonceKey client nonce) (s10_nonces s) of
        (v, m) \<Rightarrow> ((case v of
                        Some (Json t) \<Rightarrow> if t = [] then Inl NonceInvalid else Inr ()
                      | Some Malformed \<Rightarrow> Inr ()
                      | None \<Rightarrow> Inl NonceInvalid), s\<lparr>s10_nonces := m\<rparr>))"

definition delete_nonce :: "string \<Rightarrow> string \<Rightarrow> (sep10_state, unit) M" where
  "delete_nonce client nonce =
     modifyM (\<lambda>s. s\<lparr>s10_nonces := snd (nonce_del (nonceKey client nonce) (s10_nonces s))\<rparr>)"

definition consumeNonce :: "int \<Rightarrow> string \<Rightarrow> string \<Rightarrow> (sep10_state, unit) M" where
  "consumeNonce now client nonce = thenM (check_nonce now client nonce) (delete_nonce client nonce)"

definition signed_by :: "sep10_env \<Rightarrow> string \<Rightarrow> stellar_tx \<Rightarrow> bool" where
  "signed_by env key tx =
     list_ex (\<lambda>sig. sg_hint sig = key_hint env key \<and> key_verify env key (tx_hash env tx) (sg_signature sig))
       (st_signatures tx)"

definition assertServerSignature :: "sep10_env \<Rightarrow> stellar_tx \<Rightarrow> unit res" where
  "assertServerSignature env tx =
     (if signed_by env (server_key env) tx then Inr ()
      else Inl (UnauthorizedException ''Server signature is missing or invalid''))"

definition assertClientSignature :: "sep10_env \<Rightarrow> stellar_tx \<Rightarrow> string \<Rightarrow> unit res" where
  "assertClientSignature env tx client =
     (if \<not> valid_key env client
      then Inl (UnauthorizedException (''Cannot construct keypair for client public key: '' @ client))
      else if signed_by env client tx then Inr ()
      else Inl (UnauthorizedException ''Client signature is missing or invalid''))"

section \<open>The token\<close>

text \<open>Creating a user fails when the email or the key is taken: both are unique.\<close>

definition sep10_email :: "string \<Rightarrow> string" where
  "sep10_email key = ''sep10+'' @ key @ ''@stellar.local''"

definition upsertUserForPublicKey :: "string \<Rightarrow> string \<Rightarrow> (sep10_state, Sep10User) M" where
  "upsertUserForPublicKey newId key s =
     (case find (\<lambda>u. su_stellarPublicKey u = Some key) (s10_users s) of
        Some u \<Rightarrow> (Inr u, s)
      | None \<Rightarrow>
          let u = \<lparr>su_id = newId, su_email = sep10_email key, su_password = [], su_stellarPublicKey = Some key\<rparr>
          in if \<exists>v \<in> set (s10_users s). su_email v = su_email u then (Inl (PrismaError ''P2002''), s)
             else (Inr u, s\<lparr>s10_users := s10_users s @ [u]\<rparr>))"

record sep10_token =
  tk_token :: string
  tk_stellar_account :: string
  tk_expires_in :: int

text \<open>
  \<open>verifyAndIssueToken\<close> up to the look-up of the nonce, and from its deletion on.
\<close>

definition redeem_check ::
  "sep10_env \<Rightarrow> int \<Rightarrow> string \<Rightarrow> (sep10_state, stellar_tx \<times> string \<times> string) M" where
  "redeem_check env now xdr =
     bindM (liftR (parse_challenge env xdr)) (\<lambda>tx.
     thenM (liftR (assertTimeboundsValid now tx))
    (bindM (liftR (extractChallengeOp env tx)) (\<lambda>(client, nonce).
     thenM (check_nonce now client nonce)
           (ret (tx, client, nonce)))))"

definition redeem_finish ::
  "sep10_env \<Rightarrow> string \<Rightarrow> stellar_tx \<times> string \<times> string \<Rightarrow> (sep10_state, sep10_token) M" where
  "redeem_finish env newId checked =
     (case checked of (tx, client, nonce) \<Rightarrow>
        thenM (delete_nonce client nonce)
       (thenM (liftR (assertServerSignature env tx))
       (thenM (liftR (assertClientSignature env tx client))
       (bindM (upsertUserForPublicKey newId client) (\<lambda>user.
          ret \<lparr>tk_token = jwt_token env (su_id user) client (jwt_expires_in env),
               tk_stellar_account = client, tk_expires_in = jwt_expires_in env\<rparr>)))))"

definition verifyAndIssueToken ::
  "sep10_env \<Rightarrow> int \<Rightarrow> string \<Rightarrow> string \<Rightarrow> (sep10_state, sep10_token) M" where
  "verifyAndIssueToken env now newId xdr =
     bindM (redeem_check env now xdr) (redeem_finish env newId)"

definition getServerPublicKey :: "sep10_env \<Rightarrow> string" where
  "getServerPublicKey env = server_key env"

section \<open>The controller\<close>

definition ctl_getChallenge ::
  "sep10_env \<Rightarrow> int \<Rightarrow> int \<Rightarrow> nat list \<Rightarrow> string \<Rightarrow> (sep10_state, string \<times> string) M" where
  "ctl_getChallenge = generateChallenge"

definition ctl_verify :: "sep10_env \<Rightarrow> int \<Rightarrow> string \<Rightarrow> string \<Rightarrow> (sep10_state, sep10_token) M" where
  "ctl_verify = verifyAndIssueToken"

definition getServerInfo :: "sep10_env \<Rightarrow> string option \<Rightarrow> string option \<Rightarrow> string \<times> string \<times> string" where
  "getServerInfo env homeDomain network =
     (getServerPublicKey env, (case homeDomain of None \<Rightarrow> ''localhost'' | Some d \<Rightarrow> d),
      if network = Some ''mainnet'' then ''Public Global Stellar Network ; September 2015''
      else ''Test SDF Network ; September 2015'')"

section \<open>Lemmas on base64\<close>

lemma b64_char_alphabet: "b64_char n \<in> set b64_alphabet"
  unfolding b64_char_def by (rule nth_mem) (simp add: b64_alphabet_def)

lemma b64_encode_set: "set (b64_encode xs) \<subseteq> insert (CHR ''='') (set b64_alphabet)"
  by (induction xs rule: b64_encode.induct) (auto simp: b64_char_alphabet)

lemma b64_encode_no_colon: "CHR '':'' \<notin> set (b64_encode xs)"
proof -
  have "CHR '':'' \<notin> insert (CHR ''='') (set b64_alphabet)" by (simp add: b64_alphabet_def)
  then show ?thesis using b64_encode_set by blast
qed

lemma length_b64_encode: "length (b64_encode xs) = 4 * ((length xs + 2) div 3)"
proof (induction xs rule: b64_encode.induct)
  case (4 a b c r)
  have "(length (a # b # c # r) + 2) div 3 = Suc ((length r + 2) div 3)" by simp
  then show ?case using 4 by simp
qed simp_all

lemma length_text_buffer [simp]: "length (text_buffer t) = length t"
  by (simp add: text_buffer_def)

section \<open>Nonces\<close>

lemma last_colon:
  assumes "c @ CHR '':'' # n = c' @ CHR '':'' # n'" and "CHR '':'' \<notin> set n" and "CHR '':'' \<notin> set n'"
  shows "n = n'"
proof -
  have "takeWhile (\<lambda>x. x \<noteq> CHR '':'') (rev n @ CHR '':'' # rev c) = rev n"
    and "takeWhile (\<lambda>x. x \<noteq> CHR '':'') (rev n' @ CHR '':'' # rev c') = rev n'"
    using assms(2,3) by (auto simp: takeWhile_append)
  moreover have "rev n @ CHR '':'' # rev c = rev n' @ CHR '':'' # rev c'"
    using arg_cong [OF assms(1), of rev] by simp
  ultimately show ?thesis by (metis rev_rev_ident)
qed

lemma nonceKey_nonce:
  "nonceKey c (b64_encode xs) = nonceKey c' (b64_encode ys) \<Longrightarrow> b64_encode xs = b64_encode ys"
  using last_colon [of c "b64_encode xs" c' "b64_encode ys"] b64_encode_no_colon
  by (auto simp: nonceKey_def)

text \<open>Every key of the store was issued: its nonce is the text of 48 random bytes.\<close>

definition issued :: "sep10_state \<Rightarrow> bool" where
  "issued s = (\<forall>k \<in> dom (s10_nonces s). \<exists>c random. k = nonceKey c (b64_encode random) \<and> length random = 48)"

inductive sep10_reachable :: "sep10_env \<Rightarrow> sep10_state \<Rightarrow> bool" for env where
  start: "s10_nonces s = Map.empty \<Longrightarrow> sep10_reachable env s"
| challenge: "sep10_reachable env s \<Longrightarrow> length random = 48 \<Longrightarrow>
    sep10_reachable env (snd (generateChallenge env now now' random client s))"
| check: "sep10_reachable env s \<Longrightarrow> sep10_reachable env (snd (redeem_check env now xdr s))"
| finish: "sep10_reachable env s \<Longrightarrow> sep10_reachable env (snd (redeem_finish env newId checked s))"

lemma check_nonce_dom: "dom (s10_nonces (snd (check_nonce now c n s))) \<subseteq> dom (s10_nonces s)"
  by (auto simp: check_nonce_def nonce_get_def split: option.splits if_splits)

lemma redeem_check_dom: "dom (s10_nonces (snd (redeem_check env now xdr s))) \<subseteq> dom (s10_nonces s)"
  using check_nonce_dom
  by (auto simp: redeem_check_def M_defs split: sum.splits prod.splits) (metis domI snd_conv subsetD domD)+

lemma upsert_nonces [simp]: "s10_nonces (snd (upsertUserForPublicKey newId key s)) = s10_nonces s"
  by (simp add: upsertUserForPublicKey_def Let_def split: option.splits)

lemma redeem_finish_nonces:
  "s10_nonces (snd (redeem_finish env newId (tx, client, nonce) s)) = (s10_nonces s)(nonceKey client nonce := None)"
proof -
  define s1 where "s1 = s\<lparr>s10_nonces := snd (nonce_del (nonceKey client nonce) (s10_nonces s))\<rparr>"
  have "s10_nonces s1 = (s10_nonces s)(nonceKey client nonce := None)"
    by (auto simp: s1_def nonce_del_def fun_eq_iff)
  moreover have "s10_nonces (snd (redeem_finish env newId (tx, client, nonce) s)) = s10_nonces s1"
    using upsert_nonces [of newId client s1]
    by (cases "upsertUserForPublicKey newId client s1") (auto simp: redeem_finish_def delete_nonce_def M_defs s1_def [symmetric] split: sum.splits prod.splits)
  ultimately show ?thesis by simp
qed

lemma reachable_issued: "sep10_reachable env s \<Longrightarrow> issued s"
proof (induction rule: sep10_reachable.induct)
  case (challenge s random now now' client)
  then show ?case
    by (auto simp: issued_def generateChallenge_def Let_def nonce_set_def store_set_def split: if_splits)
next
  case (check s now xdr)
  then show ?case using redeem_check_dom [of env now xdr s] by (meson issued_def subsetD)
next
  case (finish s newId checked)
  obtain tx client nonce where "checked = (tx, client, nonce)" by (cases checked)
  then show ?case using finish.IH by (simp add: issued_def redeem_finish_nonces)
qed (simp add: issued_def)

section \<open>A redemption\<close>

lemma redeem_check_Inr:
  assumes "redeem_check env now xdr s = (Inr (tx, client, nonce), s1)"
  shows "fromXDR env xdr = ParsedTx tx \<and> assertTimeboundsValid now tx = Inr () \<and>
    extractChallengeOp env tx = Inr (client, nonce) \<and>
    nonce_live now (s10_nonces s) (nonceKey client nonce) \<noteq> None \<and> s1 = s"
proof -
  have "fromXDR env xdr = ParsedTx tx" and "assertTimeboundsValid now tx = Inr ()"
    and "extractChallengeOp env tx = Inr (client, nonce)" and ck: "check_nonce now client nonce s = (Inr (), s1)"
    using assms
    by (auto simp: redeem_check_def M_defs parse_challenge_def split: sum.splits prod.splits parsed.splits)
  moreover from ck have "nonce_live now (s10_nonces s) (nonceKey client nonce) \<noteq> None \<and> s1 = s"
    by (auto simp: check_nonce_def nonce_get_def nonce_live_def split: option.splits if_splits)
  ultimately show ?thesis by simp
qed

lemma upsert_Inr:
  assumes "upsertUserForPublicKey newId key s = (Inr u, s')"
  shows "u \<in> set (s10_users s') \<and> su_stellarPublicKey u = Some key \<and> s10_nonces s' = s10_nonces s"
  using assms by (auto simp: upsertUserForPublicKey_def Let_def split: option.splits if_splits dest: find_Some_D)

lemma redeem_finish_Inr:
  assumes "redeem_finish env newId (tx, client, nonce) s = (Inr tok, s')"
  shows "signed_by env (server_key env) tx \<and> signed_by env client tx \<and> tk_stellar_account tok = client \<and>
    (\<exists>u \<in> set (s10_users s'). su_stellarPublicKey u = Some client \<and>
       tk_token tok = jwt_token env (su_id u) client (jwt_expires_in env))"
proof -
  define s1 where "s1 = s\<lparr>s10_nonces := snd (nonce_del (nonceKey client nonce) (s10_nonces s))\<rparr>"
  obtain u where up: "upsertUserForPublicKey newId client s1 = (Inr u, s')"
    and tok: "tok = \<lparr>tk_token = jwt_token env (su_id u) client (jwt_expires_in env),
      tk_stellar_account = client, tk_expires_in = jwt_expires_in env\<rparr>"
    and sig: "assertServerSignature env tx = Inr ()" "assertClientSignature env tx client = Inr ()"
    using assms
    by (auto simp: redeem_finish_def delete_nonce_def M_defs s1_def [symmetric] split: sum.splits prod.splits)
  then show ?thesis
    using upsert_Inr [OF up]
    by (auto simp: assertServerSignature_def assertClientSignature_def split: if_splits)
qed

lemma verify_Inr:
  assumes "verifyAndIssueToken env now newId xdr s = (Inr tok, s')"
  obtains tx client nonce where "redeem_check env now xdr s = (Inr (tx, client, nonce), s)"
    and "redeem_finish env newId (tx, client, nonce) s = (Inr tok, s')"
proof -
  obtain c s1 where c: "redeem_check env now xdr s = (Inr c, s1)" "redeem_finish env newId c s1 = (Inr tok, s')"
    using assms by (auto simp: verifyAndIssueToken_def elim: bindM_Inr_E)
  obtain tx client nonce where cc: "c = (tx, client, nonce)" by (cases c)
  then show thesis using c redeem_check_Inr [of env now xdr s tx client nonce s1] that by simp
qed

lemma timebounds_window:
  assumes "assertTimeboundsValid now tx = Inr ()"
  obtains lo hi where "st_timeBounds tx = Some (lo, hi)"
    and "lo < 2 ^ 53 \<and> hi < 2 ^ 53 \<longrightarrow> int lo \<le> now div 1000 \<and> now div 1000 \<le> int hi \<and> hi \<le> lo + 300"
proof -
  obtain lo hi where b: "st_timeBounds tx = Some (lo, hi)"
    using assms by (auto simp: assertTimeboundsValid_def split: option.splits)
  have "int lo \<le> now div 1000 \<and> now div 1000 \<le> int hi \<and> hi \<le> lo + 300"
    if small: "lo < 2 ^ 53 \<and> hi < 2 ^ 53"
  proof -
    have r: "round64 (of_nat lo) = Num (of_int (int lo))" "round64 (of_nat hi) = Num (of_int (int hi))"
      using round64_int [of "int lo"] round64_int [of "int hi"] small by simp_all
    have "\<bar>int hi - int lo\<bar> < 2 ^ 53" using small by (auto simp: abs_less_iff)
    then have d: "js_sub (Num (of_int (int hi))) (Num (of_int (int lo))) = Num (of_int (int hi - int lo))"
      using round64_int [of "int hi - int lo"] by (simp add: js_sub_def)
    have "\<not> js_lt (Num (of_int (now div 1000))) (Num (of_int (int lo)))"
      and "\<not> js_lt (Num (of_int (int hi))) (Num (of_int (now div 1000)))"
      and "\<not> js_lt (Num 300) (Num (of_int (int hi - int lo)))"
      using assms by (auto simp: assertTimeboundsValid_def b r d Let_def simp del: js_lt.simps of_int_of_nat_eq split: if_splits)
    then have 1: "(of_int (int lo) :: rat) \<le> of_int (now div 1000)" and 2: "(of_int (now div 1000) :: rat) \<le> of_int (int hi)"
      and 3: "(of_int (int hi - int lo) :: rat) \<le> of_int 300"
      by (simp_all add: not_less)
    show ?thesis using 1 2 3 unfolding of_int_le_iff by linarith
  qed
  with b show thesis using that by blast
qed

section \<open>An example\<close>

text \<open>A key signs with its own name.\<close>

definition demo_sep10 :: "stellar_tx \<Rightarrow> sep10_env" where
  "demo_sep10 tx = \<lparr>valid_key = (\<lambda>k. k \<noteq> []), fromXDR = (\<lambda>_. ParsedTx tx), toXDR = (\<lambda>_. ''xdr''),
     tx_hash = (\<lambda>_. ''h''), key_hint = id, key_verify = (\<lambda>k h sg. sg = k), server_sign = (\<lambda>_. ''GS''),
     server_key = ''GS'', home_domain = ''localhost'', challenge_ttl = 300, network_passphrase = ''test'',
     jwt_token = (\<lambda>sub key n. sub), jwt_expires_in = 900\<rparr>"

definition both_signed :: "signature list" where
  "both_signed = [\<lparr>sg_hint = ''GS'', sg_signature = ''GS''\<rparr>, \<lparr>sg_hint = ''GC'', sg_signature = ''GC''\<rparr>]"

text \<open>A transaction that carries the bytes of the nonce themselves.\<close>

definition demo_tx :: stellar_tx where
  "demo_tx = \<lparr>st_source = ''GS'', st_sequence = 0, st_ops = [ManageData ''localhost auth'' (Some [2, 3, 4]) (Some ''GC'')],
     st_timeBounds = Some (1000, 1300), st_signatures = both_signed\<rparr>"

definition demo_state :: sep10_state where
  "demo_state = \<lparr>s10_nonces = [nonceKey ''GC'' (b64_encode [2, 3, 4]) \<mapsto> \<lparr>e_value = Json ''1'', e_expiresAt = Some 1300000\<rparr>],
     s10_users = []\<rparr>"

lemma demo_check: "redeem_check (demo_sep10 demo_tx) 1001000 x demo_state = (Inr (demo_tx, ''GC'', b64_encode [2, 3, 4]), demo_state)"
proof -
  have t: "assertTimeboundsValid 1001000 demo_tx = Inr ()"
    by (simp add: assertTimeboundsValid_def demo_tx_def js_sub_def)
  have e: "extractChallengeOp (demo_sep10 demo_tx) demo_tx = Inr (''GC'', b64_encode [2, 3, 4])"
    by (simp add: extractChallengeOp_def demo_tx_def demo_sep10_def)
  have n: "check_nonce 1001000 ''GC'' (b64_encode [2, 3, 4]) demo_state = (Inr (), demo_state)"
    by (simp add: check_nonce_def demo_state_def nonce_get_def nonce_expired_def del: b64_encode.simps)
  have p: "parse_challenge (demo_sep10 demo_tx) x = Inr demo_tx" by (simp add: parse_challenge_def demo_sep10_def)
  show ?thesis by (simp add: redeem_check_def M_defs p t e n del: b64_encode.simps)
qed

lemma demo_finish:
  "\<exists>tok s'. redeem_finish (demo_sep10 demo_tx) ''u1'' (demo_tx, ''GC'', b64_encode [2, 3, 4]) demo_state = (Inr tok, s') \<and>
     tk_stellar_account tok = ''GC''"
proof -
  have "assertServerSignature (demo_sep10 demo_tx) demo_tx = Inr ()" "assertClientSignature (demo_sep10 demo_tx) demo_tx ''GC'' = Inr ()"
    by (simp_all add: assertServerSignature_def assertClientSignature_def signed_by_def demo_sep10_def demo_tx_def both_signed_def)
  then show ?thesis
    by (simp add: redeem_finish_def delete_nonce_def M_defs upsertUserForPublicKey_def demo_state_def Let_def del: b64_encode.simps)
qed

section \<open>Properties\<close>

text \<open>
  What the checks of a redemption guarantee. A token is issued only for an envelope whose time bounds, when below two to the 53, contain
  the second of the call and span at most five minutes, whose first operation names the home
  domain and the client's key, whose nonce is live in the store, and which both the server's
  and the client's key have signed; it names a stored user of that key. The next call with the same
  envelope fails and creates no user. The example puts the bytes of the nonce into the transaction itself; the challenges
  this server builds do not get that far (\<open>sep10_challenge_never_redeems\<close>).
\<close>

theorem sep10_token_sound:
  assumes "verifyAndIssueToken env now newId xdr s = (Inr tok, s')" and "client = tk_stellar_account tok"
  shows "\<exists>tx nonce lo hi. fromXDR env xdr = ParsedTx tx \<and> st_timeBounds tx = Some (lo, hi) \<and>
    (lo < 2 ^ 53 \<and> hi < 2 ^ 53 \<longrightarrow> int lo \<le> now div 1000 \<and> now div 1000 \<le> int hi \<and> hi \<le> lo + 300) \<and>
    extractChallengeOp env tx = Inr (client, nonce) \<and>
    nonce_live now (s10_nonces s) (nonceKey client nonce) \<noteq> None \<and>
    signed_by env (server_key env) tx \<and> signed_by env client tx \<and>
    (\<exists>u \<in> set (s10_users s'). su_stellarPublicKey u = Some client \<and>
       tk_token tok = jwt_token env (su_id u) client (jwt_expires_in env)) \<and>
    isl (fst (verifyAndIssueToken env now' newId' xdr s')) \<and>
    s10_users (snd (verifyAndIssueToken env now' newId' xdr s')) = s10_users s'"
proof -
  obtain tx c nonce where ck: "redeem_check env now xdr s = (Inr (tx, c, nonce), s)"
    and fin: "redeem_finish env newId (tx, c, nonce) s = (Inr tok, s')"
    using verify_Inr [OF assms(1)] .
  note ck' = redeem_check_Inr [OF ck] and fin' = redeem_finish_Inr [OF fin]
  have c: "c = client" using fin' assms(2) by simp
  obtain lo hi where b: "st_timeBounds tx = Some (lo, hi)"
    "lo < 2 ^ 53 \<and> hi < 2 ^ 53 \<longrightarrow> int lo \<le> now div 1000 \<and> now div 1000 \<le> int hi \<and> hi \<le> lo + 300"
    using timebounds_window ck' by metis
  have gone: "s10_nonces s' (nonceKey client nonce) = None"
    using redeem_finish_nonces [of env newId tx c nonce s] fin by (simp add: c)
  have "\<exists>e. redeem_check env now' xdr s' = (Inl e, s')"
    using ck' gone
    by (auto simp: c redeem_check_def M_defs parse_challenge_def check_nonce_def nonce_get_def split: sum.splits)
  then obtain e where "verifyAndIssueToken env now' newId' xdr s' = (Inl e, s')"
    by (auto simp: verifyAndIssueToken_def bindM_def)
  then show ?thesis using ck' fin' b c by (intro exI [of _ tx] exI [of _ nonce] exI [of _ lo] exI [of _ hi]) simp
qed

theorem sep10_token_sound_witness:
  "\<exists>tok s'. verifyAndIssueToken (demo_sep10 demo_tx) 1001000 ''u1'' ''x'' demo_state = (Inr tok, s') \<and>
     signed_by (demo_sep10 demo_tx) ''GC'' demo_tx \<and>
     isl (fst (verifyAndIssueToken (demo_sep10 demo_tx) 1001000 ''u2'' ''x'' s'))"
proof -
  obtain tok s' where v: "verifyAndIssueToken (demo_sep10 demo_tx) 1001000 ''u1'' ''x'' demo_state = (Inr tok, s')"
    and acc: "tk_stellar_account tok = ''GC''"
    using demo_finish by (auto simp: verifyAndIssueToken_def bindM_def demo_check simp del: b64_encode.simps)
  have "fromXDR (demo_sep10 demo_tx) ''x'' = ParsedTx demo_tx" by (simp add: demo_sep10_def)
  then show ?thesis
    using v sep10_token_sound [OF v acc [symmetric], of 1001000 "''u2''"] by auto
qed

text \<open>
  Verifications that overlap are not exclusive. The nonce is read and deleted in two calls
  of the store; a second call that reads it before the first deletes it also passes,
  and one signed challenge yields two tokens.
\<close>

theorem sep10_overlapping_redemptions:
  assumes "redeem_check env now xdr s = (Inr c, s1)"
    and "redeem_finish env id1 c s1 = (Inr tok1, s2)"
  shows "redeem_check env now xdr s1 = (Inr c, s1) \<and> (\<exists>tok2 s3. redeem_finish env id2 c s2 = (Inr tok2, s3))"
proof -
  obtain tx client nonce where c: "c = (tx, client, nonce)" by (cases c)
  have s1: "s1 = s" using redeem_check_Inr assms(1) unfolding c by blast
  note fin = redeem_finish_Inr [OF assms(2) [unfolded c]]
  define t where "t = s2\<lparr>s10_nonces := snd (nonce_del (nonceKey client nonce) (s10_nonces s2))\<rparr>"
  have "\<exists>u. find (\<lambda>u. su_stellarPublicKey u = Some client) (s10_users t) = Some u"
    using fin by (cases "find (\<lambda>u. su_stellarPublicKey u = Some client) (s10_users t)") (auto simp: t_def find_None_iff)
  then obtain u where "upsertUserForPublicKey id2 client t = (Inr u, t)"
    by (auto simp: upsertUserForPublicKey_def)
  moreover have "valid_key env client"
    using redeem_check_Inr [of env now xdr s tx client nonce s1] assms(1)
    by (auto simp: c extractChallengeOp_def split: list.splits stellar_op.splits if_splits option.splits)
  ultimately have "\<exists>tok2 s3. redeem_finish env id2 c s2 = (Inr tok2, s3)"
    using fin by (simp add: c redeem_finish_def delete_nonce_def M_defs t_def [symmetric]
        assertServerSignature_def assertClientSignature_def)
  then show ?thesis using assms(1) s1 by simp
qed

theorem sep10_overlapping_redemptions_witness:
  "\<exists>c tok1 tok2 s2 s3. redeem_check (demo_sep10 demo_tx) 1001000 ''x'' demo_state = (Inr c, demo_state) \<and>
     redeem_finish (demo_sep10 demo_tx) ''u1'' c demo_state = (Inr tok1, s2) \<and>
     redeem_finish (demo_sep10 demo_tx) ''u2'' c s2 = (Inr tok2, s3)"
proof -
  obtain tok s' where f: "redeem_finish (demo_sep10 demo_tx) ''u1'' (demo_tx, ''GC'', b64_encode [2, 3, 4]) demo_state = (Inr tok, s')"
    using demo_finish by blast
  from sep10_overlapping_redemptions [OF demo_check f] show ?thesis using demo_check f by blast
qed

text \<open>
  C40. No challenge of this server can be redeemed. The nonce is stored as the base64 text of the
  random bytes and put into the transaction as the bytes of that text; the verification encodes
  these bytes once more, so that it looks for a text of 88 characters among stored ones of
  64. In every state the service can reach, a challenge it built, with whatever signatures,
  is refused, as expired or as having no nonce.
\<close>

theorem sep10_challenge_never_redeems:
  assumes "fromXDR env xdr = ParsedTx signed"
    and "sep10_reachable env s" and "valid_key env client" and "client \<noteq> []" and "length random = 48"
    and "signed = (challenge_tx env t client (b64_encode random))\<lparr>st_signatures := sigs\<rparr>"
  shows "verifyAndIssueToken env now newId xdr s =
    (case assertTimeboundsValid now signed of Inl e \<Rightarrow> (Inl e, s) | Inr _ \<Rightarrow> (Inl NonceInvalid, s))"
proof -
  let ?nonce = "b64_encode (text_buffer (b64_encode random))"
  have len: "length (b64_encode random) = 64" "length ?nonce = 88"
    using assms(5) by (simp_all add: length_b64_encode)
  have "nonceKey client ?nonce \<notin> dom (s10_nonces s)"
  proof
    assume "nonceKey client ?nonce \<in> dom (s10_nonces s)"
    then obtain c r where k: "nonceKey client ?nonce = nonceKey c (b64_encode r)" and r: "length r = 48"
      using reachable_issued [OF assms(2)] by (meson issued_def)
    have "?nonce = b64_encode r" using nonceKey_nonce [OF k] .
    then have "length ?nonce = 64" using r by (simp add: length_b64_encode)
    then show False using len by simp
  qed
  then have none: "s10_nonces s (nonceKey client ?nonce) = None" by (simp add: domIff)
  have "extractChallengeOp env signed = Inr (client, ?nonce)"
    using assms(3,4) by (simp add: assms(6) challenge_tx_def Let_def challenge_ops_def extractChallengeOp_def)
  then show ?thesis
    using none
    by (auto simp: verifyAndIssueToken_def redeem_check_def M_defs parse_challenge_def assms(1)
        check_nonce_def nonce_get_def split: sum.splits)
qed

text \<open>The challenge for the 48 zero bytes, generated, signed by both keys and posted back.\<close>

definition demo_challenge :: stellar_tx where
  "demo_challenge = (challenge_tx (demo_sep10 demo_tx) 1000000 ''GC'' (b64_encode (replicate 48 0)))\<lparr>st_signatures := both_signed\<rparr>"

theorem sep10_challenge_never_redeems_witness:
  "verifyAndIssueToken (demo_sep10 demo_challenge) 1001000 ''u1'' ''x''
     (snd (generateChallenge (demo_sep10 demo_challenge) 1000000 1000000 (replicate 48 0) ''GC'' \<lparr>s10_nonces = Map.empty, s10_users = []\<rparr>)) =
   (Inl NonceInvalid,
    snd (generateChallenge (demo_sep10 demo_challenge) 1000000 1000000 (replicate 48 0) ''GC'' \<lparr>s10_nonces = Map.empty, s10_users = []\<rparr>))"
proof -
  let ?env = "demo_sep10 demo_challenge"
  have x: "fromXDR ?env ''x'' = ParsedTx demo_challenge" and v: "valid_key ?env ''GC''" by (simp_all add: demo_sep10_def)
  have len: "length (replicate 48 (0 :: nat)) = 48" by simp
  have r: "sep10_reachable ?env (snd (generateChallenge ?env 1000000 1000000 (replicate 48 0) ''GC'' \<lparr>s10_nonces = Map.empty, s10_users = []\<rparr>))"
    by (rule sep10_reachable.challenge [OF sep10_reachable.start len]) simp
  have d: "demo_challenge = (challenge_tx ?env 1000000 ''GC'' (b64_encode (replicate 48 0)))\<lparr>st_signatures := both_signed\<rparr>"
    by (simp add: demo_challenge_def challenge_tx_def challenge_ops_def demo_sep10_def Let_def)
  have t: "assertTimeboundsValid 1001000 demo_challenge = Inr ()"
    by (simp add: assertTimeboundsValid_def demo_challenge_def challenge_tx_def demo_sep10_def Let_def js_sub_def)
  show ?thesis using sep10_challenge_never_redeems [OF x r v _ len d, of 1001000 "''u1''"] by (simp only: t) simp
qed

end
