(* ===== verification/RedisLimit.thy ===== *)
theory RedisLimit
  imports RateLimit
begin

text \<open>
  The limiter on Redis (\<open>apps/api/src/rate-limit/redis-rate-limiter.ts\<close>) and its guard
  (\<open>rate-limit.guard.redis.ts\<close>). The windows are aligned to multiples of their length. The
  script runs atomically; Redis is a map from keys to counters with an expiry, and \<open>clock\<close> is
  the clock of its server when the script runs, a reading of its own beside the \<open>now\<close> of the guard:
  the window is computed from the one and the key expires by the other. The guard reads limits, windows and client keys as the guard without
  Redis does.
\<close>

section \<open>The commands of the script\<close>

record redis_counter =
  rc_count :: int
  rc_expireAt :: "int option"

type_synonym redis = "string \<rightharpoonup> redis_counter"

definition redis_live :: "int \<Rightarrow> redis \<Rightarrow> string \<Rightarrow> redis_counter option" where
  "redis_live clock m k =
     (case m k of
        None \<Rightarrow> None
      | Some c \<Rightarrow> (case rc_expireAt c of None \<Rightarrow> Some c | Some e \<Rightarrow> if e \<le> clock then None else Some c))"

definition redis_incr :: "int \<Rightarrow> string \<Rightarrow> redis \<Rightarrow> int \<times> redis" where
  "redis_incr clock k m =
     (case redis_live clock m k of
        None \<Rightarrow> (1, m(k \<mapsto> \<lparr>rc_count = 1, rc_expireAt = None\<rparr>))
      | Some c \<Rightarrow> (rc_count c + 1, m(k \<mapsto> c\<lparr>rc_count := rc_count c + 1\<rparr>)))"

text \<open>\<open>PEXPIRE\<close>: a timeout that is not positive deletes the key.\<close>

definition redis_pexpire :: "int \<Rightarrow> string \<Rightarrow> int \<Rightarrow> redis \<Rightarrow> redis" where
  "redis_pexpire clock k ttl m =
     (case redis_live clock m k of
        None \<Rightarrow> m
      | Some c \<Rightarrow> if ttl \<le> 0 then m(k := None) else m(k \<mapsto> c\<lparr>rc_expireAt := Some (clock + ttl)\<rparr>))"

section \<open>The limiter\<close>

record RateLimitResult =
  rr_limit :: int
  rr_remaining :: int
  rr_resetAt :: int

definition limiter_key :: "string \<Rightarrow> string" where
  "limiter_key realKey = ''rate-limit:'' @ realKey"

text \<open>The script: the counter, what remains of the limit and the end of the window.\<close>

definition limiter_script :: "int \<Rightarrow> string \<Rightarrow> int \<Rightarrow> int \<Rightarrow> int \<Rightarrow> redis \<Rightarrow> (int \<times> int \<times> int) \<times> redis" where
  "limiter_script clock k limit windowMs nowMs m =
     (let bucketReset = (nowMs div windowMs + 1) * windowMs
      in case redis_incr clock k m of (current, m1) \<Rightarrow>
        let m2 = (if current = 1 then redis_pexpire clock k (bucketReset - nowMs) m1 else m1);
            remaining = limit - current
        in ((current, (if remaining < 0 then 0 else remaining), bucketReset), m2))"

definition consume :: "int \<Rightarrow> string \<Rightarrow> int \<Rightarrow> int \<Rightarrow> int \<Rightarrow> redis \<Rightarrow> RateLimitResult \<times> redis" where
  "consume clock realKey limit windowMs nowMs m =
     (case limiter_script clock (limiter_key realKey) limit windowMs nowMs m of
        ((count, _, resetAt), m') \<Rightarrow>
          (\<lparr>rr_limit = limit, rr_remaining = limit - count, rr_resetAt = resetAt\<rparr>, m'))"

definition resetKey :: "string \<Rightarrow> redis \<Rightarrow> redis" where
  "resetKey realKey m = m(limiter_key realKey := None)"

section \<open>The guard\<close>

definition redis_canActivate ::
  "environment \<Rightarrow> RateLimitOptions option \<Rightarrow> int \<Rightarrow> int \<Rightarrow> rl_request \<Rightarrow> redis \<Rightarrow>
     (bool res \<times> rl_headers option) \<times> redis" where
  "redis_canActivate env options clock now request m =
     (case options of
        None \<Rightarrow> ((Inr True, None), m)
      | Some opts \<Rightarrow>
          let limit = rl_limit env opts;
              windowMs = rl_windowMs env opts;
              realKey = bucketKey opts request
          in case consume clock realKey limit windowMs now m of (result, m') \<Rightarrow>
            let remaining = max 0 (rr_remaining result);
                retryAfterSeconds = max 1 (- ((now - rr_resetAt result) div 1000))
            in if 0 \<le> rr_remaining result
               then ((Inr True, Some \<lparr>hd_limit = limit, hd_remaining = remaining,
                        hd_reset = rr_resetAt result, hd_retryAfter = None\<rparr>), m')
               else ((Inl (HttpException 429 ''RATE_LIMITED''),
                      Some \<lparr>hd_limit = limit, hd_remaining = remaining,
                        hd_reset = rr_resetAt result, hd_retryAfter = Some retryAfterSeconds\<rparr>), m'))"

section \<open>Aligned windows\<close>

text \<open>
  Of the key of bucket \<open>k\<close>, in the window of \<open>t0\<close>, with Redis's clock ahead by \<open>skew\<close>: \<open>n\<close> requests
  were counted. With none counted the key is absent or expired when the window opens; with some it
  lives at least to the end of the window.
\<close>

definition redis_counted :: "string \<Rightarrow> int \<Rightarrow> int \<Rightarrow> int \<Rightarrow> nat \<Rightarrow> redis \<Rightarrow> bool" where
  "redis_counted k w skew t0 n m =
     (if n = 0 then redis_live (t0 div w * w + skew) m (limiter_key k) = None
      else (\<exists>e. m (limiter_key k) = Some \<lparr>rc_count = int n, rc_expireAt = Some e\<rparr> \<and> (t0 div w + 1) * w + skew \<le> e))"

text \<open>
  A request reads \<open>t\<close> on the server and its script runs at \<open>c\<close> on Redis's clock: both in the window of
  \<open>t0\<close>, the script no earlier than the reading.
\<close>

definition in_window :: "int \<Rightarrow> int \<Rightarrow> int \<Rightarrow> int \<times> int \<Rightarrow> bool" where
  "in_window w skew t0 tc =
     (case tc of (t, c) \<Rightarrow> t div w = t0 div w \<and> t + skew \<le> c \<and> c < (t0 div w + 1) * w + skew)"

lemma limiter_key_inj [simp]: "limiter_key a = limiter_key b \<longleftrightarrow> a = b"
  by (simp add: limiter_key_def)

lemma redis_live_later: "redis_live t m k = None \<Longrightarrow> t \<le> t' \<Longrightarrow> redis_live t' m k = None"
  by (auto simp: redis_live_def split: option.splits if_splits)

lemma redis_live_other: "k \<noteq> k' \<Longrightarrow> redis_live t (m(k' := v)) k = redis_live t m k"
  by (simp add: redis_live_def)

lemma script_other:
  assumes "k \<noteq> k'"
  shows "snd (limiter_script clock k' limit w now m) k = m k"
  using assms by (auto simp: limiter_script_def redis_incr_def redis_pexpire_def Let_def split: option.splits)

lemma window_bounds:
  assumes "0 < (w :: int)" and "t div w = t0 div w"
  shows "t0 div w * w \<le> t" and "t < (t0 div w + 1) * w"
proof -
  have "t = t div w * w + t mod w" by simp
  moreover have "0 \<le> t mod w" "t mod w < w" using assms(1) by simp_all
  ultimately show "t0 div w * w \<le> t" "t < (t0 div w + 1) * w"
    using assms(2) by (simp_all add: distrib_right)
qed

lemma script_same:
  assumes "redis_counted k w skew t0 n m" and "0 < w" and "in_window w skew t0 (t, c)"
  shows "redis_counted k w skew t0 (Suc n) (snd (limiter_script c (limiter_key k) limit w t m)) \<and>
    fst (fst (limiter_script c (limiter_key k) limit w t m)) = int (Suc n)"
proof (cases "n = 0")
  case True
  have t: "t div w = t0 div w" "t + skew \<le> c" using assms(3) by (simp_all add: in_window_def)
  have "redis_live c m (limiter_key k) = None"
    using True assms(1) window_bounds(1) [OF assms(2) t(1)] t(2)
    by (auto simp: redis_counted_def elim!: redis_live_later)
  then show ?thesis
    using True window_bounds(2) [OF assms(2) t(1)] t
    by (simp add: limiter_script_def redis_incr_def redis_pexpire_def redis_live_def redis_counted_def Let_def)
next
  case False
  then show ?thesis
    using assms(1,3)
    by (auto simp: limiter_script_def redis_incr_def redis_live_def redis_counted_def in_window_def Let_def)
qed

lemma readPositiveInt_pos: "0 < d \<Longrightarrow> 0 < readPositiveInt v d"
  by (auto simp: readPositiveInt_def split: option.splits)

lemma windowMs_pos: "(case opt_windowMs opts of None \<Rightarrow> True | Some w \<Rightarrow> 0 < w) \<Longrightarrow> 0 < rl_windowMs env opts"
  by (auto simp: rl_windowMs_def DEFAULT_WINDOW_MS_def intro!: readPositiveInt_pos split: option.splits)

text \<open>One request: the server's reading of its clock, and that of Redis when the script runs.\<close>

definition redis_hit :: "environment \<Rightarrow> RateLimitOptions \<Rightarrow> int \<times> int \<Rightarrow> rl_request \<Rightarrow> redis \<Rightarrow> bool \<times> redis" where
  "redis_hit env opts tc r m =
     (case redis_canActivate env (Some opts) (snd tc) (fst tc) r m of (out, m') \<Rightarrow> (passes out, m'))"

lemma redis_hit_script:
  "redis_hit env opts (t, c) r m =
    (case limiter_script c (limiter_key (bucketKey opts r)) (rl_limit env opts) (rl_windowMs env opts) t m of
       ((count, _, _), m') \<Rightarrow> (count \<le> rl_limit env opts, m'))"
  by (auto simp: redis_hit_def redis_canActivate_def consume_def passes_def Let_def split: prod.splits if_splits)

interpretation redis_window: window_limiter
  "redis_hit env opts" "bucketKey opts" "\<lambda>k. redis_counted k (rl_windowMs env opts) skew"
  "\<lambda>t0 tc. 0 < rl_windowMs env opts \<and> in_window (rl_windowMs env opts) skew t0 tc"
  "rl_limit env opts"
  for env opts skew
proof unfold_locales
  fix k t0 n m r and tc :: "int \<times> int"
  let ?w = "rl_windowMs env opts"
  obtain t c where tc: "tc = (t, c)" by (cases tc)
  assume n: "redis_counted k ?w skew t0 n m" and t: "0 < ?w \<and> in_window ?w skew t0 tc"
  show "redis_counted k ?w skew t0 n (snd (redis_hit env opts tc r m))" if "bucketKey opts r \<noteq> k"
    using script_other [of "limiter_key k" "limiter_key (bucketKey opts r)" c "rl_limit env opts" ?w t m] n that
    by (cases "n = 0") (auto simp: tc redis_hit_script redis_counted_def redis_live_def split: prod.splits)
  show "redis_counted k ?w skew t0 (Suc n) (snd (redis_hit env opts tc r m)) \<and>
      fst (redis_hit env opts tc r m) = (int (Suc n) \<le> rl_limit env opts)" if "bucketKey opts r = k"
    using script_same [OF n conjunct1 [OF t] conjunct2 [OF t, unfolded tc], of "rl_limit env opts"] that
    by (auto simp: tc redis_hit_script split: prod.splits)
qed

section \<open>Properties\<close>

text \<open>
  C22. The limiter on Redis is exact in each aligned window in which no script is late. The server's
  clock gives the window of a request and Redis's clock, which runs a constant \<open>skew\<close> ahead, the expiry of the counter; a
  script runs at any time after its request has read the server's clock. If the counter of a client is absent or expired on
  Redis's clock when the window of \<open>t0\<close> opens, and all the requests read the server's clock and run their scripts
  before that window ends, then of these requests, mixed with those of other clients, exactly the smaller of
  the number the client makes and the limit pass.
\<close>

theorem redis_limit_exact_in_window:
  assumes "w = rl_windowMs env opts" and "0 < w"
    and "redis_live (t0 div w * w + skew) m (limiter_key k) = None"
    and "\<forall>((t, c), r) \<in> set reqs. t div w = t0 div w \<and> t + skew \<le> c \<and> c < (t0 div w + 1) * w + skew"
  shows "passed k (limiter_run (redis_hit env opts) (bucketKey opts) reqs m) =
    min (requested opts k reqs) (nat (rl_limit env opts))"
proof -
  have "\<forall>(tc, r) \<in> set reqs. 0 < rl_windowMs env opts \<and> in_window (rl_windowMs env opts) skew t0 tc"
    using assms by (auto simp: in_window_def)
  then show ?thesis
    using redis_window.run_counts [of k env opts skew t0 0 m reqs] assms(1,3)
    by (simp add: redis_counted_def requested_def)
qed

theorem redis_limit_exact_in_window_witness:
  "passed ''send:user:a'' (limiter_run (redis_hit (\<lambda>_. None) demo_opts) (bucketKey demo_opts)
     [((2005, 2505), demo_req ''a''), ((2006, 2590), demo_req ''b''), ((2007, 2600), demo_req ''a''),
      ((2990, 3492), demo_req ''a'')] Map.empty) = 2"
  by (subst redis_limit_exact_in_window [where ?t0.0 = 2005 and w = 1000 and skew = 500])
    (simp_all add: redis_live_def rl_windowMs_def rl_limit_def readPositiveInt_def demo_opts_def
      demo_req_def requested_def bucketKey_def clientKey_def)

text \<open>
  A late script counts in the wrong window. The key has no window in its name and its expiry is the rest of the
  window at the server's reading added to Redis's clock at the run: with windows of a second and a limit of two, the two requests of
  1990 whose scripts run half a second later leave a full counter until 2510, and the first request of the next window is refused.
\<close>

theorem late_script_spends_the_next_window:
  "map snd (limiter_run (redis_hit (\<lambda>_. None) demo_opts) (bucketKey demo_opts)
     [((1990, 2500), demo_req ''a''), ((1990, 2500), demo_req ''a''), ((2501, 2505), demo_req ''a'')] Map.empty) = [True, True, False]"
  by (simp add: redis_hit_script limiter_script_def redis_incr_def redis_pexpire_def redis_live_def rl_windowMs_def rl_limit_def
      readPositiveInt_def demo_opts_def demo_req_def bucketKey_def clientKey_def Let_def)

end
