(* ===== verification/Liquidity.thy ===== *)
theory Liquidity
  imports AuditTrail Lock
begin

text \<open>
  The liquidity service (\<open>apps/api/src/reconciliation/liquidity.service.ts\<close>): reserves of the
  corridors are observed, compared with the forecast demand, and topped up by rebalance jobs for
  the worker, within a daily number, a daily volume and a cool-down for the opposite direction.
  Parameters are the environment variables, \<open>JSON.parse\<close> of a text, the answer of Horizon, the
  push to Redis and the conversion of a number to a decimal column. Numbers that the code renders
  in texts (the reason of a rebalance and the amounts of a job) are kept as numbers. The check of
  a corridor is cut where it has decided and goes on to create the rebalance: the corridors of one
  hourly check run concurrently and interleave there.
\<close>

section \<open>Data\<close>

definition LIQUIDITY_CHECK_INTERVAL_MS :: int where "LIQUIDITY_CHECK_INTERVAL_MS = 60 * 60 * 1000"
definition LIQUIDITY_THRESHOLD_RATIO :: jsnum where "LIQUIDITY_THRESHOLD_RATIO = round64 (2 / 10)"
definition LIQUIDITY_DEFAULT_MAX_DAILY_REBALANCES :: jsnum where "LIQUIDITY_DEFAULT_MAX_DAILY_REBALANCES = Num 3"
definition LIQUIDITY_DEFAULT_MAX_DAILY_AMOUNT :: jsnum where "LIQUIDITY_DEFAULT_MAX_DAILY_AMOUNT = Num 100000"

datatype LiquidityRebalanceStatus = RbPLANNED | RbEXECUTING | RbEXECUTED | RbFAILED | RbSKIPPED

datatype rb_reason = ReasonText string | BelowThreshold jsnum jsnum

record LiquidityObservation =
  ob_corridor :: string
  ob_reserveAsset :: string
  ob_reserveAmount :: rat
  ob_forecast :: rat
  ob_threshold :: rat
  ob_source :: string
  ob_observedAt :: int

record LiquidityRebalance =
  rb_id :: string
  rb_corridor :: string
  rb_fromAsset :: string
  rb_toAsset :: string
  rb_sourceAmount :: rat
  rb_amount :: rat
  rb_status :: LiquidityRebalanceStatus
  rb_reason :: rb_reason
  rb_txHash :: "string option"
  rb_failureReason :: "string option"
  rb_executedAt :: "int option"
  rb_createdAt :: int

record CorridorConfig =
  co_name :: string
  co_fromAsset :: string
  co_toAsset :: string

record LiquidityRebalanceJob =
  lj_rebalanceId :: string
  lj_corridor :: string
  lj_fromAsset :: string
  lj_toAsset :: string
  lj_sourceAmount :: jsnum
  lj_destinationMinAmount :: jsnum
  lj_treasuryAccount :: string
  lj_destinationAccount :: string
  lj_fromAssetIssuer :: string
  lj_toAssetIssuer :: string
  lj_network :: string

record LiquidityExecutionResult =
  xr_success :: bool
  xr_txHash :: "string option"
  xr_error :: "string option"

record ReserveSnapshot =
  rs_corridor :: string
  rs_reserveAsset :: string
  rs_reserveAmount :: jsnum
  rs_source :: string
  rs_observedAt :: int

text \<open>
  \<open>le_since\<close> is the time 56 days before, in the calendar of the server; \<open>le_decimal\<close> the value a
  number has in a column \<open>Decimal(30, 7)\<close>; \<open>le_horizon\<close> the list of balances of an account.
\<close>

record liq_env =
  le_vars :: "string \<Rightarrow> string option"
  le_json :: "string \<Rightarrow> json option"
  le_since :: "int \<Rightarrow> int"
  le_decimal :: "jsnum \<Rightarrow> rat"
  le_horizon :: "string \<Rightarrow> string \<Rightarrow> (string \<times> string) list list res"
  le_push :: "LiquidityRebalanceJob \<Rightarrow> unit res"
  le_digest :: "json \<Rightarrow> string"
  le_toISO :: "int \<Rightarrow> string"
  le_trigger :: bool
  le_auditId :: "AuditLog list \<Rightarrow> string"

record liq_state =
  lq_observations :: "LiquidityObservation list"
  lq_rebalances :: "LiquidityRebalance list"
  lq_transactions :: "Transaction list"
  lq_audit :: "AuditLog list"
  lq_jobs :: "LiquidityRebalanceJob list"
  lq_locks :: lock_map

section \<open>The environment\<close>

text \<open>\<open>Number(process.env[name])\<close>; a missing variable is not a number.\<close>

definition getPositiveEnvNumber :: "liq_env \<Rightarrow> string \<Rightarrow> jsnum \<Rightarrow> jsnum" where
  "getPositiveEnvNumber env name fallback =
     (case le_vars env name of
        None \<Rightarrow> fallback
      | Some t \<Rightarrow> let v = js_Number t in if isFinite v \<and> js_lt (Num 0) v then v else fallback)"

definition env_json :: "liq_env \<Rightarrow> string \<Rightarrow> json option" where
  "env_json env name = (case le_vars env name of None \<Rightarrow> Some (JObject []) | Some t \<Rightarrow> le_json env t)"

text \<open>
  A member of a parsed object; of two members with one name the later counts. The variables map
  names to texts.
\<close>

definition text_at :: "json option \<Rightarrow> string \<Rightarrow> string option" where
  "text_at j name =
     (case j of
        Some (JObject fs) \<Rightarrow> (case map_of (rev fs) name of Some (JString t) \<Rightarrow> Some t | _ \<Rightarrow> None)
      | _ \<Rightarrow> None)"

definition getReserveAccount :: "liq_env \<Rightarrow> string \<Rightarrow> string option" where
  "getReserveAccount env corridor = text_at (env_json env ''LIQUIDITY_RESERVE_ACCOUNTS'') corridor"

definition getIssuer :: "liq_env \<Rightarrow> string \<Rightarrow> string option" where
  "getIssuer env asset = text_at (env_json env ''LIQUIDITY_ASSET_ISSUERS'') asset"

definition getCorridors :: "liq_env \<Rightarrow> CorridorConfig list" where
  "getCorridors env =
     (let raw = (case le_vars env ''LIQUIDITY_CORRIDORS'' of None \<Rightarrow> ''USDC:NGN,USDC:GHS'' | Some t \<Rightarrow> t);
          entries = filter (\<lambda>e. e \<noteq> []) (map js_trim (split_on (CHR '','') raw));
          pair = (\<lambda>e. map (\<lambda>v. toUpperCase (js_trim v)) (split_on (CHR '':'') e))
      in concat (map (\<lambda>e. case pair e of
             fromAsset # toAsset # _ \<Rightarrow>
               if fromAsset = [] \<or> toAsset = [] then []
               else [\<lparr>co_name = fromAsset @ '':'' @ toAsset, co_fromAsset = fromAsset, co_toAsset = toAsset\<rparr>]
           | _ \<Rightarrow> []) entries))"

definition getExecutionConfigError :: "liq_env \<Rightarrow> CorridorConfig \<Rightarrow> string option" where
  "getExecutionConfigError env corridor =
     (if \<not> truthy (le_vars env ''LIQUIDITY_TREASURY_PUBLIC_KEY'') then Some ''Treasury public key is not configured''
      else if \<not> truthy (getReserveAccount env (co_name corridor))
      then Some (''Reserve account is not configured for '' @ co_name corridor)
      else if co_fromAsset corridor \<noteq> ''XLM'' \<and> \<not> truthy (getIssuer env (co_fromAsset corridor))
      then Some (''Issuer is not configured for '' @ co_fromAsset corridor)
      else if co_toAsset corridor \<noteq> ''XLM'' \<and> \<not> truthy (getIssuer env (co_toAsset corridor))
      then Some (''Issuer is not configured for '' @ co_toAsset corridor)
      else None)"

section \<open>The reserve monitor\<close>

text \<open>The numbers of the variable that are finite and not negative.\<close>

definition readConfiguredReserves :: "liq_env \<Rightarrow> string \<Rightarrow> jsnum option" where
  "readConfiguredReserves env name =
     (case env_json env ''LIQUIDITY_MOCK_RESERVES'' of
        Some (JObject fs) \<Rightarrow>
          (case map_of (rev fs) name of
             Some (JNumber v) \<Rightarrow> if isFinite v \<and> js_le (Num 0) v then Some v else None
           | _ \<Rightarrow> None)
      | _ \<Rightarrow> None)"

definition strip_slash :: "string \<Rightarrow> string" where
  "strip_slash u = (if u \<noteq> [] \<and> last u = CHR ''/'' then butlast u else u)"

definition readOnChainReserve :: "liq_env \<Rightarrow> int \<Rightarrow> string \<Rightarrow> string \<Rightarrow> string \<Rightarrow> ReserveSnapshot" where
  "readOnChainReserve env now corridor reserveAsset account =
     (let snapshot = (\<lambda>amount source. \<lparr>rs_corridor = corridor, rs_reserveAsset = reserveAsset,
                         rs_reserveAmount = amount, rs_source = source, rs_observedAt = now\<rparr>)
      in if \<not> truthy (le_vars env ''STELLAR_HORIZON_URL'') then snapshot (Num 0) ''unavailable-horizon''
         else case le_horizon env (strip_slash (the (le_vars env ''STELLAR_HORIZON_URL''))) account of
           Inl _ \<Rightarrow> snapshot (Num 0) ''unavailable-horizon''
         | Inr balances \<Rightarrow>
             let issuer = getIssuer env reserveAsset;
                 balance = find (\<lambda>entry.
                   if reserveAsset = ''XLM'' then map_of entry ''asset_type'' = Some ''native''
                   else map_of entry ''asset_code'' = Some reserveAsset \<and>
                        (\<not> truthy issuer \<or> map_of entry ''asset_issuer'' = issuer)) balances;
                 amount = (case Option.bind balance (\<lambda>e. map_of e ''balance'') of
                             None \<Rightarrow> Num 0 | Some t \<Rightarrow> js_Number t)
             in snapshot (if isFinite amount \<and> js_le (Num 0) amount then amount else Num 0) ''stellar-horizon'')"

definition getReserve :: "liq_env \<Rightarrow> int \<Rightarrow> string \<Rightarrow> string \<Rightarrow> ReserveSnapshot" where
  "getReserve env now corridor reserveAsset =
     (let mock = (case readConfiguredReserves env (corridor @ '':'' @ reserveAsset) of
                    Some v \<Rightarrow> Some v | None \<Rightarrow> readConfiguredReserves env reserveAsset)
      in case mock of
           Some v \<Rightarrow> \<lparr>rs_corridor = corridor, rs_reserveAsset = reserveAsset, rs_reserveAmount = v,
                      rs_source = ''mock-offramp-api'', rs_observedAt = now\<rparr>
         | None \<Rightarrow>
             let account = getReserveAccount env corridor
             in if truthy account then readOnChainReserve env now corridor reserveAsset (the account)
                else \<lparr>rs_corridor = corridor, rs_reserveAsset = reserveAsset, rs_reserveAmount = Num 0,
                      rs_source = ''unconfigured-reserve'', rs_observedAt = now\<rparr>)"

section \<open>The forecast\<close>

definition forecastWeeklyDemandFromVolumes :: "jsnum list \<Rightarrow> jsnum" where
  "forecastWeeklyDemandFromVolumes weeklyVolumes =
     (let validVolumes = filter (\<lambda>v. isFinite v \<and> js_le (Num 0) v) weeklyVolumes
      in if validVolumes = [] then Num 0
         else js_div (js_sum validVolumes) (Num (of_nat (length validVolumes))))"

definition calculateThresholdAmount :: "jsnum \<Rightarrow> jsnum" where
  "calculateThresholdAmount forecast = js_mul forecast LIQUIDITY_THRESHOLD_RATIO"

text \<open>
  The week of a time: the number of its Monday, in days since 1970-01-01, which was a Thursday.
  The code uses the date of that Monday as the key.
\<close>

definition weekKey :: "int \<Rightarrow> int" where
  "weekKey t = (let d = t div 86400000 in d - (d + 3) mod 7)"

fun add_volume :: "int \<Rightarrow> jsnum \<Rightarrow> (int \<times> jsnum) list \<Rightarrow> (int \<times> jsnum) list" where
  "add_volume week v [] = [(week, js_add (Num 0) v)]"
| "add_volume week v ((w, x) # rest) =
     (if w = week then (w, js_add x v) # rest else (w, x) # add_volume week v rest)"

definition forecastDemand :: "liq_env \<Rightarrow> int \<Rightarrow> string \<Rightarrow> liq_state \<Rightarrow> jsnum" where
  "forecastDemand env now asset s =
     (let txs = filter (\<lambda>t. tx_assetCode t = asset \<and> le_since env now \<le> tx_createdAt t) (lq_transactions s);
          byWeek = foldl (\<lambda>m t. add_volume (weekKey (tx_createdAt t)) (js_Number (tx_amount t)) m) [] txs;
          fallback = (case le_vars env ''LIQUIDITY_DEFAULT_WEEKLY_DEMAND'' of None \<Rightarrow> Num 0 | Some t \<Rightarrow> js_Number t)
      in forecastWeeklyDemandFromVolumes
           (if byWeek \<noteq> [] then map snd byWeek else [if isFinite fallback then fallback else Num 0]))"

section \<open>The guards\<close>

text \<open>\<open>Number(x.toFixed(7))\<close>: the nearest multiple of a ten-millionth, the larger of two, read back.\<close>

definition fixed7 :: "jsnum \<Rightarrow> jsnum" where
  "fixed7 v =
     (case v of
        Num x \<Rightarrow>
          if 10 ^ 21 \<le> \<bar>x\<bar> then v
          else if x < 0 then js_neg (round64 (of_int \<lfloor>- x * 10 ^ 7 + 1 / 2\<rfloor> / 10 ^ 7))
          else round64 (of_int \<lfloor>x * 10 ^ 7 + 1 / 2\<rfloor> / 10 ^ 7)
      | _ \<Rightarrow> v)"

definition startOfDay :: "int \<Rightarrow> int" where
  "startOfDay now = now div 86400000 * 86400000"

definition of_today :: "int \<Rightarrow> string \<Rightarrow> LiquidityRebalance \<Rightarrow> bool" where
  "of_today now corridor r =
     (rb_corridor r = corridor \<and> startOfDay now \<le> rb_createdAt r \<and> rb_status r \<noteq> RbSKIPPED)"

text \<open>\<open>findFirst\<close> in descending order of creation; of two rows of one time the later row.\<close>

fun newest :: "LiquidityRebalance list \<Rightarrow> LiquidityRebalance option" where
  "newest [] = None"
| "newest (r # rs) =
     (case newest rs of
        None \<Rightarrow> Some r
      | Some q \<Rightarrow> if rb_createdAt q < rb_createdAt r then Some r else Some q)"

definition related_recent :: "int \<Rightarrow> CorridorConfig \<Rightarrow> LiquidityRebalance \<Rightarrow> bool" where
  "related_recent now c r =
     (now - 24 * 60 * 60 * 1000 \<le> rb_createdAt r \<and> rb_status r \<noteq> RbSKIPPED \<and>
      (rb_corridor r = co_name c \<or> (rb_fromAsset r = co_toAsset c \<and> rb_toAsset r = co_fromAsset c)))"

datatype guard_result = Refused string | Allowed jsnum jsnum

definition checkRebalanceGuards ::
  "liq_env \<Rightarrow> int \<Rightarrow> CorridorConfig \<Rightarrow> jsnum \<Rightarrow> LiquidityRebalance list \<Rightarrow> guard_result" where
  "checkRebalanceGuards env now c requestedAmount rows =
     (let maxRebalances = getPositiveEnvNumber env ''LIQUIDITY_MAX_DAILY_REBALANCES'' LIQUIDITY_DEFAULT_MAX_DAILY_REBALANCES;
          maxDailyAmount = getPositiveEnvNumber env ''LIQUIDITY_MAX_DAILY_AMOUNT'' LIQUIDITY_DEFAULT_MAX_DAILY_AMOUNT;
          today = filter (of_today now (co_name c)) rows;
          dailyCount = Num (of_nat (length today));
          dailyVolume = sum_list (map rb_amount today);
          latest = newest (filter (related_recent now c) rows)
      in if js_le maxRebalances dailyCount then Refused ''Daily rebalance count limit reached''
         else if (case latest of None \<Rightarrow> False
                  | Some l \<Rightarrow> rb_fromAsset l = co_toAsset c \<and> rb_toAsset l = co_fromAsset c)
         then Refused ''Opposite-direction rebalance blocked by 24-hour reconciler cooldown''
         else
           let used = round64 dailyVolume;
               remaining = js_sub maxDailyAmount used;
               destinationAmount = js_min requestedAmount remaining
           in if js_le destinationAmount (Num 0) then Refused ''Daily rebalance volume limit reached''
              else
                let rate = getPositiveEnvNumber env (''LIQUIDITY_RATE_'' @ co_fromAsset c @ ''_'' @ co_toAsset c)
                             (getPositiveEnvNumber env ''LIQUIDITY_DEFAULT_RATE'' (Num 1))
                in Allowed (fixed7 (js_div destinationAmount rate)) (fixed7 destinationAmount))"

section \<open>The check of a corridor\<close>

datatype check_result =
    Healthy string jsnum jsnum
  | Skipped string string
  | Executing string string jsnum jsnum

datatype decision =
    DHealthy jsnum jsnum
  | DSkip string
  | DRebalance jsnum jsnum jsnum jsnum

definition liq_audit ::
  "liq_env \<Rightarrow> int \<Rightarrow> string \<Rightarrow> string \<Rightarrow> string option \<Rightarrow> (string \<times> json) list \<Rightarrow> (liq_state, unit) M" where
  "liq_audit env now operation outcome txHash metadata =
     modifyM (\<lambda>s. s\<lparr>lq_audit := audit_log (le_digest env) (le_toISO env) (le_trigger env) now
       (le_auditId env (lq_audit s))
       (Options (no_options\<lparr>o_category := Some ''LIQUIDITY'', o_operation := Some operation,
          o_outcome := Some outcome, o_txHash := txHash, o_metadata := Some (JObject metadata)\<rparr>))
       (lq_audit s)\<rparr>)"

text \<open>The first part: observe the reserve and decide.\<close>

definition decide :: "liq_env \<Rightarrow> int \<Rightarrow> CorridorConfig \<Rightarrow> (liq_state, decision) M" where
  "decide env now c s =
     (let reserve = getReserve env now (co_name c) (co_toAsset c);
          forecast = forecastDemand env now (co_toAsset c) s;
          threshold = calculateThresholdAmount forecast;
          observation = \<lparr>ob_corridor = co_name c, ob_reserveAsset = co_toAsset c,
            ob_reserveAmount = le_decimal env (rs_reserveAmount reserve), ob_forecast = le_decimal env forecast,
            ob_threshold = le_decimal env threshold, ob_source = rs_source reserve, ob_observedAt = rs_observedAt reserve\<rparr>;
          s' = s\<lparr>lq_observations := lq_observations s @ [observation]\<rparr>
      in (Inr
           (if js_le forecast (Num 0) \<or> js_le threshold (rs_reserveAmount reserve)
            then DHealthy (rs_reserveAmount reserve) forecast
            else case checkRebalanceGuards env now c (js_sub threshold (rs_reserveAmount reserve)) (lq_rebalances s') of
              Refused reason \<Rightarrow> DSkip reason
            | Allowed src dst \<Rightarrow>
                (case getExecutionConfigError env c of
                   Some e \<Rightarrow> DSkip e
                 | None \<Rightarrow> DRebalance (rs_reserveAmount reserve) forecast src dst)), s'))"

definition new_rebalance ::
  "string \<Rightarrow> int \<Rightarrow> CorridorConfig \<Rightarrow> rat \<Rightarrow> rat \<Rightarrow> LiquidityRebalanceStatus \<Rightarrow> rb_reason \<Rightarrow> LiquidityRebalance" where
  "new_rebalance newId now c src dst st reason =
     \<lparr>rb_id = newId, rb_corridor = co_name c, rb_fromAsset = co_fromAsset c, rb_toAsset = co_toAsset c,
      rb_sourceAmount = src, rb_amount = dst, rb_status = st, rb_reason = reason, rb_txHash = None,
      rb_failureReason = None, rb_executedAt = None, rb_createdAt = now\<rparr>"

definition create_rebalance :: "LiquidityRebalance \<Rightarrow> (liq_state, unit) M" where
  "create_rebalance r s =
     (if \<exists>q \<in> set (lq_rebalances s). rb_id q = rb_id r then (Inl (PrismaError ''P2002''), s)
      else (Inr (), s\<lparr>lq_rebalances := lq_rebalances s @ [r]\<rparr>))"

definition update_rebalance ::
  "string \<Rightarrow> (LiquidityRebalance \<Rightarrow> LiquidityRebalance) \<Rightarrow> (liq_state, LiquidityRebalance) M" where
  "update_rebalance i f s =
     (case update_one (\<lambda>r. rb_id r = i) f (lq_rebalances s) of
        None \<Rightarrow> (Inl (PrismaError ''P2025''), s)
      | Some (r, rows) \<Rightarrow> (Inr r, s\<lparr>lq_rebalances := rows\<rparr>))"

definition job_for :: "liq_env \<Rightarrow> string \<Rightarrow> CorridorConfig \<Rightarrow> jsnum \<Rightarrow> jsnum \<Rightarrow> LiquidityRebalanceJob" where
  "job_for env rebalanceId c src dst =
     (let text = (\<lambda>x. case x of None \<Rightarrow> [] | Some t \<Rightarrow> t)
      in \<lparr>lj_rebalanceId = rebalanceId, lj_corridor = co_name c, lj_fromAsset = co_fromAsset c,
          lj_toAsset = co_toAsset c, lj_sourceAmount = src, lj_destinationMinAmount = dst,
          lj_treasuryAccount = text (le_vars env ''LIQUIDITY_TREASURY_PUBLIC_KEY''),
          lj_destinationAccount = text (getReserveAccount env (co_name c)),
          lj_fromAssetIssuer = text (getIssuer env (co_fromAsset c)),
          lj_toAssetIssuer = text (getIssuer env (co_toAsset c)),
          lj_network = (if le_vars env ''STELLAR_NETWORK'' = Some ''mainnet'' then ''mainnet'' else ''testnet'')\<rparr>)"

text \<open>\<open>RedisLiquidityExecutor.execute\<close>: push the job on the list of the worker.\<close>

definition liq_execute :: "liq_env \<Rightarrow> LiquidityRebalanceJob \<Rightarrow> (liq_state, string) M" where
  "liq_execute env job s =
     (case le_push env job of
        Inl e \<Rightarrow> (Inl e, s)
      | Inr _ \<Rightarrow> (Inr (lj_rebalanceId job), s\<lparr>lq_jobs := lq_jobs s @ [job]\<rparr>))"

fun exn_text :: "exn \<Rightarrow> string" where
  "exn_text (HttpException _ m) = m"
| "exn_text (PrismaError c) = c"
| "exn_text (JsError _ m) = m"

text \<open>The dispatch: the status is written before the push, and a failure is recorded and rethrown.\<close>

definition dispatch ::
  "liq_env \<Rightarrow> int \<Rightarrow> string \<Rightarrow> CorridorConfig \<Rightarrow> jsnum \<Rightarrow> jsnum \<Rightarrow> (liq_state, check_result) M" where
  "dispatch env now i c src dst =
     catchM
       (thenM (update_rebalance i (\<lambda>r. r\<lparr>rb_status := RbEXECUTING\<rparr>))
       (bindM (liq_execute env (job_for env i c src dst)) (\<lambda>jobRef.
        thenM (liq_audit env now ''LIQUIDITY_REBALANCE_DISPATCHED'' ''SUCCESS'' None
                [(''rebalanceId'', JString i), (''jobRef'', JString jobRef), (''corridor'', JString (co_name c)),
                 (''sourceAmount'', JNumber src), (''destinationAmount'', JNumber dst)])
              (ret (Executing (co_name c) i src dst)))))
       (\<lambda>e.
          thenM (update_rebalance i (\<lambda>r. r\<lparr>rb_status := RbFAILED, rb_failureReason := Some (exn_text e)\<rparr>))
         (thenM (liq_audit env now ''LIQUIDITY_REBALANCE_FAILED'' ''FAILURE'' None
                  [(''rebalanceId'', JString i), (''corridor'', JString (co_name c)), (''error'', JString (exn_text e))])
                (throw e)))"

text \<open>The second part: carry the decision out.\<close>

definition carry_out ::
  "liq_env \<Rightarrow> int \<Rightarrow> string \<Rightarrow> CorridorConfig \<Rightarrow> decision \<Rightarrow> (liq_state, check_result) M" where
  "carry_out env now newId c d =
     (case d of
        DHealthy reserve forecast \<Rightarrow> ret (Healthy (co_name c) reserve forecast)
      | DSkip reason \<Rightarrow>
          thenM (create_rebalance (new_rebalance newId now c 0 0 RbSKIPPED (ReasonText reason)))
                (ret (Skipped (co_name c) reason))
      | DRebalance reserve forecast src dst \<Rightarrow>
          thenM (create_rebalance (new_rebalance newId now c (le_decimal env src) (le_decimal env dst) RbPLANNED
                   (BelowThreshold reserve forecast)))
                (dispatch env now newId c src dst))"

definition checkCorridor :: "liq_env \<Rightarrow> int \<Rightarrow> string \<Rightarrow> CorridorConfig \<Rightarrow> (liq_state, check_result) M" where
  "checkCorridor env now newId c = bindM (decide env now c) (carry_out env now newId c)"

section \<open>The hourly check\<close>

text \<open>The corridors in a row, one of the schedules of \<open>Promise.all\<close>; \<open>ids\<close> are the ids of new rows.\<close>

fun check_all :: "liq_env \<Rightarrow> int \<Rightarrow> (CorridorConfig \<times> string) list \<Rightarrow> (liq_state, check_result list) M" where
  "check_all env now [] = ret []"
| "check_all env now ((c, i) # cs) =
     bindM (checkCorridor env now i c) (\<lambda>r. bindM (check_all env now cs) (\<lambda>rs. ret (r # rs)))"

definition runHourlyCheck ::
  "liq_env \<Rightarrow> int \<Rightarrow> string \<Rightarrow> bool \<Rightarrow> string list \<Rightarrow> (liq_state, int \<times> check_result list) M" where
  "runHourlyCheck env now token lost ids =
     withLock lq_locks (\<lambda>m s. s\<lparr>lq_locks := m\<rparr>) now token ''afropay:liquidity:hourly-check'' lost
       (bindM (check_all env now (zip (getCorridors env) ids)) (\<lambda>results. ret (now, results))) LOCK_TTL_MS"

section \<open>Results and queries\<close>

fun rb_status_name :: "LiquidityRebalanceStatus \<Rightarrow> string" where
  "rb_status_name RbPLANNED = ''PLANNED''"
| "rb_status_name RbEXECUTING = ''EXECUTING''"
| "rb_status_name RbEXECUTED = ''EXECUTED''"
| "rb_status_name RbFAILED = ''FAILED''"
| "rb_status_name RbSKIPPED = ''SKIPPED''"

text \<open>
  The update of a result. The hash of a transaction is a unique column; an error that is not given
  leaves the column as it is.
\<close>

definition settled :: "int \<Rightarrow> LiquidityExecutionResult \<Rightarrow> LiquidityRebalance \<Rightarrow> LiquidityRebalance" where
  "settled now result r =
     (if xr_success result
      then r\<lparr>rb_status := RbEXECUTED, rb_txHash := xr_txHash result, rb_executedAt := Some now\<rparr>
      else r\<lparr>rb_status := RbFAILED,
             rb_failureReason := (case xr_error result of None \<Rightarrow> rb_failureReason r | Some e \<Rightarrow> Some e)\<rparr>)"

definition settle_rebalance ::
  "int \<Rightarrow> string \<Rightarrow> LiquidityExecutionResult \<Rightarrow> (liq_state, LiquidityRebalance) M" where
  "settle_rebalance now i result s =
     (if xr_success result \<and> (\<exists>r \<in> set (lq_rebalances s). rb_id r \<noteq> i \<and> rb_txHash r = xr_txHash result)
      then (Inl (PrismaError ''P2002''), s)
      else update_rebalance i (settled now result) s)"

definition recordExecutionResult ::
  "liq_env \<Rightarrow> int \<Rightarrow> string \<Rightarrow> LiquidityExecutionResult \<Rightarrow> (liq_state, LiquidityRebalance) M" where
  "recordExecutionResult env now rebalanceId result =
     bindM (readM (\<lambda>s. find (\<lambda>r. rb_id r = rebalanceId) (lq_rebalances s))) (\<lambda>found.
     case found of
       None \<Rightarrow> throw (NotFoundException ''Liquidity rebalance not found'')
     | Some current \<Rightarrow>
         if rb_status current = RbEXECUTED \<and> rb_txHash current = xr_txHash result then ret current
         else if rb_status current \<noteq> RbEXECUTING
         then throw (ConflictException (''Cannot record a result for a rebalance in state '' @ rb_status_name (rb_status current)))
         else if xr_success result \<and> \<not> truthy (xr_txHash result)
         then throw (BadRequestException ''Successful liquidity execution requires a transaction hash'')
         else
           bindM (settle_rebalance now rebalanceId result) (\<lambda>updated.
           thenM (liq_audit env now
                    (if xr_success result then ''LIQUIDITY_REBALANCE_EXECUTED'' else ''LIQUIDITY_REBALANCE_FAILED'')
                    (if xr_success result then ''SUCCESS'' else ''FAILURE'') (xr_txHash result)
                    [(''rebalanceId'', JString rebalanceId), (''error'', jopt (xr_error result))])
                 (ret updated)))"

datatype health = HealthHEALTHY | HealthWATCH | HealthCRITICAL

definition getHealthLevel :: "jsnum \<Rightarrow> jsnum \<Rightarrow> health" where
  "getHealthLevel reserve forecast =
     (if js_le forecast (Num 0) \<or> js_le (js_mul forecast (Num (1 / 2))) reserve then HealthHEALTHY
      else if js_le (js_mul forecast LIQUIDITY_THRESHOLD_RATIO) reserve then HealthWATCH
      else HealthCRITICAL)"

text \<open>\<open>Math.min(100, Math.max(1, limit))\<close> newest rows; \<open>ord\<close> is the order of the query.\<close>

definition page_size :: "int \<Rightarrow> nat" where
  "page_size limit = nat (min 100 (max 1 limit))"

definition getHealth ::
  "(LiquidityObservation list \<Rightarrow> LiquidityObservation list) \<Rightarrow> int \<Rightarrow> liq_state \<Rightarrow> (LiquidityObservation \<times> health) list" where
  "getHealth ord limit s =
     map (\<lambda>ob. (ob, getHealthLevel (round64 (ob_reserveAmount ob)) (round64 (ob_forecast ob))))
       (take (page_size limit) (ord (lq_observations s)))"

definition listRebalances ::
  "(LiquidityRebalance list \<Rightarrow> LiquidityRebalance list) \<Rightarrow> int \<Rightarrow> liq_state \<Rightarrow> LiquidityRebalance list" where
  "listRebalances ord limit s = take (page_size limit) (ord (lq_rebalances s))"

text \<open>The endpoint of the worker: the token must be configured and match.\<close>

definition worker_result ::
  "liq_env \<Rightarrow> int \<Rightarrow> string option \<Rightarrow> string \<Rightarrow> LiquidityExecutionResult \<Rightarrow> (liq_state, LiquidityRebalance) M" where
  "worker_result env now workerToken rebalanceId body =
     (if \<not> truthy (le_vars env ''LIQUIDITY_WORKER_TOKEN'') \<or> workerToken \<noteq> le_vars env ''LIQUIDITY_WORKER_TOKEN''
      then throw (UnauthorizedException ''Invalid liquidity worker token'')
      else recordExecutionResult env now rebalanceId body)"

section \<open>What the operations do to the rebalances\<close>

lemma liq_audit_rebalances [simp]:
  "lq_rebalances (snd (liq_audit env now op outc h md s)) = lq_rebalances s"
  "fst (liq_audit env now op outc h md s) = Inr ()"
  by (simp_all add: liq_audit_def M_defs)

lemma liq_execute_rebalances [simp]: "lq_rebalances (snd (liq_execute env job s)) = lq_rebalances s"
  by (simp add: liq_execute_def split: sum.splits)

lemma decide_rebalances:
  assumes "decide env now c s = (r, s')"
  shows "lq_rebalances s' = lq_rebalances s"
  using assms by (auto simp: decide_def Let_def)

lemma update_new_rebalance:
  assumes "\<And>q. q \<in> set rows \<Longrightarrow> rb_id q \<noteq> i" and "lq_rebalances s = rows @ [r]" and "rb_id r = i"
  shows "update_rebalance i f s = (Inr (f r), s\<lparr>lq_rebalances := rows @ [f r]\<rparr>)"
proof -
  have "find (\<lambda>r. rb_id r = i) rows = None" using assms(1) by (auto simp: find_None_iff)
  moreover have "update_where (\<lambda>r. rb_id r = i) f rows = rows" using assms(1) by (auto intro: update_where_id)
  ultimately show ?thesis using assms(2,3) by (simp add: update_rebalance_def update_one_def find_append)
qed

lemma dispatch_rebalances:
  assumes "\<And>q. q \<in> set rows \<Longrightarrow> rb_id q \<noteq> i" and "lq_rebalances s = rows @ [r]" and "rb_id r = i"
  shows "\<exists>st f. st \<noteq> RbSKIPPED \<and>
    lq_rebalances (snd (dispatch env now i c src dst s)) = rows @ [r\<lparr>rb_status := st, rb_failureReason := f\<rparr>]"
proof -
  define s1 where "s1 = s\<lparr>lq_rebalances := rows @ [r\<lparr>rb_status := RbEXECUTING\<rparr>]\<rparr>"
  have up1: "update_rebalance i (\<lambda>r. r\<lparr>rb_status := RbEXECUTING\<rparr>) s = (Inr (r\<lparr>rb_status := RbEXECUTING\<rparr>), s1)"
    unfolding s1_def by (rule update_new_rebalance [OF assms])
  show ?thesis
  proof (cases "le_push env (job_for env i c src dst)")
    case (Inr u)
    then have "lq_rebalances (snd (dispatch env now i c src dst s)) = rows @ [r\<lparr>rb_status := RbEXECUTING\<rparr>]"
      using up1 by (simp add: dispatch_def M_defs liq_execute_def liq_audit_def s1_def)
    then show ?thesis by (intro exI [of _ RbEXECUTING] exI [of _ "rb_failureReason r"]) simp
  next
    case (Inl e)
    have "update_rebalance i f s1 = (Inr (f (r\<lparr>rb_status := RbEXECUTING\<rparr>)),
        s1\<lparr>lq_rebalances := rows @ [f (r\<lparr>rb_status := RbEXECUTING\<rparr>)]\<rparr>)" for f
      using update_new_rebalance [of rows i s1 "r\<lparr>rb_status := RbEXECUTING\<rparr>" f] assms by (simp add: s1_def)
    then have "lq_rebalances (snd (dispatch env now i c src dst s)) =
        rows @ [r\<lparr>rb_status := RbFAILED, rb_failureReason := Some (exn_text e)\<rparr>]"
      using up1 Inl by (simp add: dispatch_def M_defs liq_execute_def liq_audit_def)
    then show ?thesis by (intro exI [of _ RbFAILED] exI [of _ "Some (exn_text e)"]) simp
  qed
qed

fun rebalances :: "decision \<Rightarrow> bool" where
  "rebalances (DRebalance _ _ _ _) = True"
| "rebalances _ = False"

definition new_row :: "int \<Rightarrow> CorridorConfig \<Rightarrow> decision \<Rightarrow> LiquidityRebalance \<Rightarrow> bool" where
  "new_row now c d r = (rb_corridor r = co_name c \<and> rb_fromAsset r = co_fromAsset c \<and> rb_toAsset r = co_toAsset c \<and>
     rb_createdAt r = now \<and> (rb_status r \<noteq> RbSKIPPED \<longrightarrow> rebalances d))"

text \<open>Carrying a decision out adds at most one row, and a row that counts only for a rebalance.\<close>

lemma carry_out_rebalances:
  "lq_rebalances (snd (carry_out env now newId c d s)) = lq_rebalances s \<or>
   (\<exists>r. new_row now c d r \<and> rb_id r \<notin> rb_id ` set (lq_rebalances s) \<and>
     lq_rebalances (snd (carry_out env now newId c d s)) = lq_rebalances s @ [r])"
proof (cases "d")
  case (DHealthy a b)
  then show ?thesis by (simp add: carry_out_def M_defs)
next
  case (DSkip reason)
  then show ?thesis by (auto simp: carry_out_def M_defs create_rebalance_def new_rebalance_def new_row_def)
next
  case (DRebalance reserve forecast src dst)
  show ?thesis
  proof (cases "\<exists>q \<in> set (lq_rebalances s). rb_id q = newId")
    case True
    then show ?thesis by (auto simp: DRebalance carry_out_def M_defs create_rebalance_def new_rebalance_def)
  next
    case False
    define r where "r = new_rebalance newId now c (le_decimal env src) (le_decimal env dst) RbPLANNED (BelowThreshold reserve forecast)"
    define s1 where "s1 = s\<lparr>lq_rebalances := lq_rebalances s @ [r]\<rparr>"
    have rid: "rb_id r = newId" by (simp add: r_def new_rebalance_def)
    have "carry_out env now newId c d s = dispatch env now newId c src dst s1"
      using False by (simp add: DRebalance carry_out_def M_defs create_rebalance_def r_def [symmetric] rid s1_def)
    moreover obtain st f where "st \<noteq> RbSKIPPED"
      and "lq_rebalances (snd (dispatch env now newId c src dst s1)) =
        lq_rebalances s @ [r\<lparr>rb_status := st, rb_failureReason := f\<rparr>]"
      using dispatch_rebalances [of "lq_rebalances s" newId s1 r env now c src dst] False rid by (auto simp: s1_def)
    ultimately show ?thesis
      by (intro disjI2 exI [of _ "r\<lparr>rb_status := st, rb_failureReason := f\<rparr>"])
        (use False in \<open>auto simp: new_row_def DRebalance r_def new_rebalance_def\<close>)
  qed
qed

text \<open>Recording a result changes no field that the guards read.\<close>

lemma settled_simps [simp]:
  "rb_id (settled now res r) = rb_id r" "rb_corridor (settled now res r) = rb_corridor r"
  "rb_fromAsset (settled now res r) = rb_fromAsset r" "rb_toAsset (settled now res r) = rb_toAsset r"
  "rb_createdAt (settled now res r) = rb_createdAt r" "rb_status (settled now res r) \<noteq> RbSKIPPED"
  by (simp_all add: settled_def)

lemma record_rebalances:
  "lq_rebalances (snd (recordExecutionResult env now i res s)) = lq_rebalances s \<or>
   (\<exists>q. find (\<lambda>r. rb_id r = i) (lq_rebalances s) = Some q \<and> rb_status q = RbEXECUTING \<and>
     lq_rebalances (snd (recordExecutionResult env now i res s)) =
       update_where (\<lambda>r. rb_id r = i) (settled now res) (lq_rebalances s))"
  by (auto simp: recordExecutionResult_def settle_rebalance_def update_rebalance_def update_one_def M_defs
      liq_audit_def split: option.splits prod.splits if_splits sum.splits)

text \<open>A row without what a result changes.\<close>

definition core :: "LiquidityRebalance \<Rightarrow> string \<times> string \<times> string \<times> string \<times> int \<times> bool" where
  "core r = (rb_id r, rb_corridor r, rb_fromAsset r, rb_toAsset r, rb_createdAt r, rb_status r = RbSKIPPED)"

lemma core_eq_D:
  assumes "core r = core q"
  shows "rb_corridor r = rb_corridor q" "rb_fromAsset r = rb_fromAsset q" "rb_toAsset r = rb_toAsset q"
    "rb_createdAt r = rb_createdAt q" "rb_status r = RbSKIPPED \<longleftrightarrow> rb_status q = RbSKIPPED"
  using assms by (auto simp: core_def)

lemma record_core:
  assumes "distinct (map rb_id (lq_rebalances s))"
  shows "map core (lq_rebalances (snd (recordExecutionResult env now i res s))) = map core (lq_rebalances s)"
  using record_rebalances [of env now i res s]
proof
  assume "\<exists>q. find (\<lambda>r. rb_id r = i) (lq_rebalances s) = Some q \<and> rb_status q = RbEXECUTING \<and>
     lq_rebalances (snd (recordExecutionResult env now i res s)) =
       update_where (\<lambda>r. rb_id r = i) (settled now res) (lq_rebalances s)"
  then obtain q where q: "find (\<lambda>r. rb_id r = i) (lq_rebalances s) = Some q" "rb_status q = RbEXECUTING"
    and rows: "lq_rebalances (snd (recordExecutionResult env now i res s)) =
       update_where (\<lambda>r. rb_id r = i) (settled now res) (lq_rebalances s)" by blast
  have "core (settled now res r) = core r" if "r \<in> set (lq_rebalances s)" "rb_id r = i" for r
  proof -
    have "r = q" using find_key [OF assms that(1)] that(2) q(1) by simp
    then show ?thesis using q(2) by (simp add: core_def)
  qed
  then show ?thesis by (auto simp: rows update_where_def)
qed simp

lemma map_core_id: "map core rows = map core rows' \<Longrightarrow> map rb_id rows = map rb_id rows'"
  by (metis (no_types, lifting) core_def fst_conv list.map_comp list.map_cong0 comp_apply)

section \<open>Interleaved checks of one day\<close>

datatype lq_pc = LStart | LDecided decision | LDone

type_synonym lq_config = "(nat \<Rightarrow> lq_pc) \<times> liq_state"

text \<open>
  The corridors of a check take their two parts in any order, and the worker records results
  meanwhile; \<open>day\<close> is the start of the day.
\<close>

inductive liq_step :: "liq_env \<Rightarrow> int \<Rightarrow> CorridorConfig list \<Rightarrow> lq_config \<Rightarrow> lq_config \<Rightarrow> bool" for env day cs where
  decide_step: "i < length cs \<Longrightarrow> pcs i = LStart \<Longrightarrow> startOfDay now = day \<Longrightarrow>
    decide env now (cs ! i) s = (Inr d, s') \<Longrightarrow> liq_step env day cs (pcs, s) (pcs(i := LDecided d), s')"
| act_step: "i < length cs \<Longrightarrow> pcs i = LDecided d \<Longrightarrow> startOfDay now = day \<Longrightarrow>
    liq_step env day cs (pcs, s) (pcs(i := LDone), snd (carry_out env now newId (cs ! i) d s))"
| result_step: "liq_step env day cs (pcs, s) (pcs, snd (recordExecutionResult env now j res s))"

inductive liq_reachable :: "liq_env \<Rightarrow> int \<Rightarrow> CorridorConfig list \<Rightarrow> lq_config \<Rightarrow> lq_config \<Rightarrow> bool" for env day cs c0 where
  liq_start: "liq_reachable env day cs c0 c0"
| liq_more: "liq_reachable env day cs c0 c \<Longrightarrow> liq_step env day cs c c' \<Longrightarrow> liq_reachable env day cs c0 c'"

definition day_count :: "int \<Rightarrow> string \<Rightarrow> LiquidityRebalance list \<Rightarrow> nat" where
  "day_count day k rows =
     count_where (\<lambda>r. rb_corridor r = k \<and> day \<le> rb_createdAt r \<and> rb_status r \<noteq> RbSKIPPED) rows"

definition max_rebalances :: "liq_env \<Rightarrow> jsnum" where
  "max_rebalances env = getPositiveEnvNumber env ''LIQUIDITY_MAX_DAILY_REBALANCES'' LIQUIDITY_DEFAULT_MAX_DAILY_REBALANCES"

lemma day_count_core:
  assumes "map core rows = map core rows'"
  shows "day_count day k rows = day_count day k rows'"
proof -
  have "list_all2 (\<lambda>r q. core r = core q) rows rows'"
    using assms by (simp add: list_all2_conv_all_nth list_eq_iff_nth_eq)
  then show ?thesis
    by (induction rows rows' rule: list_all2_induct) (auto simp: day_count_def dest: core_eq_D)
qed

lemma decide_below:
  assumes "decide env now c s = (Inr d, s')" and "rebalances d" and "startOfDay now = day"
  shows "\<not> js_le (max_rebalances env) (Num (of_nat (day_count day (co_name c) (lq_rebalances s))))"
proof -
  have eq: "length (filter (of_today now (co_name c)) rows) = day_count day (co_name c) rows" for rows
    by (simp add: day_count_def count_where_def of_today_def [abs_def] assms(3))
  obtain amt src dst where "checkRebalanceGuards env now c amt (lq_rebalances s) = Allowed src dst"
    using assms(1,2)
    by (auto simp: decide_def Let_def split: if_splits guard_result.splits option.splits)
  then show ?thesis
    by (auto simp: checkRebalanceGuards_def Let_def max_rebalances_def eq split: if_splits)
qed

definition count_inv :: "liq_env \<Rightarrow> int \<Rightarrow> CorridorConfig list \<Rightarrow> (string \<Rightarrow> nat) \<Rightarrow> lq_config \<Rightarrow> bool" where
  "count_inv env day cs bound cf =
     (case cf of (pcs, s) \<Rightarrow> distinct (map rb_id (lq_rebalances s)) \<and>
        (\<forall>k. day_count day k (lq_rebalances s) \<le> bound k) \<and>
        (\<forall>i d. i < length cs \<and> pcs i = LDecided d \<and> rebalances d \<longrightarrow>
           Suc (day_count day (co_name (cs ! i)) (lq_rebalances s)) \<le> bound (co_name (cs ! i))))"

lemma isFinite_getPositiveEnvNumber: "isFinite fb \<Longrightarrow> isFinite (getPositiveEnvNumber env name fb)"
  by (auto simp: getPositiveEnvNumber_def Let_def split: option.splits)

definition max_count :: "liq_env \<Rightarrow> nat" where
  "max_count env = (case max_rebalances env of Num q \<Rightarrow> nat \<lceil>q\<rceil> | _ \<Rightarrow> 0)"

lemma below_max_count:
  assumes "\<not> js_le (max_rebalances env) (Num (of_nat n))"
  shows "Suc n \<le> max_count env"
proof -
  have "isFinite (max_rebalances env)"
    unfolding max_rebalances_def
    by (rule isFinite_getPositiveEnvNumber) (simp add: LIQUIDITY_DEFAULT_MAX_DAILY_REBALANCES_def isFinite_def)
  then obtain q where q: "max_rebalances env = Num q" by (auto simp: isFinite_def split: jsnum.splits)
  with assms have "of_nat n < q" by simp
  then have "int n < \<lceil>q\<rceil>" by (metis less_ceiling_iff of_int_of_nat_eq)
  then show ?thesis by (simp add: max_count_def q)
qed

lemma day_count_snoc:
  "day_count day k (rows @ [r]) = day_count day k rows +
     (if rb_corridor r = k \<and> day \<le> rb_createdAt r \<and> rb_status r \<noteq> RbSKIPPED then 1 else 0)"
  by (simp add: day_count_def)

lemma count_inv_step:
  assumes "liq_step env day cs cf cf'" and "count_inv env day cs bound cf" and "distinct (map co_name cs)"
    and "\<And>k. max_count env \<le> bound k"
  shows "count_inv env day cs bound cf'"
  using assms(1)
proof cases
  case (decide_step i pcs now s d s')
  have "Suc (day_count day (co_name (cs ! i)) (lq_rebalances s)) \<le> bound (co_name (cs ! i))" if "rebalances d"
    using below_max_count [OF decide_below [OF decide_step(6) that decide_step(5)]] assms(4) le_trans by blast
  then show ?thesis
    using assms(2) decide_rebalances [OF decide_step(6)] by (auto simp: decide_step(1,2) count_inv_def)
next
  case (act_step i pcs d now s newId)
  have other: "co_name (cs ! j) \<noteq> co_name (cs ! i)" if "j < length cs" "j \<noteq> i" for j
    using assms(3) that act_step(3) by (metis distinct_conv_nth length_map nth_map)
  note carried = carry_out_rebalances [of env now newId "cs ! i" d s]
  then show ?thesis
  proof
    assume "lq_rebalances (snd (carry_out env now newId (cs ! i) d s)) = lq_rebalances s"
    then show ?thesis using assms(2) by (auto simp: act_step(1,2) count_inv_def)
  next
    assume "\<exists>r. new_row now (cs ! i) d r \<and> rb_id r \<notin> rb_id ` set (lq_rebalances s) \<and>
      lq_rebalances (snd (carry_out env now newId (cs ! i) d s)) = lq_rebalances s @ [r]"
    then obtain r where r: "new_row now (cs ! i) d r" "rb_id r \<notin> rb_id ` set (lq_rebalances s)"
      and rows: "lq_rebalances (snd (carry_out env now newId (cs ! i) d s)) = lq_rebalances s @ [r]" by blast
    have "day_count day k (lq_rebalances s @ [r]) \<le> bound k" for k
      using assms(2) r(1) act_step(3,4)
      by (cases "rb_status r = RbSKIPPED"; cases "k = co_name (cs ! i)")
        (auto simp: count_inv_def act_step(1) new_row_def day_count_snoc)
    moreover have "day_count day (co_name (cs ! j)) (lq_rebalances s @ [r]) = day_count day (co_name (cs ! j)) (lq_rebalances s)"
      if "j < length cs" "j \<noteq> i" for j
      using other [OF that] r(1) by (simp add: new_row_def day_count_snoc)
    ultimately show ?thesis using assms(2) r(2) by (auto simp: act_step(1,2) count_inv_def rows)
  qed
next
  case (result_step pcs s now j res)
  have dist: "distinct (map rb_id (lq_rebalances s))" using assms(2) by (simp add: result_step(1) count_inv_def)
  note same = record_core [OF dist, of env now j res]
  show ?thesis
    using assms(2) by (simp add: result_step(1,2) count_inv_def day_count_core [OF same] map_core_id [OF same])
qed

section \<open>Opposite directions\<close>

definition corridor_ok :: "CorridorConfig \<Rightarrow> bool" where
  "corridor_ok c = (co_name c = co_fromAsset c @ '':'' @ co_toAsset c \<and> CHR '':'' \<notin> set (co_fromAsset c))"

definition row_ok :: "LiquidityRebalance \<Rightarrow> bool" where
  "row_ok r = (rb_corridor r = rb_fromAsset r @ '':'' @ rb_toAsset r \<and> CHR '':'' \<notin> set (rb_fromAsset r))"

lemma split_on_no_sep: "p \<in> set (split_on c t) \<Longrightarrow> c \<notin> set p"
proof (induction c t arbitrary: p rule: split_on.induct)
  case (2 c x xs)
  then show ?case by (cases "split_on c xs") (auto split: if_splits)
qed simp

lemma trim_set: "set (js_trim t) \<subseteq> set t"
  by (auto simp: js_trim_def dest!: set_dropWhileD)

lemma upper_no_colon: "CHR '':'' \<notin> set t \<Longrightarrow> CHR '':'' \<notin> set (toUpperCase t)"
proof -
  have "upper_char c = CHR '':'' \<Longrightarrow> c = CHR '':''" for c
  proof -
    assume u: "upper_char c = CHR '':''"
    show "c = CHR '':''"
    proof (cases "97 \<le> code_of c \<and> code_of c \<le> 122")
      case True
      then have "(of_char c - 32 :: nat) < 256" unfolding code_of_def by linarith
      with True have "code_of (upper_char c) = code_of c - 32"
        by (simp add: upper_char_def code_of_def)
      moreover have "code_of (CHR '':'') = 58" by (simp add: code_of_def)
      ultimately have "code_of c - 32 = 58" using u by simp
      with True show ?thesis by linarith
    qed (use u in \<open>auto simp: upper_char_def\<close>)
  qed
  then show "CHR '':'' \<notin> set t \<Longrightarrow> CHR '':'' \<notin> set (toUpperCase t)" by (auto simp: toUpperCase_def) metis
qed

lemma getCorridors_ok: "c \<in> set (getCorridors env) \<Longrightarrow> corridor_ok c"
proof -
  assume "c \<in> set (getCorridors env)"
  then obtain e p p' ps where sp: "split_on (CHR '':'') e = p # p' # ps"
    and c: "c = \<lparr>co_name = toUpperCase (js_trim p) @ '':'' @ toUpperCase (js_trim p'),
      co_fromAsset = toUpperCase (js_trim p), co_toAsset = toUpperCase (js_trim p')\<rparr>"
    by (auto simp: getCorridors_def Let_def split: list.splits if_splits)
  then have "CHR '':'' \<notin> set (toUpperCase (js_trim p))"
    using split_on_no_sep [of p "CHR '':''" e] trim_set [of p] upper_no_colon [of "js_trim p"] by auto
  then show ?thesis by (simp add: corridor_ok_def c)
qed

lemma colon_split:
  assumes "a @ CHR '':'' # b = a' @ CHR '':'' # b'" and "CHR '':'' \<notin> set a" and "CHR '':'' \<notin> set a'"
  shows "a = a' \<and> b = b'"
proof -
  have "takeWhile (\<lambda>x. x \<noteq> CHR '':'') (a @ CHR '':'' # b) = a" "takeWhile (\<lambda>x. x \<noteq> CHR '':'') (a' @ CHR '':'' # b') = a'"
    using assms(2,3) by (auto simp: takeWhile_append)
  then have "a = a'" using assms(1) by metis
  then show ?thesis using assms(1) by simp
qed

definition DAY_MS :: int where "DAY_MS = 24 * 60 * 60 * 1000"

abbreviation active :: "LiquidityRebalance \<Rightarrow> bool" where
  "active r \<equiv> rb_status r \<noteq> RbSKIPPED"

definition opposed :: "LiquidityRebalance \<Rightarrow> LiquidityRebalance \<Rightarrow> bool" where
  "opposed r q = (rb_fromAsset q = rb_toAsset r \<and> rb_toAsset q = rb_fromAsset r)"

text \<open>In the order of the rows: later rows are not older, and no two opposite ones lie within a day.\<close>

definition calm_pair :: "LiquidityRebalance \<Rightarrow> LiquidityRebalance \<Rightarrow> bool" where
  "calm_pair r q = (rb_createdAt r \<le> rb_createdAt q \<and>
     (active r \<and> active q \<and> rb_createdAt q - rb_createdAt r \<le> DAY_MS \<longrightarrow> \<not> opposed r q))"

definition calm :: "LiquidityRebalance list \<Rightarrow> bool" where
  "calm rows = (sorted_wrt calm_pair rows \<and> list_all row_ok rows \<and> distinct (map rb_id rows))"

lemma calm_core:
  assumes "map core rows = map core rows'" and "calm rows"
  shows "calm rows'"
proof -
  have len: "length rows = length rows'" using map_eq_imp_length_eq [OF assms(1)] .
  have eq: "core (rows ! i) = core (rows' ! i)" if "i < length rows'" for i
    using assms(1) that len by (metis nth_map)
  have "sorted_wrt calm_pair rows'"
    using assms(2) len core_eq_D [OF eq]
    by (auto simp: calm_def sorted_wrt_iff_nth_less calm_pair_def opposed_def)
  moreover have "list_all row_ok rows'"
    using assms(2) len core_eq_D [OF eq] by (auto simp: calm_def list_all_length row_ok_def)
  ultimately show ?thesis using assms(2) map_core_id [OF assms(1)] by (simp add: calm_def)
qed

lemma newest_max: "newest rows = Some l \<Longrightarrow> l \<in> set rows \<and> (\<forall>q \<in> set rows. rb_createdAt q \<le> rb_createdAt l)"
proof (induction rows arbitrary: l)
  case (Cons r rs)
  show ?case
  proof (cases "newest rs")
    case None
    then have "rs = []" by (cases rs) (auto split: option.splits if_splits)
    then show ?thesis using Cons.prems by simp
  next
    case (Some q)
    then show ?thesis using Cons.IH [OF Some] Cons.prems by (fastforce split: if_splits)
  qed
qed simp

lemma newest_None: "newest rows = None \<Longrightarrow> rows = []"
  by (cases rows) (auto split: option.splits if_splits)

text \<open>In a calm table the newest related row decides for all rows of the last day.\<close>

lemma guard_no_opposite:
  assumes "calm rows" and "corridor_ok c"
    and "\<not> (case newest (filter (related_recent now c) rows) of None \<Rightarrow> False
              | Some l \<Rightarrow> rb_fromAsset l = co_toAsset c \<and> rb_toAsset l = co_fromAsset c)"
    and "q \<in> set rows" and "active q" and "now - rb_createdAt q \<le> DAY_MS"
    and "\<And>r. r \<in> set rows \<Longrightarrow> rb_createdAt r \<le> now"
  shows "\<not> (rb_fromAsset q = co_toAsset c \<and> rb_toAsset q = co_fromAsset c)"
proof
  assume opp: "rb_fromAsset q = co_toAsset c \<and> rb_toAsset q = co_fromAsset c"
  let ?rel = "filter (related_recent now c) rows"
  have q: "q \<in> set ?rel" using assms(4,5,6) opp by (simp add: related_recent_def DAY_MS_def)
  then obtain l where l: "newest ?rel = Some l" using newest_None by (cases "newest ?rel") fastforce+
  note lmax = newest_max [OF l]
  have lrel: "l \<in> set rows" "related_recent now c l" using lmax by auto
  have notopp: "\<not> (rb_fromAsset l = co_toAsset c \<and> rb_toAsset l = co_fromAsset c)" using assms(3) l by simp
  have "rb_corridor l = co_name c" using lrel(2) notopp by (auto simp: related_recent_def)
  moreover have "row_ok l" using assms(1) lrel(1) by (simp add: calm_def list_all_iff)
  ultimately have dir: "rb_fromAsset l = co_fromAsset c" "rb_toAsset l = co_toAsset c"
    using assms(2) colon_split [of "rb_fromAsset l" "rb_toAsset l" "co_fromAsset c" "co_toAsset c"]
    by (auto simp: row_ok_def corridor_ok_def)
  have "l \<noteq> q" using notopp opp by auto
  obtain a b where a: "a < length rows" "rows ! a = l" and b: "b < length rows" "rows ! b = q"
    using lrel(1) assms(4) by (meson in_set_conv_nth)
  have srt: "calm_pair (rows ! x) (rows ! y)" if "x < y" "y < length rows" for x y
    using assms(1) that by (simp add: calm_def sorted_wrt_iff_nth_less)
  have near: "rb_createdAt q \<le> rb_createdAt l" "rb_createdAt l - rb_createdAt q \<le> DAY_MS"
    using lmax q assms(6) assms(7) [OF lrel(1)] by auto
  have "active l" using lrel(2) by (simp add: related_recent_def)
  consider "b < a" | "a < b" using \<open>l \<noteq> q\<close> a b by (metis linorder_neqE_nat)
  then show False
  proof cases
    case 1
    then show False using srt [of b a] a b near dir opp assms(5) \<open>active l\<close> by (auto simp: calm_pair_def opposed_def)
  next
    case 2
    then show False using srt [of a b] a b near dir opp assms(5) \<open>active l\<close>
      by (auto simp: calm_pair_def opposed_def DAY_MS_def)
  qed
qed

section \<open>An example\<close>

text \<open>Two corridors in opposite directions, empty reserves and a demand of 100 a week.\<close>

definition demo_vars :: "string \<Rightarrow> string option" where
  "demo_vars = map_of [(''LIQUIDITY_CORRIDORS'', ''A:B,B:A''), (''LIQUIDITY_DEFAULT_WEEKLY_DEMAND'', ''100''),
     (''LIQUIDITY_TREASURY_PUBLIC_KEY'', ''T''), (''LIQUIDITY_RESERVE_ACCOUNTS'', ''accounts''),
     (''LIQUIDITY_ASSET_ISSUERS'', ''issuers'')]"

definition demo_liq :: liq_env where
  "demo_liq = \<lparr>le_vars = demo_vars,
     le_json = (\<lambda>t. if t = ''accounts'' then Some (JObject [(''A:B'', JString ''R''), (''B:A'', JString ''R'')])
                   else Some (JObject [(''A'', JString ''I''), (''B'', JString ''I'')])),
     le_since = (\<lambda>t. t), le_decimal = (\<lambda>n. case n of Num q \<Rightarrow> q | _ \<Rightarrow> 0),
     le_horizon = (\<lambda>_ _. Inr []), le_push = (\<lambda>_. Inr ()), le_digest = (\<lambda>_. ''h''), le_toISO = (\<lambda>_. ''t''),
     le_trigger = False, le_auditId = (\<lambda>rows. show_nat (length rows))\<rparr>"

definition demo_liq_state :: liq_state where
  "demo_liq_state = \<lparr>lq_observations = [], lq_rebalances = [], lq_transactions = [], lq_audit = [], lq_jobs = [],
     lq_locks = Map.empty\<rparr>"

text \<open>Two corridors in lockstep: both decide, then both act.\<close>

definition lockstep ::
  "liq_env \<Rightarrow> int \<Rightarrow> CorridorConfig \<Rightarrow> CorridorConfig \<Rightarrow> liq_state \<Rightarrow> liq_state" where
  "lockstep env now c0 c1 s =
     (case decide env now c0 s of
        (Inr d0, s1) \<Rightarrow>
          (case decide env now c1 s1 of
             (Inr d1, s2) \<Rightarrow> snd (carry_out env now ''r1'' c1 d1 (snd (carry_out env now ''r0'' c0 d0 s2)))
           | _ \<Rightarrow> s)
      | _ \<Rightarrow> s)"

lemma lockstep_reachable:
  assumes "startOfDay now = day"
  shows "\<exists>pcs. liq_reachable env day [c0, c1] (\<lambda>_. LStart, s) (pcs, lockstep env now c0 c1 s)"
proof -
  let ?p = "\<lambda>_ :: nat. LStart"
  obtain d0 s1 where d0: "decide env now c0 s = (Inr d0, s1)" by (simp add: decide_def Let_def)
  obtain d1 s2 where d1: "decide env now c1 s1 = (Inr d1, s2)" by (simp add: decide_def Let_def)
  have st1: "liq_step env day [c0, c1] (?p, s) (?p(0 := LDecided d0), s1)"
    using liq_step.decide_step [of 0 "[c0, c1]" ?p now day env s d0 s1] assms d0 by simp
  have st2: "liq_step env day [c0, c1] (?p(0 := LDecided d0), s1) (?p(0 := LDecided d0, 1 := LDecided d1), s2)"
    using liq_step.decide_step [of 1 "[c0, c1]" "?p(0 := LDecided d0)" now day env s1 d1 s2] assms d1 by simp
  have st3: "liq_step env day [c0, c1] (?p(0 := LDecided d0, 1 := LDecided d1), s2)
      (?p(0 := LDone, 1 := LDecided d1), snd (carry_out env now ''r0'' c0 d0 s2))"
  proof -
    have "(?p(0 := LDecided d0, 1 := LDecided d1))(0 := LDone) = ?p(0 := LDone, 1 := LDecided d1)" by (simp add: fun_eq_iff)
    moreover have "liq_step env day [c0, c1] (?p(0 := LDecided d0, 1 := LDecided d1), s2)
        ((?p(0 := LDecided d0, 1 := LDecided d1))(0 := LDone), snd (carry_out env now ''r0'' ([c0, c1] ! 0) d0 s2))"
      by (rule liq_step.act_step) (simp_all add: assms)
    ultimately show ?thesis by simp
  qed
  have st4: "liq_step env day [c0, c1] (?p(0 := LDone, 1 := LDecided d1), snd (carry_out env now ''r0'' c0 d0 s2))
      (?p(0 := LDone, 1 := LDone), lockstep env now c0 c1 s)"
  proof -
    have "lockstep env now c0 c1 s = snd (carry_out env now ''r1'' ([c0, c1] ! 1) d1 (snd (carry_out env now ''r0'' c0 d0 s2)))"
      by (simp add: lockstep_def d0 d1)
    moreover have "?p(0 := LDone, 1 := LDone) = (?p(0 := LDone, 1 := LDecided d1))(1 := LDone)" by simp
    ultimately show ?thesis by (simp only:) (rule liq_step.act_step, simp_all add: assms)
  qed
  show ?thesis
    using liq_more [OF liq_more [OF liq_more [OF liq_more [OF liq_start st1] st2] st3] st4] by (intro exI [of _ "?p(0 := LDone, 1 := LDone)"])
qed

definition cAB :: CorridorConfig where "cAB = \<lparr>co_name = ''A:B'', co_fromAsset = ''A'', co_toAsset = ''B''\<rparr>"
definition cBA :: CorridorConfig where "cBA = \<lparr>co_name = ''B:A'', co_fromAsset = ''B'', co_toAsset = ''A''\<rparr>"

definition demo_race :: liq_state where
  "demo_race = lockstep demo_liq 1000 cAB cBA demo_liq_state"

lemma demo_race_reachable:
  "\<exists>pcs. liq_reachable demo_liq 0 [cAB, cBA]
     (\<lambda>_. LStart, demo_liq_state) (pcs, demo_race)"
  unfolding demo_race_def by (rule lockstep_reachable) (simp add: startOfDay_def)

lemma demo_corridors: "getCorridors demo_liq = [cAB, cBA]"
  by code_simp

lemma demo_reserve:
  "rs_reserveAmount (getReserve demo_liq now ''A:B'' ''B'') = Num 0"
  "rs_reserveAmount (getReserve demo_liq now ''B:A'' ''A'') = Num 0"
  by code_simp+

lemma demo_forecast: "lq_transactions s = [] \<Longrightarrow> forecastDemand demo_liq now asset s = Num 100"
proof -
  have v: "le_vars demo_liq ''LIQUIDITY_DEFAULT_WEEKLY_DEMAND'' = Some ''100''" by code_simp
  have n: "js_Number ''100'' = Num 100" by code_simp
  have f: "forecastWeeklyDemandFromVolumes [Num 100] = Num 100" by code_simp
  assume "lq_transactions s = []"
  then show ?thesis by (simp add: forecastDemand_def v n f isFinite_def)
qed

lemma demo_threshold: "calculateThresholdAmount (Num 100) = Num 20" "js_sub (Num 20) (Num 0) = Num 20"
  by code_simp+

lemma demo_config: "getExecutionConfigError demo_liq cAB = None" "getExecutionConfigError demo_liq cBA = None"
  by code_simp+

lemma demo_guard:
  "checkRebalanceGuards demo_liq 1000 cAB (Num 20) [] = Allowed (Num 20) (Num 20)"
  "checkRebalanceGuards demo_liq 1000 cBA (Num 20) [] = Allowed (Num 20) (Num 20)"
  by code_simp+

lemma demo_decide:
  assumes "lq_transactions s = []" and "lq_rebalances s = []" and "c = cAB \<or> c = cBA"
  shows "\<exists>obs. decide demo_liq 1000 c s =
    (Inr (DRebalance (Num 0) (Num 100) (Num 20) (Num 20)), s\<lparr>lq_observations := obs\<rparr>)"
  using assms(3)
proof
  assume c: "c = cAB"
  have "co_name cAB = ''A:B''" "co_toAsset cAB = ''B''" by (simp_all add: cAB_def)
  then show ?thesis
    using assms(1,2)
    by (simp add: c decide_def Let_def demo_reserve demo_forecast demo_threshold demo_config demo_guard) (rule exI, rule refl)
next
  assume c: "c = cBA"
  have "co_name cBA = ''B:A''" "co_toAsset cBA = ''A''" by (simp_all add: cBA_def)
  then show ?thesis
    using assms(1,2)
    by (simp add: c decide_def Let_def demo_reserve demo_forecast demo_threshold demo_config demo_guard) (rule exI, rule refl)
qed

section \<open>Properties\<close>

text \<open>
  The daily number of rebalances is kept under concurrency. From any state, however the checks
  of the corridors of one day, at most one check per corridor, interleave with each other and
  with results of the worker, the rebalances of a corridor that count for the day never exceed the
  configured number (rounded up), unless they did before.
\<close>

theorem rebalance_daily_count:
  assumes "distinct (map co_name cs)" and "distinct (map rb_id (lq_rebalances s0))"
    and "liq_reachable env day cs (\<lambda>_. LStart, s0) (pcs, s)"
  shows "day_count day k (lq_rebalances s) \<le> max (day_count day k (lq_rebalances s0)) (max_count env)"
proof -
  let ?bound = "\<lambda>k. max (day_count day k (lq_rebalances s0)) (max_count env)"
  have "count_inv env day cs ?bound cf" if "liq_reachable env day cs (\<lambda>_. LStart, s0) cf" for cf
    using that
  proof (induction rule: liq_reachable.induct)
    case liq_start
    then show ?case using assms(2) by (simp add: count_inv_def)
  next
    case (liq_more c c')
    then show ?case using count_inv_step [OF _ _ assms(1), of env day c c' ?bound] by simp
  qed
  from this [OF assms(3)] show ?thesis by (simp add: count_inv_def)
qed

theorem rebalance_daily_count_witness:
  "day_count 0 ''A:B'' (lq_rebalances demo_race) \<le> 3"
proof -
  let ?cs = "[cAB, cBA]"
  obtain pcs where r: "liq_reachable demo_liq 0 ?cs (\<lambda>_. LStart, demo_liq_state) (pcs, demo_race)"
    using demo_race_reachable by blast
  have d: "distinct (map co_name ?cs)" by (simp add: cAB_def cBA_def)
  have m: "max_count demo_liq = 3" by code_simp
  show ?thesis
    using rebalance_daily_count [OF d _ r, of "''A:B''"] by (simp add: m demo_liq_state_def day_count_def)
qed

section \<open>Checks in a row\<close>

datatype liq_op = OpCheck int string CorridorConfig | OpResult int string LiquidityExecutionResult

fun liq_exec :: "liq_env \<Rightarrow> liq_op \<Rightarrow> liq_state \<Rightarrow> liq_state" where
  "liq_exec env (OpCheck now newId c) s = snd (checkCorridor env now newId c s)"
| "liq_exec env (OpResult now i res) s = snd (recordExecutionResult env now i res s)"

fun op_time :: "liq_op \<Rightarrow> int" where
  "op_time (OpCheck now _ _) = now"
| "op_time (OpResult now _ _) = now"

fun configured :: "liq_env \<Rightarrow> liq_op \<Rightarrow> bool" where
  "configured env (OpCheck _ _ c) = (c \<in> set (getCorridors env))"
| "configured env (OpResult _ _ _) = True"

lemma decide_guard:
  assumes "decide env now c s = (Inr d, s')" and "rebalances d"
  shows "\<not> (case newest (filter (related_recent now c) (lq_rebalances s)) of None \<Rightarrow> False
    | Some l \<Rightarrow> rb_fromAsset l = co_toAsset c \<and> rb_toAsset l = co_fromAsset c)"
proof -
  obtain amt src dst where "checkRebalanceGuards env now c amt (lq_rebalances s) = Allowed src dst"
    using assms by (auto simp: decide_def Let_def split: if_splits guard_result.splits option.splits)
  then show ?thesis by (auto simp: checkRebalanceGuards_def Let_def split: if_splits)
qed

lemma checkCorridor_eq:
  obtains d s1 where "decide env now c s = (Inr d, s1)"
    and "checkCorridor env now newId c s = carry_out env now newId c d s1"
proof -
  obtain d s1 where d: "decide env now c s = (Inr d, s1)" by (simp add: decide_def Let_def)
  then show thesis using that [OF d] by (simp add: checkCorridor_def bindM_def)
qed

lemma exec_calm:
  assumes "calm (lq_rebalances s)" and "\<And>r. r \<in> set (lq_rebalances s) \<Longrightarrow> rb_createdAt r \<le> op_time x"
    and "configured env x"
  shows "calm (lq_rebalances (liq_exec env x s)) \<and>
    (\<forall>r \<in> set (lq_rebalances (liq_exec env x s)). rb_createdAt r \<le> op_time x)"
proof (cases x)
  case (OpResult now i res)
  have dist: "distinct (map rb_id (lq_rebalances s))" using assms(1) by (simp add: calm_def)
  note same = record_core [OF dist, of env now i res]
  have "map rb_createdAt (lq_rebalances (liq_exec env x s)) = map rb_createdAt (lq_rebalances s)"
  proof -
    have "rb_createdAt r = fst (snd (snd (snd (snd (core r)))))" for r by (simp add: core_def)
    then have "map rb_createdAt rows = map (\<lambda>c. fst (snd (snd (snd (snd c))))) (map core rows)" for rows by simp
    then show ?thesis using same by (simp only: OpResult liq_exec.simps)
  qed
  then have "set (map rb_createdAt (lq_rebalances (liq_exec env x s))) = set (map rb_createdAt (lq_rebalances s))" by simp
  then have "\<forall>r \<in> set (lq_rebalances (liq_exec env x s)). rb_createdAt r \<le> op_time x"
    using assms(2) by (metis (no_types, lifting) image_iff list.set_map)
  then show ?thesis using calm_core [OF same [symmetric] assms(1)] by (simp add: OpResult)
next
  case (OpCheck now newId c)
  have ok: "corridor_ok c" using assms(3) getCorridors_ok by (simp add: OpCheck)
  obtain d s1 where d: "decide env now c s = (Inr d, s1)"
    and e: "checkCorridor env now newId c s = carry_out env now newId c d s1"
    by (rule checkCorridor_eq)
  have rows1: "lq_rebalances s1 = lq_rebalances s" by (rule decide_rebalances [OF d])
  show ?thesis
    using carry_out_rebalances [of env now newId c d s1]
  proof
    assume "lq_rebalances (snd (carry_out env now newId c d s1)) = lq_rebalances s1"
    then show ?thesis using assms(1,2) by (simp add: OpCheck e rows1)
  next
    assume "\<exists>r. new_row now c d r \<and> rb_id r \<notin> rb_id ` set (lq_rebalances s1) \<and>
      lq_rebalances (snd (carry_out env now newId c d s1)) = lq_rebalances s1 @ [r]"
    then obtain r where r: "new_row now c d r" "rb_id r \<notin> rb_id ` set (lq_rebalances s)"
      and rows: "lq_rebalances (snd (carry_out env now newId c d s1)) = lq_rebalances s @ [r]"
      using rows1 by auto
    have times: "\<And>q. q \<in> set (lq_rebalances s) \<Longrightarrow> rb_createdAt q \<le> now" using assms(2) by (simp add: OpCheck)
    have "calm_pair q r" if q: "q \<in> set (lq_rebalances s)" for q
    proof -
      have "\<not> opposed q r" if "active q" "active r" "rb_createdAt r - rb_createdAt q \<le> DAY_MS"
      proof -
        have "rebalances d" using r(1) that(2) by (simp add: new_row_def)
        from guard_no_opposite [OF assms(1) ok decide_guard [OF d this] q that(1) _ times]
        show ?thesis using r(1) that(3) by (auto simp: new_row_def opposed_def)
      qed
      then show ?thesis using times [OF q] r(1) by (simp add: calm_pair_def new_row_def)
    qed
    then have "calm (lq_rebalances s @ [r])"
      using assms(1) r ok by (auto simp: calm_def sorted_wrt_append row_ok_def corridor_ok_def new_row_def)
    then show ?thesis using times r(1) by (auto simp: OpCheck e rows new_row_def)
  qed
qed

lemma run_calm:
  assumes "sorted (map op_time ops)" and "list_all (configured env) ops" and "calm (lq_rebalances s)"
    and "\<And>r x. r \<in> set (lq_rebalances s) \<Longrightarrow> x \<in> set ops \<Longrightarrow> rb_createdAt r \<le> op_time x"
  shows "calm (lq_rebalances (fold (liq_exec env) ops s))"
  using assms
proof (induction ops arbitrary: s)
  case (Cons x ops)
  have "\<And>r. r \<in> set (lq_rebalances s) \<Longrightarrow> rb_createdAt r \<le> op_time x" using Cons.prems(4) by simp
  from exec_calm [OF Cons.prems(3) this] Cons.prems(2)
  have c: "calm (lq_rebalances (liq_exec env x s))"
    and t: "\<And>r. r \<in> set (lq_rebalances (liq_exec env x s)) \<Longrightarrow> rb_createdAt r \<le> op_time x" by auto
  show ?case
    using Cons.IH [OF _ _ c] Cons.prems(1,2) t by (fastforce simp: order_trans)
qed simp

text \<open>
  C23. No ping-pong. When the checks run one after the other, in any order and mixed with results
  of the worker, no two rebalances that were dispatched within 24 hours of each other move
  funds in opposite directions.
\<close>

theorem rebalance_no_ping_pong:
  assumes "lq_rebalances s = []" and "sorted (map op_time ops)" and "list_all (configured env) ops"
    and "rows = lq_rebalances (fold (liq_exec env) ops s)"
    and "i < j" and "j < length rows" and "active (rows ! i)" and "active (rows ! j)"
    and "rb_createdAt (rows ! j) \<le> rb_createdAt (rows ! i) + 24 * 60 * 60 * 1000"
  shows "\<not> (rb_fromAsset (rows ! j) = rb_toAsset (rows ! i) \<and> rb_toAsset (rows ! j) = rb_fromAsset (rows ! i))"
proof -
  have "calm rows" using run_calm [OF assms(2,3), of s] assms(1) by (simp add: assms(4) calm_def)
  then have "calm_pair (rows ! i) (rows ! j)" using assms(5,6) by (simp add: calm_def sorted_wrt_iff_nth_less)
  then show ?thesis using assms(7-9) by (auto simp: calm_pair_def opposed_def DAY_MS_def)
qed

text \<open>A dispatched rebalance of the example.\<close>

definition demo_row :: "string \<Rightarrow> int \<Rightarrow> CorridorConfig \<Rightarrow> LiquidityRebalance" where
  "demo_row i now c = new_rebalance i now c 20 20 RbEXECUTING (BelowThreshold (Num 0) (Num 100))"

lemma demo_carry_out:
  assumes "i \<notin> rb_id ` set (lq_rebalances s)"
    and "s' = snd (carry_out demo_liq now i c (DRebalance (Num 0) (Num 100) (Num 20) (Num 20)) s)"
  shows "lq_rebalances s' = lq_rebalances s @ [demo_row i now c]"
    and "lq_jobs s' = lq_jobs s @ [job_for demo_liq i c (Num 20) (Num 20)]"
    and "lq_transactions s' = lq_transactions s"
proof -
  have e: "le_decimal demo_liq (Num 20) = 20" "\<And>j. le_push demo_liq j = Inr ()" by (simp_all add: demo_liq_def)
  define r where "r = new_rebalance i now c 20 20 RbPLANNED (BelowThreshold (Num 0) (Num 100))"
  define s1 where "s1 = s\<lparr>lq_rebalances := lq_rebalances s @ [r]\<rparr>"
  have i: "rb_id r = i" by (simp add: r_def new_rebalance_def)
  have s1: "lq_jobs s1 = lq_jobs s" "lq_transactions s1 = lq_transactions s" by (simp_all add: s1_def)
  have s': "s' = snd (dispatch demo_liq now i c (Num 20) (Num 20) s1)"
    using assms by (auto simp: carry_out_def M_defs create_rebalance_def e r_def [symmetric] i s1_def)
  have up: "update_rebalance i f s1 = (Inr (f r), s1\<lparr>lq_rebalances := lq_rebalances s @ [f r]\<rparr>)" for f
    by (rule update_new_rebalance) (use assms(1) i in \<open>auto simp: s1_def rev_image_eqI\<close>)
  have row: "r\<lparr>rb_status := RbEXECUTING\<rparr> = demo_row i now c" by (simp add: r_def demo_row_def new_rebalance_def)
  have j: "lj_rebalanceId (job_for demo_liq i c (Num 20) (Num 20)) = i" by (simp add: job_for_def Let_def)
  show "lq_rebalances s' = lq_rebalances s @ [demo_row i now c]"
    and "lq_jobs s' = lq_jobs s @ [job_for demo_liq i c (Num 20) (Num 20)]"
    and "lq_transactions s' = lq_transactions s"
    by (simp_all add: s' dispatch_def M_defs up row e liq_execute_def liq_audit_def s1)
qed

lemma demo_decide_again:
  assumes "lq_transactions s = []" and "lq_rebalances s = [demo_row ''r0'' 1000 cAB]"
  shows "\<exists>obs. decide demo_liq 2000 cAB s =
    (Inr (DRebalance (Num 0) (Num 100) (Num 20) (Num 20)), s\<lparr>lq_observations := obs\<rparr>)"
proof -
  have g: "checkRebalanceGuards demo_liq 2000 cAB (Num 20) [demo_row ''r0'' 1000 cAB] = Allowed (Num 20) (Num 20)" by code_simp
  have "co_name cAB = ''A:B''" "co_toAsset cAB = ''B''" by (simp_all add: cAB_def)
  then show ?thesis
    using assms
    by (simp add: decide_def Let_def demo_reserve demo_forecast demo_threshold demo_config g) (rule exI, rule refl)
qed

definition demo_ops :: "liq_op list" where
  "demo_ops = [OpCheck 1000 ''r0'' cAB, OpCheck 2000 ''r1'' cAB]"

lemma demo_ops_rows:
  "lq_rebalances (fold (liq_exec demo_liq) demo_ops demo_liq_state) = [demo_row ''r0'' 1000 cAB, demo_row ''r1'' 2000 cAB]"
proof -
  let ?d = "DRebalance (Num 0) (Num 100) (Num 20) (Num 20)"
  obtain o1 where d1: "decide demo_liq 1000 cAB demo_liq_state = (Inr ?d, demo_liq_state\<lparr>lq_observations := o1\<rparr>)"
    using demo_decide [of demo_liq_state cAB] by (auto simp: demo_liq_state_def)
  define s1 where "s1 = snd (carry_out demo_liq 1000 ''r0'' cAB ?d (demo_liq_state\<lparr>lq_observations := o1\<rparr>))"
  have s1: "lq_rebalances s1 = [demo_row ''r0'' 1000 cAB]" "lq_transactions s1 = []"
    using demo_carry_out [OF _ s1_def] by (simp_all add: demo_liq_state_def)
  obtain o2 where d2: "decide demo_liq 2000 cAB s1 = (Inr ?d, s1\<lparr>lq_observations := o2\<rparr>)"
    using demo_decide_again [of s1] s1 by auto
  define s2 where "s2 = snd (carry_out demo_liq 2000 ''r1'' cAB ?d (s1\<lparr>lq_observations := o2\<rparr>))"
  have "lq_rebalances s2 = [demo_row ''r0'' 1000 cAB, demo_row ''r1'' 2000 cAB]"
    using demo_carry_out [OF _ s2_def] s1 by (simp add: demo_row_def new_rebalance_def)
  then show ?thesis by (simp add: demo_ops_def checkCorridor_def bindM_def d1 s1_def [symmetric] d2 s2_def [symmetric])
qed

theorem rebalance_no_ping_pong_witness:
  "lq_rebalances (fold (liq_exec demo_liq) demo_ops demo_liq_state) = [demo_row ''r0'' 1000 cAB, demo_row ''r1'' 2000 cAB] \<and>
   \<not> (rb_fromAsset (demo_row ''r1'' 2000 cAB) = rb_toAsset (demo_row ''r0'' 1000 cAB) \<and>
      rb_toAsset (demo_row ''r1'' 2000 cAB) = rb_fromAsset (demo_row ''r0'' 1000 cAB))"
proof -
  have e: "lq_rebalances demo_liq_state = []" by (simp add: demo_liq_state_def)
  have srt: "sorted (map op_time demo_ops)" by (simp add: demo_ops_def)
  have conf: "list_all (configured demo_liq) demo_ops" by (simp add: demo_ops_def demo_corridors)
  show ?thesis
    using rebalance_no_ping_pong [OF e srt conf demo_ops_rows [symmetric], of 0 1] demo_ops_rows
    by (simp add: demo_row_def new_rebalance_def)
qed

text \<open>
  Within one hourly check the cool-down does not hold. The corridors run concurrently; with
  both directions of a pair configured, each finds no recent rebalance of the other before
  either is created, and the worker receives jobs in both directions.
\<close>

theorem opposite_corridors_race:
  "\<exists>pcs s. liq_reachable demo_liq 0 (getCorridors demo_liq) (\<lambda>_. LStart, demo_liq_state) (pcs, s) \<and>
     map (\<lambda>j. (lj_fromAsset j, lj_toAsset j)) (lq_jobs s) = [(''A'', ''B''), (''B'', ''A'')]"
proof -
  let ?d = "DRebalance (Num 0) (Num 100) (Num 20) (Num 20)"
  obtain pcs where r: "liq_reachable demo_liq 0 (getCorridors demo_liq) (\<lambda>_. LStart, demo_liq_state) (pcs, demo_race)"
    using demo_race_reachable by (auto simp: demo_corridors)
  obtain o1 where d1: "decide demo_liq 1000 cAB demo_liq_state = (Inr ?d, demo_liq_state\<lparr>lq_observations := o1\<rparr>)"
    using demo_decide [of demo_liq_state cAB] by (auto simp: demo_liq_state_def)
  define s1 where "s1 = demo_liq_state\<lparr>lq_observations := o1\<rparr>"
  obtain o2 where d2: "decide demo_liq 1000 cBA s1 = (Inr ?d, s1\<lparr>lq_observations := o2\<rparr>)"
    using demo_decide [of s1 cBA] by (auto simp: s1_def demo_liq_state_def)
  define s2 where "s2 = snd (carry_out demo_liq 1000 ''r0'' cAB ?d (s1\<lparr>lq_observations := o2\<rparr>))"
  have s2: "lq_rebalances s2 = [demo_row ''r0'' 1000 cAB]" "lq_jobs s2 = [job_for demo_liq ''r0'' cAB (Num 20) (Num 20)]"
    using demo_carry_out [OF _ s2_def] by (simp_all add: s1_def demo_liq_state_def)
  define s3 where "s3 = snd (carry_out demo_liq 1000 ''r1'' cBA ?d s2)"
  have "lq_jobs s3 = [job_for demo_liq ''r0'' cAB (Num 20) (Num 20), job_for demo_liq ''r1'' cBA (Num 20) (Num 20)]"
    using demo_carry_out(2) [OF _ s3_def] s2 by (simp add: demo_row_def new_rebalance_def)
  moreover have "demo_race = s3"
    by (simp add: demo_race_def lockstep_def d1 s1_def [symmetric] d2 s2_def [symmetric] s3_def [symmetric])
  ultimately have "map (\<lambda>j. (lj_fromAsset j, lj_toAsset j)) (lq_jobs demo_race) = [(''A'', ''B''), (''B'', ''A'')]"
    by (simp add: job_for_def Let_def cAB_def cBA_def)
  then show ?thesis by (intro exI conjI) (rule r)
qed

end
