(* ===== verification/Wallets.thy ===== *)
theory Wallets
  imports Schema
begin

text \<open>
  The wallets of a user (\<open>apps/api/src/wallet/wallet.service.ts\<close>, \<open>wallet-ownership.guard.ts\<close>,
  \<open>wallet.controller.ts\<close> and the client of the external signer \<open>vault/vault.service.ts\<close>): up to five
  wallets with one default, aliases, import and export of encrypted secrets, and the
  reconciliation of a wallet with the chain. Parameters are the columns of the database table,
  the ciphers and the key derivation of \<open>crypto\<close>, key pairs and accounts of the Stellar SDK, the
  parser of dates and the external signer. A row that a query without an order returns first is the
  oldest one.
\<close>

section \<open>Data\<close>

text \<open>
  A row of the table. \<open>encryptedSecret\<close> is optional here, because the service creates rows without
  it; whether the database accepts such a row is a matter of the required columns below.
  \<open>w_extra\<close> holds the flags that the service writes and the schema does not declare.
\<close>

record wallet_row = Wallet +
  w_encryptedSecret :: "string option"
  w_createdAt :: int
  w_extra :: "string \<Rightarrow> bool option"

record wallet_state =
  ws_wallets :: "wallet_row list"
  ws_transactions :: "Transaction list"

record h_balance =
  hb_asset_type :: string
  hb_asset_code :: string
  hb_asset_issuer :: "string option"
  hb_balance :: string
  hb_limit :: "string option"

record h_account =
  ha_balances :: "h_balance list option"
  ha_sequence :: "string option"
  ha_last_modified_ledger :: "int option"
  ha_last_modified_time :: "string option"

text \<open>
  \<open>we_columns\<close> and \<open>we_required\<close> describe the table; \<open>we_network\<close> is the value of the name
  \<open>STELLAR_NETWORK\<close> that the service uses without declaring it. \<open>we_gcm_seal\<close> and
  \<open>we_gcm_open\<close> are AES-256-GCM on a UTF-8 text, \<open>we_gcm_start\<close> the creation of the decipher, which
  refuses a bad length of the initialisation vector or of the tag, and \<open>we_cbc_open\<close> is AES-256-CBC.
\<close>

record wallet_env =
  we_columns :: "string list"
  we_required :: "string list"
  we_network :: "string option"
  we_vars :: "string \<Rightarrow> string option"
  we_hkdf :: "string \<Rightarrow> string \<Rightarrow> string"
  we_gcm_seal :: "string \<Rightarrow> string \<Rightarrow> string \<Rightarrow> string \<times> string"
  we_gcm_start :: "string \<Rightarrow> string \<Rightarrow> string \<Rightarrow> unit res"
  we_gcm_open :: "string \<Rightarrow> string \<Rightarrow> string \<Rightarrow> string \<Rightarrow> string option"
  we_cbc_open :: "string \<Rightarrow> string \<Rightarrow> string \<Rightarrow> string res"
  we_keypair :: "string \<Rightarrow> string res"
  we_loadAccount :: "string \<Rightarrow> h_account res"
  we_parseDate :: "string \<Rightarrow> int option"
  we_recent :: "Transaction list \<Rightarrow> Transaction list"

text \<open>The table of the schema: the columns, and those a new row must name.\<close>

definition schema_columns :: "string list" where
  "schema_columns = [''id'', ''userId'', ''publicKey'', ''alias'', ''isDefault'', ''encryptedSecret'', ''encryptedDek'',
     ''kmsKeyId'', ''createdAt'', ''updatedAt'']"

definition schema_required :: "string list" where
  "schema_required = [''userId'', ''publicKey'', ''encryptedSecret'']"

abbreviation Error :: "string \<Rightarrow> exn" where "Error \<equiv> JsError ''Error''"

definition ValidationError :: exn where
  "ValidationError = JsError ''PrismaClientValidationError'' ''Invalid invocation''"

definition AuthTagMismatchError :: exn where
  "AuthTagMismatchError = JsError ''AuthTagMismatch'' ''AuthTagMismatch''"

section \<open>The table\<close>

abbreviation wallets_of :: "string \<Rightarrow> wallet_state \<Rightarrow> wallet_row list" where
  "wallets_of userId s \<equiv> filter (\<lambda>w. w_userId w = userId) (ws_wallets s)"

text \<open>The unique columns: the id, the public key, and the alias of a user's wallets.\<close>

definition clashes :: "wallet_row \<Rightarrow> wallet_row \<Rightarrow> bool" where
  "clashes w v = (w_id w = w_id v \<or> w_publicKey w = w_publicKey v \<or>
     (w_userId w = w_userId v \<and> w_alias w \<noteq> None \<and> w_alias w = w_alias v))"

text \<open>\<open>create\<close> with the given columns: refused when a column is unknown or a required one is missing.\<close>

definition create_row :: "wallet_env \<Rightarrow> string list \<Rightarrow> wallet_row \<Rightarrow> (wallet_state, wallet_row) M" where
  "create_row env cols w s =
     (if \<not> (set cols \<subseteq> set (we_columns env) \<and> set (we_required env) \<subseteq> set cols) then (Inl ValidationError, s)
      else if \<exists>v \<in> set (ws_wallets s). clashes v w then (Inl (PrismaError ''P2002''), s)
      else (Inr w, s\<lparr>ws_wallets := ws_wallets s @ [w]\<rparr>))"

text \<open>\<open>update\<close> of the given columns in the row that a unique filter selects.\<close>

definition update_row ::
  "wallet_env \<Rightarrow> string list \<Rightarrow> (wallet_row \<Rightarrow> bool) \<Rightarrow> (wallet_row \<Rightarrow> wallet_row) \<Rightarrow> (wallet_state, wallet_row) M" where
  "update_row env cols P f s =
     (if \<not> set cols \<subseteq> set (we_columns env) then (Inl ValidationError, s)
      else case find P (ws_wallets s) of
        None \<Rightarrow> (Inl (PrismaError ''P2025''), s)
      | Some w \<Rightarrow>
          if \<exists>v \<in> set (ws_wallets s). w_id v \<noteq> w_id w \<and> clashes v (f w) then (Inl (PrismaError ''P2002''), s)
          else (Inr (f w), s\<lparr>ws_wallets := update_where (\<lambda>v. w_id v = w_id w) f (ws_wallets s)\<rparr>))"

section \<open>Wallets\<close>

text \<open>
  The end of \<open>createWallet\<close>: a name without a declaration raises a \<open>ReferenceError\<close>, and on the test
  network the method that is called does not exist.
\<close>

definition fund_on_testnet :: "wallet_env \<Rightarrow> (wallet_state, unit) M" where
  "fund_on_testnet env =
     (case we_network env of
        None \<Rightarrow> throw (JsError ''ReferenceError'' ''STELLAR_NETWORK is not defined'')
      | Some n \<Rightarrow> if n = ''testnet'' then throw (JsError ''TypeError'' ''this.fundTestnetAccount is not a function'')
                 else ret ())"

definition too_long :: "string option \<Rightarrow> bool" where
  "too_long alias = (truthy alias \<and> 32 < length (the alias))"

definition new_wallet :: "int \<Rightarrow> string \<Rightarrow> string \<Rightarrow> string \<Rightarrow> string option \<Rightarrow> bool \<Rightarrow> wallet_row" where
  "new_wallet now newId userId publicKey alias isDefault =
     \<lparr>w_id = newId, w_userId = userId, w_publicKey = publicKey, w_alias = alias, w_isDefault = isDefault,
      w_encryptedSecret = None, w_createdAt = now, w_extra = (\<lambda>_. None)\<rparr>"

definition createWallet ::
  "wallet_env \<Rightarrow> int \<Rightarrow> string \<Rightarrow> string \<Rightarrow> string \<Rightarrow> string option \<Rightarrow> (wallet_state, wallet_row) M" where
  "createWallet env now newId userId publicKey alias =
     bindM (readM (wallets_of userId)) (\<lambda>existingWallets.
     let isDefault = (length existingWallets = 0)
     in thenM (guardM (length existingWallets < 5) (Error ''Wallet limit (5) reached for this user''))
       (thenM (guardM (\<not> too_long alias) (Error ''Wallet alias must be 32 characters or less''))
       (bindM (create_row env [''userId'', ''publicKey'', ''alias'', ''isDefault'']
                 (new_wallet now newId userId publicKey alias isDefault)) (\<lambda>wallet.
        thenM (fund_on_testnet env) (ret wallet)))))"

text \<open>\<open>findMany\<close> in ascending order of creation.\<close>

definition getWallets :: "string \<Rightarrow> (wallet_state, wallet_row list) M" where
  "getWallets userId = readM (\<lambda>s. sort_key w_createdAt (wallets_of userId s))"

definition getDefaultWallet :: "string \<Rightarrow> (wallet_state, wallet_row) M" where
  "getDefaultWallet userId =
     bindM (readM (\<lambda>s. find (\<lambda>w. w_userId w = userId \<and> w_isDefault w) (ws_wallets s))) (\<lambda>found.
     case found of None \<Rightarrow> throw (NotFoundException ''No default wallet found'') | Some wallet \<Rightarrow> ret wallet)"

definition find_wallet_id :: "string \<Rightarrow> wallet_state \<Rightarrow> wallet_row option" where
  "find_wallet_id walletId s = find (\<lambda>w. w_id w = walletId) (ws_wallets s)"

definition getWalletById :: "string \<Rightarrow> string \<Rightarrow> (wallet_state, wallet_row) M" where
  "getWalletById walletId userId =
     bindM (readM (find_wallet_id walletId)) (\<lambda>found.
     case found of
       None \<Rightarrow> throw (NotFoundException ''Wallet not found'')
     | Some wallet \<Rightarrow>
         if w_userId wallet \<noteq> userId then throw (NotFoundException ''Wallet not found'') else ret wallet)"

definition clear_default :: "string \<Rightarrow> (wallet_state, unit) M" where
  "clear_default userId = modifyM (\<lambda>s. s\<lparr>ws_wallets :=
     update_where (\<lambda>w. w_userId w = userId \<and> w_isDefault w) (\<lambda>w. w\<lparr>w_isDefault := False\<rparr>) (ws_wallets s)\<rparr>)"

definition mark_default :: "wallet_env \<Rightarrow> string \<Rightarrow> (wallet_state, wallet_row) M" where
  "mark_default env walletId =
     update_row env [''isDefault''] (\<lambda>w. w_id w = walletId) (\<lambda>w. w\<lparr>w_isDefault := True\<rparr>)"

definition setDefaultWallet :: "wallet_env \<Rightarrow> string \<Rightarrow> string \<Rightarrow> (wallet_state, wallet_row) M" where
  "setDefaultWallet env walletId userId =
     thenM (getWalletById walletId userId)
    (thenM (clear_default userId)
     (mark_default env walletId))"

definition updateWalletAlias ::
  "wallet_env \<Rightarrow> string \<Rightarrow> string \<Rightarrow> string option \<Rightarrow> (wallet_state, wallet_row) M" where
  "updateWalletAlias env walletId userId alias =
     thenM (getWalletById walletId userId)
    (thenM (guardM (\<not> too_long alias) (Error ''Wallet alias must be 32 characters or less''))
     (update_row env [''alias''] (\<lambda>w. w_id w = walletId) (\<lambda>w. w\<lparr>w_alias := alias\<rparr>)))"

text \<open>\<open>delete\<close>: a wallet with transactions is kept by the foreign key.\<close>

definition delete_row :: "string \<Rightarrow> (wallet_state, unit) M" where
  "delete_row walletId s =
     (if find_wallet_id walletId s = None then (Inl (PrismaError ''P2025''), s)
      else if \<exists>t \<in> set (ws_transactions s). tx_walletId t = walletId then (Inl (PrismaError ''P2003''), s)
      else (Inr (), s\<lparr>ws_wallets := filter (\<lambda>w. w_id w \<noteq> walletId) (ws_wallets s)\<rparr>))"

definition deleteWallet :: "wallet_env \<Rightarrow> string \<Rightarrow> string \<Rightarrow> (wallet_state, unit) M" where
  "deleteWallet env walletId userId =
     thenM (getWalletById walletId userId)
    (bindM (readM (\<lambda>s. length (wallets_of userId s))) (\<lambda>walletCount.
     thenM (guardM (1 < walletCount) (Error ''Cannot delete the last wallet''))
    (bindM (readM (find_wallet_id walletId)) (\<lambda>wallet.
     thenM (if (case wallet of None \<Rightarrow> False | Some w \<Rightarrow> w_isDefault w)
            then bindM (readM (\<lambda>s. find (\<lambda>w. w_userId w = userId \<and> w_id w \<noteq> walletId) (ws_wallets s))) (\<lambda>anotherWallet.
                 case anotherWallet of
                   None \<Rightarrow> ret ()
                 | Some v \<Rightarrow> thenM (setDefaultWallet env (w_id v) userId) (ret ()))
            else ret ())
           (delete_row walletId)))))"

section \<open>Flags and signatures\<close>

definition enableMultisig :: "wallet_env \<Rightarrow> string \<Rightarrow> string \<Rightarrow> (wallet_state, wallet_row) M" where
  "enableMultisig env walletId userId =
     update_row env [''multisigEnabled''] (\<lambda>w. w_id w = walletId \<and> w_userId w = userId)
       (\<lambda>w. w\<lparr>w_extra := (w_extra w)(''multisigEnabled'' \<mapsto> True)\<rparr>)"

definition freezeWallet :: "wallet_env \<Rightarrow> string \<Rightarrow> string \<Rightarrow> (wallet_state, wallet_row) M" where
  "freezeWallet env walletId userId =
     update_row env [''isFrozen''] (\<lambda>w. w_id w = walletId \<and> w_userId w = userId)
       (\<lambda>w. w\<lparr>w_extra := (w_extra w)(''isFrozen'' \<mapsto> True)\<rparr>)"

definition unfreezeWallet :: "wallet_env \<Rightarrow> string \<Rightarrow> string \<Rightarrow> (wallet_state, wallet_row) M" where
  "unfreezeWallet env walletId userId =
     update_row env [''isFrozen''] (\<lambda>w. w_id w = walletId \<and> w_userId w = userId)
       (\<lambda>w. w\<lparr>w_extra := (w_extra w)(''isFrozen'' \<mapsto> False)\<rparr>)"

text \<open>The transaction hash (always null), the key of the co-signer, if there is a vault, and the wallet.\<close>

definition enableMultiSignature ::
  "wallet_env \<Rightarrow> bool \<Rightarrow> string \<Rightarrow> string \<Rightarrow> (wallet_state, string option \<times> string option \<times> wallet_row) M" where
  "enableMultiSignature env vault walletId userId =
     bindM (enableMultisig env walletId userId) (\<lambda>wallet.
     ret (None, if vault then we_vars env ''COSIGNER_PUBLIC_KEY'' else None, wallet))"

section \<open>Secrets\<close>

text \<open>\<open>Buffer.toString('hex')\<close> and \<open>Buffer.from(text, 'hex')\<close>; bytes are characters. The decoder stops at a bad pair.\<close>

definition hex_digit :: "nat \<Rightarrow> char" where
  "hex_digit n = (if n < 10 then char_of (48 + n) else char_of (87 + n))"

definition to_hex :: "string \<Rightarrow> string" where
  "to_hex bs = concat (map (\<lambda>b. [hex_digit (code_of b div 16), hex_digit (code_of b mod 16)]) bs)"

fun from_hex :: "string \<Rightarrow> string" where
  "from_hex (a # b # rest) =
     (if is_hex a \<and> is_hex b then char_of (16 * hex_val a + hex_val b) # from_hex rest else [])"
| "from_hex _ = []"

definition getMasterKey :: "wallet_env \<Rightarrow> string res" where
  "getMasterKey env =
     (if \<not> truthy (we_vars env ''ENCRYPTION_KEY'') then Inl (Error ''ENCRYPTION_KEY is required'')
      else Inr (from_hex (the (we_vars env ''ENCRYPTION_KEY''))))"

definition deriveUserKey :: "wallet_env \<Rightarrow> string \<Rightarrow> string res" where
  "deriveUserKey env userId =
     (case getMasterKey env of Inl e \<Rightarrow> Inl e | Inr k \<Rightarrow> Inr (we_hkdf env k userId))"

definition encrypt :: "wallet_env \<Rightarrow> string \<Rightarrow> string \<Rightarrow> string \<Rightarrow> string res" where
  "encrypt env iv text userId =
     (case deriveUserKey env userId of
        Inl e \<Rightarrow> Inl e
      | Inr key \<Rightarrow>
          let (ciphertext, authTag) = we_gcm_seal env key iv text
          in Inr (to_hex iv @ '':'' @ to_hex authTag @ '':'' @ to_hex ciphertext))"

definition decrypt :: "wallet_env \<Rightarrow> string \<Rightarrow> string \<Rightarrow> string res" where
  "decrypt env encoded userId =
     (case split_on (CHR '':'') encoded of
        [ivHex, encrypted] \<Rightarrow>
          (case getMasterKey env of
             Inl e \<Rightarrow> Inl e
           | Inr key \<Rightarrow> we_cbc_open env key (from_hex ivHex) (from_hex encrypted))
      | [ivHex, authTagHex, ciphertextHex] \<Rightarrow>
          (case deriveUserKey env userId of
             Inl e \<Rightarrow> Inl e
           | Inr key \<Rightarrow>
               (case we_gcm_start env key (from_hex ivHex) (from_hex authTagHex) of
                  Inl e \<Rightarrow> Inl e
                | Inr _ \<Rightarrow>
                    (case we_gcm_open env key (from_hex ivHex) (from_hex authTagHex) (from_hex ciphertextHex) of
                       None \<Rightarrow> Inl AuthTagMismatchError
                     | Some text \<Rightarrow> Inr text)))
      | _ \<Rightarrow> Inl AuthTagMismatchError)"

text \<open>The wallet of a request: the one named (a text that is not empty), else the default.\<close>

definition chosen_wallet :: "string \<Rightarrow> string option \<Rightarrow> (wallet_state, wallet_row) M" where
  "chosen_wallet userId walletId =
     (if truthy walletId then getWalletById (the walletId) userId else getDefaultWallet userId)"

definition exportWallet :: "wallet_env \<Rightarrow> string \<Rightarrow> string option \<Rightarrow> (wallet_state, string \<times> string) M" where
  "exportWallet env userId walletId =
     bindM (chosen_wallet userId walletId) (\<lambda>wallet.
     case w_encryptedSecret wallet of
       None \<Rightarrow> throw (JsError ''TypeError'' ''Cannot read properties of null'')
     | Some d \<Rightarrow> bindM (liftR (decrypt env d userId)) (\<lambda>secretKey. ret (w_publicKey wallet, secretKey)))"

definition importWallet ::
  "wallet_env \<Rightarrow> int \<Rightarrow> string \<Rightarrow> string \<Rightarrow> string \<Rightarrow> string \<Rightarrow> string option \<Rightarrow> (wallet_state, wallet_row) M" where
  "importWallet env now newId iv userId secretKey alias =
     bindM (liftR (we_keypair env secretKey)) (\<lambda>publicKey.
     bindM (liftR (encrypt env iv secretKey userId)) (\<lambda>encryptedSecret.
     bindM (createWallet env now newId userId publicKey alias) (\<lambda>wallet.
     update_row env [''encryptedSecret''] (\<lambda>w. w_id w = w_id wallet)
       (\<lambda>w. w\<lparr>w_encryptedSecret := Some encryptedSecret\<rparr>))))"

section \<open>Queries\<close>

definition getPublicKey :: "string \<Rightarrow> (wallet_state, string \<times> string) M" where
  "getPublicKey userId = bindM (getDefaultWallet userId) (\<lambda>w. ret (w_publicKey w, w_id w))"

definition findByUserId :: "string \<Rightarrow> (wallet_state, wallet_row) M" where
  "findByUserId userId = getDefaultWallet userId"

definition findByPublicKey :: "string \<Rightarrow> (wallet_state, wallet_row option) M" where
  "findByPublicKey publicKey = readM (\<lambda>s. find (\<lambda>w. w_publicKey w = publicKey) (ws_wallets s))"

definition balances_of :: "h_account \<Rightarrow> h_balance list" where
  "balances_of account = (case ha_balances account of None \<Rightarrow> [] | Some bs \<Rightarrow> bs)"

definition asset_of :: "h_balance \<Rightarrow> string" where
  "asset_of b = (if hb_asset_type b = ''native'' then ''XLM'' else hb_asset_code b)"

definition getBalances :: "wallet_env \<Rightarrow> string \<Rightarrow> string option \<Rightarrow> (wallet_state, (string \<times> string) list) M" where
  "getBalances env userId walletId =
     bindM (chosen_wallet userId walletId) (\<lambda>wallet.
     bindM (liftR (we_loadAccount env (w_publicKey wallet))) (\<lambda>account.
     ret (map (\<lambda>b. (asset_of b, hb_balance b)) (balances_of account))))"

section \<open>Reconciliation\<close>

datatype ReconciliationSeverity = Info | Warning | Critical

record ReconciliationDiscrepancy =
  rd_type :: string
  rd_severity :: ReconciliationSeverity
  rd_asset :: "string option"
  rd_assetIssuer :: "string option"

record ReconciliationAsset =
  ra_asset :: string
  ra_assetIssuer :: "string option"
  ra_balance :: string
  ra_trustline :: bool
  ra_limit :: "string option"

record expected_asset =
  ea_asset :: string
  ea_assetIssuer :: "string option"
  ea_transactionCount :: nat
  ea_statuses :: "(TransactionStatus \<times> nat) list"
  ea_lastTransactionAt :: "int option"

record reconciliation_report =
  rr_status :: string
  rr_walletId :: string
  rr_publicKey :: string
  rr_accountFound :: bool
  rr_sequence :: "string option"
  rr_lastModifiedLedger :: "int option"
  rr_lastModifiedTime :: "string option"
  rr_balances :: "ReconciliationAsset list"
  rr_trackedAssetCount :: nat
  rr_recentTransactionCount :: nat
  rr_expectedAssets :: "expected_asset list"
  rr_discrepancyCount :: nat
  rr_criticalCount :: nat
  rr_missingTrustlineCount :: nat
  rr_discrepancies :: "ReconciliationDiscrepancy list"

definition assetKey :: "string \<Rightarrow> string option \<Rightarrow> string" where
  "assetKey asset issuer = asset @ '':'' @ (case issuer of None \<Rightarrow> ''native'' | Some i \<Rightarrow> i)"

definition assetsFromHorizonBalances :: "h_balance list \<Rightarrow> ReconciliationAsset list" where
  "assetsFromHorizonBalances balances =
     map (\<lambda>b. \<lparr>ra_asset = asset_of b,
               ra_assetIssuer = (if hb_asset_type b = ''native'' then None else hb_asset_issuer b),
               ra_balance = hb_balance b, ra_trustline = (hb_asset_type b \<noteq> ''native''), ra_limit = hb_limit b\<rparr>) balances"

text \<open>
  The assets of the transactions, in the order of their first transaction. The times are compared
  as texts of one format in the code and as numbers here.
\<close>

definition tx_asset :: "Transaction \<Rightarrow> string" where
  "tx_asset t = (if tx_assetCode t = [] then ''XLM'' else tx_assetCode t)"

definition tx_key :: "Transaction \<Rightarrow> string" where
  "tx_key t = assetKey (tx_asset t) (tx_assetIssuer t)"

fun bump :: "TransactionStatus \<Rightarrow> (TransactionStatus \<times> nat) list \<Rightarrow> (TransactionStatus \<times> nat) list" where
  "bump st [] = [(st, 1)]"
| "bump st ((x, n) # rest) = (if x = st then (x, n + 1) # rest else (x, n) # bump st rest)"

definition count_tx :: "Transaction \<Rightarrow> expected_asset \<Rightarrow> expected_asset" where
  "count_tx t e = e\<lparr>ea_transactionCount := ea_transactionCount e + 1, ea_statuses := bump (tx_status t) (ea_statuses e),
     ea_lastTransactionAt := (case ea_lastTransactionAt e of
         None \<Rightarrow> Some (tx_updatedAt t)
       | Some l \<Rightarrow> Some (if l < tx_updatedAt t then tx_updatedAt t else l))\<rparr>"

fun add_tx :: "Transaction \<Rightarrow> (string \<times> expected_asset) list \<Rightarrow> (string \<times> expected_asset) list" where
  "add_tx t [] = [(tx_key t, count_tx t \<lparr>ea_asset = tx_asset t, ea_assetIssuer = tx_assetIssuer t,
                     ea_transactionCount = 0, ea_statuses = [], ea_lastTransactionAt = None\<rparr>)]"
| "add_tx t ((k, e) # rest) = (if k = tx_key t then (k, count_tx t e) # rest else (k, e) # add_tx t rest)"

definition expectedAssetsFromTransactions :: "Transaction list \<Rightarrow> expected_asset list" where
  "expectedAssetsFromTransactions txs = map snd (foldl (\<lambda>m t. add_tx t m) [] txs)"

definition isHorizonNotFound :: "exn \<Rightarrow> bool" where
  "isHorizonNotFound e =
     (case e of HttpException n _ \<Rightarrow> n = 404 | JsError name _ \<Rightarrow> name = ''NotFoundError'' | PrismaError _ \<Rightarrow> False)"

definition buildReconciliationReport ::
  "wallet_row \<Rightarrow> expected_asset list \<Rightarrow> ReconciliationAsset list \<Rightarrow> Transaction list \<Rightarrow>
     ReconciliationDiscrepancy list \<Rightarrow> h_account option \<Rightarrow> reconciliation_report" where
  "buildReconciliationReport wallet expectedAssets onChainAssets txs discrepancies account =
     \<lparr>rr_status = (if length discrepancies = 0 then ''in_sync'' else ''drift_detected''),
      rr_walletId = w_id wallet, rr_publicKey = w_publicKey wallet,
      rr_accountFound = (account \<noteq> None),
      rr_sequence = Option.bind account ha_sequence,
      rr_lastModifiedLedger = Option.bind account ha_last_modified_ledger,
      rr_lastModifiedTime = Option.bind account ha_last_modified_time,
      rr_balances = onChainAssets,
      rr_trackedAssetCount = length expectedAssets, rr_recentTransactionCount = length txs,
      rr_expectedAssets = expectedAssets,
      rr_discrepancyCount = length discrepancies,
      rr_criticalCount = length (filter (\<lambda>d. rd_severity d = Critical) discrepancies),
      rr_missingTrustlineCount = length (filter (\<lambda>d. rd_type d = ''MISSING_TRUSTLINE'') discrepancies),
      rr_discrepancies = discrepancies\<rparr>"

definition missing_trustlines :: "expected_asset list \<Rightarrow> ReconciliationAsset list \<Rightarrow> ReconciliationDiscrepancy list" where
  "missing_trustlines expectedAssets onChainAssets =
     (let onChainAssetKeys = set (map (\<lambda>a. assetKey (ra_asset a) (ra_assetIssuer a)) onChainAssets)
      in concat (map (\<lambda>e.
           if ea_asset e = ''XLM'' then []
           else if assetKey (ea_asset e) (ea_assetIssuer e) \<notin> onChainAssetKeys
           then [\<lparr>rd_type = ''MISSING_TRUSTLINE'', rd_severity = Warning, rd_asset = Some (ea_asset e),
                  rd_assetIssuer = ea_assetIssuer e\<rparr>]
           else []) expectedAssets))"

definition stale_ledger :: "wallet_env \<Rightarrow> h_account \<Rightarrow> Transaction list \<Rightarrow> ReconciliationDiscrepancy list" where
  "stale_ledger env account txs =
     (if truthy (ha_last_modified_time account) \<and>
         (case we_parseDate env (the (ha_last_modified_time account)) of
            None \<Rightarrow> False
          | Some t \<Rightarrow> list_ex (\<lambda>tx. t < tx_updatedAt tx) txs)
      then [\<lparr>rd_type = ''STALE_LEDGER_STATE'', rd_severity = Info, rd_asset = None, rd_assetIssuer = None\<rparr>]
      else [])"

definition reconcileWallet ::
  "wallet_env \<Rightarrow> string \<Rightarrow> string option \<Rightarrow> (wallet_state, reconciliation_report) M" where
  "reconcileWallet env userId walletId =
     bindM (chosen_wallet userId walletId) (\<lambda>wallet.
     bindM (readM (\<lambda>s. take 100 (we_recent env (filter (\<lambda>t. tx_walletId t = w_id wallet) (ws_transactions s))))) (\<lambda>txs.
     let expectedAssets = expectedAssetsFromTransactions txs
     in case we_loadAccount env (w_publicKey wallet) of
          Inl e \<Rightarrow>
            if isHorizonNotFound e
            then ret (buildReconciliationReport wallet expectedAssets [] txs
                   [\<lparr>rd_type = ''ON_CHAIN_ACCOUNT_NOT_FOUND'', rd_severity = Critical, rd_asset = None,
                     rd_assetIssuer = None\<rparr>] None)
            else throw e
        | Inr account \<Rightarrow>
            let onChainAssets = assetsFromHorizonBalances (balances_of account)
            in ret (buildReconciliationReport wallet expectedAssets onChainAssets txs
                 (missing_trustlines expectedAssets onChainAssets @ stale_ledger env account txs) (Some account))))"

section \<open>The ownership guard and the controller\<close>

definition ownership_guard :: "string option \<Rightarrow> string option \<Rightarrow> (wallet_state, bool) M" where
  "ownership_guard userId walletId =
     (if \<not> truthy userId \<or> \<not> truthy walletId then throw (ForbiddenException ''Wallet access denied'')
      else bindM (readM (find_wallet_id (the walletId))) (\<lambda>found.
        case found of
          None \<Rightarrow> throw (ForbiddenException ''Wallet access denied'')
        | Some wallet \<Rightarrow>
            if w_userId wallet \<noteq> the userId then throw (ForbiddenException ''Wallet access denied'') else ret True))"

text \<open>The answers of the endpoints keep the fields that they name; \<open>publicKey\<close> is that of a random key pair.\<close>

definition ctl_create ::
  "wallet_env \<Rightarrow> int \<Rightarrow> string \<Rightarrow> string \<Rightarrow> string \<Rightarrow> string option \<Rightarrow> (wallet_state, string \<times> string) M" where
  "ctl_create env now newId publicKey userId alias =
     bindM (createWallet env now newId userId publicKey alias) (\<lambda>wallet. ret (w_id wallet, publicKey))"

definition ctl_list :: "string \<Rightarrow> (wallet_state, (string \<times> string \<times> string option \<times> bool \<times> int) list) M" where
  "ctl_list userId =
     bindM (getWallets userId) (\<lambda>ws.
     ret (map (\<lambda>w. (w_id w, w_publicKey w, w_alias w, w_isDefault w, w_createdAt w)) ws))"

definition ctl_setDefault ::
  "wallet_env \<Rightarrow> string \<Rightarrow> string \<Rightarrow> (wallet_state, string \<times> string \<times> string option \<times> bool) M" where
  "ctl_setDefault env walletId userId =
     thenM (ownership_guard (Some userId) (Some walletId))
    (bindM (setDefaultWallet env walletId userId) (\<lambda>w. ret (w_id w, w_publicKey w, w_alias w, w_isDefault w)))"

definition ctl_updateAlias ::
  "wallet_env \<Rightarrow> string \<Rightarrow> string \<Rightarrow> string option \<Rightarrow> (wallet_state, string \<times> string \<times> string option) M" where
  "ctl_updateAlias env walletId userId alias =
     thenM (ownership_guard (Some userId) (Some walletId))
    (bindM (updateWalletAlias env walletId userId alias) (\<lambda>w. ret (w_id w, w_publicKey w, w_alias w)))"

definition ctl_delete :: "wallet_env \<Rightarrow> string \<Rightarrow> string \<Rightarrow> (wallet_state, unit) M" where
  "ctl_delete env walletId userId =
     thenM (ownership_guard (Some userId) (Some walletId)) (deleteWallet env walletId userId)"

section \<open>The external signer\<close>

record SignerRequest =
  sg_requestId :: string
  sg_walletId :: string
  sg_expectedPublicKey :: string
  sg_unsignedTransactionXdr :: string
  sg_network :: string

text \<open>\<open>None\<close> is an undefined field.\<close>

record SignerResponse =
  sr_signedTransactionXdr :: "json option"
  sr_signerPublicKey :: "json option"
  sr_requestId :: "json option"

record DelegatedSigningResult =
  ds_signedTransactionXdr :: string
  ds_signerPublicKey :: string
  ds_requestId :: string

abbreviation BadGatewayException :: "string \<Rightarrow> exn" where "BadGatewayException \<equiv> HttpException 502"

definition strip_end_slash :: "string \<Rightarrow> string" where
  "strip_end_slash u = (if u \<noteq> [] \<and> last u = CHR ''/'' then butlast u else u)"

definition vault_signTransaction ::
  "wallet_env \<Rightarrow> (string \<Rightarrow> string \<Rightarrow> SignerRequest \<Rightarrow> SignerResponse res) \<Rightarrow> string \<Rightarrow> string \<Rightarrow> string \<Rightarrow>
     (wallet_state, DelegatedSigningResult) M" where
  "vault_signTransaction env post requestId userId unsignedTransactionXdr =
     bindM (readM (\<lambda>s. find (\<lambda>w. w_userId w = userId) (ws_wallets s))) (\<lambda>found.
     case found of
       None \<Rightarrow> throw (NotFoundException ''Wallet not found'')
     | Some wallet \<Rightarrow>
         if \<not> truthy (we_vars env ''SIGNER_URL'') \<or> \<not> truthy (we_vars env ''SIGNER_AUTH_TOKEN'')
         then throw (HttpException 503 ''Delegated signer is not configured'')
         else
           (case post (strip_end_slash (the (we_vars env ''SIGNER_URL'')) @ ''/v1/sign'')
                      (''Bearer '' @ the (we_vars env ''SIGNER_AUTH_TOKEN''))
                      \<lparr>sg_requestId = requestId, sg_walletId = w_id wallet, sg_expectedPublicKey = w_publicKey wallet,
                       sg_unsignedTransactionXdr = unsignedTransactionXdr,
                       sg_network = (case we_vars env ''STELLAR_NETWORK'' of None \<Rightarrow> ''testnet'' | Some n \<Rightarrow> n)\<rparr> of
              Inl _ \<Rightarrow> throw (BadGatewayException ''Delegated signer failed'')
            | Inr response \<Rightarrow>
                (case (sr_signedTransactionXdr response, sr_signerPublicKey response) of
                   (Some (JString xdr), Some (JString signer)) \<Rightarrow>
                     if signer \<noteq> w_publicKey wallet \<or>
                        (sr_requestId response \<noteq> None \<and> sr_requestId response \<noteq> Some (JString requestId))
                     then throw (BadGatewayException ''Delegated signer returned an invalid response'')
                     else ret \<lparr>ds_signedTransactionXdr = xdr, ds_signerPublicKey = signer, ds_requestId = requestId\<rparr>
                 | _ \<Rightarrow> throw (BadGatewayException ''Delegated signer returned an invalid response''))))"

definition signTransaction ::
  "wallet_env \<Rightarrow> (string \<Rightarrow> string \<Rightarrow> SignerRequest \<Rightarrow> SignerResponse res) option \<Rightarrow> string \<Rightarrow> string \<Rightarrow> string \<Rightarrow>
     (wallet_state, DelegatedSigningResult) M" where
  "signTransaction env vaultService requestId userId xdr =
     (case vaultService of
        None \<Rightarrow> throw (Error ''Delegated signer is not configured'')
      | Some post \<Rightarrow> vault_signTransaction env post requestId userId xdr)"

section \<open>The invariant of the table\<close>

text \<open>
  No two rows clash; a user with wallets has one default and at most five; an alias
  has at most 32 characters.
\<close>

definition defaults_of :: "string \<Rightarrow> wallet_row list \<Rightarrow> wallet_row list" where
  "defaults_of u rows = filter (\<lambda>w. w_userId w = u \<and> w_isDefault w) rows"

definition owned :: "string \<Rightarrow> wallet_row list \<Rightarrow> wallet_row list" where
  "owned u rows = filter (\<lambda>w. w_userId w = u) rows"

definition alias_ok :: "wallet_row \<Rightarrow> bool" where
  "alias_ok w = (case w_alias w of None \<Rightarrow> True | Some a \<Rightarrow> length a \<le> 32)"

definition wallets_ok :: "wallet_row list \<Rightarrow> bool" where
  "wallets_ok rows =
     (sorted_wrt (\<lambda>v w. \<not> clashes v w) rows \<and> list_all alias_ok rows \<and>
      list_all (\<lambda>u. length (owned u rows) \<le> 5 \<and> length (defaults_of u rows) = 1) (map w_userId rows))"

lemma owned_empty: "owned u rows = [] \<longleftrightarrow> u \<notin> w_userId ` set rows"
  by (auto simp: owned_def filter_empty_conv)

lemma defaults_empty: "owned u rows = [] \<Longrightarrow> defaults_of u rows = []"
  by (auto simp: owned_def defaults_of_def filter_empty_conv)

lemma wallets_ok_iff:
  "wallets_ok rows \<longleftrightarrow> sorted_wrt (\<lambda>v w. \<not> clashes v w) rows \<and> list_all alias_ok rows \<and>
     (\<forall>u. length (owned u rows) \<le> 5 \<and> length (defaults_of u rows) = (if owned u rows = [] then 0 else 1))"
proof -
  have "(\<forall>u. length (owned u rows) \<le> 5 \<and> length (defaults_of u rows) = (if owned u rows = [] then 0 else 1)) \<longleftrightarrow>
      list_all (\<lambda>u. length (owned u rows) \<le> 5 \<and> length (defaults_of u rows) = 1) (map w_userId rows)" (is "?l = ?r")
  proof
    assume ?l
    then show ?r by (auto simp: list_all_iff owned_empty split: if_splits)
  next
    assume r: ?r
    show ?l
    proof
      fix u
      show "length (owned u rows) \<le> 5 \<and> length (defaults_of u rows) = (if owned u rows = [] then 0 else 1)"
      proof (cases "owned u rows = []")
        case True
        then show ?thesis using defaults_empty [OF True] by simp
      next
        case False
        then have "u \<in> set (map w_userId rows)" by (simp add: owned_empty)
        then show ?thesis using r False by (simp only: list_all_iff) simp
      qed
    qed
  qed
  then show ?thesis unfolding wallets_ok_def by blast
qed

lemma clashes_sym: "clashes v w = clashes w v"
  unfolding clashes_def by metis

lemma unclashed_unique:
  assumes "sorted_wrt (\<lambda>v w. \<not> clashes v w) rows" and "v \<in> set rows" and "w \<in> set rows" and "clashes v w"
  shows "v = w"
proof (rule ccontr)
  assume "v \<noteq> w"
  then obtain i j where "i < length rows" "j < length rows" "rows ! i = v" "rows ! j = w" "i \<noteq> j"
    using assms(2,3) by (auto simp: in_set_conv_nth)
  then show False
    using assms(1,4) clashes_sym [of v w] by (auto simp: sorted_wrt_iff_nth_less neq_iff)
qed

lemma ok_unique:
  "wallets_ok rows \<Longrightarrow> v \<in> set rows \<Longrightarrow> w \<in> set rows \<Longrightarrow> clashes v w \<Longrightarrow> v = w"
  unfolding wallets_ok_def by (blast intro: unclashed_unique)

lemma ok_unique_id: "wallets_ok rows \<Longrightarrow> v \<in> set rows \<Longrightarrow> w \<in> set rows \<Longrightarrow> w_id v = w_id w \<Longrightarrow> v = w"
  using ok_unique by (simp add: clashes_def)

lemma ok_distinct: "wallets_ok rows \<Longrightarrow> distinct (map w_id rows)"
  by (auto simp: wallets_ok_def distinct_conv_nth sorted_wrt_iff_nth_less clashes_def) (metis nat_neq_iff)

lemma filter_unique_id:
  "distinct (map w_id rows) \<Longrightarrow> w \<in> set rows \<Longrightarrow> filter (\<lambda>v. w_id v = w_id w) rows = [w]"
  by (induction rows) (auto simp: filter_empty_conv image_iff)

lemma ok_find:
  assumes "wallets_ok (ws_wallets s)" and "w \<in> set (ws_wallets s)"
  shows "find_wallet_id (w_id w) s = Some w"
  unfolding find_wallet_id_def by (rule find_key [OF ok_distinct [OF assms(1)] assms(2)])

text \<open>What the invariant reads of a row.\<close>

definition wcore :: "wallet_row \<Rightarrow> string \<times> string \<times> string \<times> string option \<times> bool" where
  "wcore w = (w_id w, w_userId w, w_publicKey w, w_alias w, w_isDefault w)"

lemma wcore_clashes: "wcore v = wcore v' \<Longrightarrow> wcore w = wcore w' \<Longrightarrow> clashes v w = clashes v' w'"
  by (simp add: wcore_def clashes_def)

lemma filter_wcore_length:
  assumes "map wcore rows = map wcore rows'" and "\<And>v w. wcore v = wcore w \<Longrightarrow> P v = P w"
  shows "length (filter P rows) = length (filter P rows')"
proof -
  have "list_all2 (\<lambda>v w. wcore v = wcore w) rows rows'"
    using assms(1) by (simp add: list_all2_conv_all_nth list_eq_iff_nth_eq)
  then show ?thesis
  proof (induction rule: list_all2_induct)
    case (Cons v rows w rows')
    then have "P v = P w" by (intro assms(2))
    then show ?case using Cons.IH by simp
  qed simp
qed

lemma wallets_ok_wcore:
  assumes "map wcore rows = map wcore rows'" and "wallets_ok rows"
  shows "wallets_ok rows'"
proof -
  have len: "length rows = length rows'" using arg_cong [OF assms(1), of length] by simp
  have c: "wcore (rows ! i) = wcore (rows' ! i)" if "i < length rows'" for i
    using arg_cong [OF assms(1), of "\<lambda>xs. xs ! i"] that len by simp
  have "sorted_wrt (\<lambda>v w. \<not> clashes v w) rows'"
    unfolding sorted_wrt_iff_nth_less
  proof (intro allI impI)
    fix i j
    assume ij: "i < j" "j < length rows'"
    then have "\<not> clashes (rows ! i) (rows ! j)"
      using assms(2) len by (simp add: wallets_ok_def sorted_wrt_iff_nth_less)
    then show "\<not> clashes (rows' ! i) (rows' ! j)" using wcore_clashes [OF c c, of i j] ij by simp
  qed
  moreover have "list_all alias_ok rows'"
    using assms(2) c len unfolding wallets_ok_def list_all_length by (auto simp: alias_ok_def wcore_def)
  moreover have "length (owned u rows') = length (owned u rows)"
      "length (defaults_of u rows') = length (defaults_of u rows)" for u
    unfolding owned_def defaults_of_def by (rule filter_wcore_length [OF assms(1) [symmetric]], simp add: wcore_def)+
  moreover have "owned u rows' = [] \<longleftrightarrow> owned u rows = []" for u
    using calculation(3) [of u] by (metis length_0_conv)
  ultimately show ?thesis using assms(2) unfolding wallets_ok_iff by simp
qed

section \<open>The operations keep it\<close>

lemma getWalletById_eq:
  "getWalletById i u s =
     (case find_wallet_id i s of
        None \<Rightarrow> (Inl (NotFoundException ''Wallet not found''), s)
      | Some w \<Rightarrow> if w_userId w = u then (Inr w, s) else (Inl (NotFoundException ''Wallet not found''), s))"
  by (simp add: getWalletById_def M_defs split: option.splits)

lemma find_wallet_idD: "find_wallet_id i s = Some w \<Longrightarrow> w \<in> set (ws_wallets s) \<and> w_id w = i"
  unfolding find_wallet_id_def by (drule find_Some_D) simp

lemma wallets_ok_snoc:
  assumes "wallets_ok rows" and "\<And>v. v \<in> set rows \<Longrightarrow> \<not> clashes v w" and "alias_ok w"
    and "length (owned (w_userId w) rows) < 5" and "w_isDefault w = (owned (w_userId w) rows = [])"
  shows "wallets_ok (rows @ [w])"
proof -
  have own: "owned u (rows @ [w]) = owned u rows @ (if w_userId w = u then [w] else [])" for u
    by (simp add: owned_def)
  have def: "defaults_of u (rows @ [w]) = defaults_of u rows @ (if w_userId w = u \<and> w_isDefault w then [w] else [])" for u
    by (simp add: defaults_of_def)
  show ?thesis
    using assms unfolding wallets_ok_iff own def by (auto simp: sorted_wrt_append)
qed

lemma alias_ok_new: "alias_ok (new_wallet now i u pk alias d) = (\<not> too_long alias)"
  by (auto simp: alias_ok_def new_wallet_def too_long_def split: option.splits)

lemma fund_keeps: "snd (fund_on_testnet env s) = s"
  by (simp add: fund_on_testnet_def M_defs split: option.splits)

text \<open>Creating a wallet changes nothing, or adds a row that keeps the invariant.\<close>

lemma createWallet_cases:
  assumes "createWallet env now i u pk alias s = (r, s')"
  shows "(\<exists>e. r = Inl e) \<and> s' = s \<or>
    (s' = s\<lparr>ws_wallets := ws_wallets s @ [new_wallet now i u pk alias (owned u (ws_wallets s) = [])]\<rparr> \<and>
     length (owned u (ws_wallets s)) < 5 \<and> \<not> too_long alias \<and>
     (\<forall>v \<in> set (ws_wallets s). \<not> clashes v (new_wallet now i u pk alias (owned u (ws_wallets s) = []))) \<and>
     (r = Inr (new_wallet now i u pk alias (owned u (ws_wallets s) = [])) \<or> (\<exists>e. r = Inl e)))"
proof -
  define w where "w = new_wallet now i u pk alias (owned u (ws_wallets s) = [])"
  consider (limit) "\<not> length (owned u (ws_wallets s)) < 5" | (nickname) "length (owned u (ws_wallets s)) < 5" "too_long alias"
    | (create) "length (owned u (ws_wallets s)) < 5" "\<not> too_long alias" by blast
  then show ?thesis
  proof cases
    case create
    let ?cols = "[''userId'', ''publicKey'', ''alias'', ''isDefault'']"
    have run: "createWallet env now i u pk alias s =
        bindM (create_row env ?cols w) (\<lambda>x. thenM (fund_on_testnet env) (ret x)) s"
      using create by (simp add: createWallet_def M_defs owned_def w_def Let_def)
    show ?thesis
    proof (cases "fst (create_row env ?cols w s)")
      case (Inl e)
      then have "createWallet env now i u pk alias s = (Inl e, s)"
        unfolding run by (auto simp: bindM_def create_row_def split: if_splits)
      then show ?thesis using assms by simp
    next
      case (Inr x)
      then have x: "x = w" and ok: "\<forall>v \<in> set (ws_wallets s). \<not> clashes v w"
        and c: "create_row env ?cols w s = (Inr w, s\<lparr>ws_wallets := ws_wallets s @ [w]\<rparr>)"
        by (auto simp: create_row_def split: if_splits)
      have "s' = s\<lparr>ws_wallets := ws_wallets s @ [w]\<rparr> \<and> (r = Inr w \<or> (\<exists>e. r = Inl e))"
        using assms unfolding run
        by (auto simp: bindM_def c thenM_def ret_def fund_on_testnet_def throw_def split: option.splits if_splits)
      then show ?thesis using create ok by (simp add: w_def)
    qed
  qed (use assms in \<open>auto simp: createWallet_def M_defs owned_def Let_def\<close>)
qed

lemma createWallet_ok:
  assumes "wallets_ok (ws_wallets s)"
  shows "wallets_ok (ws_wallets (snd (createWallet env now i u pk alias s)))"
proof -
  obtain r s' where run: "createWallet env now i u pk alias s = (r, s')" by (cases "createWallet env now i u pk alias s")
  define w where "w = new_wallet now i u pk alias (owned u (ws_wallets s) = [])"
  have w: "w_userId w = u" "w_isDefault w = (owned u (ws_wallets s) = [])" by (simp_all add: w_def new_wallet_def)
  from createWallet_cases [OF run] show ?thesis
  proof
    assume "s' = s\<lparr>ws_wallets := ws_wallets s @ [new_wallet now i u pk alias (owned u (ws_wallets s) = [])]\<rparr> \<and>
     length (owned u (ws_wallets s)) < 5 \<and> \<not> too_long alias \<and>
     (\<forall>v \<in> set (ws_wallets s). \<not> clashes v (new_wallet now i u pk alias (owned u (ws_wallets s) = []))) \<and>
     (r = Inr (new_wallet now i u pk alias (owned u (ws_wallets s) = [])) \<or> (\<exists>e. r = Inl e))"
    then have "s' = s\<lparr>ws_wallets := ws_wallets s @ [w]\<rparr>" "length (owned u (ws_wallets s)) < 5" "alias_ok w"
      "\<And>v. v \<in> set (ws_wallets s) \<Longrightarrow> \<not> clashes v w"
      by (simp_all add: w_def alias_ok_new)
    then show ?thesis using wallets_ok_snoc [OF assms, of w] w by (simp add: run)
  qed (use assms run in simp)
qed

text \<open>An update that leaves the unique columns and the default alone.\<close>

lemma update_row_wcore:
  assumes "wallets_ok (ws_wallets s)" and "\<And>w. wcore (f w) = wcore w"
  shows "wallets_ok (ws_wallets (snd (update_row env cols P f s)))"
proof -
  have "map wcore (update_where Q f rows) = map wcore rows" for Q rows using assms(2) by simp
  then show ?thesis
    using assms(1) wallets_ok_wcore [of "ws_wallets s"] by (auto simp: update_row_def split: option.splits)
qed

lemma importWallet_ok:
  assumes "wallets_ok (ws_wallets s)"
  shows "wallets_ok (ws_wallets (snd (importWallet env now i iv u sk alias s)))"
proof -
  have upd: "wallets_ok (ws_wallets (snd (update_row env cols P (\<lambda>w. w\<lparr>w_encryptedSecret := x\<rparr>) t)))"
    if "wallets_ok (ws_wallets t)" for cols P x t
    using that by (rule update_row_wcore) (simp add: wcore_def)
  show ?thesis
    using assms createWallet_ok [OF assms]
    by (auto simp: importWallet_def bindM_def liftR_def intro: upd split: sum.splits prod.splits) (metis snd_conv upd)+
qed

text \<open>A change of an alias.\<close>

lemma updateWalletAlias_ok:
  assumes "wallets_ok (ws_wallets s)"
  shows "wallets_ok (ws_wallets (snd (updateWalletAlias env i u alias s)))"
proof (cases "fst (updateWalletAlias env i u alias s)")
  case (Inl e)
  then have "snd (updateWalletAlias env i u alias s) = s"
    by (auto simp: updateWalletAlias_def thenM_def bindM_def getWalletById_eq guardM_def update_row_def
        split: option.splits if_splits sum.splits prod.splits)
  then show ?thesis using assms by simp
next
  case (Inr x)
  let ?f = "\<lambda>w. w\<lparr>w_alias := alias\<rparr>"
  let ?rows = "ws_wallets s"
  obtain w where w: "w \<in> set ?rows" "w_id w = i" and short: "\<not> too_long alias"
    and free: "\<And>v. v \<in> set ?rows \<Longrightarrow> w_id v \<noteq> i \<Longrightarrow> \<not> clashes v (?f w)"
    and rows': "ws_wallets (snd (updateWalletAlias env i u alias s)) = update_where (\<lambda>v. w_id v = i) ?f ?rows"
    using Inr find_wallet_idD [of i s]
    by (auto simp: updateWalletAlias_def thenM_def bindM_def getWalletById_eq guardM_def update_row_def
        find_wallet_id_def [symmetric] split: option.splits if_splits sum.splits prod.splits)
  let ?g = "\<lambda>v. if w_id v = i then ?f v else v"
  have eq: "update_where (\<lambda>v. w_id v = i) ?f ?rows = map ?g ?rows" by (simp add: update_where_def)
  have only: "v = w" if "v \<in> set ?rows" "w_id v = i" for v
    using ok_unique_id [OF assms that(1) w(1)] that w(2) by simp
  have "\<not> clashes (?g (?rows ! a)) (?g (?rows ! b))" if ab: "a < b" "b < length ?rows" for a b
  proof -
    have in1: "?rows ! a \<in> set ?rows" and in2: "?rows ! b \<in> set ?rows" using ab by simp_all
    have nc: "\<not> clashes (?rows ! a) (?rows ! b)" using assms ab by (simp add: wallets_ok_def sorted_wrt_iff_nth_less)
    then have ne: "w_id (?rows ! a) \<noteq> w_id (?rows ! b)" by (simp add: clashes_def)
    consider "w_id (?rows ! a) = i" | "w_id (?rows ! b) = i" "w_id (?rows ! a) \<noteq> i"
      | "w_id (?rows ! a) \<noteq> i" "w_id (?rows ! b) \<noteq> i" by blast
    then show ?thesis
    proof cases
      case 1
      then have "\<not> clashes (?rows ! b) (?f (?rows ! a))" using free [OF in2] only [OF in1] ne by simp
      then show ?thesis using 1 ne clashes_sym [of "?rows ! b"] by simp
    next
      case 2
      then show ?thesis using free [OF in1] only [OF in2] by simp
    qed (use nc in simp)
  qed
  then have "sorted_wrt (\<lambda>v w. \<not> clashes v w) (map ?g ?rows)" by (simp add: sorted_wrt_iff_nth_less)
  moreover have "list_all alias_ok (map ?g ?rows)"
    using assms short by (auto simp: wallets_ok_def list_all_iff alias_ok_def too_long_def split: option.splits)
  moreover have "length (owned k (map ?g ?rows)) = length (owned k ?rows)"
    and "length (defaults_of k (map ?g ?rows)) = length (defaults_of k ?rows)" for k
    unfolding owned_def defaults_of_def by (simp_all add: filter_map comp_def if_distrib cong: if_cong)
  moreover have "map w_userId (map ?g ?rows) = map w_userId ?rows" by simp
  ultimately show ?thesis using assms unfolding rows' eq wallets_ok_def by (simp only:)
qed

text \<open>What \<open>setDefaultWallet\<close> makes of the rows.\<close>

definition assign_default :: "string \<Rightarrow> string \<Rightarrow> wallet_row list \<Rightarrow> wallet_row list" where
  "assign_default u i rows = map (\<lambda>w. if w_userId w = u then w\<lparr>w_isDefault := (w_id w = i)\<rparr> else w) rows"

lemma assign_default_wallet:
  assumes "wallets_ok rows" and "w \<in> set rows" and "w_userId w = u" and "w_id w = i"
  shows "wallets_ok (assign_default u i rows)"
proof -
  let ?g = "\<lambda>w. if w_userId w = u then w\<lparr>w_isDefault := (w_id w = i)\<rparr> else w"
  have cl: "clashes (?g v) (?g v') = clashes v v'" for v v' by (simp add: clashes_def)
  have own: "owned k (map ?g rows) = map ?g (owned k rows)" for k
    by (simp add: owned_def filter_map comp_def if_distrib cong: if_cong)
  have "length (defaults_of k (map ?g rows)) = (if k = u then 1 else length (defaults_of k rows))" for k
  proof (cases "k = u")
    case True
    have "filter (\<lambda>v. w_id v = i) rows = [w]"
      using filter_unique_id [OF ok_distinct [OF assms(1)] assms(2)] assms(4) by simp
    moreover have "filter (\<lambda>v. w_userId v = u \<and> w_id v = i) rows = filter (\<lambda>v. w_id v = i) rows"
      by (rule filter_cong) (use ok_unique_id [OF assms(1) _ assms(2)] assms(3,4) in auto)
    moreover have "length (defaults_of u (map ?g rows)) = length (filter (\<lambda>v. w_userId v = u \<and> w_id v = i) rows)"
      unfolding defaults_of_def by (simp add: filter_map comp_def) (rule arg_cong [of _ _ length], rule filter_cong, auto)
    ultimately show ?thesis using True by simp
  next
    case False
    then have "length (defaults_of k (map ?g rows)) = length (defaults_of k rows)"
      unfolding defaults_of_def by (simp add: filter_map comp_def) (rule arg_cong [of _ _ length], rule filter_cong, auto)
    then show ?thesis using False by simp
  qed
  moreover have "owned u rows \<noteq> []" using assms(2,3) by (auto simp: owned_empty)
  moreover have "list_all alias_ok (map ?g rows) = list_all alias_ok rows"
  proof -
    have "alias_ok (?g v) = alias_ok v" for v by (simp add: alias_ok_def)
    then show ?thesis by (simp add: list.pred_map comp_def)
  qed
  ultimately show ?thesis
    using assms(1) unfolding assign_default_def wallets_ok_iff own
    by (simp add: sorted_wrt_map cl)
qed

lemma setDefaultWallet_eq:
  assumes ok: "wallets_ok (ws_wallets s)" and cols: "''isDefault'' \<in> set (we_columns env)"
    and w: "find_wallet_id i s = Some w" "w_userId w = u"
  shows "setDefaultWallet env i u s =
    (Inr (w\<lparr>w_isDefault := True\<rparr>), s\<lparr>ws_wallets := assign_default u i (ws_wallets s)\<rparr>)"
proof -
  let ?c = "\<lambda>w. w\<lparr>w_isDefault := False\<rparr>"
  let ?rows = "ws_wallets s"
  define rows1 where "rows1 = update_where (\<lambda>w. w_userId w = u \<and> w_isDefault w) ?c ?rows"
  have win: "w \<in> set ?rows" "w_id w = i" using find_wallet_idD [OF w(1)] by simp_all
  have core: "w_id (?c v) = w_id v" for v :: wallet_row by simp
  have f1: "find (\<lambda>v. w_id v = i) rows1 = Some (?c w)"
    unfolding rows1_def
    by (subst find_update_where) (use w in \<open>auto simp: find_wallet_id_def\<close>)
  have nc: "\<not> (\<exists>v \<in> set rows1. w_id v \<noteq> i \<and> clashes v (w\<lparr>w_isDefault := True\<rparr>))"
  proof
    assume "\<exists>v \<in> set rows1. w_id v \<noteq> i \<and> clashes v (w\<lparr>w_isDefault := True\<rparr>)"
    moreover have "clashes (?c v) (w\<lparr>w_isDefault := True\<rparr>) = clashes v w"
      "clashes v (w\<lparr>w_isDefault := True\<rparr>) = clashes v w" for v by (simp_all add: clashes_def)
    ultimately obtain v where v: "v \<in> set ?rows" "w_id v \<noteq> i" "clashes v w"
      by (auto simp: rows1_def set_update_where split: if_splits)
    then show False using ok_unique [OF ok v(1) win(1) v(3)] win(2) by simp
  qed
  have "update_where (\<lambda>v. w_id v = i) (\<lambda>w. w\<lparr>w_isDefault := True\<rparr>) rows1 = assign_default u i ?rows"
    unfolding rows1_def assign_default_def update_where_def map_map
    by (rule map_cong [OF refl]) (use ok_unique_id [OF ok _ win(1)] win(2) w(2) in \<open>auto simp: comp_def\<close>)
  then show ?thesis
    using w f1 nc cols win(2)
    by (simp add: setDefaultWallet_def thenM_def bindM_def getWalletById_eq clear_default_def modifyM_def mark_default_def
        update_row_def rows1_def [symmetric])
qed

lemma wallets_ok_remove:
  assumes "wallets_ok rows" and "\<And>w. w \<in> set rows \<Longrightarrow> w_id w = i \<Longrightarrow> \<not> w_isDefault w"
  shows "wallets_ok (filter (\<lambda>w. w_id w \<noteq> i) rows)" (is "wallets_ok ?r")
proof -
  have def: "defaults_of u ?r = defaults_of u rows" for u
    unfolding defaults_of_def filter_filter by (rule filter_cong) (use assms(2) in auto)
  have own: "owned u ?r = filter (\<lambda>w. w_id w \<noteq> i) (owned u rows)" for u
    by (simp add: owned_def conj_commute)
  have "length (owned u ?r) \<le> 5 \<and> length (defaults_of u ?r) = (if owned u ?r = [] then 0 else 1)" for u
  proof -
    have "length (owned u ?r) \<le> length (owned u rows)" unfolding own by (rule length_filter_le)
    moreover have "owned u rows \<noteq> []" if "owned u ?r \<noteq> []" using that unfolding own by auto
    moreover have "defaults_of u rows = []" if "owned u ?r = []" using defaults_empty [OF that] def by simp
    moreover have "length (owned u rows) \<le> 5" "length (defaults_of u rows) = (if owned u rows = [] then 0 else 1)"
      using assms(1) unfolding wallets_ok_iff by blast+
    ultimately show ?thesis unfolding def by (cases "owned u ?r = []") auto
  qed
  moreover have "sorted_wrt (\<lambda>v w. \<not> clashes v w) ?r" "list_all alias_ok ?r"
    using assms(1) by (auto simp: wallets_ok_def list_all_iff intro: sorted_wrt_filter)
  ultimately show ?thesis unfolding wallets_ok_iff by blast
qed

text \<open>The run of \<open>deleteWallet\<close> past its checks.\<close>

lemma deleteWallet_eq:
  assumes ok: "wallets_ok (ws_wallets s)" and cols: "''isDefault'' \<in> set (we_columns env)"
    and w: "find_wallet_id i s = Some w" "w_userId w = u" and more: "1 < length (owned u (ws_wallets s))"
  obtains j where "w_isDefault w \<Longrightarrow> \<exists>v \<in> set (ws_wallets s). w_id v = j \<and> w_userId v = u \<and> j \<noteq> i"
    and "deleteWallet env i u s =
      delete_row i (if w_isDefault w then s\<lparr>ws_wallets := assign_default u j (ws_wallets s)\<rparr> else s)"
proof (cases "w_isDefault w")
  case False
  then show ?thesis
    using that [of i] w more by (simp add: deleteWallet_def M_defs getWalletById_eq owned_def)
next
  case True
  let ?rows = "ws_wallets s"
  have win: "w \<in> set ?rows" "w_id w = i" using find_wallet_idD [OF w(1)] by simp_all
  have "\<exists>v \<in> set ?rows. w_userId v = u \<and> w_id v \<noteq> i"
  proof (rule ccontr)
    assume none: "\<not> (\<exists>v \<in> set ?rows. w_userId v = u \<and> w_id v \<noteq> i)"
    have "set (owned u ?rows) \<subseteq> {w}"
    proof
      fix v
      assume "v \<in> set (owned u ?rows)"
      then have "v \<in> set ?rows" "w_id v = i" using none by (auto simp: owned_def)
      then show "v \<in> {w}" using ok_unique_id [OF ok _ win(1)] win(2) by simp
    qed
    moreover have "distinct (owned u ?rows)"
      unfolding owned_def by (rule distinct_filter) (use ok_distinct [OF ok] in \<open>simp add: distinct_map\<close>)
    ultimately have "length (owned u ?rows) \<le> 1"
      by (metis card_mono distinct_card finite.emptyI finite.insertI is_singletonI is_singleton_altdef)
    then show False using more by simp
  qed
  then obtain v where v: "find (\<lambda>w. w_userId w = u \<and> w_id w \<noteq> i) ?rows = Some v"
    by (cases "find (\<lambda>w. w_userId w = u \<and> w_id w \<noteq> i) ?rows") (auto simp: find_None_iff)
  have vin: "v \<in> set ?rows" "w_userId v = u" "w_id v \<noteq> i" using find_Some_D [OF v] by simp_all
  have "setDefaultWallet env (w_id v) u s =
      (Inr (v\<lparr>w_isDefault := True\<rparr>), s\<lparr>ws_wallets := assign_default u (w_id v) ?rows\<rparr>)"
    by (rule setDefaultWallet_eq [OF ok cols ok_find [OF ok vin(1)] vin(2)])
  then have "deleteWallet env i u s = delete_row i (s\<lparr>ws_wallets := assign_default u (w_id v) ?rows\<rparr>)"
    using w more True v by (simp add: deleteWallet_def M_defs getWalletById_eq owned_def)
  then show ?thesis using that [of "w_id v"] vin True by auto
qed

lemma deleteWallet_ok:
  assumes ok: "wallets_ok (ws_wallets s)" and cols: "''isDefault'' \<in> set (we_columns env)"
  shows "wallets_ok (ws_wallets (snd (deleteWallet env i u s)))"
proof (cases "\<exists>w. find_wallet_id i s = Some w \<and> w_userId w = u \<and> 1 < length (owned u (ws_wallets s))")
  case False
  then have "snd (deleteWallet env i u s) = s"
    by (auto simp: deleteWallet_def M_defs getWalletById_eq owned_def split: option.splits)
  then show ?thesis using ok by simp
next
  case True
  then obtain w where w: "find_wallet_id i s = Some w" "w_userId w = u" "1 < length (owned u (ws_wallets s))" by blast
  have win: "w \<in> set (ws_wallets s)" "w_id w = i" using find_wallet_idD [OF w(1)] by simp_all
  obtain j where j: "w_isDefault w \<Longrightarrow> \<exists>v \<in> set (ws_wallets s). w_id v = j \<and> w_userId v = u \<and> j \<noteq> i"
    and run: "deleteWallet env i u s =
      delete_row i (if w_isDefault w then s\<lparr>ws_wallets := assign_default u j (ws_wallets s)\<rparr> else s)"
    by (rule deleteWallet_eq [OF ok cols w]) blast
  define s1 where "s1 = (if w_isDefault w then s\<lparr>ws_wallets := assign_default u j (ws_wallets s)\<rparr> else s)"
  have "wallets_ok (ws_wallets s1)" using ok j assign_default_wallet [OF ok] by (auto simp: s1_def)
  moreover have "\<not> w_isDefault v" if "v \<in> set (ws_wallets s1)" "w_id v = i" for v
  proof (cases "w_isDefault w")
    case True
    then have "v \<in> set (assign_default u j (ws_wallets s))" using that(1) by (simp add: s1_def)
    then obtain v0 where v0: "v0 \<in> set (ws_wallets s)"
      and v: "v = (if w_userId v0 = u then v0\<lparr>w_isDefault := (w_id v0 = j)\<rparr> else v0)"
      by (auto simp: assign_default_def)
    have "w_id v0 = i" using v that(2) by (simp split: if_splits)
    then have "v0 = w" using ok_unique_id [OF ok v0 win(1)] win(2) by simp
    then show ?thesis using v w(2) win(2) j [OF True] by auto
  next
    case False
    then have "v \<in> set (ws_wallets s)" using that(1) by (simp add: s1_def)
    then have "v = w" using ok_unique_id [OF ok _ win(1)] that(2) win(2) by metis
    then show ?thesis using False by simp
  qed
  ultimately show ?thesis using wallets_ok_remove [of "ws_wallets s1" i] by (simp add: run s1_def [symmetric] delete_row_def)
qed

section \<open>Sequences of operations\<close>

datatype wallet_op =
    OpCreate int string string string "string option"
  | OpImport int string string string string "string option"
  | OpSetDefault string string
  | OpAlias string string "string option"
  | OpDelete string string
  | OpMultisig string string
  | OpFreeze string string
  | OpUnfreeze string string

fun wallet_exec :: "wallet_env \<Rightarrow> wallet_op \<Rightarrow> wallet_state \<Rightarrow> wallet_state" where
  "wallet_exec env (OpCreate now i u pk alias) s = snd (createWallet env now i u pk alias s)"
| "wallet_exec env (OpImport now i iv u sk alias) s = snd (importWallet env now i iv u sk alias s)"
| "wallet_exec env (OpSetDefault i u) s = snd (setDefaultWallet env i u s)"
| "wallet_exec env (OpAlias i u alias) s = snd (updateWalletAlias env i u alias s)"
| "wallet_exec env (OpDelete i u) s = snd (deleteWallet env i u s)"
| "wallet_exec env (OpMultisig i u) s = snd (enableMultisig env i u s)"
| "wallet_exec env (OpFreeze i u) s = snd (freezeWallet env i u s)"
| "wallet_exec env (OpUnfreeze i u) s = snd (unfreezeWallet env i u s)"

lemma setDefaultWallet_ok:
  assumes ok: "wallets_ok (ws_wallets s)" and cols: "''isDefault'' \<in> set (we_columns env)"
  shows "wallets_ok (ws_wallets (snd (setDefaultWallet env i u s)))"
proof (cases "\<exists>w. find_wallet_id i s = Some w \<and> w_userId w = u")
  case True
  then obtain w where w: "find_wallet_id i s = Some w" "w_userId w = u" by blast
  then show ?thesis
    using assign_default_wallet [OF ok, of w] find_wallet_idD [OF w(1)] by (simp add: setDefaultWallet_eq [OF ok cols w])
next
  case False
  then have "snd (setDefaultWallet env i u s) = s"
    by (auto simp: setDefaultWallet_def thenM_def bindM_def getWalletById_eq split: option.splits)
  then show ?thesis using ok by simp
qed

lemma wallet_exec_ok:
  assumes "wallets_ok (ws_wallets s)" and "''isDefault'' \<in> set (we_columns env)"
  shows "wallets_ok (ws_wallets (wallet_exec env x s))"
  using assms
  by (cases x)
    (simp_all add: createWallet_ok importWallet_ok setDefaultWallet_ok updateWalletAlias_ok deleteWallet_ok
      enableMultisig_def freezeWallet_def unfreezeWallet_def update_row_wcore wcore_def)

section \<open>Overlapping changes of the default\<close>

text \<open>Requests of one user to make different wallets the default; request \<open>k\<close> names the wallet \<open>ids k\<close>.\<close>

datatype sd_pc = SdStart | SdOwned | SdCleared | SdDone

definition sd_turn ::
  "wallet_env \<Rightarrow> string \<Rightarrow> (nat \<Rightarrow> string) \<Rightarrow> nat \<Rightarrow> (nat \<Rightarrow> sd_pc) \<times> wallet_state \<Rightarrow> (nat \<Rightarrow> sd_pc) \<times> wallet_state" where
  "sd_turn env u ids k cf =
     (case cf of (pcs, s) \<Rightarrow>
        (case pcs k of
           SdStart \<Rightarrow> (case fst (getWalletById (ids k) u s) of
                        Inl _ \<Rightarrow> (pcs(k := SdDone), s) | Inr _ \<Rightarrow> (pcs(k := SdOwned), s))
         | SdOwned \<Rightarrow> (pcs(k := SdCleared), snd (clear_default u s))
         | SdCleared \<Rightarrow> (pcs(k := SdDone), snd (mark_default env (ids k) s))
         | SdDone \<Rightarrow> (pcs, s)))"

definition sd_run :: "wallet_env \<Rightarrow> string \<Rightarrow> (nat \<Rightarrow> string) \<Rightarrow> nat list \<Rightarrow> wallet_state \<Rightarrow> wallet_state" where
  "sd_run env u ids schedule s = snd (fold (sd_turn env u ids) schedule (\<lambda>_. SdStart, s))"

text \<open>The turns of one request in a row are \<open>setDefaultWallet\<close>.\<close>

lemma sd_run_alone: "sd_run env u ids [k, k, k] s = snd (setDefaultWallet env (ids k) u s)"
  by (auto simp: sd_run_def sd_turn_def setDefaultWallet_def thenM_def bindM_def getWalletById_eq clear_default_def
      modifyM_def split: option.splits)

definition with_defaults :: "(wallet_row \<Rightarrow> bool) \<Rightarrow> wallet_row list \<Rightarrow> wallet_row list" where
  "with_defaults P rows = map (\<lambda>w. w\<lparr>w_isDefault := P w\<rparr>) rows"

lemma with_defaults_self: "rows = with_defaults w_isDefault rows"
  by (simp add: with_defaults_def)

lemma clear_with:
  assumes "ws_wallets s = with_defaults P rows"
  shows "ws_wallets (snd (clear_default u s)) = with_defaults (\<lambda>w. P w \<and> w_userId w \<noteq> u) rows"
  using assms by (auto simp: clear_default_def modifyM_def with_defaults_def update_where_def)

lemma find_with:
  assumes "wallets_ok rows" and "w \<in> set rows" and "ws_wallets s = with_defaults P rows"
  shows "find_wallet_id (w_id w) s = Some (w\<lparr>w_isDefault := P w\<rparr>)"
proof -
  let ?g = "\<lambda>w :: wallet_row. w\<lparr>w_isDefault := P w\<rparr>"
  have "find (\<lambda>v. w_id v = i) (map ?g xs) = map_option ?g (find (\<lambda>v. w_id v = i) xs)" for i xs
    by (induction xs) auto
  then show ?thesis
    using find_key [OF ok_distinct [OF assms(1)] assms(2)] by (simp add: find_wallet_id_def assms(3) with_defaults_def)
qed

lemma owned_with:
  assumes "wallets_ok rows" and "w \<in> set rows" and "ws_wallets s = with_defaults P rows" and "w_userId w = u"
  shows "fst (getWalletById (w_id w) u s) = Inr (w\<lparr>w_isDefault := P w\<rparr>)"
  using find_with [OF assms(1-3)] assms(4) by (simp add: getWalletById_eq)

lemma mark_with:
  assumes ok: "wallets_ok rows" and w: "w \<in> set rows" and s: "ws_wallets s = with_defaults P rows"
    and cols: "''isDefault'' \<in> set (we_columns env)"
  shows "ws_wallets (snd (mark_default env (w_id w) s)) = with_defaults (\<lambda>v. P v \<or> w_id v = w_id w) rows"
proof -
  let ?f = "\<lambda>w :: wallet_row. w\<lparr>w_isDefault := True\<rparr>"
  have "\<not> (\<exists>v \<in> set (ws_wallets s). w_id v \<noteq> w_id w \<and> clashes v (?f (w\<lparr>w_isDefault := P w\<rparr>)))"
  proof
    assume "\<exists>v \<in> set (ws_wallets s). w_id v \<noteq> w_id w \<and> clashes v (?f (w\<lparr>w_isDefault := P w\<rparr>))"
    then obtain v where v: "v \<in> set rows" "w_id v \<noteq> w_id w" "clashes (v\<lparr>w_isDefault := P v\<rparr>) (?f (w\<lparr>w_isDefault := P w\<rparr>))"
      by (auto simp: s with_defaults_def)
    have "clashes v w" using v(3) by (simp add: clashes_def)
    then show False using ok_unique [OF ok v(1) w] v(2) by simp
  qed
  then show ?thesis
    using find_with [OF ok w s] cols
    by (auto simp: mark_default_def update_row_def find_wallet_id_def s with_defaults_def update_where_def)
qed

lemma defaults_with:
  "map w_id (defaults_of u (with_defaults P rows)) = map w_id (filter (\<lambda>w. w_userId w = u \<and> P w) rows)"
  by (induction rows) (simp_all add: defaults_of_def with_defaults_def)

section \<open>Hexadecimal text\<close>

lemma hex_digit_props:
  assumes "n < 16"
  shows "is_hex (hex_digit n)" and "hex_val (hex_digit n) = n" and "hex_digit n \<noteq> CHR '':''"
proof -
  have c: "code_of (hex_digit n) = (if n < 10 then 48 + n else 87 + n)"
    using assms by (simp add: hex_digit_def code_of_def)
  then show "is_hex (hex_digit n)" "hex_val (hex_digit n) = n"
    using assms by (auto simp: is_hex_def hex_val_def Let_def)
  have "code_of (CHR '':'') = 58" by (simp add: code_of_def)
  then show "hex_digit n \<noteq> CHR '':''" using c assms by (auto split: if_splits)
qed

lemma from_to_hex [simp]: "from_hex (to_hex bs) = bs"
proof (induction bs)
  case (Cons b bs)
  have lt: "code_of b < 256" by (simp add: code_of_def)
  then have "code_of b div 16 < 16" "code_of b mod 16 < 16" by simp_all
  then show ?case using Cons hex_digit_props by (simp add: to_hex_def code_of_def)
qed (simp add: to_hex_def)

lemma to_hex_no_colon: "CHR '':'' \<notin> set (to_hex bs)"
proof -
  have "code_of b div 16 < 16" "code_of b mod 16 < 16" for b by (simp_all add: code_of_def less_mult_imp_div_less)
  then have "hex_digit (code_of b div 16) \<noteq> CHR '':''" "hex_digit (code_of b mod 16) \<noteq> CHR '':''" for b
    by (simp_all add: hex_digit_props)
  then show ?thesis by (fastforce simp: to_hex_def)
qed

lemma split_encrypted:
  "split_on (CHR '':'') (to_hex a @ '':'' @ to_hex b @ '':'' @ to_hex c) = [to_hex a, to_hex b, to_hex c]"
  by (simp add: split_on_append split_on_plain to_hex_no_colon)

lemma decrypt_encrypt:
  assumes "\<And>key text ct tag. we_gcm_seal env key iv text = (ct, tag) \<Longrightarrow>
      we_gcm_start env key iv tag = Inr () \<and> we_gcm_open env key iv tag ct = Some text"
    and "encrypt env iv text u = Inr d"
  shows "decrypt env d u = Inr text"
proof -
  obtain key where key: "deriveUserKey env u = Inr key"
    using assms(2) by (auto simp: encrypt_def split: sum.splits)
  obtain ct tag where seal: "we_gcm_seal env key iv text = (ct, tag)" by (cases "we_gcm_seal env key iv text")
  then have "d = to_hex iv @ '':'' @ to_hex tag @ '':'' @ to_hex ct"
    using assms(2) key by (simp add: encrypt_def)
  then show ?thesis using assms(1) [OF seal] key by (simp add: decrypt_def split_encrypted del: append.simps)
qed

lemma importWallet_Inr:
  assumes "importWallet env now i iv u sk alias s = (Inr w, s')"
  obtains d where "encrypt env iv sk u = Inr d" and "we_keypair env sk = Inr (w_publicKey w)"
    and "w_id w = i" and "w_userId w = u" and "w_encryptedSecret w = Some d" and "find_wallet_id i s' = Some w"
proof -
  obtain pk d x s1 where pk: "we_keypair env sk = Inr pk" and d: "encrypt env iv sk u = Inr d"
    and c: "createWallet env now i u pk alias s = (Inr x, s1)"
    and up: "update_row env [''encryptedSecret''] (\<lambda>w. w_id w = w_id x) (\<lambda>w. w\<lparr>w_encryptedSecret := Some d\<rparr>) s1 = (Inr w, s')"
    using assms by (auto simp: importWallet_def liftR_def elim!: bindM_Inr_E)
  define n where "n = new_wallet now i u pk alias (owned u (ws_wallets s) = [])"
  have n: "w_id n = i" "w_userId n = u" "w_publicKey n = pk" by (simp_all add: n_def new_wallet_def)
  from createWallet_cases [OF c] have x: "x = n" and s1: "s1 = s\<lparr>ws_wallets := ws_wallets s @ [n]\<rparr>"
    and fresh: "\<forall>v \<in> set (ws_wallets s). \<not> clashes v n"
    by (auto simp: n_def)
  have none: "find (\<lambda>v. w_id v = i) (ws_wallets s) = None"
    using fresh n by (auto simp: find_None_iff clashes_def)
  then have w: "w = n\<lparr>w_encryptedSecret := Some d\<rparr>"
    and s': "s' = s1\<lparr>ws_wallets := update_where (\<lambda>v. w_id v = i) (\<lambda>w. w\<lparr>w_encryptedSecret := Some d\<rparr>) (ws_wallets s1)\<rparr>"
    using up n by (auto simp: update_row_def x s1 find_append split: if_splits)
  have "find_wallet_id i s' = Some w"
    using none n by (simp add: find_wallet_id_def s' s1 find_append find_update_where w)
  then show thesis using that [OF d] pk n by (simp add: w)
qed

section \<open>The assets of the transactions\<close>

definition assets_inv :: "Transaction list \<Rightarrow> (string \<times> expected_asset) list \<Rightarrow> bool" where
  "assets_inv txs m =
     (distinct (map fst m) \<and> set (map fst m) = tx_key ` set txs \<and>
      (\<forall>(k, e) \<in> set m. k = assetKey (ea_asset e) (ea_assetIssuer e) \<and>
         ea_transactionCount e = count_where (\<lambda>t. tx_key t = k) txs \<and>
         (\<exists>t \<in> set txs. tx_key t = k \<and> tx_asset t = ea_asset e \<and> tx_assetIssuer t = ea_assetIssuer e)))"

lemma count_tx_simps [simp]:
  "ea_asset (count_tx t e) = ea_asset e" "ea_assetIssuer (count_tx t e) = ea_assetIssuer e"
  "ea_transactionCount (count_tx t e) = Suc (ea_transactionCount e)"
  by (simp_all add: count_tx_def)

lemma add_tx_fst: "map fst (add_tx t m) = (if tx_key t \<in> set (map fst m) then map fst m else map fst m @ [tx_key t])"
  by (induction m) (auto simp: rev_image_eqI)

lemma add_tx_mem:
  assumes "distinct (map fst m)" and "(k, e) \<in> set (add_tx t m)"
  shows "(k \<noteq> tx_key t \<and> (k, e) \<in> set m) \<or>
    (k = tx_key t \<and> (\<exists>e0. (k, e0) \<in> set m \<and> e = count_tx t e0)) \<or>
    (k = tx_key t \<and> k \<notin> fst ` set m \<and> ea_asset e = tx_asset t \<and> ea_assetIssuer e = tx_assetIssuer t \<and>
      ea_transactionCount e = 1)"
  using assms by (induction m) (auto split: if_splits simp: rev_image_eqI)

lemma assets_inv_step:
  assumes "assets_inv txs m"
  shows "assets_inv (txs @ [t]) (add_tx t m)"
proof -
  have d: "distinct (map fst m)" and ks: "set (map fst m) = tx_key ` set txs" using assms by (simp_all add: assets_inv_def)
  have "k = assetKey (ea_asset e) (ea_assetIssuer e) \<and>
      ea_transactionCount e = count_where (\<lambda>t. tx_key t = k) (txs @ [t]) \<and>
      (\<exists>t' \<in> set (txs @ [t]). tx_key t' = k \<and> tx_asset t' = ea_asset e \<and> tx_assetIssuer t' = ea_assetIssuer e)"
    if mem: "(k, e) \<in> set (add_tx t m)" for k e
  proof -
    have old: "k = assetKey (ea_asset e') (ea_assetIssuer e') \<and> ea_transactionCount e' = count_where (\<lambda>t. tx_key t = k) txs \<and>
        (\<exists>t' \<in> set txs. tx_key t' = k \<and> tx_asset t' = ea_asset e' \<and> tx_assetIssuer t' = ea_assetIssuer e')" if "(k, e') \<in> set m" for e'
      using assms that unfolding assets_inv_def by fast
    from add_tx_mem [OF d mem] consider "k \<noteq> tx_key t" "(k, e) \<in> set m"
      | e0 where "k = tx_key t" "(k, e0) \<in> set m" "e = count_tx t e0"
      | "k = tx_key t" "k \<notin> fst ` set m" "ea_asset e = tx_asset t" "ea_assetIssuer e = tx_assetIssuer t"
        "ea_transactionCount e = 1" by blast
    then show ?thesis
    proof cases
      case 1
      then show ?thesis using old [OF 1(2)] by auto
    next
      case 2
      then show ?thesis using old [OF 2(2)] by auto
    next
      case 3
      have "k \<notin> tx_key ` set txs" using 3(2) ks by simp
      then have "count_where (\<lambda>t. tx_key t = k) txs = 0" by (auto simp: count_where_def filter_empty_conv)
      then show ?thesis using 3 by (simp add: tx_key_def)
    qed
  qed
  moreover have "distinct (map fst (add_tx t m))" using d by (simp add: add_tx_fst)
  moreover have "set (map fst (add_tx t m)) = tx_key ` set (txs @ [t])" using ks by (auto simp: add_tx_fst)
  ultimately show ?thesis unfolding assets_inv_def by blast
qed

lemma assets_inv_all: "assets_inv txs (foldl (\<lambda>m t. add_tx t m) [] txs)"
proof (induction txs rule: rev_induct)
  case (snoc t txs)
  then show ?case using assets_inv_step by simp
qed (simp add: assets_inv_def)

text \<open>
  Assets as pairs of a code and an issuer: those of the transactions, where an empty code means XLM, and those an
  account holds. The service compares texts made of the two; the texts of two pairs without a colon in the code
  and with no issuer called \<open>native\<close> are equal only for equal pairs.
\<close>

definition asset_pair :: "Transaction \<Rightarrow> string \<times> string option" where
  "asset_pair t = (if tx_assetCode t = [] then ''XLM'' else tx_assetCode t, tx_assetIssuer t)"

definition held_assets :: "h_account \<Rightarrow> (string \<times> string option) set" where
  "held_assets account =
     (\<lambda>b. if hb_asset_type b = ''native'' then (''XLM'', None) else (hb_asset_code b, hb_asset_issuer b)) `
       set (case ha_balances account of None \<Rightarrow> [] | Some bs \<Rightarrow> bs)"

definition plain_pair :: "string \<times> string option \<Rightarrow> bool" where
  "plain_pair a = (CHR '':'' \<notin> set (fst a) \<and> snd a \<noteq> Some ''native'')"

definition pair_key :: "string \<times> string option \<Rightarrow> string" where
  "pair_key a = assetKey (fst a) (snd a)"

lemma first_colon:
  assumes "a @ CHR '':'' # u = b @ CHR '':'' # v" and "CHR '':'' \<notin> set a" and "CHR '':'' \<notin> set b"
  shows "a = b \<and> u = v"
  using assms by (induction a arbitrary: b) (auto simp: Cons_eq_append_conv append_eq_Cons_conv split: list.splits)

lemma pair_key_inj:
  assumes "plain_pair a" and "plain_pair b"
  shows "pair_key a = pair_key b \<longleftrightarrow> a = b"
proof
  assume "pair_key a = pair_key b"
  then have "fst a = fst b" "(case snd a of None \<Rightarrow> ''native'' | Some i \<Rightarrow> i) = (case snd b of None \<Rightarrow> ''native'' | Some i \<Rightarrow> i)"
    using first_colon [of "fst a" _ "fst b"] assms by (auto simp: pair_key_def assetKey_def plain_pair_def)
  moreover have "snd a \<noteq> Some ''native''" "snd b \<noteq> Some ''native''" using assms by (simp_all add: plain_pair_def)
  ultimately show "a = b" by (intro prod_eqI) (auto split: option.splits)
qed simp

lemma tx_key_pair: "tx_key t = pair_key (asset_pair t)"
  by (simp add: tx_key_def tx_asset_def asset_pair_def pair_key_def)

definition ea_pair :: "expected_asset \<Rightarrow> string \<times> string option" where
  "ea_pair e = (ea_asset e, ea_assetIssuer e)"

text \<open>For plain assets the map of the expected assets is one from pairs.\<close>

lemma expected_pairs:
  assumes "\<forall>t \<in> set txs. plain_pair (asset_pair t)"
  shows "distinct (map ea_pair (expectedAssetsFromTransactions txs))"
    and "ea_pair ` set (expectedAssetsFromTransactions txs) = asset_pair ` set txs"
    and "e \<in> set (expectedAssetsFromTransactions txs) \<Longrightarrow>
      ea_transactionCount e = count_where (\<lambda>t. asset_pair t = ea_pair e) txs"
proof -
  define m where "m = foldl (\<lambda>m t. add_tx t m) [] txs"
  have es: "expectedAssetsFromTransactions txs = map snd m" by (simp add: expectedAssetsFromTransactions_def m_def)
  have inv: "assets_inv txs m" unfolding m_def by (rule assets_inv_all)
  have entry: "k = pair_key (ea_pair e)" "ea_transactionCount e = count_where (\<lambda>t. tx_key t = k) txs"
    "\<exists>t \<in> set txs. asset_pair t = ea_pair e" if "(k, e) \<in> set m" for k e
    using inv that unfolding assets_inv_def by (fastforce simp: pair_key_def ea_pair_def asset_pair_def tx_asset_def)+
  have "map fst m = map pair_key (map ea_pair (map snd m))" using entry(1) by (auto simp: map_eq_conv)
  then show "distinct (map ea_pair (expectedAssetsFromTransactions txs))"
    using inv unfolding es assets_inv_def by (metis distinct_map)
  have "\<exists>e \<in> snd ` set m. ea_pair e = asset_pair t" if t: "t \<in> set txs" for t
  proof -
    have "tx_key t \<in> fst ` set m" using inv t by (simp add: assets_inv_def)
    then obtain e where e: "(tx_key t, e) \<in> set m" by auto
    then have "pair_key (asset_pair t) = pair_key (ea_pair e)" using entry(1) tx_key_pair by metis
    then have "asset_pair t = ea_pair e" using pair_key_inj entry(3) [OF e] assms t by metis
    then show ?thesis using e by force
  qed
  then have "asset_pair ` set txs \<subseteq> ea_pair ` snd ` set m" by (metis image_subsetI image_eqI)
  moreover have "ea_pair ` snd ` set m \<subseteq> asset_pair ` set txs" using entry(3) by force
  ultimately show "ea_pair ` set (expectedAssetsFromTransactions txs) = asset_pair ` set txs"
    unfolding es set_map by (rule equalityI [rotated])
  show "ea_transactionCount e = count_where (\<lambda>t. asset_pair t = ea_pair e) txs"
    if e: "e \<in> set (expectedAssetsFromTransactions txs)"
  proof -
    obtain k where k: "(k, e) \<in> set m" using e by (auto simp: es)
    then have "tx_key t = k \<longleftrightarrow> asset_pair t = ea_pair e" if "t \<in> set txs" for t
      using entry(1,3) [OF k] pair_key_inj assms that tx_key_pair by metis
    then show ?thesis using entry(2) [OF k] by (simp add: count_where_def cong: filter_cong)
  qed
qed

definition missing_rows :: "ReconciliationDiscrepancy list \<Rightarrow> ReconciliationDiscrepancy list" where
  "missing_rows ds = filter (\<lambda>d. rd_type d = ''MISSING_TRUSTLINE'') ds"

lemma missing_rows_report:
  "missing_rows (missing_trustlines es chain @ stale_ledger env account txs) = missing_trustlines es chain"
proof -
  have "missing_rows (stale_ledger env account txs) = []" by (simp add: missing_rows_def stale_ledger_def)
  moreover have "missing_rows (missing_trustlines es chain) = missing_trustlines es chain"
    by (induction es) (auto simp: missing_rows_def missing_trustlines_def Let_def)
  ultimately show ?thesis by (simp add: missing_rows_def)
qed

lemma chain_pairs:
  "(\<lambda>a. assetKey (ra_asset a) (ra_assetIssuer a)) ` set (assetsFromHorizonBalances (balances_of account)) =
    pair_key ` held_assets account"
  unfolding held_assets_def balances_of_def [symmetric] assetsFromHorizonBalances_def set_map image_image
  by (rule image_cong) (simp_all add: asset_of_def pair_key_def)

lemma missing_pairs:
  assumes "\<forall>e \<in> set es. plain_pair (ea_pair e)" and "\<forall>a \<in> held_assets account. plain_pair a"
  shows "map (\<lambda>d. (the (rd_asset d), rd_assetIssuer d)) (missing_trustlines es (assetsFromHorizonBalances (balances_of account))) =
    filter (\<lambda>a. fst a \<noteq> ''XLM'' \<and> a \<notin> held_assets account) (map ea_pair es)"
proof -
  have key: "assetKey (ea_asset e) (ea_assetIssuer e) \<in> pair_key ` held_assets account \<longleftrightarrow> ea_pair e \<in> held_assets account"
    if "e \<in> set es" for e
  proof -
    have "pair_key (ea_pair e) \<in> pair_key ` held_assets account \<longleftrightarrow> ea_pair e \<in> held_assets account"
      using pair_key_inj that assms by (metis image_iff)
    then show ?thesis by (simp add: pair_key_def ea_pair_def)
  qed
  then show ?thesis
    unfolding missing_trustlines_def Let_def set_map chain_pairs
    by (induction es) (simp_all add: ea_pair_def)
qed

lemma reconcile_cases:
  assumes "reconcileWallet env u wid s = (Inr rep, s')" and "we_loadAccount env (rr_publicKey rep) = Inr account"
  obtains wallet where "s' = s" and "chosen_wallet u wid s = (Inr wallet, s)" and "rr_walletId rep = w_id wallet"
    and "rep = (let txs = take 100 (we_recent env (filter (\<lambda>t. tx_walletId t = w_id wallet) (ws_transactions s)));
          onChainAssets = assetsFromHorizonBalances (balances_of account)
        in buildReconciliationReport wallet (expectedAssetsFromTransactions txs) onChainAssets txs
             (missing_trustlines (expectedAssetsFromTransactions txs) onChainAssets @ stale_ledger env account txs) (Some account))"
proof -
  have keep: "s1 = s" if "chosen_wallet u wid s = (r, s1)" for r s1
    using that by (auto simp: chosen_wallet_def getDefaultWallet_def getWalletById_eq M_defs split: if_splits option.splits)
  obtain wallet s1 where w: "chosen_wallet u wid s = (Inr wallet, s1)"
    using assms(1) by (auto simp: reconcileWallet_def elim!: bindM_Inr_E)
  note s1 = keep [OF w]
  have run: "reconcileWallet env u wid s =
     (let txs = take 100 (we_recent env (filter (\<lambda>t. tx_walletId t = w_id wallet) (ws_transactions s)));
          expectedAssets = expectedAssetsFromTransactions txs
      in case we_loadAccount env (w_publicKey wallet) of
          Inl e \<Rightarrow>
            if isHorizonNotFound e
            then (Inr (buildReconciliationReport wallet expectedAssets [] txs
                   [\<lparr>rd_type = ''ON_CHAIN_ACCOUNT_NOT_FOUND'', rd_severity = Critical, rd_asset = None,
                     rd_assetIssuer = None\<rparr>] None), s)
            else (Inl e, s)
        | Inr account \<Rightarrow>
            let onChainAssets = assetsFromHorizonBalances (balances_of account)
            in (Inr (buildReconciliationReport wallet expectedAssets onChainAssets txs
                 (missing_trustlines expectedAssets onChainAssets @ stale_ledger env account txs) (Some account)), s))"
    using w s1 by (simp add: reconcileWallet_def bindM_def readM_def ret_def throw_def Let_def split: sum.splits)
  have "rr_publicKey rep = w_publicKey wallet"
    using assms(1) unfolding run by (auto simp: Let_def buildReconciliationReport_def split: sum.splits if_splits)
  then show thesis
    using that [of wallet] w s1 assms unfolding run by (auto simp: Let_def buildReconciliationReport_def)
qed

section \<open>An example\<close>

text \<open>
  A cipher that appends the key to the text, and a table that accepts a wallet without a secret.
\<close>

definition demo_wenv :: wallet_env where
  "demo_wenv = \<lparr>we_columns = schema_columns, we_required = [''userId'', ''publicKey''], we_network = Some ''mainnet'',
     we_vars = [''ENCRYPTION_KEY'' \<mapsto> ''4142''], we_hkdf = (\<lambda>k u. k @ u),
     we_gcm_seal = (\<lambda>key iv t. (t, key @ iv)), we_gcm_start = (\<lambda>key iv tag. Inr ()),
     we_gcm_open = (\<lambda>key iv tag ct. if tag = key @ iv then Some ct else None),
     we_cbc_open = (\<lambda>key iv ct. Inl (Error ''bad decrypt'')), we_keypair = (\<lambda>sk. Inr (''G'' @ sk)),
     we_loadAccount = (\<lambda>_. Inr \<lparr>ha_balances = Some [\<lparr>hb_asset_type = ''credit_alphanum4'', hb_asset_code = ''USDC'',
        hb_asset_issuer = Some ''I'', hb_balance = ''5'', hb_limit = None\<rparr>], ha_sequence = None,
        ha_last_modified_ledger = None, ha_last_modified_time = None\<rparr>),
     we_parseDate = (\<lambda>_. None), we_recent = (\<lambda>txs. txs)\<rparr>"

definition demo_wallet :: "string \<Rightarrow> bool \<Rightarrow> wallet_row" where
  "demo_wallet i d = new_wallet 0 i ''u'' (''G'' @ i) None d"

definition demo_wtx :: "string \<Rightarrow> Transaction" where
  "demo_wtx asset = \<lparr>tx_id = ''t'', tx_userId = ''u'', tx_walletId = ''w1'', tx_destination = ''D'', tx_amount = ''1'',
     tx_assetCode = asset, tx_assetIssuer = None, tx_memo = None, tx_idempotencyKey = None, tx_status = TxSUCCESS,
     tx_stellarTxHash = None, tx_riskScore = None, tx_flagged = False, tx_createdAt = 0, tx_updatedAt = 0\<rparr>"

definition demo_wstate :: wallet_state where
  "demo_wstate = \<lparr>ws_wallets = [demo_wallet ''w1'' True, demo_wallet ''w2'' False],
     ws_transactions = [demo_wtx ''USDC'', demo_wtx ''XLM'']\<rparr>"

lemma demo_wenv_simps [simp]:
  "we_columns demo_wenv = schema_columns" "''isDefault'' \<in> set schema_columns"
  by (simp_all add: demo_wenv_def schema_columns_def)

lemma demo_wstate_ok: "wallets_ok (ws_wallets demo_wstate)"
  by code_simp

section \<open>Properties\<close>

text \<open>
  C24. Wallets stay well-formed. Whatever operations the service runs, one after the other and with
  whatever arguments, failing ones included: every user with wallets has exactly one default and at
  most five, no id, public key or alias of a user occurs twice, and no alias is longer than 32
  characters.
\<close>

theorem wallet_table_invariant:
  assumes "set schema_columns \<subseteq> set (we_columns env)" and "wallets_ok (ws_wallets s)"
  shows "wallets_ok (ws_wallets (fold (wallet_exec env) ops s))"
proof -
  have "''isDefault'' \<in> set (we_columns env)" using assms(1) by (auto simp: schema_columns_def)
  then show ?thesis
    using assms(2) by (induction ops arbitrary: s) (simp_all add: wallet_exec_ok)
qed

theorem wallet_table_invariant_witness:
  "wallets_ok (ws_wallets (fold (wallet_exec demo_wenv)
     [OpCreate 1 ''w3'' ''u'' ''G3'' (Some ''savings''), OpSetDefault ''w3'' ''u'', OpDelete ''w3'' ''u''] demo_wstate))"
  by (rule wallet_table_invariant) (simp_all add: demo_wstate_ok)

text \<open>
  Export returns what import stored. With a cipher that opens what it seals, a wallet that was
  imported is exported with its public key and the very secret that was given, and to nobody but its
  owner: another user is told that it does not exist.
\<close>

theorem export_returns_import:
  assumes "\<And>key text ct tag. we_gcm_seal env key iv text = (ct, tag) \<Longrightarrow>
      we_gcm_start env key iv tag = Inr () \<and> we_gcm_open env key iv tag ct = Some text"
    and "importWallet env now i iv u secret alias s = (Inr w, s')" and "i \<noteq> []" and "v \<noteq> u"
  shows "exportWallet env u (Some i) s' = (Inr (w_publicKey w, secret), s') \<and>
    we_keypair env secret = Inr (w_publicKey w) \<and>
    exportWallet env v (Some i) s' = (Inl (NotFoundException ''Wallet not found''), s')"
proof -
  obtain d where d: "encrypt env iv secret u = Inr d" and pk: "we_keypair env secret = Inr (w_publicKey w)"
    and w: "w_userId w = u" "w_encryptedSecret w = Some d" "find_wallet_id i s' = Some w"
    using importWallet_Inr [OF assms(2)] by blast
  have "decrypt env d u = Inr secret" by (rule decrypt_encrypt [OF assms(1) d])
  then show ?thesis
    using w pk assms(3,4) by (simp add: exportWallet_def chosen_wallet_def getWalletById_eq bindM_def liftR_def ret_def)
qed

theorem export_returns_import_witness:
  "\<exists>w s'. importWallet demo_wenv 5 ''w3'' ''iv'' ''u'' ''SECRET'' None demo_wstate = (Inr w, s') \<and>
     exportWallet demo_wenv ''u'' (Some ''w3'') s' = (Inr (''GSECRET'', ''SECRET''), s')"
proof -
  have "isl (fst (importWallet demo_wenv 5 ''w3'' ''iv'' ''u'' ''SECRET'' None demo_wstate)) = False" by code_simp
  then obtain w s' where run: "importWallet demo_wenv 5 ''w3'' ''iv'' ''u'' ''SECRET'' None demo_wstate = (Inr w, s')"
    by (metis prod.collapse sum.collapse(2))
  have "exportWallet demo_wenv ''u'' (Some ''w3'') s' = (Inr (w_publicKey w, ''SECRET''), s') \<and>
      we_keypair demo_wenv ''SECRET'' = Inr (w_publicKey w)"
    using export_returns_import [OF _ run, of "''v''"] by (simp add: demo_wenv_def)
  moreover have "we_keypair demo_wenv ''SECRET'' = Inr ''GSECRET''" by (simp add: demo_wenv_def)
  ultimately show ?thesis using run by auto
qed

text \<open>
  C27. The reconciliation reports exactly the missing trustlines. Take an account that exists, with no colon in the code and no issuer
  called \<open>native\<close> among the assets of the last hundred transactions of the wallet and those of the account's balances. The assets reported
  as missing, as pairs of a code and an issuer, are then those of these transactions, other than XLM, that are not among the pairs
  of the balances, each once. A transaction without an issuer has a pair of its own, that no balance of a credit has. The report lists each
  pair of the transactions once with the number of its transactions, and the wallet counts as in sync just when nothing is reported.
  The state does not change.
\<close>

theorem reconciliation_exact:
  assumes "reconcileWallet env u wid s = (Inr rep, s')" and "we_loadAccount env (rr_publicKey rep) = Inr account"
    and "txs = take 100 (we_recent env (filter (\<lambda>t. tx_walletId t = rr_walletId rep) (ws_transactions s)))"
    and "\<forall>a \<in> asset_pair ` set txs \<union> held_assets account. plain_pair a"
    and "missing = map (\<lambda>d. (the (rd_asset d), rd_assetIssuer d)) (filter (\<lambda>d. rd_type d = ''MISSING_TRUSTLINE'') (rr_discrepancies rep))"
    and "expected = map (\<lambda>e. (ea_asset e, ea_assetIssuer e)) (rr_expectedAssets rep)"
  shows "s' = s \<and>
    set missing = {a \<in> asset_pair ` set txs. fst a \<noteq> ''XLM'' \<and> a \<notin> held_assets account} \<and> distinct missing \<and>
    rr_missingTrustlineCount rep = length missing \<and>
    set expected = asset_pair ` set txs \<and> distinct expected \<and>
    (\<forall>e \<in> set (rr_expectedAssets rep).
       ea_transactionCount e = count_where (\<lambda>t. asset_pair t = (ea_asset e, ea_assetIssuer e)) txs) \<and>
    (rr_status rep = ''in_sync'' \<longleftrightarrow> rr_discrepancies rep = [])"
proof -
  define es where "es = expectedAssetsFromTransactions txs"
  obtain wallet where s': "s' = s" and rep: "rep = buildReconciliationReport wallet es
      (assetsFromHorizonBalances (balances_of account)) txs
      (missing_trustlines es (assetsFromHorizonBalances (balances_of account)) @ stale_ledger env account txs) (Some account)"
    using reconcile_cases [OF assms(1,2)] by (metis assms(3) es_def)
  have plain: "\<forall>t \<in> set txs. plain_pair (asset_pair t)" using assms(4) by simp
  note pairs = expected_pairs [OF plain, folded es_def]
  have ds: "filter (\<lambda>d. rd_type d = ''MISSING_TRUSTLINE'') (rr_discrepancies rep) =
      missing_trustlines es (assetsFromHorizonBalances (balances_of account))"
    using missing_rows_report by (simp add: rep buildReconciliationReport_def missing_rows_def)
  have "\<forall>e \<in> set es. plain_pair (ea_pair e)" using pairs(2) plain by (metis image_eqI image_iff)
  then have m: "missing = filter (\<lambda>a. fst a \<noteq> ''XLM'' \<and> a \<notin> held_assets account) (map ea_pair es)"
    using missing_pairs assms(4) unfolding assms(5) ds by blast
  have ex: "rr_expectedAssets rep = es" by (simp add: rep buildReconciliationReport_def)
  then have e: "expected = map ea_pair es" using assms(6) by (simp add: ea_pair_def [abs_def])
  have "set missing = {a \<in> asset_pair ` set txs. fst a \<noteq> ''XLM'' \<and> a \<notin> held_assets account}"
    using pairs(2) by (auto simp: m)
  moreover have "rr_missingTrustlineCount rep = length missing"
    unfolding assms(5) by (simp add: rep buildReconciliationReport_def)
  moreover have "rr_status rep = ''in_sync'' \<longleftrightarrow> rr_discrepancies rep = []" by (simp add: rep buildReconciliationReport_def)
  ultimately show ?thesis
    using s' pairs by (simp add: m e ex ea_pair_def)
qed

text \<open>An account that holds the USDC of one issuer, with transactions in it, in another currency and in XLM.\<close>

definition demo_rstate :: wallet_state where
  "demo_rstate = demo_wstate\<lparr>ws_transactions := [(demo_wtx ''USDC'')\<lparr>tx_assetIssuer := Some ''I''\<rparr>,
     (demo_wtx ''EURC'')\<lparr>tx_assetIssuer := Some ''J''\<rparr>, demo_wtx [], (demo_wtx ''EURC'')\<lparr>tx_assetIssuer := Some ''J''\<rparr>]\<rparr>"

lemma demo_reconcile:
  "fst (reconcileWallet demo_wenv ''u'' None demo_rstate) \<in> Inr ` {rep. rr_publicKey rep = ''Gw1'' \<and> rr_walletId rep = ''w1''}"
proof -
  let ?r = "fst (reconcileWallet demo_wenv ''u'' None demo_rstate)"
  have "\<not> isl ?r" "rr_publicKey (projr ?r) = ''Gw1''" "rr_walletId (projr ?r) = ''w1''" by code_simp+
  then show ?thesis by (intro image_eqI [of _ _ "projr ?r"]) simp_all
qed

theorem reconciliation_exact_witness:
  "\<exists>rep. fst (reconcileWallet demo_wenv ''u'' None demo_rstate) = Inr rep \<and>
     (\<lambda>d. (the (rd_asset d), rd_assetIssuer d)) ` {d \<in> set (rr_discrepancies rep). rd_type d = ''MISSING_TRUSTLINE''} =
       {(''EURC'', Some ''J'')}"
proof -
  obtain rep where r: "fst (reconcileWallet demo_wenv ''u'' None demo_rstate) = Inr rep"
    and p: "rr_publicKey rep = ''Gw1''" "rr_walletId rep = ''w1''" using demo_reconcile by auto
  obtain s' where run: "reconcileWallet demo_wenv ''u'' None demo_rstate = (Inr rep, s')" using r by (metis prod.collapse)
  define account where "account = projr (we_loadAccount demo_wenv ''Gw1'')"
  have acc: "we_loadAccount demo_wenv (rr_publicKey rep) = Inr account"
    unfolding p account_def by (simp add: demo_wenv_def)
  have held: "held_assets account = {(''USDC'', Some ''I'')}" by (simp add: account_def demo_wenv_def held_assets_def)
  have txs: "asset_pair ` set (take 100 (we_recent demo_wenv (filter (\<lambda>t. tx_walletId t = ''w1'') (ws_transactions demo_rstate)))) =
      {(''USDC'', Some ''I''), (''EURC'', Some ''J''), (''XLM'', None)}"
    by (simp add: demo_wenv_def demo_rstate_def demo_wstate_def demo_wtx_def asset_pair_def insert_commute)
  have "\<forall>a \<in> {(''USDC'', Some ''I''), (''EURC'', Some ''J''), (''XLM'', None)} \<union> {(''USDC'', Some ''I'')}. plain_pair a"
    by (simp add: plain_pair_def)
  note exact = reconciliation_exact [OF run acc refl, unfolded p txs held, OF this refl refl]
  have "{a \<in> {(''USDC'', Some ''I''), (''EURC'', Some ''J''), (''XLM'', None)}. fst a \<noteq> ''XLM'' \<and> a \<notin> {(''USDC'', Some ''I'')}} =
      {(''EURC'', Some ''J'')}" by code_simp
  then have "(\<lambda>d. (the (rd_asset d), rd_assetIssuer d)) ` {d \<in> set (rr_discrepancies rep). rd_type d = ''MISSING_TRUSTLINE''} =
      {(''EURC'', Some ''J'')}"
    using conjunct1 [OF conjunct2 [OF exact]] unfolding set_map set_filter by (rule trans [rotated])
  with r show ?thesis by blast
qed

text \<open>
  A failed deletion moves the default. The service makes another wallet the default before it
  deletes; when the wallet has transactions the database refuses the deletion, and the wallet stays
  but is the default no longer.
\<close>

theorem failed_delete_moves_default:
  assumes "wallets_ok (ws_wallets s)" and "set schema_columns \<subseteq> set (we_columns env)"
    and "find_wallet_id i s = Some w" and "w_userId w = u" and "w_isDefault w"
    and "1 < length (owned u (ws_wallets s))" and "t \<in> set (ws_transactions s)" and "tx_walletId t = i"
  shows "\<exists>s'. deleteWallet env i u s = (Inl (PrismaError ''P2003''), s') \<and>
    length (ws_wallets s') = length (ws_wallets s) \<and> find_wallet_id i s' = Some (w\<lparr>w_isDefault := False\<rparr>)"
proof -
  have cols: "''isDefault'' \<in> set (we_columns env)" using assms(2) by (auto simp: schema_columns_def)
  obtain j where j: "\<exists>v \<in> set (ws_wallets s). w_id v = j \<and> w_userId v = u \<and> j \<noteq> i"
    and run: "deleteWallet env i u s = delete_row i (s\<lparr>ws_wallets := assign_default u j (ws_wallets s)\<rparr>)"
    using deleteWallet_eq [OF assms(1) cols assms(3,4,6)] assms(5) by (metis (full_types))
  let ?s1 = "s\<lparr>ws_wallets := assign_default u j (ws_wallets s)\<rparr>"
  let ?g = "\<lambda>w :: wallet_row. if w_userId w = u then w\<lparr>w_isDefault := (w_id w = j)\<rparr> else w"
  have "find (\<lambda>v. w_id v = i) (map ?g rows) = map_option ?g (find (\<lambda>v. w_id v = i) rows)" for rows
    by (induction rows) auto
  then have "find_wallet_id i ?s1 = Some (w\<lparr>w_isDefault := False\<rparr>)"
    using assms(3,4) j find_wallet_idD [OF assms(3)] by (simp add: find_wallet_id_def assign_default_def) auto
  then show ?thesis using assms(7,8) by (auto simp: run delete_row_def assign_default_def)
qed

theorem failed_delete_moves_default_witness:
  "fst (deleteWallet demo_wenv ''w1'' ''u'' demo_wstate) = Inl (PrismaError ''P2003'')"
proof -
  have f: "find_wallet_id ''w1'' demo_wstate = Some (demo_wallet ''w1'' True)"
    by (simp add: find_wallet_id_def demo_wstate_def demo_wallet_def new_wallet_def)
  show ?thesis
    using failed_delete_moves_default [OF demo_wstate_ok _ f, of demo_wenv "''u''" "demo_wtx ''USDC''"]
    by (auto simp: demo_wallet_def new_wallet_def owned_def demo_wstate_def demo_wtx_def)
qed

text \<open>
  Two overlapping requests leave two defaults. When the requests of one user to make two different
  wallets the default interleave at their awaits, both wallets end up as the default; one after
  the other they leave one.
\<close>

theorem overlapping_requests_two_defaults:
  assumes "wallets_ok (ws_wallets s)" and "set schema_columns \<subseteq> set (we_columns env)"
    and "v \<in> set (ws_wallets s)" and "w \<in> set (ws_wallets s)" and "w_userId v = u" and "w_userId w = u"
    and "w_id v \<noteq> w_id w" and "ids 0 = w_id v" and "ids 1 = w_id w"
  shows "map w_id (defaults_of u (ws_wallets (sd_run env u ids [0, 1, 0, 1, 0, 1] s))) =
      filter (\<lambda>i. i = w_id v \<or> i = w_id w) (map w_id (ws_wallets s)) \<and>
    map w_id (defaults_of u (ws_wallets (sd_run env u ids [0, 0, 0, 1, 1, 1] s))) = [w_id w]"
proof -
  have cols: "''isDefault'' \<in> set (we_columns env)" using assms(2) by (auto simp: schema_columns_def)
  note mark = mark_with [OF assms(1) _ _ cols] and get = owned_with [OF assms(1)]
  define s1 where "s1 = snd (clear_default u (snd (clear_default u s)))"
  have s1: "ws_wallets s1 = with_defaults (\<lambda>x. (w_isDefault x \<and> w_userId x \<noteq> u) \<and> w_userId x \<noteq> u) (ws_wallets s)"
    unfolding s1_def by (rule clear_with [OF clear_with [OF with_defaults_self]])
  define s2 where "s2 = snd (mark_default env (w_id v) s1)"
  note s2 = mark [OF assms(3) s1, folded s2_def]
  define t1 where "t1 = snd (mark_default env (w_id v) (snd (clear_default u s)))"
  note t1 = mark [OF assms(3) clear_with [OF with_defaults_self], of u, folded t1_def]
  define t2 where "t2 = snd (clear_default u t1)"
  note t2 = clear_with [OF t1, of u, folded t2_def]
  have "fst (getWalletById (w_id v) u s) \<noteq> Inl e" "fst (getWalletById (w_id w) u s) \<noteq> Inl e" for e
    using get [OF assms(3) with_defaults_self assms(5)] get [OF assms(4) with_defaults_self assms(6)] by simp_all
  moreover have "fst (getWalletById (w_id w) u t1) \<noteq> Inl e" for e
    using get [OF assms(4) t1 assms(6)] by simp
  ultimately have runs: "sd_run env u ids [0, 1, 0, 1, 0, 1] s = snd (mark_default env (w_id w) s2)"
    "sd_run env u ids [0, 0, 0, 1, 1, 1] s = snd (mark_default env (w_id w) t2)"
    by (auto simp: sd_run_def sd_turn_def assms(8) assms(9) [simplified] s1_def s2_def t1_def t2_def split: sum.splits)
  have user: "w_userId x = u" if "x \<in> set (ws_wallets s)" "w_id x = w_id v \<or> w_id x = w_id w" for x
    using that ok_unique_id [OF assms(1) that(1) assms(3)] ok_unique_id [OF assms(1) that(1) assms(4)] assms(5,6) by auto
  have "map w_id (defaults_of u (ws_wallets (snd (mark_default env (w_id w) s2)))) =
      map w_id (filter (\<lambda>x. w_id x = w_id v \<or> w_id x = w_id w) (ws_wallets s))"
    unfolding mark [OF assms(4) s2] defaults_with by (rule arg_cong [of _ _ "map w_id"], rule filter_cong) (use user in auto)
  moreover have "map w_id (defaults_of u (ws_wallets (snd (mark_default env (w_id w) t2)))) =
      map w_id (filter (\<lambda>x. w_id x = w_id w) (ws_wallets s))"
    unfolding mark [OF assms(4) t2] defaults_with by (rule arg_cong [of _ _ "map w_id"], rule filter_cong) (use user in auto)
  moreover have "filter (\<lambda>x. w_id x = w_id w) (ws_wallets s) = [w]"
    by (rule filter_unique_id [OF ok_distinct [OF assms(1)] assms(4)])
  ultimately show ?thesis unfolding runs by (simp add: filter_map comp_def)
qed

theorem overlapping_requests_two_defaults_witness:
  "map w_id (defaults_of ''u'' (ws_wallets (sd_run demo_wenv ''u'' (\<lambda>k. if k = 0 then ''w1'' else ''w2'') [0, 1, 0, 1, 0, 1] demo_wstate))) =
     [''w1'', ''w2'']"
  using overlapping_requests_two_defaults [OF demo_wstate_ok, of demo_wenv "demo_wallet ''w1'' True" "demo_wallet ''w2'' False" "''u''"
      "\<lambda>k. if k = 0 then ''w1'' else ''w2''"]
  by (simp add: demo_wstate_def demo_wallet_def new_wallet_def)

text \<open>
  Under the schema of the repository no wallet can be created. The service creates a row without
  \<open>encryptedSecret\<close>, which the schema requires, so that every call to create or import a wallet is
  refused; and it sets flags that are not columns, so that freezing and multi-signature are refused
  as well. Nothing changes.
\<close>

theorem schema_refuses_wallets:
  assumes "we_columns env = schema_columns" and "we_required env = schema_required"
  shows "(\<exists>e. createWallet env now i u pk alias s = (Inl e, s)) \<and>
    (\<exists>e. importWallet env now i iv u secret alias s = (Inl e, s)) \<and>
    freezeWallet env i u s = (Inl ValidationError, s) \<and> unfreezeWallet env i u s = (Inl ValidationError, s) \<and>
    enableMultisig env i u s = (Inl ValidationError, s)"
proof -
  have "''encryptedSecret'' \<in> set (we_required env)" "''isFrozen'' \<notin> set (we_columns env)" "''multisigEnabled'' \<notin> set (we_columns env)"
    by (simp_all add: assms schema_required_def schema_columns_def)
  then have row: "create_row env [''userId'', ''publicKey'', ''alias'', ''isDefault''] w t = (Inl ValidationError, t)"
    and flags: "update_row env [''isFrozen''] P f t = (Inl ValidationError, t)"
      "update_row env [''multisigEnabled''] P f t = (Inl ValidationError, t)" for w t P f
    by (auto simp: create_row_def update_row_def)
  have create: "\<exists>e. createWallet env now i u k alias s = (Inl e, s)" for k
    by (auto simp: createWallet_def M_defs Let_def row)
  have "\<exists>e. importWallet env now i iv u secret alias s = (Inl e, s)"
  proof (cases "we_keypair env secret")
    case (Inr k)
    obtain e where "createWallet env now i u k alias s = (Inl e, s)" using create by blast
    then show ?thesis by (cases "encrypt env iv secret u") (simp_all add: importWallet_def bindM_def liftR_def Inr)
  qed (simp add: importWallet_def bindM_def liftR_def)
  then show ?thesis using create flags by (simp add: freezeWallet_def unfreezeWallet_def enableMultisig_def)
qed

theorem schema_refuses_wallets_witness:
  "freezeWallet (demo_wenv\<lparr>we_required := schema_required\<rparr>) ''w1'' ''u'' demo_wstate = (Inl ValidationError, demo_wstate)"
  using schema_refuses_wallets [of "demo_wenv\<lparr>we_required := schema_required\<rparr>" 0 "''w1''" "''u''" "''G''" None demo_wstate] by simp

text \<open>
  A delegated signature is by the key of a wallet of the user: the oldest one, whatever the default is.
\<close>

lemma vault_signs_oldest_wallet:
  assumes "vault_signTransaction env post requestId u xdr s = (Inr r, s')"
  shows "s' = s \<and> ds_requestId r = requestId \<and>
    (\<exists>w. find (\<lambda>w. w_userId w = u) (ws_wallets s) = Some w \<and> ds_signerPublicKey r = w_publicKey w)"
  using assms
  by (auto simp: vault_signTransaction_def M_defs split: option.splits if_splits sum.splits json.splits)

end
