(* ===== verification/RpcClient.thy ===== *)
theory RpcClient
  imports Wallets
begin

text \<open>
  The client of the Stellar nodes (\<open>apps/api/src/soroban/rpc-client.service.ts\<close> and
  \<open>rpc-health.controller.ts\<close>): it polls the endpoints, ranks those that are healthy and not behind
  by a smooth weighted round robin, and fails over from one to the next. Parameters are the
  environment, the requests and the operation of the caller; each takes a number of milliseconds.
  The logger and the gauges of latency and height are left out; the gauge that tells whether all
  endpoints are down and the counter of failovers are part of the state.
\<close>

section \<open>Data\<close>

datatype RpcEndpointKind = Soroban | Horizon

datatype RpcHealthStatus = Healthy | Degraded | Unhealthy | RateLimited

record RpcEndpointConfig =
  ep_id :: string
  ep_url :: string
  ep_kind :: RpcEndpointKind
  ep_weight :: jsnum

record RpcEndpointState = RpcEndpointConfig +
  ep_status :: RpcHealthStatus
  ep_latencyMs :: "int option"
  ep_blockHeight :: "jsnum option"
  ep_lastCheckedAt :: "int option"
  ep_lastError :: "string option"
  ep_consecutiveFailures :: nat
  ep_rateLimitedUntil :: "int option"
  ep_routingBalance :: jsnum

text \<open>The clock is a part of the state; an operation of the caller advances it.\<close>

record rpc_state =
  rp_endpoints :: "RpcEndpointState list"
  rp_now :: int
  rp_allDegraded :: "RpcEndpointKind \<Rightarrow> bool option"
  rp_failovers :: "(RpcEndpointKind \<times> string) list"

record rpc_conf =
  rc_maxBlockLag :: jsnum
  rc_healthIntervalMs :: jsnum
  rc_requestTimeoutMs :: jsnum
  rc_rateLimitCooldownMs :: jsnum

section \<open>Configuration\<close>

definition readNumber :: "(string \<Rightarrow> string option) \<Rightarrow> string \<Rightarrow> jsnum \<Rightarrow> jsnum" where
  "readNumber vars name fallback =
     (let v = (case vars name of None \<Rightarrow> NaN | Some t \<Rightarrow> js_Number t)
      in if isFinite v \<and> js_lt (Num 0) v then v else fallback)"

definition rpc_config :: "(string \<Rightarrow> string option) \<Rightarrow> rpc_conf" where
  "rpc_config vars = \<lparr>rc_maxBlockLag = readNumber vars ''RPC_MAX_BLOCK_LAG'' (Num 3),
     rc_healthIntervalMs = readNumber vars ''RPC_HEALTH_INTERVAL_MS'' (Num 10000),
     rc_requestTimeoutMs = readNumber vars ''RPC_REQUEST_TIMEOUT_MS'' (Num 5000),
     rc_rateLimitCooldownMs = readNumber vars ''RPC_RATE_LIMIT_COOLDOWN_MS'' (Num 60000)\<rparr>"

fun kind_name :: "RpcEndpointKind \<Rightarrow> string" where
  "kind_name Soroban = ''soroban''"
| "kind_name Horizon = ''horizon''"

text \<open>An entry is a URL with an optional weight after a bar; the n-th entry has the number n in its id.\<close>

definition endpoint_of :: "RpcEndpointKind \<Rightarrow> nat \<Rightarrow> string \<Rightarrow> RpcEndpointConfig" where
  "endpoint_of kind index entry =
     (let parts = map js_trim (split_on (CHR ''|'') entry)
      in \<lparr>ep_id = kind_name kind @ ''-'' @ show_nat (index + 1), ep_url = hd parts, ep_kind = kind,
          ep_weight = (case tl parts of
             [] \<Rightarrow> Num 1
           | weight # _ \<Rightarrow> if weight = [] then Num 1 else js_max (js_Number weight) (Num 1))\<rparr>)"

definition first_set :: "(string \<Rightarrow> string option) \<Rightarrow> string list \<Rightarrow> string \<Rightarrow> string" where
  "first_set vars names fallback =
     (case find (\<lambda>n. truthy (vars n)) names of None \<Rightarrow> fallback | Some n \<Rightarrow> the (vars n))"

definition parseEndpointList :: "(string \<Rightarrow> string option) \<Rightarrow> string \<Rightarrow> string \<Rightarrow> RpcEndpointKind \<Rightarrow> RpcEndpointConfig list" where
  "parseEndpointList vars listEnv fallbackEnv kind =
     (let fallback = (case kind of Soroban \<Rightarrow> ''https://soroban-testnet.stellar.org''
                                 | Horizon \<Rightarrow> ''https://horizon-testnet.stellar.org'');
          raw = first_set vars [listEnv, fallbackEnv] fallback;
          entries = filter (\<lambda>e. e \<noteq> []) (map js_trim (split_on (CHR '','') raw))
      in map (\<lambda>(index, entry). endpoint_of kind index entry) (zip [0..<length entries] entries))"

definition loadEndpointConfig :: "(string \<Rightarrow> string option) \<Rightarrow> RpcEndpointConfig list" where
  "loadEndpointConfig vars =
     parseEndpointList vars ''SOROBAN_RPC_URLS'' ''SOROBAN_RPC_URL'' Soroban @
     parseEndpointList vars ''STELLAR_HORIZON_URLS'' ''STELLAR_HORIZON_URL'' Horizon"

definition fresh_endpoint :: "RpcEndpointConfig \<Rightarrow> RpcEndpointState" where
  "fresh_endpoint c = \<lparr>ep_id = ep_id c, ep_url = ep_url c, ep_kind = ep_kind c, ep_weight = ep_weight c,
     ep_status = Degraded, ep_latencyMs = None, ep_blockHeight = None, ep_lastCheckedAt = None, ep_lastError = None,
     ep_consecutiveFailures = 0, ep_rateLimitedUntil = None, ep_routingBalance = Num 0\<rparr>"

definition new_rpc_client :: "(string \<Rightarrow> string option) \<Rightarrow> int \<Rightarrow> rpc_state" where
  "new_rpc_client vars now = \<lparr>rp_endpoints = map fresh_endpoint (loadEndpointConfig vars), rp_now = now,
     rp_allDegraded = (\<lambda>_. None), rp_failovers = []\<rparr>"

definition getSnapshot :: "RpcEndpointKind option \<Rightarrow> rpc_state \<Rightarrow> RpcEndpointState list" where
  "getSnapshot kind s = filter (\<lambda>e. kind = None \<or> kind = Some (ep_kind e)) (rp_endpoints s)"

section \<open>Health\<close>

text \<open>\<open>None\<close> is \<open>null\<close>: no endpoint of the kind has a height.\<close>

definition highestBlock :: "RpcEndpointKind \<Rightarrow> RpcEndpointState list \<Rightarrow> jsnum option" where
  "highestBlock kind eps =
     (let heights = List.map_filter ep_blockHeight (filter (\<lambda>e. ep_kind e = kind) eps)
      in if heights = [] then None else Some (foldl js_max NegInf heights))"

definition isRoutable :: "rpc_conf \<Rightarrow> int \<Rightarrow> RpcEndpointState \<Rightarrow> jsnum option \<Rightarrow> bool" where
  "isRoutable conf now e highest =
     (if ep_status e = Unhealthy \<or> ep_status e = RateLimited then False
      else if (case ep_rateLimitedUntil e of None \<Rightarrow> False | Some t \<Rightarrow> now < t) then False
      else case (highest, ep_blockHeight e) of
        (Some h, Some b) \<Rightarrow> js_le (js_sub h b) (rc_maxBlockLag conf)
      | _ \<Rightarrow> ep_status e = Healthy \<or> ep_status e = Degraded)"

definition effectiveWeight :: "RpcEndpointState \<Rightarrow> jsnum" where
  "effectiveWeight e =
     (let latency = max (case ep_latencyMs e of None \<Rightarrow> 1000 | Some l \<Rightarrow> l) 1
      in js_mul (ep_weight e) (js_div (Num 1000) (Num (of_int latency))))"

fun extractStatus :: "exn \<Rightarrow> nat option" where
  "extractStatus (HttpException n _) = Some n"
| "extractStatus _ = None"

fun errorMessage :: "exn \<Rightarrow> string" where
  "errorMessage (HttpException _ m) = m"
| "errorMessage (PrismaError c) = c"
| "errorMessage (JsError n m) = (if m = [] then n else m)"

definition markSuccess :: "int \<Rightarrow> int \<Rightarrow> RpcEndpointState \<Rightarrow> RpcEndpointState" where
  "markSuccess now latencyMs e = e\<lparr>ep_latencyMs := Some latencyMs, ep_lastCheckedAt := Some now, ep_lastError := None,
     ep_consecutiveFailures := 0, ep_rateLimitedUntil := None, ep_status := Healthy\<rparr>"

text \<open>\<open>new Date(t)\<close>: the whole milliseconds; beyond the range of dates it is invalid, and no time is before it.\<close>

definition date_of :: "jsnum \<Rightarrow> int option" where
  "date_of t = (case t of Num q \<Rightarrow> if \<bar>q\<bar> \<le> 8640000000000000 then Some (if q < 0 then - \<lfloor>- q\<rfloor> else \<lfloor>q\<rfloor>) else None | _ \<Rightarrow> None)"

definition markFailure :: "rpc_conf \<Rightarrow> int \<Rightarrow> exn \<Rightarrow> nat option \<Rightarrow> RpcEndpointState \<Rightarrow> RpcEndpointState" where
  "markFailure conf now err status e =
     (let e1 = e\<lparr>ep_lastCheckedAt := Some now, ep_lastError := Some (errorMessage err),
                 ep_consecutiveFailures := ep_consecutiveFailures e + 1\<rparr>
      in if status = Some 429
         then e1\<lparr>ep_status := RateLimited,
                 ep_rateLimitedUntil := date_of (js_add (Num (of_int now)) (rc_rateLimitCooldownMs conf))\<rparr>
         else e1\<lparr>ep_status := (if 2 \<le> ep_consecutiveFailures e1 then Unhealthy else Degraded)\<rparr>)"

definition set_endpoint :: "string \<Rightarrow> (RpcEndpointState \<Rightarrow> RpcEndpointState) \<Rightarrow> rpc_state \<Rightarrow> rpc_state" where
  "set_endpoint i f s = s\<lparr>rp_endpoints := update_where (\<lambda>e. ep_id e = i) f (rp_endpoints s)\<rparr>"

definition alertIfAllDegraded :: "rpc_conf \<Rightarrow> RpcEndpointKind \<Rightarrow> rpc_state \<Rightarrow> rpc_state" where
  "alertIfAllDegraded conf kind s =
     (let eps = filter (\<lambda>e. ep_kind e = kind) (rp_endpoints s);
          highest = highestBlock kind (rp_endpoints s)
      in if eps = [] then s
         else s\<lparr>rp_allDegraded := (rp_allDegraded s)(kind := Some (list_all (\<lambda>e. \<not> isRoutable conf (rp_now s) e highest) eps))\<rparr>)"

section \<open>Polling\<close>

text \<open>Optional chaining and the nullish operator on a parsed answer.\<close>

definition jget :: "json option \<Rightarrow> string \<Rightarrow> json option" where
  "jget j name = (case j of Some (JObject fs) \<Rightarrow> map_of (rev fs) name | _ \<Rightarrow> None)"

definition nullish :: "json option \<Rightarrow> json option \<Rightarrow> json option" where
  "nullish a b = (if a = None \<or> a = Some JNull then b else a)"

definition fetchSorobanLedger :: "json res \<Rightarrow> jsnum res" where
  "fetchSorobanLedger response =
     (case response of
        Inl e \<Rightarrow> Inl e
      | Inr payload \<Rightarrow>
          let result = jget (Some payload) ''result'';
              sequence = nullish (nullish (jget result ''sequence'') (jget result ''ledger'')) (jget result ''latestLedger'')
          in (case sequence of
                Some (JNumber n) \<Rightarrow> Inr n
              | _ \<Rightarrow> Inl (JsError ''Error'' ''Soroban RPC health response missing latest ledger sequence'')))"

definition fetchHorizonLedger :: "json res \<Rightarrow> jsnum res" where
  "fetchHorizonLedger response =
     (case response of
        Inl e \<Rightarrow> Inl e
      | Inr payload \<Rightarrow>
          let sequence = nullish (jget (Some payload) ''history_latest_ledger'') (jget (Some payload) ''core_latest_ledger'')
          in (case sequence of
                Some (JNumber n) \<Rightarrow> Inr n
              | _ \<Rightarrow> Inl (JsError ''Error'' ''Horizon health response missing latest ledger sequence'')))"

text \<open>\<open>http kind url\<close> is the answer of the endpoint and the time it took.\<close>

type_synonym http = "RpcEndpointKind \<Rightarrow> string \<Rightarrow> json res \<times> nat"

definition health_url :: "RpcEndpointState \<Rightarrow> string" where
  "health_url e = (case ep_kind e of Soroban \<Rightarrow> ep_url e | Horizon \<Rightarrow> strip_end_slash (ep_url e))"

definition pollEndpoint :: "rpc_conf \<Rightarrow> http \<Rightarrow> int \<Rightarrow> RpcEndpointState \<Rightarrow> RpcEndpointState" where
  "pollEndpoint conf http started e =
     (let (response, duration) = http (ep_kind e) (health_url e);
          now = started + int duration
      in case (case ep_kind e of Soroban \<Rightarrow> fetchSorobanLedger response | Horizon \<Rightarrow> fetchHorizonLedger response) of
           Inr blockHeight \<Rightarrow> markSuccess now (int duration) (e\<lparr>ep_blockHeight := Some blockHeight\<rparr>)
         | Inl err \<Rightarrow> markFailure conf now err (extractStatus err) e)"

text \<open>The polls run at the same time and each changes its own endpoint; the last to answer ends the refresh.\<close>

definition refreshHealth :: "rpc_conf \<Rightarrow> http \<Rightarrow> rpc_state \<Rightarrow> rpc_state" where
  "refreshHealth conf http s =
     (let durations = map (\<lambda>e. snd (http (ep_kind e) (health_url e))) (rp_endpoints s);
          s1 = s\<lparr>rp_endpoints := map (pollEndpoint conf http (rp_now s)) (rp_endpoints s),
                 rp_now := rp_now s + int (fold max durations 0)\<rparr>
      in alertIfAllDegraded conf Horizon (alertIfAllDegraded conf Soroban s1))"

section \<open>Routing\<close>

text \<open>The comparison of the sort: positive when \<open>a\<close> goes after \<open>b\<close>.\<close>

definition ranks_after :: "string \<Rightarrow> string \<times> jsnum \<Rightarrow> string \<times> jsnum \<Rightarrow> bool" where
  "ranks_after selected a b =
     (if fst a = selected then False else if fst b = selected then True
      else js_lt (Num 0) (js_sub (snd b) (snd a)))"

text \<open>\<open>Array.prototype.sort\<close>, which is stable, with that comparison.\<close>

fun insert_ranked :: "string \<Rightarrow> string \<times> jsnum \<Rightarrow> (string \<times> jsnum) list \<Rightarrow> (string \<times> jsnum) list" where
  "insert_ranked selected a [] = [a]"
| "insert_ranked selected a (b # bs) =
     (if ranks_after selected a b then b # insert_ranked selected a bs else a # b # bs)"

definition sort_ranked :: "string \<Rightarrow> (string \<times> jsnum) list \<Rightarrow> (string \<times> jsnum) list" where
  "sort_ranked selected xs = foldr (insert_ranked selected) xs []"

definition heavier :: "RpcEndpointState \<Rightarrow> RpcEndpointState \<Rightarrow> RpcEndpointState" where
  "heavier best candidate = (if js_lt (ep_routingBalance best) (ep_routingBalance candidate) then candidate else best)"

definition candidates :: "rpc_conf \<Rightarrow> RpcEndpointKind \<Rightarrow> rpc_state \<Rightarrow> RpcEndpointState list" where
  "candidates conf kind s =
     filter (\<lambda>e. ep_kind e = kind \<and> isRoutable conf (rp_now s) e (highestBlock kind (rp_endpoints s))) (rp_endpoints s)"

definition credit :: "RpcEndpointState \<Rightarrow> RpcEndpointState" where
  "credit e = e\<lparr>ep_routingBalance := js_add (ep_routingBalance e) (effectiveWeight e)\<rparr>"

text \<open>The ids of the candidates in the order to try, and the balances after.\<close>

definition rankHealthy :: "rpc_conf \<Rightarrow> RpcEndpointKind \<Rightarrow> rpc_state \<Rightarrow> string list \<times> rpc_state" where
  "rankHealthy conf kind s =
     (let ranked = candidates conf kind s
      in if length ranked \<le> 1 then (map ep_id ranked, s)
         else
           let totalScore = js_sum (map effectiveWeight ranked);
               credited = map credit ranked;
               selected = foldl heavier (hd credited) (tl credited);
               s1 = s\<lparr>rp_endpoints := update_where (\<lambda>e. ep_id e \<in> set (map ep_id ranked)) credit (rp_endpoints s)\<rparr>;
               s2 = set_endpoint (ep_id selected)
                      (\<lambda>e. e\<lparr>ep_routingBalance := js_sub (ep_routingBalance e) totalScore\<rparr>) s1
           in (map fst (sort_ranked (ep_id selected) (map (\<lambda>e. (ep_id e, effectiveWeight e)) ranked)), s2))"

text \<open>\<open>oper\<close> is the call of the caller on an endpoint, with the time it takes.\<close>

fun try_endpoints ::
  "rpc_conf \<Rightarrow> RpcEndpointKind \<Rightarrow> (RpcEndpointState \<Rightarrow> 'a res \<times> nat) \<Rightarrow> string list \<Rightarrow> string list \<Rightarrow> rpc_state \<Rightarrow> (string list + 'a) \<times> rpc_state" where
  "try_endpoints conf kind oper [] errors s = (Inl errors, s)"
| "try_endpoints conf kind oper (i # is) errors s =
     (case find (\<lambda>e. ep_id e = i) (rp_endpoints s) of
        None \<Rightarrow> try_endpoints conf kind oper is errors s
      | Some e \<Rightarrow>
          let (r, duration) = oper e; s1 = s\<lparr>rp_now := rp_now s + int duration\<rparr>
          in (case r of
                Inr x \<Rightarrow> (Inr x, set_endpoint i (markSuccess (rp_now s1) (int duration)) s1)
              | Inl err \<Rightarrow>
                  let s2 = set_endpoint i (markFailure conf (rp_now s1) err (extractStatus err)) s1
                  in try_endpoints conf kind oper is (errors @ [i @ '': '' @ errorMessage err])
                       (s2\<lparr>rp_failovers := rp_failovers s2 @ [(kind, i)]\<rparr>)))"

fun join :: "string \<Rightarrow> string list \<Rightarrow> string" where
  "join sep [] = []"
| "join sep [x] = x"
| "join sep (x # y # ys) = x @ sep @ join sep (y # ys)"

definition withEndpoint ::
  "rpc_conf \<Rightarrow> RpcEndpointKind \<Rightarrow> (RpcEndpointState \<Rightarrow> 'a res \<times> nat) \<Rightarrow> (rpc_state, 'a) M" where
  "withEndpoint conf kind oper s =
     (let (ids, s1) = rankHealthy conf kind s
      in if ids = []
         then (Inl (JsError ''Error'' (''No healthy '' @ kind_name kind @ '' RPC endpoints are available'')), alertIfAllDegraded conf kind s1)
         else (case try_endpoints conf kind oper ids [] s1 of
                 (Inr x, s2) \<Rightarrow> (Inr x, s2)
               | (Inl errors, s2) \<Rightarrow>
                   (Inl (JsError ''Error'' (''All '' @ kind_name kind @ '' RPC endpoints failed: '' @ join ''; '' errors)),
                    alertIfAllDegraded conf kind s2)))"

text \<open>The callers work on the URL of the endpoint.\<close>

definition withSorobanServer :: "rpc_conf \<Rightarrow> (string \<Rightarrow> 'a res \<times> nat) \<Rightarrow> (rpc_state, 'a) M" where
  "withSorobanServer conf operation = withEndpoint conf Soroban (\<lambda>e. operation (ep_url e))"

definition withHorizonServer :: "rpc_conf \<Rightarrow> (string \<Rightarrow> 'a res \<times> nat) \<Rightarrow> (rpc_state, 'a) M" where
  "withHorizonServer conf operation = withEndpoint conf Horizon (\<lambda>e. operation (ep_url e))"

definition strip_start_slash :: "string \<Rightarrow> string" where
  "strip_start_slash p = (case p of c # r \<Rightarrow> if c = CHR ''/'' then r else p | [] \<Rightarrow> [])"

definition requestHorizon :: "rpc_conf \<Rightarrow> (string \<Rightarrow> 'a res \<times> nat) \<Rightarrow> string \<Rightarrow> (rpc_state, 'a) M" where
  "requestHorizon conf get path =
     withEndpoint conf Horizon (\<lambda>e. get (strip_end_slash (ep_url e) @ ''/'' @ strip_start_slash path))"

section \<open>The health endpoints\<close>

definition parseKind :: "string option \<Rightarrow> RpcEndpointKind option res" where
  "parseKind kind =
     (if \<not> truthy kind then Inr None
      else if kind = Some ''soroban'' then Inr (Some Soroban)
      else if kind = Some ''horizon'' then Inr (Some Horizon)
      else Inl (BadRequestException ''kind must be either \"soroban\" or \"horizon\"''))"

definition ctl_health :: "string option \<Rightarrow> (rpc_state, RpcEndpointState list) M" where
  "ctl_health kind = bindM (liftR (parseKind kind)) (\<lambda>k. readM (getSnapshot k))"

definition ctl_refresh :: "rpc_conf \<Rightarrow> http \<Rightarrow> string option \<Rightarrow> (rpc_state, RpcEndpointState list) M" where
  "ctl_refresh conf http kind = thenM (modifyM (refreshHealth conf http)) (ctl_health kind)"

section \<open>The ranking\<close>

lemma set_insert_ranked [simp]: "set (insert_ranked k a xs) = insert a (set xs)"
  by (induction xs) auto

lemma set_sort_ranked [simp]: "set (sort_ranked k xs) = set xs"
  by (induction xs) (simp_all add: sort_ranked_def)

lemma length_insert_ranked [simp]: "length (insert_ranked k a xs) = Suc (length xs)"
  by (induction xs) auto

lemma length_sort_ranked [simp]: "length (sort_ranked k xs) = length xs"
  by (induction xs) (simp_all add: sort_ranked_def)

lemma distinct_fst_insert_ranked:
  "distinct (map fst (insert_ranked k a xs)) \<longleftrightarrow> fst a \<notin> fst ` set xs \<and> distinct (map fst xs)"
  by (induction xs) auto

lemma distinct_sort_ranked [simp]: "distinct (map fst (sort_ranked k xs)) = distinct (map fst xs)"
proof (induction xs)
  case (Cons a xs)
  have "sort_ranked k (a # xs) = insert_ranked k a (sort_ranked k xs)" by (simp add: sort_ranked_def)
  then show ?case using Cons by (simp add: distinct_fst_insert_ranked)
qed (simp add: sort_ranked_def)

text \<open>The selected endpoint comes first.\<close>

lemma sort_ranked_hd:
  "distinct (map fst xs) \<Longrightarrow> k \<in> fst ` set xs \<Longrightarrow> fst (hd (sort_ranked k xs)) = k"
proof (induction xs)
  case (Cons a xs)
  have eq: "sort_ranked k (a # xs) = insert_ranked k a (sort_ranked k xs)" by (simp add: sort_ranked_def)
  show ?case
  proof (cases "fst a = k")
    case True
    then show ?thesis by (cases "sort_ranked k xs") (simp_all add: eq ranks_after_def)
  next
    case False
    then have k: "k \<in> fst ` set xs" using Cons.prems by auto
    then have "fst (hd (sort_ranked k xs)) = k" using Cons by simp
    moreover have "xs \<noteq> []" using k by auto
    then have "sort_ranked k xs \<noteq> []" by (metis length_0_conv length_sort_ranked)
    ultimately show ?thesis using False by (cases "sort_ranked k xs") (simp_all add: eq ranks_after_def)
  qed
qed simp

abbreviation ids_distinct :: "rpc_state \<Rightarrow> bool" where
  "ids_distinct s \<equiv> distinct (map ep_id (rp_endpoints s))"

lemma credit_simps [simp]:
  "ep_id (credit e) = ep_id e" "ep_url (credit e) = ep_url e" "ep_kind (credit e) = ep_kind e"
  "ep_weight (credit e) = ep_weight e" "ep_status (credit e) = ep_status e" "ep_latencyMs (credit e) = ep_latencyMs e"
  "ep_blockHeight (credit e) = ep_blockHeight e" "ep_consecutiveFailures (credit e) = ep_consecutiveFailures e"
  "ep_rateLimitedUntil (credit e) = ep_rateLimitedUntil e"
  by (simp_all add: credit_def)

lemma foldl_heavier_mem: "foldl heavier e es \<in> set (e # es)"
  by (induction es arbitrary: e) (auto simp: heavier_def split: if_splits)

text \<open>The state after a ranking differs in the balances only.\<close>

definition bare :: "RpcEndpointState \<Rightarrow> RpcEndpointState" where
  "bare e = e\<lparr>ep_routingBalance := Num 0\<rparr>"

lemma map_bare_update_where: "(\<And>e. bare (f e) = bare e) \<Longrightarrow> map bare (update_where P f es) = map bare es"
  by simp

lemma bare_balance [simp]: "bare (e\<lparr>ep_routingBalance := b\<rparr>) = bare e" "bare (credit e) = bare e"
  by (simp_all add: bare_def credit_def)

lemma bare_fields:
  assumes "bare e = bare e'"
  shows "ep_id e = ep_id e'" "ep_url e = ep_url e'" "ep_kind e = ep_kind e'" "ep_status e = ep_status e'"
    "ep_blockHeight e = ep_blockHeight e'" "ep_consecutiveFailures e = ep_consecutiveFailures e'"
    "ep_rateLimitedUntil e = ep_rateLimitedUntil e'" "effectiveWeight e = effectiveWeight e'"
proof -
  have "f e = f (bare e) \<and> f e' = f (bare e')" if "\<And>x b. f (x\<lparr>ep_routingBalance := b\<rparr>) = f x" for f :: "RpcEndpointState \<Rightarrow> 'b"
    using that by (simp add: bare_def)
  note g = this
  show "ep_id e = ep_id e'" "ep_url e = ep_url e'" "ep_kind e = ep_kind e'" "ep_status e = ep_status e'"
    "ep_blockHeight e = ep_blockHeight e'" "ep_consecutiveFailures e = ep_consecutiveFailures e'"
    "ep_rateLimitedUntil e = ep_rateLimitedUntil e'" "effectiveWeight e = effectiveWeight e'"
    using g [of ep_id] g [of ep_url] g [of ep_kind] g [of ep_status] g [of ep_blockHeight] g [of ep_consecutiveFailures]
      g [of ep_rateLimitedUntil] g [of effectiveWeight] assms by (simp_all add: effectiveWeight_def)
qed

lemma rankHealthy_facts:
  assumes "rankHealthy conf kind s = (ids, s')" and "ids_distinct s"
  shows "set ids = ep_id ` set (candidates conf kind s)" and "distinct ids"
    and "map bare (rp_endpoints s') = map bare (rp_endpoints s)" and "rp_now s' = rp_now s"
proof -
  let ?c = "candidates conf kind s"
  have dist: "distinct (map ep_id ?c)" using assms(2) by (simp add: candidates_def distinct_map_filter)
  have fsts: "map fst (map (\<lambda>e. (ep_id e, effectiveWeight e)) ?c) = map ep_id ?c" by simp
  have "set ids = ep_id ` set ?c \<and> distinct ids \<and> map bare (rp_endpoints s') = map bare (rp_endpoints s) \<and> rp_now s' = rp_now s"
  proof (cases "length ?c \<le> 1")
    case True
    then show ?thesis using assms(1) dist by (auto simp: rankHealthy_def Let_def)
  next
    case False
    define sel where "sel = ep_id (foldl heavier (hd (map credit ?c)) (tl (map credit ?c)))"
    have ids: "ids = map fst (sort_ranked sel (map (\<lambda>e. (ep_id e, effectiveWeight e)) ?c))"
      and s': "s' = set_endpoint sel (\<lambda>e. e\<lparr>ep_routingBalance := js_sub (ep_routingBalance e) (js_sum (map effectiveWeight ?c))\<rparr>)
        (s\<lparr>rp_endpoints := update_where (\<lambda>e. ep_id e \<in> set (map ep_id ?c)) credit (rp_endpoints s)\<rparr>)"
      using assms(1) False by (simp_all add: rankHealthy_def Let_def sel_def)
    have "distinct ids" unfolding ids by (simp only: distinct_sort_ranked fsts dist)
    moreover have "set ids = ep_id ` set ?c" by (auto simp: ids image_iff)
    moreover have "map bare (rp_endpoints s') = map bare (rp_endpoints s)"
      by (simp add: s' set_endpoint_def map_bare_update_where)
    ultimately show ?thesis by (simp add: s' set_endpoint_def)
  qed
  then show "set ids = ep_id ` set ?c" "distinct ids" "map bare (rp_endpoints s') = map bare (rp_endpoints s)"
    "rp_now s' = rp_now s" by auto
qed

section \<open>Failover\<close>

lemma mark_simps [simp]:
  "ep_id (markSuccess now l e) = ep_id e" "ep_url (markSuccess now l e) = ep_url e" "ep_kind (markSuccess now l e) = ep_kind e"
  "ep_id (markFailure conf now err st e) = ep_id e" "ep_url (markFailure conf now err st e) = ep_url e"
  "ep_kind (markFailure conf now err st e) = ep_kind e" "ep_blockHeight (markFailure conf now err st e) = ep_blockHeight e"
  by (simp_all add: markSuccess_def markFailure_def Let_def)

text \<open>The URL of an endpoint, which no operation changes.\<close>

definition url_of :: "rpc_state \<Rightarrow> string \<Rightarrow> string option" where
  "url_of s i = map_option ep_url (find (\<lambda>e. ep_id e = i) (rp_endpoints s))"

lemma url_of_set_endpoint:
  assumes "\<And>e. ep_id (f e) = ep_id e" and "\<And>e. ep_url (f e) = ep_url e"
  shows "url_of (set_endpoint i f s) j = url_of s j"
  using assms by (simp add: url_of_def set_endpoint_def find_update_where option.map_comp comp_def if_distrib cong: if_cong)

lemma url_of_simps [simp]:
  "url_of (s\<lparr>rp_now := n\<rparr>) j = url_of s j" "url_of (s\<lparr>rp_failovers := fs\<rparr>) j = url_of s j"
  by (simp_all add: url_of_def)

text \<open>The first endpoint whose operation succeeds gives the result.\<close>

lemma try_endpoints_result:
  assumes "\<And>i. i \<in> set ids \<Longrightarrow> url_of s i \<noteq> None" and "oper = (\<lambda>e. operation (ep_url e))"
  shows "(case find (\<lambda>i. \<not> isl (fst (operation (the (url_of s i))))) ids of
      None \<Rightarrow> \<exists>errs. fst (try_endpoints conf kind oper ids errors s) = Inl errs
    | Some i \<Rightarrow> fst (try_endpoints conf kind oper ids errors s) = Inr (projr (fst (operation (the (url_of s i))))))"
  using assms(1)
proof (induction ids arbitrary: errors s)
  case (Cons i ids)
  obtain e where e: "find (\<lambda>e. ep_id e = i) (rp_endpoints s) = Some e" and u: "url_of s i = Some (ep_url e)"
    using Cons.prems [of i] by (auto simp: url_of_def)
  obtain r d where r: "operation (ep_url e) = (r, d)" by (cases "operation (ep_url e)")
  show ?case
  proof (cases r)
    case (Inr x)
    then show ?thesis by (simp add: e u r assms(2))
  next
    case (Inl err)
    define s2 where "s2 = (set_endpoint i (markFailure conf (rp_now s + int d) err (extractStatus err)) (s\<lparr>rp_now := rp_now s + int d\<rparr>))
      \<lparr>rp_failovers := rp_failovers (set_endpoint i (markFailure conf (rp_now s + int d) err (extractStatus err)) (s\<lparr>rp_now := rp_now s + int d\<rparr>)) @ [(kind, i)]\<rparr>"
    have same: "url_of s2 j = url_of s j" for j by (simp add: s2_def url_of_set_endpoint)
    have run: "try_endpoints conf kind oper (i # ids) errors s = try_endpoints conf kind oper ids (errors @ [i @ '': '' @ errorMessage err]) s2"
      by (simp add: e r Inl assms(2) s2_def Let_def)
    have "\<And>j. j \<in> set ids \<Longrightarrow> url_of s2 j \<noteq> None" using Cons.prems by (simp add: same)
    from Cons.IH [OF this, of "errors @ [i @ '': '' @ errorMessage err]"]
    show ?thesis unfolding run by (simp add: same u r Inl split: option.splits del: try_endpoints.simps)
  qed
qed simp

lemma bare_map_find:
  assumes "map bare es = map bare es'"
  shows "map_option bare (find (\<lambda>e. ep_id e = i) es) = map_option bare (find (\<lambda>e. ep_id e = i) es')"
proof -
  have "list_all2 (\<lambda>a b. bare a = bare b) es es'" using assms by (simp add: list_all2_conv_all_nth list_eq_iff_nth_eq)
  then show ?thesis by (induction rule: list_all2_induct) (auto dest: bare_fields(1))
qed

lemma url_of_bare:
  assumes "map bare (rp_endpoints s) = map bare (rp_endpoints s')"
  shows "url_of s i = url_of s' i"
proof -
  have "map_option ep_url x = map_option ep_url (map_option bare x)" for x by (cases x) (simp_all add: bare_def)
  then show ?thesis unfolding url_of_def using bare_map_find [OF assms, of i] by metis
qed

lemma candidates_url:
  assumes "ids_distinct s" and "e \<in> set (candidates conf kind s)"
  shows "url_of s (ep_id e) = Some (ep_url e)"
  using find_key [OF assms(1)] assms(2) by (simp add: url_of_def candidates_def)

lemma withEndpoint_result:
  assumes "ids_distinct s"
  shows "(\<exists>e. fst (withEndpoint conf kind (\<lambda>e. operation (ep_url e)) s) = Inl (JsError ''Error'' e)) \<and>
      (\<forall>e \<in> set (candidates conf kind s). isl (fst (operation (ep_url e)))) \<or>
    (\<exists>e \<in> set (candidates conf kind s). \<exists>x. fst (operation (ep_url e)) = Inr x \<and>
      fst (withEndpoint conf kind (\<lambda>e. operation (ep_url e)) s) = Inr x)"
proof -
  obtain ids s1 where rk: "rankHealthy conf kind s = (ids, s1)" by (cases "rankHealthy conf kind s")
  note facts = rankHealthy_facts [OF rk assms]
  have url: "url_of s1 i = url_of s i" for i using url_of_bare [OF facts(3)] .
  have known: "url_of s1 i \<noteq> None" if "i \<in> set ids" for i
    using that candidates_url [OF assms] by (auto simp: facts(1) url)
  let ?oper = "\<lambda>e. operation (ep_url e)"
  note res = try_endpoints_result [where ids = ids, OF known refl, where errors = "[]" and conf = conf and kind = kind and operation = operation]
  show ?thesis
  proof (cases "find (\<lambda>i. \<not> isl (fst (operation (the (url_of s1 i))))) ids")
    case None
    then have "isl (fst (operation (ep_url e)))" if "e \<in> set (candidates conf kind s)" for e
      using that candidates_url [OF assms that] facts(1) by (auto simp: find_None_iff url)
    moreover have "\<exists>e. fst (withEndpoint conf kind ?oper s) = Inl (JsError ''Error'' e)"
      using res None by (auto simp: withEndpoint_def rk split: prod.splits sum.splits)
    ultimately show ?thesis by blast
  next
    case (Some i)
    then obtain e where e: "e \<in> set (candidates conf kind s)" "ep_id e = i" "\<not> isl (fst (operation (the (url_of s1 i))))"
      using find_Some_D [OF Some] facts(1) by auto
    then have "fst (operation (ep_url e)) = Inr (projr (fst (operation (ep_url e))))"
      using candidates_url [OF assms e(1)] by (simp add: url)
    moreover have "fst (withEndpoint conf kind ?oper s) = Inr (projr (fst (operation (ep_url e))))"
    proof -
      have "ids \<noteq> []" using Some by auto
      then show ?thesis
        using res Some candidates_url [OF assms e(1)] e(2) by (auto simp: withEndpoint_def rk url split: prod.splits sum.splits)
    qed
    ultimately show ?thesis using e(1) by blast
  qed
qed

section \<open>Failures\<close>

text \<open>What a failure changes of an endpoint, and what decides whether it is routable.\<close>

type_synonym ep_view = "string \<times> RpcEndpointKind \<times> jsnum option \<times> int option \<times> RpcHealthStatus \<times> nat"

definition view :: "RpcEndpointState \<Rightarrow> ep_view" where
  "view e = (ep_id e, ep_kind e, ep_blockHeight e, ep_rateLimitedUntil e, ep_status e, ep_consecutiveFailures e)"

fun failed_view :: "string set \<Rightarrow> ep_view \<Rightarrow> ep_view" where
  "failed_view ids (i, k, b, r, st, n) =
     (if i \<in> ids then (i, k, b, r, if 2 \<le> n + 1 then Unhealthy else Degraded, n + 1) else (i, k, b, r, st, n))"

lemma failed_view_insert: "i \<notin> ids \<Longrightarrow> failed_view ids (failed_view {i} v) = failed_view (insert i ids) v"
  by (cases v) auto

lemma view_markFailure: "st \<noteq> Some 429 \<Longrightarrow> view (markFailure conf now err st e) = failed_view {ep_id e} (view e)"
  by (simp add: view_def markFailure_def Let_def)

lemma view_bare: "map bare es = map bare es' \<Longrightarrow> map view es = map view es'"
proof -
  have "view (bare e) = view e" for e by (simp add: view_def bare_def)
  then show "map bare es = map bare es' \<Longrightarrow> map view es = map view es'" by (metis (no_types, lifting) list.map_comp list.map_cong0 comp_apply)
qed

lemma try_endpoints_fail:
  assumes "\<And>i. i \<in> set ids \<Longrightarrow> find (\<lambda>e. ep_id e = i) (rp_endpoints s) \<noteq> None" and "distinct ids"
    and "\<And>e. \<exists>err. fst (oper e) = Inl err \<and> extractStatus err \<noteq> Some 429"
  shows "map view (rp_endpoints (snd (try_endpoints conf kind oper ids errors s))) =
    map (failed_view (set ids)) (map view (rp_endpoints s))"
  using assms(1,2)
proof (induction ids arbitrary: errors s)
  case Nil
  have "failed_view {} v = v" for v by (cases v) simp
  then show ?case by (simp add: map_idI)
next
  case (Cons i ids)
  obtain e where e: "find (\<lambda>e. ep_id e = i) (rp_endpoints s) = Some e" using Cons.prems(1) [of i] by auto
  obtain err d where r: "oper e = (Inl err, d)" "extractStatus err \<noteq> Some 429"
    using assms(3) [of e] by (metis prod.collapse)
  let ?f = "markFailure conf (rp_now s + int d) err (extractStatus err)"
  define s2 where "s2 = (set_endpoint i ?f (s\<lparr>rp_now := rp_now s + int d\<rparr>))
    \<lparr>rp_failovers := rp_failovers (set_endpoint i ?f (s\<lparr>rp_now := rp_now s + int d\<rparr>)) @ [(kind, i)]\<rparr>"
  have run: "try_endpoints conf kind oper (i # ids) errors s = try_endpoints conf kind oper ids (errors @ [i @ '': '' @ errorMessage err]) s2"
    by (simp add: e r s2_def Let_def)
  have eps: "rp_endpoints s2 = update_where (\<lambda>e. ep_id e = i) ?f (rp_endpoints s)" by (simp add: s2_def set_endpoint_def)
  have "view (if ep_id x = i then ?f x else x) = failed_view {i} (view x)" for x
    using view_markFailure [OF r(2)] by (simp add: view_def)
  then have vs: "map view (rp_endpoints s2) = map (failed_view {i}) (map view (rp_endpoints s))"
    by (simp add: eps update_where_def)
  have "find (\<lambda>e. ep_id e = j) (rp_endpoints s2) \<noteq> None" if "j \<in> set ids" for j
    unfolding eps by (subst find_update_where) (use Cons.prems(1) [of j] that in simp_all)
  then have "map view (rp_endpoints (snd (try_endpoints conf kind oper (i # ids) errors s))) =
      map (failed_view (set ids)) (map (failed_view {i}) (map view (rp_endpoints s)))"
    using Cons.IH [of s2] Cons.prems(2) by (simp add: run vs del: try_endpoints.simps map_map)
  then show ?case using Cons.prems(2) failed_view_insert by (simp add: comp_def del: try_endpoints.simps)
qed

text \<open>A call that fails on every candidate marks each of them once.\<close>

lemma withEndpoint_fail:
  assumes "ids_distinct s" and "\<And>e. \<exists>err. fst (oper e) = Inl err \<and> extractStatus err \<noteq> Some 429"
  shows "map view (rp_endpoints (snd (withEndpoint conf kind oper s))) =
    map (failed_view (ep_id ` set (candidates conf kind s))) (map view (rp_endpoints s))"
proof -
  obtain ids s1 where rk: "rankHealthy conf kind s = (ids, s1)" by (cases "rankHealthy conf kind s")
  note facts = rankHealthy_facts [OF rk assms(1)]
  have v1: "map view (rp_endpoints s1) = map view (rp_endpoints s)" by (rule view_bare [OF facts(3)])
  have al: "rp_endpoints (alertIfAllDegraded conf kind t) = rp_endpoints t" for t
    by (simp add: alertIfAllDegraded_def Let_def)
  have known: "find (\<lambda>e. ep_id e = i) (rp_endpoints s1) \<noteq> None" if "i \<in> set ids" for i
  proof -
    have "i \<in> ep_id ` set (rp_endpoints s)" using that facts(1) by (auto simp: candidates_def)
    moreover have "ep_id ` set (rp_endpoints s) = fst ` set (map view (rp_endpoints s))" by (auto simp: view_def image_iff)
    moreover have "ep_id ` set (rp_endpoints s1) = fst ` set (map view (rp_endpoints s1))" by (auto simp: view_def image_iff)
    ultimately have "i \<in> ep_id ` set (rp_endpoints s1)" unfolding v1 by simp
    then show ?thesis by (auto simp: find_None_iff)
  qed
  have empty: "map (failed_view {}) vs = vs" for vs by (rule map_idI) (metis failed_view.simps empty_iff prod_cases6)
  show ?thesis
  proof (cases "ids = []")
    case True
    then show ?thesis using facts(1) v1 by (simp add: withEndpoint_def rk al empty del: map_map)
  next
    case False
    obtain r s2 where run: "try_endpoints conf kind oper ids [] s1 = (r, s2)" by (cases "try_endpoints conf kind oper ids [] s1")
    have "map view (rp_endpoints s2) = map (failed_view (set ids)) (map view (rp_endpoints s))"
      using try_endpoints_fail [where oper = oper, OF known facts(2) assms(2), where errors = "[]" and conf = conf and kind = kind] by (simp add: run v1 del: map_map)
    then show ?thesis using False by (simp add: withEndpoint_def rk run al facts(1) split: sum.splits)
  qed
qed

text \<open>Routing reads the view only; without a rate limit the time does not matter.\<close>

fun routable_view :: "rpc_conf \<Rightarrow> jsnum option \<Rightarrow> ep_view \<Rightarrow> bool" where
  "routable_view conf highest (i, k, b, r, st, n) =
     (if st = Unhealthy \<or> st = RateLimited then False
      else case (highest, b) of (Some h, Some b) \<Rightarrow> js_le (js_sub h b) (rc_maxBlockLag conf) | _ \<Rightarrow> True)"

definition no_limits :: "rpc_state \<Rightarrow> bool" where
  "no_limits s = list_all (\<lambda>e. ep_rateLimitedUntil e = None) (rp_endpoints s)"

lemma isRoutable_view:
  "ep_rateLimitedUntil e = None \<Longrightarrow> isRoutable conf now e highest = routable_view conf highest (view e)"
  by (cases "ep_status e") (auto simp: isRoutable_def view_def split: option.splits)

lemma highestBlock_failed:
  assumes "map view es' = map (failed_view ids) (map view es)"
  shows "highestBlock kind es' = highestBlock kind es"
proof -
  let ?f = "\<lambda>v :: ep_view. (fst (snd v), fst (snd (snd v)))"
  have f: "?f (failed_view ids v) = ?f v" for v by (cases v) simp
  have "map ?f (map view es') = map ?f (map view es)"
    unfolding assms map_map using f by (intro map_cong) (auto simp: comp_def)
  then have "map (\<lambda>e. (ep_kind e, ep_blockHeight e)) es' = map (\<lambda>e. (ep_kind e, ep_blockHeight e)) es"
    by (simp add: view_def comp_def)
  note eq = this
  have heights: "List.map_filter ep_blockHeight (filter (\<lambda>e. ep_kind e = kind) xs) =
      List.map_filter snd (filter (\<lambda>p. fst p = kind) (map (\<lambda>e. (ep_kind e, ep_blockHeight e)) xs))" for xs
    by (induction xs) (auto simp: List.map_filter_def)
  show ?thesis unfolding highestBlock_def heights eq ..
qed

lemma candidates_view:
  assumes "no_limits s" and "e \<in> set (rp_endpoints s)" and "ids_distinct s"
  shows "ep_id e \<in> ep_id ` set (candidates conf kind s) \<longleftrightarrow>
    ep_kind e = kind \<and> routable_view conf (highestBlock kind (rp_endpoints s)) (view e)"
proof -
  have "ep_id e \<in> ep_id ` set (candidates conf kind s) \<longleftrightarrow> e \<in> set (candidates conf kind s)"
  proof
    assume "ep_id e \<in> ep_id ` set (candidates conf kind s)"
    then obtain e' where e': "e' \<in> set (candidates conf kind s)" "ep_id e' = ep_id e" by auto
    then have "e' \<in> set (rp_endpoints s)" by (simp add: candidates_def)
    then have "e' = e" using e'(2) assms(2,3) by (auto simp: distinct_map dest: inj_onD)
    then show "e \<in> set (candidates conf kind s)" using e'(1) by simp
  qed simp
  moreover have "ep_rateLimitedUntil e = None" using assms(1,2) by (simp add: no_limits_def list_all_iff)
  ultimately show ?thesis using assms(2) by (simp add: candidates_def isRoutable_view)
qed

lemma failed_state:
  assumes "map view (rp_endpoints s') = map (failed_view ids) (map view (rp_endpoints s))"
  shows "no_limits s' = no_limits s" and "ids_distinct s' = ids_distinct s"
    and "length (rp_endpoints s') = length (rp_endpoints s)"
    and "k < length (rp_endpoints s) \<Longrightarrow> view (rp_endpoints s' ! k) = failed_view ids (view (rp_endpoints s ! k))"
proof -
  show len: "length (rp_endpoints s') = length (rp_endpoints s)" using arg_cong [OF assms, of length] by simp
  show nth: "k < length (rp_endpoints s) \<Longrightarrow> view (rp_endpoints s' ! k) = failed_view ids (view (rp_endpoints s ! k))" for k
    using arg_cong [OF assms, of "\<lambda>xs. xs ! k"] len by simp
  have fst: "fst (failed_view ids v) = fst v" and lim: "fst (snd (snd (snd (failed_view ids v)))) = fst (snd (snd (snd v)))" for v
    by (cases v, simp)+
  have "ep_id (rp_endpoints s' ! k) = ep_id (rp_endpoints s ! k)" if "k < length (rp_endpoints s)" for k
  proof -
    have "fst (view (rp_endpoints s' ! k)) = fst (view (rp_endpoints s ! k))" by (simp only: nth [OF that] fst)
    then show ?thesis by (simp add: view_def)
  qed
  then have "map ep_id (rp_endpoints s') = map ep_id (rp_endpoints s)"
    using len by (simp add: list_eq_iff_nth_eq)
  then show "ids_distinct s' = ids_distinct s" by simp
  have "ep_rateLimitedUntil (rp_endpoints s' ! k) = ep_rateLimitedUntil (rp_endpoints s ! k)" if "k < length (rp_endpoints s)" for k
  proof -
    have "fst (snd (snd (snd (view (rp_endpoints s' ! k))))) = fst (snd (snd (snd (view (rp_endpoints s ! k)))))"
      by (simp only: nth [OF that] lim)
    then show ?thesis by (simp add: view_def)
  qed
  then show "no_limits s' = no_limits s" using len by (simp add: no_limits_def list_all_length)
qed

text \<open>Two failing calls in a row leave no candidate.\<close>

lemma two_failures_no_candidate:
  assumes s: "ids_distinct s" "no_limits s"
    and s1: "map view (rp_endpoints s1) = map (failed_view (ep_id ` set (candidates conf kind s))) (map view (rp_endpoints s))"
    and s2: "map view (rp_endpoints s2) = map (failed_view (ep_id ` set (candidates conf kind s1))) (map view (rp_endpoints s1))"
  shows "candidates conf kind s2 = []"
proof (rule ccontr)
  note f1 = failed_state [OF s1] and f2 = failed_state [OF s2]
  note h1 = highestBlock_failed [OF s1, of kind] and h2 = highestBlock_failed [OF s2, of kind]
  have d1: "ids_distinct s1" "no_limits s1" and d2: "ids_distinct s2" "no_limits s2" using s f1(1,2) f2(1,2) by simp_all
  assume "candidates conf kind s2 \<noteq> []"
  then obtain e2 where e2: "e2 \<in> set (candidates conf kind s2)" by (cases "candidates conf kind s2") auto
  then obtain k where k: "k < length (rp_endpoints s2)" "rp_endpoints s2 ! k = e2"
    by (auto simp: candidates_def in_set_conv_nth)
  let ?e = "rp_endpoints s ! k" and ?e1 = "rp_endpoints s1 ! k"
  have mem: "?e \<in> set (rp_endpoints s)" "?e1 \<in> set (rp_endpoints s1)" "e2 \<in> set (rp_endpoints s2)"
    using k f1(3) f2(3) by auto
  have v1: "view ?e1 = failed_view (ep_id ` set (candidates conf kind s)) (view ?e)"
    and v2: "view e2 = failed_view (ep_id ` set (candidates conf kind s1)) (view ?e1)"
    using f1(4) [of k] f2(4) [of k] k f1(3) f2(3) by simp_all
  let ?H = "highestBlock kind (rp_endpoints s)"
  have c: "ep_kind ?e = kind \<and> routable_view conf ?H (view ?e) \<longleftrightarrow> ep_id ?e \<in> ep_id ` set (candidates conf kind s)"
    and c1: "ep_kind ?e1 = kind \<and> routable_view conf ?H (view ?e1) \<longleftrightarrow> ep_id ?e1 \<in> ep_id ` set (candidates conf kind s1)"
    using candidates_view [OF s(2) mem(1) s(1), of conf kind] candidates_view [OF d1(2) mem(2) d1(1), of conf kind]
    unfolding h1 by simp_all
  have c2: "ep_kind e2 = kind \<and> routable_view conf ?H (view e2)"
    using candidates_view [OF d2(2) mem(3) d2(1), of conf kind] imageI [OF e2, of ep_id] unfolding h2 h1 by simp
  have kinds: "ep_kind ?e1 = ep_kind ?e" "ep_kind e2 = ep_kind ?e1" "ep_id ?e1 = ep_id ?e"
    using v1 v2 by (auto simp: view_def split: if_splits)
  show False
  proof (cases "ep_id ?e1 \<in> ep_id ` set (candidates conf kind s1)")
    case False
    then have "view e2 = view ?e1" using v2 by (simp add: view_def)
    then show False using c1 c2 kinds False by simp
  next
    case True
    have "ep_id ?e \<in> ep_id ` set (candidates conf kind s)"
    proof (rule ccontr)
      assume no: "ep_id ?e \<notin> ep_id ` set (candidates conf kind s)"
      then have "view ?e1 = view ?e" using v1 by (simp add: view_def)
      then show False using no c c1 True kinds by simp
    qed
    then have "ep_consecutiveFailures ?e1 = ep_consecutiveFailures ?e + 1" using v1 by (simp add: view_def)
    then have "ep_status e2 = Unhealthy" using v2 True by (simp add: view_def)
    then show False using c2 by (simp add: view_def)
  qed
qed

section \<open>The round robin\<close>

lemma js_add_int: "\<bar>m + n\<bar> < 2 ^ 53 \<Longrightarrow> js_add (Num (of_int m)) (Num (of_int n)) = Num (of_int (m + n))"
  using round64_int [of "m + n"] by simp

lemma js_sub_int: "\<bar>m - n\<bar> < 2 ^ 53 \<Longrightarrow> js_sub (Num (of_int m)) (Num (of_int n)) = Num (of_int (m - n))"
  using round64_int [of "m - n"] by (simp add: js_sub_def)

lemma js_sum_nat:
  assumes "sum_list ns < 2 ^ 53"
  shows "js_sum (map (\<lambda>n. Num (of_nat n)) ns) = Num (of_nat (sum_list ns))"
  using assms
proof (induction ns rule: rev_induct)
  case (snoc n ns)
  have "sum_list (ns @ [n]) < 2 ^ 53" by (rule snoc.prems)
  then have "int (sum_list ns) + int n < 2 ^ 53" by simp
  then show ?case
    using snoc js_add_int [of "int (sum_list ns)" "int n"] by (simp add: js_sum_snoc)
qed (simp add: js_sum_def)

lemma foldl_heavier_max:
  assumes "\<And>x. x \<in> set (e # es) \<Longrightarrow> ep_routingBalance x = Num (of_int (c x))" and "x \<in> set (e # es)"
  shows "c x \<le> c (foldl heavier e es)"
  using assms
proof (induction es arbitrary: e x)
  case (Cons y es)
  have h: "heavier e y = (if c e < c y then y else e)" using Cons.prems(1) by (simp add: heavier_def)
  have "\<And>x. x \<in> set (heavier e y # es) \<Longrightarrow> ep_routingBalance x = Num (of_int (c x))"
    using Cons.prems(1) by (auto simp: h split: if_splits)
  note ih = Cons.IH [OF this]
  have "c e \<le> c (heavier e y)" "c y \<le> c (heavier e y)" by (simp_all add: h)
  moreover have "c (heavier e y) \<le> c (foldl heavier (heavier e y) es)" using ih [of "heavier e y"] by simp
  ultimately show ?case using Cons.prems(2) ih by (auto intro: order_trans)
qed simp

lemma isRoutable_bare: "bare e = bare e' \<Longrightarrow> isRoutable conf now e h = isRoutable conf now e' h"
  unfolding isRoutable_def by (simp only: bare_fields [of e e'])

lemma highestBlock_bare:
  assumes "map bare es = map bare es'"
  shows "highestBlock kind es = highestBlock kind es'"
proof -
  have "list_all2 (\<lambda>a b. bare a = bare b) es es'" using assms by (simp add: list_all2_conv_all_nth list_eq_iff_nth_eq)
  then have "List.map_filter ep_blockHeight (filter (\<lambda>e. ep_kind e = kind) es) =
      List.map_filter ep_blockHeight (filter (\<lambda>e. ep_kind e = kind) es')"
    by (induction rule: list_all2_induct) (auto simp: List.map_filter_def dest: bare_fields)
  then show ?thesis by (simp add: highestBlock_def)
qed

lemma candidates_bare:
  assumes "map bare (rp_endpoints s') = map bare (rp_endpoints s)" and "rp_now s' = rp_now s"
  shows "map bare (candidates conf kind s') = map bare (candidates conf kind s)"
proof -
  have "map bare (filter (\<lambda>e. ep_kind e = kind \<and> isRoutable conf now e h) es) =
      map bare (filter (\<lambda>e. ep_kind e = kind \<and> isRoutable conf now e h) es')"
    if "list_all2 (\<lambda>a b. bare a = bare b) es es'" for es es' now h
    using that
  proof (induction rule: list_all2_induct)
    case (Cons e es e' es')
    then show ?case using bare_fields(3) [OF Cons.hyps(1)] isRoutable_bare [OF Cons.hyps(1)] by simp
  qed simp
  moreover have "list_all2 (\<lambda>a b. bare a = bare b) (rp_endpoints s') (rp_endpoints s)"
    using assms(1) by (simp add: list_all2_conv_all_nth list_eq_iff_nth_eq)
  ultimately show ?thesis unfolding candidates_def highestBlock_bare [OF assms(1)] assms(2) by blast
qed

text \<open>The candidates have whole balances \<open>b\<close> and whole weights \<open>w\<close>.\<close>

definition whole :: "(string \<Rightarrow> int) \<Rightarrow> (string \<Rightarrow> nat) \<Rightarrow> RpcEndpointState list \<Rightarrow> bool" where
  "whole b w es = list_all (\<lambda>e. ep_routingBalance e = Num (of_int (b (ep_id e))) \<and>
     effectiveWeight e = Num (of_nat (w (ep_id e)))) es"

lemma candidate_source:
  assumes "map bare (rp_endpoints s') = map bare (rp_endpoints s)" and "rp_now s' = rp_now s"
    and "rp_endpoints s' = map g (rp_endpoints s)" and "e' \<in> set (candidates conf kind s')"
  obtains e where "e \<in> set (candidates conf kind s)" and "e' = g e" and "bare e' = bare e"
proof -
  have e': "e' \<in> set (rp_endpoints s')" "ep_kind e' = kind"
    "isRoutable conf (rp_now s) e' (highestBlock kind (rp_endpoints s))"
    using assms(4) highestBlock_bare [OF assms(1)] assms(2) by (auto simp: candidates_def)
  obtain k where k: "k < length (rp_endpoints s)" "e' = g (rp_endpoints s ! k)"
    using e'(1) by (auto simp: assms(3) in_set_conv_nth)
  have b: "bare e' = bare (rp_endpoints s ! k)"
    using arg_cong [OF assms(1), of "\<lambda>xs. xs ! k"] k by (simp add: assms(3))
  then have "rp_endpoints s ! k \<in> set (candidates conf kind s)"
    using k(1) e'(2,3) bare_fields(3) [OF b] isRoutable_bare [OF b] by (simp add: candidates_def)
  then show thesis using that k(2) b by blast
qed

text \<open>One ranking with whole numbers: the candidate with the largest credited balance pays the total.\<close>

definition balance_after :: "(string \<Rightarrow> int) \<Rightarrow> (string \<Rightarrow> nat) \<Rightarrow> string set \<Rightarrow> string \<Rightarrow> string \<Rightarrow> int" where
  "balance_after b w I sel i = b i + int (w i) - (if i = sel then int (sum w I) else 0)"

lemma wholeD:
  assumes "whole b w es" and "e \<in> set es"
  shows "ep_routingBalance e = Num (of_int (b (ep_id e)))" "effectiveWeight e = Num (of_nat (w (ep_id e)))"
  using assms by (auto simp: whole_def list_all_iff)

lemma whole_total:
  assumes "whole b w es" and "distinct (map ep_id es)" and "sum w (ep_id ` set es) < 2 ^ 53"
  shows "js_sum (map effectiveWeight es) = Num (of_nat (sum w (ep_id ` set es)))"
proof -
  have eq: "map effectiveWeight es = map (\<lambda>n. Num (of_nat n)) (map (\<lambda>e. w (ep_id e)) es)"
    using wholeD(2) [OF assms(1)] by simp
  have "sum_list (map (\<lambda>e. w (ep_id e)) es) = sum w (ep_id ` set es)"
    using sum_list_distinct_conv_sum_set [OF assms(2), of w] by (simp add: comp_def)
  then show ?thesis
    unfolding eq using js_sum_nat [of "map (\<lambda>e. w (ep_id e)) es"] assms(3) by (simp del: map_map of_nat_sum)
qed

lemma whole_credit:
  assumes "whole b w es" and "e \<in> set es" and "\<bar>b (ep_id e) + int (w (ep_id e))\<bar> < 2 ^ 53"
  shows "ep_routingBalance (credit e) = Num (of_int (b (ep_id e) + int (w (ep_id e))))"
  using js_add_int [OF assms(3)] wholeD [OF assms(1,2)] by (simp add: credit_def)

lemma selected_max:
  assumes "whole b w es" and "es \<noteq> []" and "\<And>e. e \<in> set es \<Longrightarrow> \<bar>b (ep_id e) + int (w (ep_id e))\<bar> < 2 ^ 53"
    and "x = foldl heavier (hd (map credit es)) (tl (map credit es))"
  shows "ep_id x \<in> ep_id ` set es"
    and "e \<in> set es \<Longrightarrow> b (ep_id e) + int (w (ep_id e)) \<le> b (ep_id x) + int (w (ep_id x))"
proof -
  have ne: "hd (map credit es) # tl (map credit es) = map credit es" using assms(2) by simp
  then have "x \<in> set (map credit es)" unfolding assms(4) by (metis foldl_heavier_mem)
  then show "ep_id x \<in> ep_id ` set es" by auto
  let ?f = "\<lambda>e. b (ep_id e) + int (w (ep_id e))"
  assume e: "e \<in> set es"
  have "ep_routingBalance y = Num (of_int (?f y))" if "y \<in> set (map credit es)" for y
    using whole_credit [OF assms(1)] assms(3) that by auto
  then have "?f (credit e) \<le> ?f x"
    unfolding assms(4) by (intro foldl_heavier_max) (use ne e in auto)
  then show "?f e \<le> ?f x" by simp
qed

lemma rank_step:
  assumes dist: "ids_distinct s" and two: "2 \<le> length (candidates conf kind s)" and wh: "whole b w (candidates conf kind s)"
    and I: "I = ep_id ` set (candidates conf kind s)" and W: "sum w I < 2 ^ 53"
    and fit: "\<And>i. i \<in> I \<Longrightarrow> \<bar>b i + int (w i)\<bar> < 2 ^ 53 \<and> \<bar>b i + int (w i) - int (sum w I)\<bar> < 2 ^ 53"
    and run: "rankHealthy conf kind s = (ids, s')"
  obtains sel where "sel \<in> I" and "hd ids = sel" and "\<And>i. i \<in> I \<Longrightarrow> b i + int (w i) \<le> b sel + int (w sel)"
    and "ids_distinct s'" and "map ep_id (candidates conf kind s') = map ep_id (candidates conf kind s)"
    and "whole (balance_after b w I sel) w (candidates conf kind s')"
proof -
  let ?c = "candidates conf kind s"
  have inI: "ep_id e \<in> I" if "e \<in> set ?c" for e using that I by simp
  have cdist: "distinct (map ep_id ?c)" using dist by (simp add: candidates_def distinct_map_filter)
  have ne: "?c \<noteq> []" using two by auto
  define sel where "sel = ep_id (foldl heavier (hd (map credit ?c)) (tl (map credit ?c)))"
  have sel: "sel \<in> I" and max: "\<And>i. i \<in> I \<Longrightarrow> b i + int (w i) \<le> b sel + int (w sel)"
    using selected_max [OF wh ne _ refl] fit inI by (auto simp: sel_def I)
  let ?pay = "\<lambda>e. e\<lparr>ep_routingBalance := js_sub (ep_routingBalance e) (js_sum (map effectiveWeight ?c))\<rparr>"
  let ?xs = "map (\<lambda>e. (ep_id e, effectiveWeight e)) ?c"
  have ids: "ids = map fst (sort_ranked sel ?xs)"
    and s': "s' = set_endpoint sel ?pay (s\<lparr>rp_endpoints := update_where (\<lambda>e. ep_id e \<in> set (map ep_id ?c)) credit (rp_endpoints s)\<rparr>)"
    using run two by (simp_all add: rankHealthy_def Let_def sel_def)
  have "fst (hd (sort_ranked sel ?xs)) = sel"
    by (rule sort_ranked_hd) (use cdist sel I in \<open>auto simp: comp_def image_iff\<close>)
  moreover have "sort_ranked sel ?xs \<noteq> []" using ne by (metis length_0_conv length_map length_sort_ranked)
  ultimately have hd: "hd ids = sel" by (simp add: ids hd_map)
  note facts = rankHealthy_facts [OF run dist]
  have idb: "map ep_id es = map ep_id (map bare es)" for es by (simp add: bare_def)
  let ?g = "\<lambda>e. let e1 = (if ep_id e \<in> set (map ep_id ?c) then credit e else e) in if ep_id e1 = sel then ?pay e1 else e1"
  have eps: "rp_endpoints s' = map ?g (rp_endpoints s)" by (simp add: s' set_endpoint_def update_where_def Let_def)
  have "ep_routingBalance e' = Num (of_int (balance_after b w I sel (ep_id e'))) \<and> effectiveWeight e' = Num (of_nat (w (ep_id e')))"
    if mem: "e' \<in> set (candidates conf kind s')" for e'
  proof -
    obtain e where e: "e \<in> set ?c" "e' = ?g e" "bare e' = bare e" by (rule candidate_source [OF facts(3,4) eps mem])
    define x where "x = b (ep_id e) + int (w (ep_id e))"
    have fits: "\<bar>x\<bar> < 2 ^ 53" "\<bar>x - int (sum w I)\<bar> < 2 ^ 53" using fit [OF inI [OF e(1)]] by (simp_all add: x_def)
    have cr: "ep_routingBalance (credit e) = Num (of_int x)"
      using whole_credit [OF wh e(1)] fits(1) by (simp only: x_def)
    have total: "js_sum (map effectiveWeight ?c) = Num (of_int (int (sum w I)))"
      using whole_total [OF wh cdist] W by (simp only: I of_int_of_nat_eq)
    have "e' = (if ep_id e = sel then ?pay (credit e) else credit e)" using e(1,2) by (simp add: Let_def)
    then have "ep_routingBalance e' = Num (of_int (balance_after b w I sel (ep_id e)))"
      using cr js_sub_int [OF fits(2)] unfolding total by (cases "ep_id e = sel") (auto simp: balance_after_def x_def)
    then show ?thesis using wholeD(2) [OF wh e(1)] bare_fields(1,8) [OF e(3)] by simp
  qed
  then have "whole (balance_after b w I sel) w (candidates conf kind s')" by (simp add: whole_def list_all_iff)
  moreover have "map ep_id (candidates conf kind s') = map ep_id ?c" using idb candidates_bare [OF facts(3,4)] by metis
  moreover have "ids_distinct s'" using idb facts(3) dist by metis
  ultimately show thesis using that sel hd max by blast
qed

text \<open>The endpoints selected by a row of rankings.\<close>

fun rank_run :: "rpc_conf \<Rightarrow> RpcEndpointKind \<Rightarrow> nat \<Rightarrow> rpc_state \<Rightarrow> string list \<times> rpc_state" where
  "rank_run conf kind 0 s = ([], s)"
| "rank_run conf kind (Suc n) s =
     (let (ids, s1) = rankHealthy conf kind s; (sels, s2) = rank_run conf kind n s1 in (hd ids # sels, s2))"

text \<open>
  The invariant: the balances add up to zero and none is as low as minus the total weight. Hence
  none is as high as the total weight times the number of the others.
\<close>

definition fair :: "(string \<Rightarrow> int) \<Rightarrow> (string \<Rightarrow> nat) \<Rightarrow> string set \<Rightarrow> bool" where
  "fair b w I = (finite I \<and> sum b I = 0 \<and> (\<forall>i \<in> I. - int (sum w I) < b i))"

lemma fair_upper:
  assumes "fair b w I" and "i \<in> I"
  shows "b i \<le> int (card I - 1) * int (sum w I)"
proof -
  have fin: "finite I" using assms(1) by (simp add: fair_def)
  have "sum b I = b i + sum b (I - {i})" using fin assms(2) by (simp add: sum.remove)
  moreover have "sum (\<lambda>_. - int (sum w I)) (I - {i}) \<le> sum b (I - {i})"
    by (rule sum_mono) (use assms(1) in \<open>auto simp: fair_def less_imp_le\<close>)
  ultimately have "b i \<le> int (card (I - {i})) * int (sum w I)" using assms(1) by (simp add: fair_def)
  then show ?thesis using assms(2) fin by simp
qed

lemma fair_step:
  assumes fair: "fair b w I" and sel: "sel \<in> I" and pos: "\<And>i. i \<in> I \<Longrightarrow> 0 < w i"
    and max: "\<And>i. i \<in> I \<Longrightarrow> b i + int (w i) \<le> b sel + int (w sel)"
  shows "fair (balance_after b w I sel) w I"
proof -
  let ?W = "int (sum w I)"
  have fin: "finite I" and zero: "sum b I = 0" using fair by (simp_all add: fair_def)
  have credited: "(\<Sum>i\<in>I. b i + int (w i)) = ?W" using zero by (simp add: sum.distrib)
  have "sum (balance_after b w I sel) I = 0"
    using credited fin sel by (simp add: balance_after_def sum_subtractf sum.delta')
  moreover have "0 < b sel + int (w sel)"
  proof (rule ccontr)
    assume "\<not> 0 < b sel + int (w sel)"
    then have "(\<Sum>i\<in>I. b i + int (w i)) \<le> 0" using max by (intro sum_nonpos) (meson dual_order.trans not_less)
    moreover have "0 < sum w I" using pos sel fin by (meson sum_pos2 less_imp_le zero_le)
    ultimately show False using credited by linarith
  qed
  moreover have "- ?W < balance_after b w I sel i" if "i \<in> I" for i
    using calculation(2) fair that pos [OF that] by (auto simp: balance_after_def fair_def)
  ultimately show ?thesis using fin by (simp add: fair_def)
qed

lemma rank_run_fair:
  assumes "ids_distinct s" and "2 \<le> length (candidates conf kind s)" and "whole b w (candidates conf kind s)"
    and I: "I = ep_id ` set (candidates conf kind s)" and "fair b w I" and pos: "\<And>i. i \<in> I \<Longrightarrow> 0 < w i"
    and fit: "(card I + 1) * sum w I < 2 ^ 53"
  shows "\<exists>b'. fair b' w I \<and>
    (\<forall>i \<in> I. b' i = b i + int n * int (w i) - int (count_list (fst (rank_run conf kind n s)) i) * int (sum w I))"
  using assms(1-5)
proof (induction n arbitrary: s b)
  case (Suc n)
  obtain ids s1 where run: "rankHealthy conf kind s = (ids, s1)" by (cases "rankHealthy conf kind s")
  have wle: "w i \<le> sum w I" if "i \<in> I" for i using Suc.prems(5) that by (simp add: fair_def member_le_sum)
  have cw: "int (card I) * int (sum w I) + int (sum w I) < 2 ^ 53"
    using fit by (metis add_mult_distrib mult_1 of_nat_add of_nat_less_numeral_power_cancel_iff of_nat_mult)
  have bound: "\<bar>b i + int (w i)\<bar> < 2 ^ 53 \<and> \<bar>b i + int (w i) - int (sum w I)\<bar> < 2 ^ 53" if "i \<in> I" for i
  proof -
    have "0 < card I" using Suc.prems(5) that by (auto simp: fair_def card_gt_0_iff)
    then have "int (card I - 1) * int (sum w I) + int (sum w I) = int (card I) * int (sum w I)"
      by (cases "card I") (simp_all add: distrib_right)
    moreover have "- int (sum w I) < b i" using Suc.prems(5) that by (simp add: fair_def)
    moreover have "0 \<le> int (card I - 1) * int (sum w I)" by (metis of_nat_0_le_iff of_nat_mult)
    ultimately show ?thesis
      using fair_upper [OF Suc.prems(5) that] wle [OF that] cw unfolding abs_less_iff by linarith
  qed
  have W: "sum w I < 2 ^ 53" using fit by simp
  obtain sel where sel: "sel \<in> I" "hd ids = sel" "\<And>i. i \<in> I \<Longrightarrow> b i + int (w i) \<le> b sel + int (w sel)"
    and d1: "ids_distinct s1" and m1: "map ep_id (candidates conf kind s1) = map ep_id (candidates conf kind s)"
    and wh1: "whole (balance_after b w I sel) w (candidates conf kind s1)"
    by (rule rank_step [OF Suc.prems(1-4) W bound run]) blast+
  have fair1: "fair (balance_after b w I sel) w I" by (rule fair_step [OF Suc.prems(5) sel(1) pos sel(3)])
  have "2 \<le> length (candidates conf kind s1)" using Suc.prems(2) arg_cong [OF m1, of length] by simp
  moreover have "I = ep_id ` set (candidates conf kind s1)" using Suc.prems(4) arg_cong [OF m1, of set] by simp
  ultimately obtain b' where b': "fair b' w I"
    "\<And>i. i \<in> I \<Longrightarrow> b' i = balance_after b w I sel i + int n * int (w i) -
       int (count_list (fst (rank_run conf kind n s1)) i) * int (sum w I)"
    using Suc.IH [OF d1 _ wh1 _ fair1] by blast
  have "fst (rank_run conf kind (Suc n) s) = sel # fst (rank_run conf kind n s1)"
    using sel(2) by (simp add: run split: prod.splits)
  then have "b' i = b i + int (Suc n) * int (w i) - int (count_list (fst (rank_run conf kind (Suc n) s)) i) * int (sum w I)"
    if "i \<in> I" for i
    using b'(2) [OF that] by (cases "i = sel") (auto simp: balance_after_def algebra_simps simp del: rank_run.simps of_nat_sum)
  then show ?case using b'(1) by blast
qed auto

section \<open>An example\<close>

definition demo_ep :: "string \<Rightarrow> jsnum \<Rightarrow> RpcEndpointState" where
  "demo_ep i weight = fresh_endpoint \<lparr>ep_id = i, ep_url = ''http://'' @ i, ep_kind = Horizon, ep_weight = weight\<rparr>"

definition demo_rpc :: rpc_state where
  "demo_rpc = \<lparr>rp_endpoints = [demo_ep ''h1'' (Num 2), demo_ep ''h2'' (Num 1)], rp_now = 0,
     rp_allDegraded = (\<lambda>_. None), rp_failovers = []\<rparr>"

definition demo_conf :: rpc_conf where
  "demo_conf = rpc_config (\<lambda>_. None)"

lemma demo_candidates: "candidates demo_conf Horizon demo_rpc = [demo_ep ''h1'' (Num 2), demo_ep ''h2'' (Num 1)]"
  by code_simp

lemma demo_ids: "ids_distinct demo_rpc" "no_limits demo_rpc"
  by (simp_all add: demo_rpc_def demo_ep_def fresh_endpoint_def no_limits_def)

section \<open>Properties\<close>

text \<open>
  C25. Failover finds a working node. A call returns a value just when the operation succeeds on some
  candidate, and the value is what the operation gave there; a candidate is an endpoint of the
  kind that is neither unhealthy nor rate limited and not more than the allowed number of blocks
  behind the highest. Otherwise the call ends with an error; it always ends.
\<close>

theorem failover_complete:
  assumes "ids_distinct s"
  shows "((\<exists>y. fst (withEndpoint conf kind (\<lambda>e. operation (ep_url e)) s) = Inr y) \<longleftrightarrow>
      (\<exists>e x. e \<in> set (candidates conf kind s) \<and> fst (operation (ep_url e)) = Inr x)) \<and>
    (\<forall>y. fst (withEndpoint conf kind (\<lambda>e. operation (ep_url e)) s) = Inr y \<longrightarrow>
      (\<exists>e \<in> set (rp_endpoints s). fst (operation (ep_url e)) = Inr y \<and> ep_kind e = kind \<and>
         ep_status e \<noteq> Unhealthy \<and> ep_status e \<noteq> RateLimited \<and>
         (\<forall>h b. highestBlock kind (rp_endpoints s) = Some h \<and> ep_blockHeight e = Some b \<longrightarrow>
            js_le (js_sub h b) (rc_maxBlockLag conf))))"
proof -
  have good: "e \<in> set (rp_endpoints s) \<and> ep_kind e = kind \<and> ep_status e \<noteq> Unhealthy \<and> ep_status e \<noteq> RateLimited \<and>
      (\<forall>h b. highestBlock kind (rp_endpoints s) = Some h \<and> ep_blockHeight e = Some b \<longrightarrow> js_le (js_sub h b) (rc_maxBlockLag conf))"
    if "e \<in> set (candidates conf kind s)" for e
    using that by (auto simp: candidates_def isRoutable_def split: if_splits)
  from withEndpoint_result [OF assms, of conf kind operation] show ?thesis
  proof
    assume a: "(\<exists>e. fst (withEndpoint conf kind (\<lambda>e. operation (ep_url e)) s) = Inl (JsError ''Error'' e)) \<and>
      (\<forall>e \<in> set (candidates conf kind s). isl (fst (operation (ep_url e))))"
    then show ?thesis by fastforce
  next
    assume "\<exists>e \<in> set (candidates conf kind s). \<exists>x. fst (operation (ep_url e)) = Inr x \<and>
      fst (withEndpoint conf kind (\<lambda>e. operation (ep_url e)) s) = Inr x"
    then obtain e x where e: "e \<in> set (candidates conf kind s)" "fst (operation (ep_url e)) = Inr x"
      "fst (withEndpoint conf kind (\<lambda>e. operation (ep_url e)) s) = Inr x" by blast
    then show ?thesis using good [OF e(1)] by auto
  qed
qed

theorem failover_complete_witness:
  "\<exists>y. fst (withEndpoint demo_conf Horizon (\<lambda>e. if ep_url e = ''http://h2'' then (Inr (7 :: nat), 1) else (Inl (HttpException 500 ''x''), 1)) demo_rpc) = Inr y"
proof -
  have "demo_ep ''h2'' (Num 1) \<in> set (candidates demo_conf Horizon demo_rpc)" by (simp add: demo_candidates)
  then show ?thesis
    using failover_complete [OF demo_ids(1), of demo_conf Horizon "\<lambda>u. if u = ''http://h2'' then (Inr (7 :: nat), 1) else (Inl (HttpException 500 ''x''), 1)"]
    by (auto simp: demo_ep_def fresh_endpoint_def intro!: exI [of _ "demo_ep ''h2'' (Num 1)"])
qed

text \<open>
  C26. The round robin is fair from a fresh start. Let there be k candidates, two or more, with distinct ids, with whole positive
  effective weights of total W such that (k + 1) W is below two to the 53, and with all routing balances zero. In the first n rankings after that,
  with no other event between them, so that the candidates and their weights stay the same, the endpoint with weight w is selected fewer than
  n w / W + 1 times and at least n w / W - (k - 1) times. The upper bound counts from the start: a stretch of rankings further on can
  select one endpoint more often than that.
\<close>

theorem round_robin_fair:
  assumes "ids_distinct s" and "2 \<le> length (candidates conf kind s)" and "I = ep_id ` set (candidates conf kind s)"
    and "whole (\<lambda>_. 0) w (candidates conf kind s)" and "\<And>i. i \<in> I \<Longrightarrow> 0 < w i" and "(card I + 1) * sum w I < 2 ^ 53"
    and "i \<in> I" and "c = count_list (fst (rank_run conf kind n s)) i"
  shows "c * sum w I < n * w i + sum w I \<and> n * w i \<le> c * sum w I + (card I - 1) * sum w I"
proof -
  have "0 < sum w I" using assms(3,5,7) by (meson List.finite_set finite_imageI less_imp_le sum_pos2 zero_le)
  moreover have "finite I" by (simp add: assms(3))
  ultimately have "fair (\<lambda>_. 0) w I" by (simp add: fair_def flip: of_nat_sum)
  then obtain b' where b': "fair b' w I" "b' i = int n * int (w i) - int c * int (sum w I)"
    using rank_run_fair [OF assms(1,2,4,3) _ assms(5,6), of n] assms(7,8) by auto
  have "- int (sum w I) < b' i" using b'(1) assms(7) by (simp add: fair_def)
  moreover have "b' i \<le> int (card I - 1) * int (sum w I)" by (rule fair_upper [OF b'(1) assms(7)])
  ultimately have "int (c * sum w I) < int (n * w i + sum w I)" "int (n * w i) \<le> int (c * sum w I + (card I - 1) * sum w I)"
    using b'(2) by (simp_all only: of_nat_mult of_nat_add)
  then show ?thesis by (simp only: of_nat_less_iff of_nat_le_iff)
qed

theorem round_robin_fair_witness:
  "count_list (fst (rank_run demo_conf Horizon 30 demo_rpc)) ''h1'' * 3 < 30 * 2 + 3"
proof -
  let ?w = "\<lambda>i. if i = ''h1'' then 2 else 1 :: nat"
  have I: "ep_id ` set (candidates demo_conf Horizon demo_rpc) = {''h1'', ''h2''}"
    by (simp add: demo_candidates demo_ep_def fresh_endpoint_def)
  have "effectiveWeight (demo_ep ''h1'' (Num 2)) = Num 2" "effectiveWeight (demo_ep ''h2'' (Num 1)) = Num 1" by code_simp+
  then have "whole (\<lambda>_. 0) ?w (candidates demo_conf Horizon demo_rpc)"
    by (simp add: demo_candidates whole_def) (simp add: demo_ep_def fresh_endpoint_def)
  then show ?thesis
    using round_robin_fair [OF demo_ids(1) _ I [symmetric], of ?w "''h1''" _ 30, OF _ _ _ _ _ refl]
    by (simp add: demo_candidates)
qed

text \<open>
  A missing account takes the nodes out. The client cannot tell an account that does not exist from
  a node that fails: two look-ups of such an account on nodes that all answer 404 leave no node to
  route to, so that the next call fails whatever it asks. And the error of the client is never taken
  for a missing account: the report of the wallet service for one is not reached.
\<close>

theorem missing_account_outage:
  assumes "ids_distinct s" and "no_limits s" and "\<And>url. fst (lookup url) = Inl (NotFoundException m)"
    and "s1 = snd (withHorizonServer conf lookup s)" and "s2 = snd (withHorizonServer conf lookup s1)"
  shows "fst (withHorizonServer conf operation s2) = Inl (JsError ''Error'' ''No healthy horizon RPC endpoints are available'') \<and>
    (\<exists>e. fst (withHorizonServer conf lookup s) = Inl e \<and> \<not> isHorizonNotFound e)"
proof -
  let ?oper = "\<lambda>e. lookup (ep_url e)"
  have fails: "\<exists>err. fst (?oper e) = Inl err \<and> extractStatus err \<noteq> Some 429" for e using assms(3) by simp
  have v1: "map view (rp_endpoints s1) = map (failed_view (ep_id ` set (candidates conf Horizon s))) (map view (rp_endpoints s))"
    unfolding assms(4) withHorizonServer_def by (rule withEndpoint_fail [OF assms(1) fails])
  have d1: "ids_distinct s1" using failed_state(2) [OF v1] assms(1) by simp
  have v2: "map view (rp_endpoints s2) = map (failed_view (ep_id ` set (candidates conf Horizon s1))) (map view (rp_endpoints s1))"
    unfolding assms(5) withHorizonServer_def by (rule withEndpoint_fail [OF d1 fails])
  have "candidates conf Horizon s2 = []" by (rule two_failures_no_candidate [OF assms(1,2) v1 v2])
  then have "rankHealthy conf Horizon s2 = ([], s2)" by (simp add: rankHealthy_def)
  then have "fst (withHorizonServer conf operation s2) = Inl (JsError ''Error'' ''No healthy horizon RPC endpoints are available'')"
    by (simp add: withHorizonServer_def withEndpoint_def)
  moreover have "\<exists>e. fst (withHorizonServer conf lookup s) = Inl (JsError ''Error'' e)"
    using withEndpoint_result [OF assms(1), of conf Horizon lookup] assms(3) by (auto simp: withHorizonServer_def)
  then have "\<exists>e. fst (withHorizonServer conf lookup s) = Inl e \<and> \<not> isHorizonNotFound e"
    by (auto simp: isHorizonNotFound_def)
  ultimately show ?thesis by blast
qed

theorem missing_account_outage_witness:
  "let lookup = \<lambda>_. (Inl (NotFoundException ''x'') :: nat res, 1 :: nat);
       s2 = snd (withHorizonServer demo_conf lookup (snd (withHorizonServer demo_conf lookup demo_rpc)))
   in fst (withHorizonServer demo_conf (\<lambda>_. (Inr (7 :: nat), 1)) s2) =
        Inl (JsError ''Error'' ''No healthy horizon RPC endpoints are available'')"
  using missing_account_outage [OF demo_ids, of "\<lambda>_. (Inl (NotFoundException ''x'') :: nat res, 1)" "''x''" _ demo_conf _
      "\<lambda>_. (Inr (7 :: nat), 1)", OF _ refl refl]
  by (simp add: Let_def)

end
