(* ===== verification/JsLib.thy ===== *)
theory JsLib
  imports JsNumber "HOL-Library.Multiset"
begin

text \<open>
  More of the JavaScript library: numbers as text (\<open>toString\<close> and \<open>toFixed\<close>), \<open>parseInt\<close>, and
  \<open>Array.prototype.sort\<close> with a comparison that subtracts two keys. The last section shows that the
  comparison is exact on the numbers of the machine, since the difference of two of them is
  rounded to zero only when they are equal; the sort is then a stable sort by the key.
\<close>

section \<open>Numbers as text\<close>

definition zeros :: "nat \<Rightarrow> string" where
  "zeros n = replicate n CHR ''0''"

text \<open>The number of digits before the decimal point of a positive number, not above 400.\<close>

fun point_of :: "nat \<Rightarrow> rat \<Rightarrow> int" where
  "point_of 0 x = 0"
| "point_of (Suc fuel) x =
     (if 1 \<le> x then 1 + point_of fuel (x / 10)
      else if x < 1 / 10 then point_of fuel (x * 10) - 1 else 0)"

text \<open>
  The fewest digits that read back as \<open>x\<close>: of the two candidates of a length the nearer one is
  tried first. Seventeen digits always do.
\<close>

fun shortest :: "nat \<Rightarrow> nat \<Rightarrow> int \<Rightarrow> rat \<Rightarrow> nat \<times> nat" where
  "shortest 0 k n x = (nat \<lfloor>scale10 x (int k - n)\<rfloor>, k)"
| "shortest (Suc fuel) k n x =
     (let y = scale10 x (int k - n); lo = \<lfloor>y\<rfloor>; hi = lo + 1;
          (p, q) = (if y - of_int lo \<le> 1 / 2 then (lo, hi) else (hi, lo));
          ok = (\<lambda>s. round64 (scale10 (of_int s) (n - int k)) = Num x)
      in if ok p then (nat p, k) else if ok q then (nat q, k) else shortest fuel (k + 1) n x)"

definition show_pos :: "rat \<Rightarrow> string" where
  "show_pos x =
     (let n0 = point_of 400 x; (s0, k) = shortest 17 1 n0 x;
          (s, n) = (if s0 = 10 ^ k then (s0 div 10, n0 + 1) else (s0, n0)); ds = show_nat s
      in if int k \<le> n \<and> n \<le> 21 then ds @ zeros (nat (n - int k))
         else if 0 < n \<and> n \<le> 21 then take (nat n) ds @ ''.'' @ drop (nat n) ds
         else if - 6 < n \<and> n \<le> 0 then ''0.'' @ zeros (nat (- n)) @ ds
         else take 1 ds @ (if k = 1 then [] else ''.'' @ drop 1 ds) @
              (if 0 < n then ''e+'' @ show_int (n - 1) else ''e-'' @ show_int (1 - n)))"

definition js_toString :: "jsnum \<Rightarrow> string" where
  "js_toString v =
     (case v of
        NaN \<Rightarrow> ''NaN''
      | PosInf \<Rightarrow> ''Infinity''
      | NegInf \<Rightarrow> ''-Infinity''
      | Num x \<Rightarrow> if x = 0 then ''0'' else if x < 0 then ''-'' @ show_pos (- x) else show_pos x)"

definition fixed_digits :: "nat \<Rightarrow> rat \<Rightarrow> string" where
  "fixed_digits f x =
     (let ds = show_nat (nat \<lfloor>x * 10 ^ f + 1 / 2\<rfloor>);
          padded = zeros (f + 1 - length ds) @ ds; i = length padded - f
      in if f = 0 then ds else take i padded @ ''.'' @ drop i padded)"

definition toFixed :: "nat \<Rightarrow> jsnum \<Rightarrow> string" where
  "toFixed f v =
     (case v of
        Num x \<Rightarrow> if 10 ^ 21 \<le> \<bar>x\<bar> then js_toString v
                 else if x < 0 then ''-'' @ fixed_digits f (- x) else fixed_digits f x
      | _ \<Rightarrow> js_toString v)"

text \<open>\<open>parseInt(s, 10)\<close>: the digits after white space and a sign.\<close>

definition parseInt10 :: "string \<Rightarrow> jsnum" where
  "parseInt10 s =
     (let (neg, r) = strip_sign (dropWhile js_white s); ds = takeWhile is_digit r
      in if ds = [] then NaN
         else round64 (of_int (if neg then - int (digits_val ds) else int (digits_val ds))))"

definition js_ceil :: "jsnum \<Rightarrow> jsnum" where
  "js_ceil v = (case v of Num x \<Rightarrow> Num (of_int \<lceil>x\<rceil>) | _ \<Rightarrow> v)"

section \<open>Sorting\<close>

text \<open>
  \<open>xs.sort(cmp)\<close> is stable; for a comparison that is not consistent, as with the key \<open>NaN\<close>, the
  language leaves the order open and the definition picks that of an insertion sort.
\<close>

fun js_insert :: "('a \<Rightarrow> 'a \<Rightarrow> jsnum) \<Rightarrow> 'a \<Rightarrow> 'a list \<Rightarrow> 'a list" where
  "js_insert cmp a [] = [a]"
| "js_insert cmp a (b # bs) = (if js_lt (Num 0) (cmp a b) then b # js_insert cmp a bs else a # b # bs)"

definition js_sort :: "('a \<Rightarrow> 'a \<Rightarrow> jsnum) \<Rightarrow> 'a list \<Rightarrow> 'a list" where
  "js_sort cmp xs = foldr (js_insert cmp) xs []"

text \<open>\<open>xs.slice(0, k)\<close>.\<close>

definition slice_to :: "int \<Rightarrow> 'a list \<Rightarrow> 'a list" where
  "slice_to k xs = (if 0 \<le> k then take (nat k) xs else take (length xs - nat (- k)) xs)"

section \<open>The comparison by subtraction is exact\<close>

text \<open>The finite numbers of the machine are multiples of \<open>2 ^ -1074\<close>.\<close>

definition on_grid :: "rat \<Rightarrow> bool" where
  "on_grid x \<longleftrightarrow> (\<exists>n. x = of_int n * pow2 (- 1074))"

definition is_double :: "jsnum \<Rightarrow> bool" where
  "is_double a = (case a of NaN \<Rightarrow> False | Num x \<Rightarrow> on_grid x | _ \<Rightarrow> True)"

lemma is_double_simps [simp]:
  "\<not> is_double NaN" "is_double PosInf" "is_double NegInf" "is_double (Num x) = on_grid x"
  by (simp_all add: is_double_def)

lemma on_grid_0 [simp]: "on_grid 0"
  unfolding on_grid_def by (rule exI [of _ 0]) simp

lemma on_grid_neg [simp]: "on_grid (- x) = on_grid x"
proof -
  have "on_grid (- y)" if "on_grid y" for y
  proof -
    from that obtain n where "y = of_int n * pow2 (- 1074)" by (auto simp: on_grid_def)
    then have "- y = of_int (- n) * pow2 (- 1074)" by simp
    then show ?thesis unfolding on_grid_def by blast
  qed
  from this [of x] this [of "- x"] show ?thesis by auto
qed

lemma on_grid_diff: "on_grid x \<Longrightarrow> on_grid y \<Longrightarrow> on_grid (x - y)"
proof -
  assume "on_grid x" "on_grid y"
  then obtain n m where "x = of_int n * pow2 (- 1074)" "y = of_int m * pow2 (- 1074)"
    by (auto simp: on_grid_def)
  then have "x - y = of_int (n - m) * pow2 (- 1074)" by (simp add: left_diff_distrib)
  then show ?thesis unfolding on_grid_def by blast
qed

lemma on_grid_rnd: "on_grid (rnd x)"
proof -
  define m where "m = max (expo x - 52) (- 1074)"
  have "- 1074 \<le> m" by (simp add: m_def)
  then have "pow2 m = pow2 (- 1074) * 2 ^ nat (m + 1074)"
    using pow2_add_nat [of "- 1074" "nat (m + 1074)"] by simp
  then have "rnd x = of_int (rne (x / ulp x) * 2 ^ nat (m + 1074)) * pow2 (- 1074)"
    by (simp add: rnd_def ulp_def m_def)
  then show ?thesis unfolding on_grid_def by blast
qed

lemma is_double_round64 [simp]: "is_double (round64 x)"
  by (simp add: round64_def on_grid_rnd)

lemma is_double_neg [simp]: "is_double (js_neg a) = is_double a"
  by (cases a) simp_all

lemma round64_tiny: "round64 (pow2 (- 1074)) = Num (pow2 (- 1074))"
proof -
  have "expo (pow2 (- 1074)) = - 1074"
    by (rule expo_unique) (use pow2_Suc [of "- 1074"] pow2_pos [of "- 1074"] in \<open>simp_all\<close>)
  then have "ulp (pow2 (- 1074)) = pow2 (- 1074)" by (simp add: ulp_def)
  then have "rnd (pow2 (- 1074)) = pow2 (- 1074)"
    using snap_fix [of "pow2 (- 1074)" "pow2 (- 1074)" 1] by (simp add: rnd_snap)
  then show ?thesis using \<open>expo (pow2 (- 1074)) = - 1074\<close> by (simp add: round64_def)
qed

lemma round64_grid_pos:
  assumes "on_grid d" and "0 < d"
  shows "js_lt (Num 0) (round64 d)"
proof -
  from assms(1) obtain n where n: "d = of_int n * pow2 (- 1074)" by (auto simp: on_grid_def)
  then have "0 < n" using assms(2) pow2_pos [of "- 1074"] by (simp add: zero_less_mult_iff)
  then have "(1 :: rat) \<le> of_int n" by simp
  then have "pow2 (- 1074) \<le> d" using pow2_pos [of "- 1074"] by (simp add: n)
  from round64_mono [OF this] have "js_le (Num (pow2 (- 1074))) (round64 d)" by (simp add: round64_tiny)
  then show ?thesis using js_lt_le_trans [of 0 "Num (pow2 (- 1074))"] by simp
qed

lemma round64_grid_sign:
  assumes "on_grid d"
  shows "js_lt (Num 0) (round64 d) \<longleftrightarrow> 0 < d"
proof (cases "0 < d")
  case False
  then have "js_le (round64 d) (Num 0)" using round64_mono [of d 0] by simp
  then show ?thesis using False by (cases "round64 d") auto
qed (use assms round64_grid_pos in simp)

lemma js_sub_positive:
  assumes "is_double a" and "is_double b"
  shows "js_lt (Num 0) (js_sub a b) \<longleftrightarrow> js_lt b a"
  using assms round64_grid_sign [OF on_grid_diff]
  by (cases a; cases b) (auto simp: js_sub_def)

lemma js_lt_not_le: "is_double a \<Longrightarrow> is_double b \<Longrightarrow> \<not> js_lt b a \<longleftrightarrow> js_le a b"
  by (cases a; cases b) auto

lemma js_le_trans: "js_le a b \<Longrightarrow> js_le b c \<Longrightarrow> js_le a c"
  by (cases a; cases b; cases c) auto

lemma js_lt_le: "js_lt a b \<Longrightarrow> js_le a b"
  by (cases a; cases b) auto

lemma js_le_refl: "is_double a \<Longrightarrow> js_le a a"
  by (cases a) auto

lemma is_double_add: "js_add a b \<noteq> NaN \<Longrightarrow> is_double (js_add a b)"
  by (cases a; cases b) auto

lemma js_sub_not_positive:
  assumes "js_le a b \<or> a = NaN \<or> b = NaN" and "a \<noteq> NaN \<Longrightarrow> is_double a" and "b \<noteq> NaN \<Longrightarrow> is_double b"
  shows "\<not> js_lt (Num 0) (js_sub a b)"
proof (cases "a = NaN \<or> b = NaN")
  case True
  then show ?thesis by (cases a) (auto simp: js_sub_def)
next
  case False
  then show ?thesis using assms js_sub_positive [of a b] js_lt_not_le [of a b] by simp
qed

section \<open>The relative error of one operation\<close>

lemma rne_error: "\<bar>of_int (rne y) - y\<bar> \<le> 1 / 2"
proof -
  have "of_int \<lfloor>y\<rfloor> \<le> y" "y < of_int \<lfloor>y\<rfloor> + 1" by linarith+
  then show ?thesis by (auto simp: rne_def Let_def abs_le_iff)
qed

lemma round64_pow2:
  assumes "- 1022 \<le> e" and "e < 1024"
  shows "round64 (pow2 e) = Num (pow2 e)"
proof (rule round64_grid [of e _ "2 ^ 52"])
  show "pow2 e < pow2 (e + 1)" by (simp add: pow2_Suc)
  show "pow2 e = of_int (2 ^ 52) * pow2 (e - 52)"
    using pow2_add_nat [of "e - 52" 52] by (simp add: mult.commute)
qed (use assms in auto)

lemma round64_rel:
  assumes "pow2 (- 1000) \<le> x" and "x \<le> pow2 1000"
  shows "\<exists>y. round64 x = Num y \<and> \<bar>y - x\<bar> \<le> x / 2 ^ 53"
proof -
  define e where "e = expo x"
  have x0: "0 < x" using assms(1) pow2_pos [of "- 1000"] by linarith
  have b: "pow2 e \<le> x" "x < pow2 (e + 1)" using expo_bounds [OF x0] by (simp_all add: e_def)
  have "- 1000 \<le> e" by (rule pow2_less_iff) (use assms(1) b(2) in linarith)
  then have u: "ulp x = pow2 (e - 52)" by (simp add: ulp_def e_def)
  have "js_le (round64 x) (Num (pow2 1000))" using round64_mono [OF assms(2)] round64_pow2 [of 1000] by simp
  then have fin: "round64 x = Num (rnd x)" using x0 by (auto simp: round64_def split: if_splits)
  define r where "r = of_int (rne (x / ulp x)) - x / ulp x"
  have r: "\<bar>r\<bar> \<le> 1 / 2" unfolding r_def by (rule rne_error)
  have "ulp x \<noteq> 0" using ulp_pos [of x] by linarith
  then have "rnd x - x = r * ulp x" by (simp add: r_def rnd_def left_diff_distrib)
  then have "\<bar>rnd x - x\<bar> = \<bar>r\<bar> * ulp x" by (simp add: abs_mult abs_of_pos)
  also have "\<dots> \<le> 1 / 2 * ulp x" using r by (intro mult_right_mono) (simp_all add: less_imp_le)
  also have "\<dots> = pow2 e / 2 ^ 53" using pow2_add_nat [of "e - 52" 52] by (simp add: u)
  also have "\<dots> \<le> x / 2 ^ 53" using b(1) by simp
  finally show ?thesis using fin by blast
qed

section \<open>A rounded number is its own rounding\<close>

lemma rnd_idem_normal:
  assumes "0 < y" and "- 1022 \<le> expo y" and "expo (rnd y) < 1024"
  shows "round64 (rnd y) = Num (rnd y)"
proof -
  define e where "e = expo y"
  define n where "n = rne (y / pow2 (e - 52))"
  have b: "pow2 e \<le> y" "y < pow2 (e + 1)" using expo_bounds [OF assms(1)] by (simp_all add: e_def)
  have p: "pow2 e = of_int (2 ^ 52) * pow2 (e - 52)" "pow2 (e + 1) = of_int (2 ^ 53) * pow2 (e - 52)"
    using pow2_add_nat [of "e - 52" 52] pow2_add_nat [of "e - 52" 53] by (simp_all add: mult.commute add.commute)
  have r: "rnd y = of_int n * pow2 (e - 52)" using assms(2) by (simp add: rnd_def ulp_def n_def e_def)
  have "of_int (2 ^ 52) \<le> y / pow2 (e - 52)" "y / pow2 (e - 52) \<le> of_int (2 ^ 53)"
    using b p pow2_pos [of "e - 52"] by (simp_all add: pos_le_divide_eq pos_divide_le_eq)
  then have n: "2 ^ 52 \<le> n" "n \<le> 2 ^ 53"
    using rne_mono [of "of_int (2 ^ 52)" "y / pow2 (e - 52)"] rne_mono [of "y / pow2 (e - 52)" "of_int (2 ^ 53)"]
    unfolding n_def rne_of_int by simp_all
  show ?thesis
  proof (cases "n = 2 ^ 53")
    case True
    then have x: "rnd y = pow2 (e + 1)" by (simp add: r p)
    have "expo (pow2 (e + 1)) = e + 1" by (rule expo_unique) (use pow2_Suc [of "e + 1"] pow2_pos [of "e + 1"] in simp_all)
    then show ?thesis using assms(2,3) x round64_pow2 [of "e + 1"] by (simp add: e_def)
  next
    case False
    then have "(of_int n :: rat) < of_int (2 ^ 53)" "(of_int (2 ^ 52) :: rat) \<le> of_int n"
      using n by (simp_all only: of_int_less_iff of_int_le_iff)
    then have x: "pow2 e \<le> rnd y" "rnd y < pow2 (e + 1)"
      unfolding r p using pow2_pos [of "e - 52"] by (simp_all only: mult_le_cancel_right_pos mult_less_cancel_right_pos)
    then show ?thesis using expo_unique [OF x] assms(2,3) r by (intro round64_grid [of e _ n]) (simp_all add: e_def)
  qed
qed

lemma rnd_idem_small:
  assumes "0 < y" and "expo y < - 1022" and "rnd y \<noteq> 0"
  shows "round64 (rnd y) = Num (rnd y)"
proof -
  define n where "n = rne (y / pow2 (- 1074))"
  have b: "y < pow2 (expo y + 1)" using expo_bounds [OF assms(1)] by simp
  have le: "pow2 (expo y + 1) \<le> pow2 (- 1022)" by (rule pow2_mono) (use assms(2) in simp)
  have p: "pow2 (- 1022) = of_int (2 ^ 52) * pow2 (- 1074)" using pow2_add_nat [of "- 1074" 52] by (simp add: mult.commute)
  have r: "rnd y = of_int n * pow2 (- 1074)" using assms(2) by (simp add: rnd_def ulp_def n_def)
  have "y \<le> of_int (2 ^ 52) * pow2 (- 1074)" using b le p by linarith
  then have "y / pow2 (- 1074) \<le> of_int (2 ^ 52)" by (simp add: pos_divide_le_eq)
  then have n: "n \<le> 2 ^ 52" using rne_mono [of "y / pow2 (- 1074)" "of_int (2 ^ 52)"] unfolding n_def rne_of_int by simp
  have pos: "0 < rnd y" using rnd_nonneg [OF assms(1)] assms(3) by simp
  have "(of_int n :: rat) \<le> of_int (2 ^ 52)" using n by (simp only: of_int_le_iff)
  then have "rnd y \<le> pow2 (- 1022)" unfolding r p using pow2_pos [of "- 1074"] by (simp only: mult_le_cancel_right_pos)
  moreover have "pow2 (- 1022) < pow2 (- 1022 + 1)" unfolding pow2_Suc by simp
  ultimately have "pow2 (expo (rnd y)) < pow2 (- 1022 + 1)" using expo_bounds [OF pos] by linarith
  then have e: "expo (rnd y) \<le> - 1022" by (rule pow2_less_iff)
  then have u: "ulp (rnd y) = pow2 (- 1074)" by (simp add: ulp_def)
  have "rnd (rnd y) = rnd y" unfolding rnd_snap [of "rnd y"] u by (rule snap_fix [OF pow2_pos r])
  then show ?thesis using pos e by (simp add: round64_def)
qed

theorem round64_idem:
  assumes "round64 y = Num x"
  shows "round64 x = Num x"
proof -
  have pos: "round64 x = Num x" if "round64 y = Num x" "0 < y" for x y
  proof -
    have x: "x = rnd y" "expo (rnd y) < 1024" using that by (auto simp: round64_def split: if_splits)
    show ?thesis
      using rnd_idem_normal [OF that(2) _ x(2)] rnd_idem_small [OF that(2)] x(1) by (cases "rnd y = 0") force+
  qed
  show ?thesis
  proof (cases y "0 :: rat" rule: linorder_cases)
    case less
    then have "round64 (- y) = Num (- x)" using assms by (simp add: round64_neg)
    then have "round64 (- x) = Num (- x)" by (rule pos) (use less in simp)
    then show ?thesis using round64_neg [of "- x"] by simp
  next
    case equal
    then show ?thesis using assms by (auto simp: round64_def)
  next
    case greater
    then show ?thesis using assms pos by blast
  qed
qed

section \<open>The sort is a stable sort by the key\<close>

lemma mset_js_insert [simp]: "mset (js_insert cmp a xs) = add_mset a (mset xs)"
  by (induction xs) simp_all

lemma mset_js_sort [simp]: "mset (js_sort cmp xs) = mset xs"
  by (induction xs) (simp_all add: js_sort_def)

lemma set_js_sort [simp]: "set (js_sort cmp xs) = set xs"
  using mset_js_sort [of cmp xs] by (metis set_mset_mset)

lemma set_js_insert [simp]: "set (js_insert cmp a xs) = insert a (set xs)"
  by (induction xs) auto

lemma length_js_sort [simp]: "length (js_sort cmp xs) = length xs"
  using mset_js_sort [of cmp xs] by (metis size_mset)

lemma js_sort_Nil_iff [simp]: "js_sort cmp xs = [] \<longleftrightarrow> xs = []"
  using length_js_sort [of cmp xs] by (metis length_0_conv)

lemma js_sort_Nil [simp]: "js_sort cmp [] = []"
  by (simp add: js_sort_def)

lemma js_sort_Cons: "js_sort cmp (x # xs) = js_insert cmp x (js_sort cmp xs)"
  by (simp add: js_sort_def)

lemma js_insert_sorted:
  assumes "is_double (f a)" and "list_all (\<lambda>x. is_double (f x)) xs"
    and "sorted_wrt (\<lambda>x y. js_le (f x) (f y)) xs"
  shows "sorted_wrt (\<lambda>x y. js_le (f x) (f y)) (js_insert (\<lambda>x y. js_sub (f x) (f y)) a xs)"
  using assms
proof (induction xs)
  case (Cons b bs)
  then have pos: "js_lt (Num 0) (js_sub (f a) (f b)) = js_lt (f b) (f a)" by (simp add: js_sub_positive)
  show ?case
  proof (cases "js_lt (f b) (f a)")
    case True
    then show ?thesis using Cons pos js_lt_le [of "f b" "f a"] by auto
  next
    case False
    then have "js_le (f a) (f b)" using Cons.prems js_lt_not_le [of "f a" "f b"] by simp
    then show ?thesis using Cons.prems False pos js_le_trans [of "f a" "f b"] by auto
  qed
qed simp

lemma js_insert_stable:
  assumes "is_double (f a)" and "list_all (\<lambda>x. is_double (f x)) xs"
  shows "filter (\<lambda>x. f x = k) (js_insert (\<lambda>x y. js_sub (f x) (f y)) a xs) = filter (\<lambda>x. f x = k) (a # xs)"
  using assms
proof (induction xs)
  case (Cons b bs)
  have "f a \<noteq> f b" if "js_lt (f b) (f a)" using that by (cases "f b") auto
  then show ?case using Cons by (auto simp: js_sub_positive)
qed simp

theorem js_sort_by_key:
  assumes "list_all (\<lambda>x. is_double (f x)) xs"
  shows "sorted_wrt (\<lambda>x y. js_le (f x) (f y)) (js_sort (\<lambda>x y. js_sub (f x) (f y)) xs)"
    and "filter (\<lambda>x. f x = k) (js_sort (\<lambda>x y. js_sub (f x) (f y)) xs) = filter (\<lambda>x. f x = k) xs"
  using assms
  by (induction xs) (auto simp: js_sort_Cons js_insert_sorted js_insert_stable list_all_iff)

lemma js_sort_hd:
  assumes "list_all (\<lambda>x. is_double (f x)) xs" and "y \<in> set xs"
  shows "js_le (f (hd (js_sort (\<lambda>x y. js_sub (f x) (f y)) xs))) (f y)"
proof -
  let ?s = "js_sort (\<lambda>x y. js_sub (f x) (f y)) xs"
  have "?s \<noteq> []" using assms(2) by auto
  then obtain h t where s: "?s = h # t" by (cases ?s) auto
  have "h \<in> set xs" using set_js_sort [of "\<lambda>x y. js_sub (f x) (f y)" xs] s by auto
  moreover have "y \<in> set (h # t)" using assms(2) set_js_sort [of "\<lambda>x y. js_sub (f x) (f y)" xs] s by simp
  moreover have "\<forall>z \<in> set t. js_le (f h) (f z)" using js_sort_by_key(1) [OF assms(1)] s by simp
  ultimately show ?thesis using assms(1) s js_le_refl by (auto simp: list_all_iff)
qed

end
