(* ===== verification/Dex.thy ===== *)
theory Dex
  imports JsLib Processor
begin

text \<open>
  Liquidity routing over the Stellar exchange (\<open>apps/api/src/soroban/dex.service.ts\<close>): the payment
  paths that Horizon offers are mapped and ranked, the rate of the best one is compared with the
  quoted rate, and the least amount to receive is computed; a probe compares the rate of the order
  books with that of the pools. Horizon, the asset class of its SDK and the natural logarithm are
  parameters. The service keeps no state; its logging is left out.
\<close>

section \<open>Data\<close>

record StellarAsset =
  sa_code :: string
  sa_issuer :: string

record PaymentPath =
  pp_sourceAsset :: StellarAsset
  pp_destinationAsset :: StellarAsset
  pp_path :: "StellarAsset list"
  pp_sourceAmount :: string
  pp_destinationAmount :: string
  pp_effectiveRate :: jsnum
  pp_estimatedFeeStroops :: jsnum
  pp_costScore :: jsnum

record SlippageGuardResult =
  sg_safe :: bool
  sg_actualRate :: jsnum
  sg_minRate :: jsnum
  sg_slippagePct :: jsnum

datatype direction = BUY_ON_SDEX_SELL_ON_AMM | BUY_ON_AMM_SELL_ON_SDEX

record ArbitrageOpportunity =
  ao_assetPair :: "StellarAsset \<times> StellarAsset"
  ao_sdexRate :: jsnum
  ao_ammRate :: jsnum
  ao_spreadPct :: jsnum
  ao_direction :: direction

record LiquidityPoolReserves =
  lp_reserveA :: jsnum
  lp_reserveB :: jsnum
  lp_fee :: string
  lp_poolId :: string

text \<open>The answers of Horizon; a field that is missing is \<open>None\<close>.\<close>

record horizon_asset =
  ha_asset_type :: "string option"
  ha_asset_code :: "string option"
  ha_asset_issuer :: "string option"

record horizon_path =
  hp_source_amount :: "string option"
  hp_destination_amount :: "string option"
  hp_path :: "horizon_asset list option"
  hp_source_asset :: horizon_asset
  hp_destination_asset :: horizon_asset

record horizon_pool =
  po_reserves :: "string option list option"
  po_fee_bp :: "jsnum option"
  po_id :: "string option"

record 'a dex_env =
  dx_native :: 'a
  dx_newAsset :: "string \<Rightarrow> string \<Rightarrow> 'a res"
  dx_strictSendPaths :: "'a \<Rightarrow> string \<Rightarrow> 'a list \<Rightarrow> horizon_path list option res"
  dx_liquidityPools :: "'a \<Rightarrow> 'a \<Rightarrow> horizon_pool list option res"
  dx_log :: "jsnum \<Rightarrow> jsnum"

definition BASE_FEE_STROOPS :: jsnum where "BASE_FEE_STROOPS = Num 100"

definition DEFAULT_MAX_PATHS :: int where "DEFAULT_MAX_PATHS = 5"

definition DEFAULT_MAX_SLIPPAGE_PCT :: jsnum where "DEFAULT_MAX_SLIPPAGE_PCT = Num 1"

definition ARBITRAGE_MIN_SPREAD_PCT :: jsnum where "ARBITRAGE_MIN_SPREAD_PCT = Num (1 / 2)"

section \<open>Mapping the answers of Horizon\<close>

definition estimateFeeStroops :: "jsnum \<Rightarrow> jsnum" where
  "estimateFeeStroops pathLength = js_add BASE_FEE_STROOPS (js_mul pathLength (Num 50))"

definition mapHorizonAsset :: "horizon_asset \<Rightarrow> StellarAsset" where
  "mapHorizonAsset hop =
     (if ha_asset_type hop = Some ''native'' then \<lparr>sa_code = ''XLM'', sa_issuer = []\<rparr>
      else \<lparr>sa_code = case_option [] id (ha_asset_code hop), sa_issuer = case_option [] id (ha_asset_issuer hop)\<rparr>)"

text \<open>The literals \<open>1e-12\<close>, \<open>1e-7\<close> and \<open>0.001\<close>.\<close>

definition e12 :: jsnum where "e12 = round64 (1 / 10 ^ 12)"

definition e7 :: jsnum where "e7 = round64 (1 / 10 ^ 7)"

definition milli :: jsnum where "milli = round64 (1 / 1000)"

definition js_length :: "'a list \<Rightarrow> jsnum" where "js_length xs = Num (of_nat (length xs))"

definition mapHorizonRecord :: "horizon_path \<Rightarrow> PaymentPath option" where
  "mapHorizonRecord r =
     (case (hp_source_amount r, hp_destination_amount r) of
        (Some source, Some destination) \<Rightarrow>
          let srcAmount = parseFloat source; dstAmount = parseFloat destination
          in if srcAmount = NaN \<or> js_le srcAmount (Num 0) \<or> dstAmount = NaN then None
             else
               let effectiveRate = js_div dstAmount srcAmount;
                   pathAssets = map mapHorizonAsset (case_option [] id (hp_path r));
                   feeStroops = estimateFeeStroops (js_length pathAssets);
                   feeXlm = js_mul feeStroops e7;
                   hopPenalty = js_mul (js_length pathAssets) milli;
                   costScore = js_add (js_add (js_div (Num 1) (js_max effectiveRate e12)) hopPenalty)
                                 (js_div feeXlm (js_max srcAmount e12))
               in Some \<lparr>pp_sourceAsset = mapHorizonAsset (hp_source_asset r),
                        pp_destinationAsset = mapHorizonAsset (hp_destination_asset r),
                        pp_path = pathAssets, pp_sourceAmount = source, pp_destinationAmount = destination,
                        pp_effectiveRate = effectiveRate, pp_estimatedFeeStroops = feeStroops,
                        pp_costScore = costScore\<rparr>
      | _ \<Rightarrow> None)"

definition toStellarAsset :: "'a dex_env \<Rightarrow> StellarAsset \<Rightarrow> 'a res" where
  "toStellarAsset env asset =
     (if sa_code asset = ''XLM'' \<and> sa_issuer asset = [] then Inr (dx_native env)
      else dx_newAsset env (sa_code asset) (sa_issuer asset))"

definition send_paths :: "'a dex_env \<Rightarrow> StellarAsset \<Rightarrow> StellarAsset \<Rightarrow> string \<Rightarrow> horizon_path list option res" where
  "send_paths env sourceAsset destinationAsset sourceAmount =
     (case toStellarAsset env sourceAsset of
        Inl e \<Rightarrow> Inl e
      | Inr srcAsset \<Rightarrow>
          case toStellarAsset env destinationAsset of
            Inl e \<Rightarrow> Inl e
          | Inr dstAsset \<Rightarrow> dx_strictSendPaths env srcAsset sourceAmount [dstAsset])"

definition queryHorizonPaths ::
  "'a dex_env \<Rightarrow> StellarAsset \<Rightarrow> StellarAsset \<Rightarrow> string \<Rightarrow> PaymentPath list res" where
  "queryHorizonPaths env sourceAsset destinationAsset sourceAmount =
     (case send_paths env sourceAsset destinationAsset sourceAmount of
        Inl e \<Rightarrow> Inl (BadRequestException (''Failed to query Horizon for payment paths: '' @ error_message e))
      | Inr records \<Rightarrow> Inr (List.map_filter mapHorizonRecord (case_option [] id records)))"

section \<open>Ranking\<close>

definition bfWeight :: "(jsnum \<Rightarrow> jsnum) \<Rightarrow> PaymentPath \<Rightarrow> jsnum" where
  "bfWeight mathLog p =
     (let rateWeight = js_neg (mathLog (js_max (pp_effectiveRate p) e12));
          hopPenalty = js_mul (js_length (pp_path p)) milli;
          feeXlm = js_mul (pp_estimatedFeeStroops p) e7;
          feeWeight = js_div feeXlm (js_max (parseFloat (pp_sourceAmount p)) e12)
      in js_add (js_add rateWeight hopPenalty) feeWeight)"

definition rankPaths :: "(jsnum \<Rightarrow> jsnum) \<Rightarrow> PaymentPath list \<Rightarrow> PaymentPath list" where
  "rankPaths mathLog paths =
     (if length paths \<le> 1 then paths
      else map fst (js_sort (\<lambda>a b. js_sub (snd a) (snd b)) (map (\<lambda>p. (p, bfWeight mathLog p)) paths)))"

definition findOptimalPaths ::
  "'a dex_env \<Rightarrow> StellarAsset \<Rightarrow> StellarAsset \<Rightarrow> string \<Rightarrow> int option \<Rightarrow> PaymentPath list res" where
  "findOptimalPaths env sourceAsset destinationAsset sourceAmount maxPathsOption =
     (let maxPaths = case_option DEFAULT_MAX_PATHS id maxPathsOption;
          parsedAmount = parseFloat sourceAmount
      in if parsedAmount = NaN \<or> js_le parsedAmount (Num 0)
         then Inl (BadRequestException ''sourceAmount must be a positive number'')
         else case queryHorizonPaths env sourceAsset destinationAsset sourceAmount of
                Inl e \<Rightarrow> Inl e
              | Inr paths \<Rightarrow> Inr (slice_to maxPaths (rankPaths (dx_log env) paths)))"

section \<open>Slippage\<close>

definition checkSlippage :: "jsnum \<Rightarrow> jsnum \<Rightarrow> jsnum \<Rightarrow> SlippageGuardResult" where
  "checkSlippage quotedRate actualRate maxSlippagePct =
     (let minRate = js_mul quotedRate (js_sub (Num 1) (js_div maxSlippagePct (Num 100)));
          slippagePct = (if js_lt (Num 0) quotedRate
                         then js_mul (js_div (js_sub quotedRate actualRate) quotedRate) (Num 100) else Num 0)
      in \<lparr>sg_safe = js_le minRate actualRate, sg_actualRate = actualRate, sg_minRate = minRate,
          sg_slippagePct = slippagePct\<rparr>)"

definition computeDestMin :: "jsnum \<Rightarrow> jsnum \<Rightarrow> jsnum \<Rightarrow> jsnum" where
  "computeDestMin sourceAmount quotedRate maxSlippagePct =
     (let quotedDestination = js_mul sourceAmount quotedRate
      in js_mul quotedDestination (js_sub (Num 1) (js_div maxSlippagePct (Num 100))))"

text \<open>The arrow of the messages, as its bytes.\<close>

definition arrow :: string where "arrow = [CHR 0xE2, CHR 0x86, CHR 0x92]"

definition best_rate :: "PaymentPath list \<Rightarrow> jsnum" where
  "best_rate paths = foldl (\<lambda>best p. if js_lt best (pp_effectiveRate p) then pp_effectiveRate p else best) (Num 0) paths"

definition fetchCurrentRate :: "'a dex_env \<Rightarrow> StellarAsset \<Rightarrow> StellarAsset \<Rightarrow> string \<Rightarrow> jsnum res" where
  "fetchCurrentRate env sourceAsset destinationAsset sourceAmount =
     (case queryHorizonPaths env sourceAsset destinationAsset sourceAmount of
        Inl e \<Rightarrow> Inl e
      | Inr paths \<Rightarrow>
          if paths = []
          then Inl (BadRequestException (''No current rate found for '' @ sa_code sourceAsset @ '' '' @ arrow @
                      '' '' @ sa_code destinationAsset))
          else Inr (best_rate paths))"

definition slippage_message :: "SlippageGuardResult \<Rightarrow> jsnum \<Rightarrow> string" where
  "slippage_message c maxSlippagePct =
     ''Slippage exceeded: actual rate '' @ toFixed 6 (sg_actualRate c) @ '' is below minimum '' @
     toFixed 6 (sg_minRate c) @ '' ('' @ toFixed 2 (sg_slippagePct c) @ ''% vs '' @ js_toString maxSlippagePct @
     ''% limit). Transaction aborted.''"

definition prepareGuardedPathPayment ::
  "'a dex_env \<Rightarrow> StellarAsset \<Rightarrow> StellarAsset \<Rightarrow> string \<Rightarrow> jsnum \<Rightarrow> jsnum \<Rightarrow>
     (PaymentPath \<times> jsnum \<times> SlippageGuardResult) res" where
  "prepareGuardedPathPayment env sourceAsset destinationAsset sourceAmount quotedRate maxSlippagePct =
     (case findOptimalPaths env sourceAsset destinationAsset sourceAmount None of
        Inl e \<Rightarrow> Inl e
      | Inr [] \<Rightarrow> Inl (BadRequestException (''No execution paths available for '' @ sa_code sourceAsset @ '' '' @
                          arrow @ '' '' @ sa_code destinationAsset))
      | Inr (bestPath # _) \<Rightarrow>
          let slippageCheck = checkSlippage quotedRate (pp_effectiveRate bestPath) maxSlippagePct
          in if \<not> sg_safe slippageCheck
             then Inl (BadRequestException (slippage_message slippageCheck maxSlippagePct))
             else Inr (bestPath, computeDestMin (parseFloat sourceAmount) quotedRate maxSlippagePct, slippageCheck))"

section \<open>Pools and arbitrage\<close>

text \<open>\<open>pool.reserves?.[i]?.amount ?? '0'\<close>, read as a number.\<close>

definition reserve :: "nat \<Rightarrow> horizon_pool \<Rightarrow> jsnum" where
  "reserve i p =
     (case po_reserves p of
        None \<Rightarrow> parseFloat ''0''
      | Some rs \<Rightarrow> parseFloat (if i < length rs then case_option ''0'' id (rs ! i) else ''0''))"

definition larger_pool :: "horizon_pool option \<times> jsnum \<Rightarrow> horizon_pool \<Rightarrow> horizon_pool option \<times> jsnum" where
  "larger_pool acc p = (let resA = reserve 0 p in if js_lt (snd acc) resA then (Some p, resA) else acc)"

definition pool_records :: "'a dex_env \<Rightarrow> StellarAsset \<Rightarrow> StellarAsset \<Rightarrow> horizon_pool list res" where
  "pool_records env assetA assetB =
     (case toStellarAsset env assetA of
        Inl e \<Rightarrow> Inl e
      | Inr a \<Rightarrow>
          case toStellarAsset env assetB of
            Inl e \<Rightarrow> Inl e
          | Inr b \<Rightarrow> (case dx_liquidityPools env a b of
                       Inl e \<Rightarrow> Inl e
                     | Inr records \<Rightarrow> Inr (case_option [] id records)))"

definition fetchAmmReserves :: "'a dex_env \<Rightarrow> StellarAsset \<Rightarrow> StellarAsset \<Rightarrow> LiquidityPoolReserves option" where
  "fetchAmmReserves env assetA assetB =
     (case pool_records env assetA assetB of
        Inl _ \<Rightarrow> None
      | Inr records \<Rightarrow>
          (case fst (foldl larger_pool (None, NegInf) records) of
             None \<Rightarrow> None
           | Some p \<Rightarrow>
               Some \<lparr>lp_reserveA = reserve 0 p, lp_reserveB = reserve 1 p,
                     lp_fee = (case po_fee_bp p of
                                 None \<Rightarrow> ''0.3%''
                               | Some bp \<Rightarrow> if js_truthy bp then js_toString (js_div bp (Num 100)) @ ''%'' else ''0.3%''),
                     lp_poolId = case_option [] id (po_id p)\<rparr>))"

definition detectArbitrage ::
  "'a dex_env \<Rightarrow> StellarAsset \<Rightarrow> StellarAsset \<Rightarrow> string \<Rightarrow> jsnum \<Rightarrow> ArbitrageOpportunity option" where
  "detectArbitrage env assetA assetB probeAmount minSpreadPct =
     (let sdexPaths = (case queryHorizonPaths env assetA assetB probeAmount of Inl _ \<Rightarrow> [] | Inr paths \<Rightarrow> paths);
          sdexRate = best_rate sdexPaths;
          ammRate = (case fetchAmmReserves env assetA assetB of
                       None \<Rightarrow> Num 0
                     | Some r \<Rightarrow> if js_lt (Num 0) (lp_reserveA r) then js_div (lp_reserveB r) (lp_reserveA r) else Num 0)
      in if js_le sdexRate (Num 0) \<or> js_le ammRate (Num 0) then None
         else
           let spreadPct = js_mul (js_div (js_abs (js_sub sdexRate ammRate)) (js_min sdexRate ammRate)) (Num 100)
           in if js_lt spreadPct minSpreadPct then None
              else Some \<lparr>ao_assetPair = (assetA, assetB), ao_sdexRate = sdexRate, ao_ammRate = ammRate,
                         ao_spreadPct = spreadPct,
                         ao_direction = (if js_lt ammRate sdexRate then BUY_ON_AMM_SELL_ON_SDEX
                                         else BUY_ON_SDEX_SELL_ON_AMM)\<rparr>)"

section \<open>The ranking is a stable sort by weight\<close>

lemma js_insert_map:
  "js_insert (\<lambda>a b. js_sub (snd a) (snd b)) (x, f x) (map (\<lambda>p. (p, f p)) xs) =
   map (\<lambda>p. (p, f p)) (js_insert (\<lambda>a b. js_sub (f a) (f b)) x xs)"
  by (induction xs) simp_all

lemma js_sort_map:
  "js_sort (\<lambda>a b. js_sub (snd a) (snd b)) (map (\<lambda>p. (p, f p)) xs) =
   map (\<lambda>p. (p, f p)) (js_sort (\<lambda>a b. js_sub (f a) (f b)) xs)"
  by (induction xs) (simp_all add: js_sort_Cons js_insert_map)

lemma rankPaths_sort:
  "rankPaths mathLog paths = js_sort (\<lambda>a b. js_sub (bfWeight mathLog a) (bfWeight mathLog b)) paths"
proof (cases "length paths \<le> 1")
  case True
  then show ?thesis by (cases paths) (simp_all add: rankPaths_def js_sort_Cons)
qed (simp add: rankPaths_def js_sort_map comp_def)

lemma bfWeight_double: "bfWeight mathLog p \<noteq> NaN \<Longrightarrow> is_double (bfWeight mathLog p)"
  by (simp add: bfWeight_def Let_def is_double_add)

lemma rankPaths_best:
  assumes "list_all (\<lambda>p. bfWeight mathLog p \<noteq> NaN) paths" and "q \<in> set paths"
  shows "js_le (bfWeight mathLog (hd (rankPaths mathLog paths))) (bfWeight mathLog q)"
  unfolding rankPaths_sort
  by (rule js_sort_hd) (use assms bfWeight_double in \<open>auto simp: list_all_iff\<close>)

lemma rankPaths_stable:
  assumes "list_all (\<lambda>p. bfWeight mathLog p \<noteq> NaN) paths"
  shows "mset (rankPaths mathLog paths) = mset paths"
    and "sorted_wrt (\<lambda>p q. js_le (bfWeight mathLog p) (bfWeight mathLog q)) (rankPaths mathLog paths)"
    and "filter (\<lambda>p. bfWeight mathLog p = w) (rankPaths mathLog paths) = filter (\<lambda>p. bfWeight mathLog p = w) paths"
  using assms js_sort_by_key [of "bfWeight mathLog" paths] bfWeight_double
  by (simp_all add: rankPaths_sort list_all_iff)

lemma rankPaths_simps [simp]:
  "rankPaths mathLog [] = []" "set (rankPaths mathLog paths) = set paths" "rankPaths mathLog paths = [] \<longleftrightarrow> paths = []"
  by (simp_all add: rankPaths_sort)

section \<open>The guarded payment\<close>

lemma prepare_Inr:
  "prepareGuardedPathPayment env src dst amount quotedRate maxSlip = Inr (path, destMin, chk) \<longleftrightarrow>
   (\<exists>paths. queryHorizonPaths env src dst amount = Inr paths \<and> paths \<noteq> [] \<and>
      parseFloat amount \<noteq> NaN \<and> \<not> js_le (parseFloat amount) (Num 0) \<and>
      path = hd (rankPaths (dx_log env) paths) \<and>
      chk = checkSlippage quotedRate (pp_effectiveRate path) maxSlip \<and> sg_safe chk \<and>
      destMin = computeDestMin (parseFloat amount) quotedRate maxSlip)"
proof (cases "queryHorizonPaths env src dst amount")
  case (Inr paths)
  show ?thesis
  proof (cases "rankPaths (dx_log env) paths")
    case Nil
    then have "paths = []" by (simp only: rankPaths_simps)
    then show ?thesis using Inr Nil by (auto simp: prepareGuardedPathPayment_def findOptimalPaths_def Let_def
        DEFAULT_MAX_PATHS_def slice_to_def)
  next
    case (Cons p ps)
    then have "paths \<noteq> []" by auto
    then show ?thesis using Inr Cons by (auto simp: prepareGuardedPathPayment_def findOptimalPaths_def Let_def
        DEFAULT_MAX_PATHS_def slice_to_def take_Cons')
  qed
qed (auto simp: prepareGuardedPathPayment_def findOptimalPaths_def Let_def)

lemma mem_map_filter: "q \<in> set (List.map_filter f xs) \<longleftrightarrow> (\<exists>r \<in> set xs. f r = Some q)"
  by (induction xs) (auto simp: List.map_filter_simps split: option.splits)

lemma query_records:
  assumes "send_paths env src dst amount = Inr (Some records)"
  shows "queryHorizonPaths env src dst amount = Inr (List.map_filter mapHorizonRecord records)"
  using assms by (simp add: queryHorizonPaths_def)

lemma mapped_record:
  assumes "mapHorizonRecord r = Some p"
  shows "hp_source_amount r = Some (pp_sourceAmount p)" and "hp_destination_amount r = Some (pp_destinationAmount p)"
    and "pp_effectiveRate p = js_div (parseFloat (pp_destinationAmount p)) (parseFloat (pp_sourceAmount p))"
  using assms by (auto simp: mapHorizonRecord_def Let_def split: option.splits if_splits)

text \<open>With finite amounts the weights are numbers: nothing infinite is subtracted from another.\<close>

lemma nonneg_mul: "0 \<le> x \<Longrightarrow> 0 \<le> y \<Longrightarrow> js_le (Num 0) (js_mul (Num x) (Num y))"
  using round64_mono [of 0 "x * y"] by simp

lemma js_max_Num: "js_max (Num a) (Num b) = Num (max a b)"
  by (simp add: js_max_def max_def)

lemma round64_lit_pos:
  assumes "pow2 (- 1000) \<le> x" and "x \<le> pow2 1000"
  obtains y where "round64 x = Num y" and "0 < y"
proof -
  have "js_le (Num (pow2 (- 1000))) (round64 x)" using round64_mono [OF assms(1)] round64_pow2 [of "- 1000"] by simp
  moreover obtain y where "round64 x = Num y" using round64_rel [OF assms] by blast
  ultimately show thesis using that pow2_pos [of "- 1000"] by simp
qed

lemma literals:
  obtains a b c where "e12 = Num a" "0 < a" "e7 = Num b" "0 < b" "milli = Num c" "0 < c"
proof -
  have b: "pow2 (- 1000) \<le> 1 / 10 ^ 12" "1 / 10 ^ 12 \<le> pow2 1000" "pow2 (- 1000) \<le> 1 / 10 ^ 7" "1 / 10 ^ 7 \<le> pow2 1000"
    "pow2 (- 1000) \<le> 1 / 1000" "1 / 1000 \<le> pow2 1000"
    by (simp_all add: pow2_def)
  show thesis
    using that round64_lit_pos [OF b(1,2)] round64_lit_pos [OF b(3,4)] round64_lit_pos [OF b(5,6)]
    unfolding e12_def e7_def milli_def by metis
qed

lemma bfWeight_number:
  assumes "pp_effectiveRate p = Num r" and "parseFloat (pp_sourceAmount p) = Num a"
    and "js_le (Num 0) (pp_estimatedFeeStroops p)"
    and "\<And>x. 0 < x \<Longrightarrow> js_le (mathLog (Num x)) (Num 1000)"
  shows "bfWeight mathLog p \<noteq> NaN"
proof -
  obtain x y z where lit: "e12 = Num x" "0 < x" "e7 = Num y" "0 < y" "milli = Num z" "0 < z" by (rule literals)
  have "0 < max r x" "0 < max a x" using lit by auto
  define w where "w = js_neg (mathLog (Num (max r x)))"
  have w: "js_le (Num (- 1000)) w" using assms(4) [OF \<open>0 < max r x\<close>]
    by (cases "mathLog (Num (max r x))") (simp_all add: w_def)
  define h where "h = js_mul (js_length (pp_path p)) milli"
  have h: "js_le (Num 0) h" unfolding h_def js_length_def lit by (rule nonneg_mul) (use lit in auto)
  have fee: "js_le (Num 0) (js_mul (pp_estimatedFeeStroops p) e7)"
    unfolding lit using assms(3) lit(4) nonneg_mul [of _ y]
    by (cases "pp_estimatedFeeStroops p") (auto simp: js_inf_of_def)
  define f where "f = js_div (js_mul (pp_estimatedFeeStroops p) e7) (Num (max a x))"
  have f: "js_le (Num 0) f"
    using fee \<open>0 < max a x\<close> round64_mono [of 0] unfolding f_def
    by (cases "js_mul (pp_estimatedFeeStroops p) e7") (auto simp: js_inf_of_def)
  have "bfWeight mathLog p = js_add (js_add w h) f"
    unfolding bfWeight_def Let_def w_def h_def f_def assms(1,2) lit(1) js_max_Num ..
  moreover have "js_le (round64 (- 1000)) (js_add w h)"
    using w h round64_mono [of "- 1000"] by (cases w; cases h) (auto simp: js_le_PosInf)
  then have "js_add w h \<noteq> NaN" "js_add w h \<noteq> NegInf"
    using round64_int [of "- 1000"] by auto
  then have "js_add (js_add w h) f \<noteq> NaN" using f is_double_round64
    by (cases "js_add w h"; cases f) (auto, metis is_double_round64 is_double_simps(1))
  ultimately show ?thesis by simp
qed

lemma mapped_fee:
  assumes "mapHorizonRecord r = Some p"
  shows "js_le (Num 0) (pp_estimatedFeeStroops p)"
proof -
  define n where "n = length (pp_path p)"
  have "pp_estimatedFeeStroops p = estimateFeeStroops (js_length (pp_path p))"
    using assms by (auto simp: mapHorizonRecord_def Let_def split: option.splits if_splits)
  then have "pp_estimatedFeeStroops p = js_add (Num 100) (js_mul (Num (of_nat n)) (Num 50))"
    by (simp only: estimateFeeStroops_def BASE_FEE_STROOPS_def js_length_def n_def)
  moreover have "js_le (Num 0) (js_mul (Num (of_nat n)) (Num 50))" by (rule nonneg_mul) simp_all
  ultimately show ?thesis
    using js_add_mono [of "Num 0" _ 100 100] round64_mono [of 0] js_le_trans
    by (cases "js_mul (Num (of_nat n)) (Num 50)") auto
qed

text \<open>
  C28. A guarded payment takes a path that Horizon offered for this request, its rate is at least
  the quoted rate less the slippage, and no other offered path has a smaller weight, when the offered
  amounts are finite and the logarithm of a number does not exceed 1000.
\<close>

theorem guarded_path_is_best:
  assumes "prepareGuardedPathPayment env src dst amount quotedRate maxSlip = Inr (path, destMin, chk)"
    and "send_paths env src dst amount = Inr (Some records)"
    and "list_all (\<lambda>q. isFinite (pp_effectiveRate q) \<and> isFinite (parseFloat (pp_sourceAmount q)))
           (List.map_filter mapHorizonRecord records)"
    and "\<And>x. 0 < x \<Longrightarrow> js_le (dx_log env (Num x)) (Num 1000)"
  shows "path \<in> set (List.map_filter mapHorizonRecord records) \<and>
         list_all (\<lambda>q. js_le (bfWeight (dx_log env) path) (bfWeight (dx_log env) q))
           (List.map_filter mapHorizonRecord records) \<and>
         js_le (js_mul quotedRate (js_sub (Num 1) (js_div maxSlip (Num 100)))) (pp_effectiveRate path)"
proof -
  define paths where "paths = List.map_filter mapHorizonRecord records"
  have "queryHorizonPaths env src dst amount = Inr paths"
    by (simp add: query_records [OF assms(2)] paths_def)
  then have p: "paths \<noteq> []" "path = hd (rankPaths (dx_log env) paths)"
      "chk = checkSlippage quotedRate (pp_effectiveRate path) maxSlip" "sg_safe chk"
    using assms(1) by (auto simp: prepare_Inr)
  have "bfWeight (dx_log env) q \<noteq> NaN" if q: "q \<in> set paths" for q
  proof -
    obtain r where "mapHorizonRecord r = Some q" using q unfolding paths_def mem_map_filter by blast
    moreover have "isFinite (pp_effectiveRate q) \<and> isFinite (parseFloat (pp_sourceAmount q))"
      using assms(3) q unfolding paths_def list_all_iff by blast
    then obtain x a where "pp_effectiveRate q = Num x" "parseFloat (pp_sourceAmount q) = Num a"
      by (auto simp: isFinite_def split: jsnum.splits)
    ultimately show ?thesis using mapped_fee assms(4) by (intro bfWeight_number) auto
  qed
  then have "list_all (\<lambda>q. js_le (bfWeight (dx_log env) path) (bfWeight (dx_log env) q)) paths"
    using rankPaths_best [of "dx_log env" paths] by (auto simp: list_all_iff p(2))
  moreover have "path \<in> set paths" using p(1,2) hd_in_set [of "rankPaths (dx_log env) paths"] by simp
  ultimately show ?thesis using p(3,4) by (simp add: paths_def checkSlippage_def Let_def)
qed

section \<open>What the payment must receive at least\<close>

text \<open>The factor that the slippage leaves of an amount.\<close>

lemma slippage_factor:
  assumes "0 \<le> m" and "m \<le> 99"
  obtains k where "js_sub (Num 1) (js_div (Num m) (Num 100)) = Num k" and "1 / 128 \<le> k" and "k \<le> 1"
proof -
  have "round64 (127 / 128) = Num (127 / 128)" "round64 (1 / 128) = Num (1 / 128)"
    using round64_dyadic [of 127 7] round64_dyadic [of 1 7] by (simp_all add: pow2_def)
  moreover have "js_le (round64 (m / 100)) (round64 (127 / 128))" "js_le (round64 0) (round64 (m / 100))"
    by (rule round64_mono, use assms in simp)+
  ultimately obtain x where x: "round64 (m / 100) = Num x" "0 \<le> x" "x \<le> 127 / 128"
    by (cases "round64 (m / 100)") auto
  have "js_le (round64 (1 / 128)) (round64 (1 - x))" "js_le (round64 (1 - x)) (round64 1)"
    by (rule round64_mono, use x in simp)+
  with \<open>round64 (1 / 128) = _\<close> obtain k where "round64 (1 - x) = Num k" "1 / 128 \<le> k" "k \<le> 1"
    by (cases "round64 (1 - x)") auto
  with x(1) that show thesis by (simp add: js_sub_def)
qed

lemma rel_bounds:
  fixes x y :: rat
  assumes "\<bar>y - x\<bar> \<le> x / 2 ^ 53"
  shows "x * (1 - 1 / 2 ^ 53) \<le> y" and "y \<le> x * (1 + 1 / 2 ^ 53)"
  using abs_le_D1 [OF assms] abs_le_D2 [OF assms] by (simp_all add: algebra_simps)

lemma rounding_above:
  assumes "0 \<le> z" and "z \<le> 1" and "round64 z = Num x"
  shows "x \<le> z + 1 / 2 ^ 53"
proof (cases "pow2 (- 1000) \<le> z")
  case True
  moreover have "z \<le> pow2 1000" using assms(2) by (simp add: pow2_def order_trans [of z 1])
  ultimately obtain y where y: "round64 z = Num y" "\<bar>y - z\<bar> \<le> z / 2 ^ 53" using round64_rel by blast
  have "y - z \<le> z / 2 ^ 53" by (rule abs_le_D1 [OF y(2)])
  then have "x \<le> z + z / 2 ^ 53" using assms(3) y(1) by (simp only: jsnum.inject diff_le_eq add.commute)
  moreover have "z / 2 ^ 53 \<le> 1 / 2 ^ 53" by (rule divide_right_mono [OF assms(2)]) simp
  ultimately show ?thesis by linarith
next
  case False
  have "js_le (round64 z) (round64 (pow2 (- 1000)))" by (rule round64_mono) (use False in simp)
  then have "x \<le> pow2 (- 1000)" using assms(3) round64_pow2 [of "- 1000"] by simp
  moreover have "pow2 (- 1000) \<le> 1 / 2 ^ 53" by (simp add: pow2_def)
  ultimately show ?thesis using assms(1) by linarith
qed

lemma slippage_factor_low:
  assumes "0 \<le> m" and "m \<le> 99" and "js_sub (Num 1) (js_div (Num m) (Num 100)) = Num k"
  shows "(1 - m / 100) * (1 - 101 / 2 ^ 53) \<le> k"
proof -
  define u :: rat where "u = 1 / 2 ^ 53"
  have u: "0 < u" "100 * u < 1" by (simp_all add: u_def)
  define v where "v = 1 - m / 100"
  have v: "1 / 100 \<le> v" "v \<le> 1" using assms(1,2) by (simp_all add: v_def field_simps)
  have "js_le (round64 0) (round64 (m / 100))" "js_le (round64 (m / 100)) (round64 1)"
    by (rule round64_mono, use assms in simp)+
  then obtain x where x: "round64 (m / 100) = Num x" "0 \<le> x" "x \<le> 1" by (cases "round64 (m / 100)") auto
  have "x \<le> m / 100 + u" unfolding u_def by (rule rounding_above [OF _ _ x(1)]) (use assms in simp_all)
  then have "v - u \<le> 1 - x" by (simp add: v_def)
  moreover have "u \<le> 100 * u * v" using v(1) u(1) mult_left_mono [of "1 / 100" v "100 * u"] by simp
  ultimately have low: "v * (1 - 100 * u) \<le> 1 - x" by (simp add: algebra_simps)
  have half: "1 / 200 \<le> 1 - x" using low mult_mono [of "1 / 100" v "1 / 2" "1 - 100 * u"] v by (simp add: u_def)
  have rk: "round64 (1 - x) = Num k" using assms(3) x(1) by (simp add: js_sub_def)
  have "pow2 (- 1000) \<le> 1 / 200" "1 \<le> pow2 1000" by (simp_all add: pow2_def)
  then have "pow2 (- 1000) \<le> 1 - x" "1 - x \<le> pow2 1000" using half x(2) by linarith+
  then have "\<bar>k - (1 - x)\<bar> \<le> (1 - x) / 2 ^ 53" using round64_rel rk by fastforce
  from rel_bounds(1) [OF this] have "(1 - x) * (1 - u) \<le> k" by (simp only: u_def)
  moreover have "v * (1 - 100 * u) * (1 - u) \<le> (1 - x) * (1 - u)" by (rule mult_right_mono [OF low]) (use u in linarith)
  moreover have "v * (1 - 101 * u) \<le> v * ((1 - 100 * u) * (1 - u))"
    by (rule mult_left_mono) (use u v in \<open>simp_all add: algebra_simps\<close>)
  ultimately show ?thesis by (simp add: v_def u_def mult.assoc)
qed

definition ordinary :: "rat \<Rightarrow> bool" where
  "ordinary x \<longleftrightarrow> 1 / 2 ^ 200 \<le> x \<and> x \<le> 2 ^ 200"

lemma rounding_chain:
  fixes a q d k :: rat
  assumes "0 < a" "0 < q" "0 < d" "0 < k"
    and r: "\<bar>r - d / a\<bar> \<le> d / a / 2 ^ 53" and lo: "\<bar>lo - q * k\<bar> \<le> q * k / 2 ^ 53" and "lo \<le> r"
    and b: "\<bar>b - a * q\<bar> \<le> a * q / 2 ^ 53" and t: "\<bar>t - b * k\<bar> \<le> b * k / 2 ^ 53"
  shows "t \<le> d * (1 + 1 / 2 ^ 50)"
proof -
  define u :: rat where "u = 1 / 2 ^ 53"
  have u: "0 < u" "u < 1" "(1 + u) * (1 + u) * (1 + u) \<le> (1 - u) * (1 + 1 / 2 ^ 50)" by (simp_all add: u_def)
  have "q * k * (1 - u) \<le> lo" using rel_bounds(1) [OF lo] by (simp add: u_def)
  also have "\<dots> \<le> d / a * (1 + u)" using rel_bounds(2) [OF r] assms(7) by (simp add: u_def)
  finally have dk: "a * (q * k * (1 - u)) \<le> d * (1 + u)"
    using assms(1) mult_left_mono [of _ _ a] by (force simp: field_simps)
  have "b \<le> a * q * (1 + u)" using rel_bounds(2) [OF b] by (simp add: u_def)
  then have bk: "b * k \<le> a * q * (1 + u) * k" using assms(4) by (intro mult_right_mono) auto
  have "t \<le> b * k * (1 + u)" using rel_bounds(2) [OF t] by (simp add: u_def)
  also have "\<dots> \<le> a * q * (1 + u) * k * (1 + u)" by (rule mult_right_mono [OF bk]) (use u in simp)
  finally have "t * (1 - u) \<le> a * q * (1 + u) * k * (1 + u) * (1 - u)" by (rule mult_right_mono) (use u in simp)
  also have "\<dots> = a * (q * k * (1 - u)) * ((1 + u) * (1 + u))" by (simp add: algebra_simps)
  also have "\<dots> \<le> d * (1 + u) * ((1 + u) * (1 + u))" by (rule mult_right_mono [OF dk]) (use u in simp)
  also have "\<dots> \<le> d * ((1 - u) * (1 + 1 / 2 ^ 50))"
    using u(3) assms(3) mult_left_mono [of _ _ d] by (simp add: mult.assoc)
  finally have "t * (1 - u) \<le> d * (1 + 1 / 2 ^ 50) * (1 - u)" by (simp add: algebra_simps)
  then show ?thesis using u(2) by simp
qed

lemma rounding_chain_low:
  fixes a q v k :: rat
  assumes "0 < a" "0 < q" "0 < v" and k: "v * (1 - 101 / 2 ^ 53) \<le> k"
    and b: "\<bar>b - a * q\<bar> \<le> a * q / 2 ^ 53" and t: "\<bar>t - b * k\<bar> \<le> b * k / 2 ^ 53"
  shows "a * q * v * (1 - 1 / 2 ^ 46) \<le> t"
proof -
  define u :: rat where "u = 1 / 2 ^ 53"
  have u: "0 < u" "u < 1" "1 - 1 / 2 ^ 46 \<le> (1 - u) * (1 - 101 * u) * (1 - u)" "0 < 1 - 101 * u" by (simp_all add: u_def)
  have aq: "0 < a * q" using assms by simp
  have bl: "a * q * (1 - u) \<le> b" using rel_bounds(1) [OF b] by (simp add: u_def)
  have kl: "v * (1 - 101 * u) \<le> k" using k by (simp add: u_def)
  have "a * q * (1 - u) * (v * (1 - 101 * u)) \<le> b * k"
    by (rule mult_mono [OF bl kl]) (use aq u assms bl in \<open>auto intro!: mult_nonneg_nonneg order_trans [OF _ bl]\<close>)
  then have "a * q * (1 - u) * (v * (1 - 101 * u)) * (1 - u) \<le> b * k * (1 - u)"
    by (rule mult_right_mono) (use u in simp)
  also have "\<dots> \<le> t" using rel_bounds(1) [OF t] by (simp add: u_def)
  finally have "a * q * v * ((1 - u) * (1 - 101 * u) * (1 - u)) \<le> t" by (simp only: ac_simps)
  moreover have "a * q * v * (1 - 1 / 2 ^ 46) \<le> a * q * v * ((1 - u) * (1 - 101 * u) * (1 - u))"
    by (rule mult_left_mono [OF u(3)]) (use aq assms in simp)
  ultimately show ?thesis by linarith
qed

lemma round64_ordinary:
  assumes "1 / c \<le> x" and "x \<le> c" and "0 < c" and "c \<le> 2 ^ 900"
  obtains y where "round64 x = Num y" and "\<bar>y - x\<bar> \<le> x / 2 ^ 53"
proof -
  have "pow2 (- 1000) \<le> 1 / 2 ^ 900" "2 ^ 900 \<le> pow2 1000" by (simp_all add: pow2_def)
  moreover have "1 / 2 ^ 900 \<le> 1 / c" by (rule divide_left_mono) (use assms in simp_all)
  ultimately have "pow2 (- 1000) \<le> x" "x \<le> pow2 1000" using assms by linarith+
  with that show thesis using round64_rel by blast
qed

lemma ordinary_mult:
  assumes "1 / c \<le> x" and "x \<le> c" and "1 / e \<le> y" and "y \<le> e" and "(0 :: rat) < c" and "0 < e"
  shows "1 / (c * e) \<le> x * y" and "x * y \<le> c * e"
proof -
  have pos: "0 < 1 / c" "0 < 1 / e" using assms by simp_all
  then have "0 < x" "0 < y" using assms(1,3) by linarith+
  then show "1 / (c * e) \<le> x * y" "x * y \<le> c * e"
    using mult_mono [OF assms(1,3)] mult_mono [OF assms(2,4)] pos assms(5) by simp_all
qed

text \<open>
  C29. The minimum that a guarded payment demands lies between what the quote leaves after the slippage and what Horizon offered on the
  chosen path, up to rounding. With amount \<open>a\<close>, quoted rate \<open>q\<close>, slippage of \<open>m\<close> percent and offered amount \<open>d\<close>, the minimum is at
  least \<open>a q (1 - m / 100) (1 - 2 ^ -46)\<close> and at most \<open>d (1 + 2 ^ -50)\<close>. The service does not round it to the seven decimals
  of an amount, and with no slippage it can exceed the offer in its last binary digit. The source amounts of Horizon's records read as the number that was asked for,
  in whatever form; the amounts and the rate lie between \<open>2 ^ -200\<close> and \<open>2 ^ 200\<close>, and the slippage between 0 and 99 percent.
\<close>

theorem guarded_payment_minimum:
  assumes "prepareGuardedPathPayment env src dst amount (Num q) (Num m) = Inr (path, destMin, chk)"
    and "send_paths env src dst amount = Inr (Some records)"
    and "\<And>r x. r \<in> set records \<Longrightarrow> hp_source_amount r = Some x \<Longrightarrow> parseFloat x = parseFloat amount"
    and "parseFloat amount = Num a" and "parseFloat (pp_destinationAmount path) = Num d"
    and "ordinary a" and "ordinary d" and "ordinary q" and "0 \<le> m" and "m \<le> 99"
  shows "\<exists>t. destMin = Num t \<and> a * q * (1 - m / 100) * (1 - 1 / 2 ^ 46) \<le> t \<and> t \<le> d * (1 + 1 / 2 ^ 50)"
proof -
  obtain k where k: "js_sub (Num 1) (js_div (Num m) (Num 100)) = Num k" "1 / 128 \<le> k" "k \<le> 128"
    using slippage_factor [OF assms(9,10)] by (metis order_trans one_le_numeral)
  note kl = slippage_factor_low [OF assms(9,10) k(1)]
  have oa: "1 / 2 ^ 200 \<le> a" "a \<le> 2 ^ 200" and od: "1 / 2 ^ 200 \<le> d" "d \<le> 2 ^ 200"
    and oq: "1 / 2 ^ 200 \<le> q" "q \<le> 2 ^ 200"
    using assms(6,7,8) by (simp_all add: ordinary_def)
  have "(0 :: rat) < 1 / 2 ^ 200" by simp
  then have pos: "0 < a" "0 < d" "0 < q" "0 < k" using oa od oq k by linarith+
  obtain paths where p: "queryHorizonPaths env src dst amount = Inr paths" "paths \<noteq> []"
      "path = hd (rankPaths (dx_log env) paths)" and chk: "chk = checkSlippage (Num q) (pp_effectiveRate path) (Num m)"
      "sg_safe chk" and min: "destMin = computeDestMin (Num a) (Num q) (Num m)"
    using assms(1) unfolding prepare_Inr assms(4) by blast
  have safe: "js_le (js_mul (Num q) (Num k)) (pp_effectiveRate path)"
    using chk(2) unfolding chk(1) checkSlippage_def Let_def k(1) by simp
  have dest: "destMin = js_mul (js_mul (Num a) (Num q)) (Num k)"
    unfolding min computeDestMin_def Let_def k(1) ..
  have "path \<in> set paths" using p(2,3) hd_in_set [of "rankPaths (dx_log env) paths"] by simp
  then obtain r where r: "r \<in> set records" "mapHorizonRecord r = Some path"
    using query_records [OF assms(2)] p(1) mem_map_filter [of path mapHorizonRecord records] by auto
  then have "parseFloat (pp_sourceAmount path) = Num a"
    using mapped_record(1) [OF r(2)] assms(3,4) by simp
  then have rate: "pp_effectiveRate path = round64 (d / a)"
    using mapped_record(3) [OF r(2)] assms(5) pos by simp
  have "1 / 2 ^ 200 \<le> 1 / a" "1 / a \<le> 2 ^ 200" using oa pos(1) by (simp_all add: field_simps)
  note da = ordinary_mult [OF od this] and qk = ordinary_mult [OF oq k(2,3)] and aq = ordinary_mult [OF oa oq]
  obtain rt where rt: "round64 (d / a) = Num rt" "\<bar>rt - d / a\<bar> \<le> d / a / 2 ^ 53"
    using round64_ordinary [OF da] by auto
  obtain lo where lo: "round64 (q * k) = Num lo" "\<bar>lo - q * k\<bar> \<le> q * k / 2 ^ 53"
    using round64_ordinary [OF qk] by auto
  obtain b where b: "round64 (a * q) = Num b" "\<bar>b - a * q\<bar> \<le> a * q / 2 ^ 53"
    using round64_ordinary [OF aq] by auto
  have "1 / 2 ^ 401 \<le> a * q * (1 - 1 / 2 ^ 53)" "a * q * (1 + 1 / 2 ^ 53) \<le> 2 ^ 401"
    using mult_right_mono [OF aq(1), of "1 - 1 / 2 ^ 53"] mult_right_mono [OF aq(2), of "1 + 1 / 2 ^ 53"]
    by (simp_all add: order_trans [rotated])
  then have "1 / 2 ^ 401 \<le> b" "b \<le> 2 ^ 401" using rel_bounds [OF b(2)] by linarith+
  from ordinary_mult [OF this k(2,3)] obtain t where t: "round64 (b * k) = Num t" "\<bar>t - b * k\<bar> \<le> b * k / 2 ^ 53"
    using round64_ordinary [of "2 ^ 401 * 128" "b * k"] by auto
  have "lo \<le> rt" using safe by (simp add: rate rt(1) lo(1))
  then have "t \<le> d * (1 + 1 / 2 ^ 50)" using rounding_chain [OF pos(1,3,2,4) rt(2) lo(2) _ b(2) t(2)] by blast
  moreover have "0 < 1 - m / 100" using assms(10) by simp
  then have "a * q * (1 - m / 100) * (1 - 1 / 2 ^ 46) \<le> t" using rounding_chain_low [OF pos(1,3) _ kl b(2) t(2)] by blast
  moreover have "destMin = Num t" by (simp add: dest b(1) t(1))
  ultimately show ?thesis by blast
qed

section \<open>Examples\<close>

definition plain_asset :: horizon_asset where
  "plain_asset = \<lparr>ha_asset_type = Some ''credit_alphanum4'', ha_asset_code = Some ''USDC'', ha_asset_issuer = Some ''GI''\<rparr>"

definition offer :: "string \<Rightarrow> horizon_asset list \<Rightarrow> horizon_path" where
  "offer amount hops = \<lparr>hp_source_amount = Some ''64.0'', hp_destination_amount = Some amount, hp_path = Some hops,
     hp_source_asset = plain_asset, hp_destination_asset = plain_asset\<rparr>"

definition demo_offers :: "horizon_path list" where
  "demo_offers = [offer ''96'' [], offer ''80'' []]"

definition demo_dex :: "string dex_env" where
  "demo_dex = \<lparr>dx_native = ''XLM'', dx_newAsset = (\<lambda>c i. Inr c),
     dx_strictSendPaths = (\<lambda>src amount dsts. Inr (Some demo_offers)),
     dx_liquidityPools = (\<lambda>a b. Inr (Some [\<lparr>po_reserves = Some [Some ''64'', Some ''64''], po_fee_bp = Some (Num 30), po_id = Some ''p''\<rparr>])),
     dx_log = (\<lambda>v. js_min v (Num 1000))\<rparr>"

definition usd :: StellarAsset where "usd = \<lparr>sa_code = ''USDC'', sa_issuer = ''GI''\<rparr>"

definition demo_path :: "string \<Rightarrow> rat \<Rightarrow> PaymentPath" where
  "demo_path amount rate = \<lparr>pp_sourceAsset = usd, pp_destinationAsset = usd, pp_path = [], pp_sourceAmount = ''64.0'',
     pp_destinationAmount = amount, pp_effectiveRate = Num rate, pp_estimatedFeeStroops = Num 100,
     pp_costScore = js_add (js_add (js_div (Num 1) (js_max (Num rate) e12)) (Num 0)) (js_div (js_mul (Num 100) e7) (js_max (Num 64) e12))\<rparr>"

lemma demo_numbers:
  "parseFloat ''64'' = Num 64" "parseFloat ''64.0'' = Num 64" "parseFloat ''96'' = Num 96" "parseFloat ''80'' = Num 80"
  "round64 (3 / 2) = Num (3 / 2)" "round64 (5 / 4) = Num (5 / 4)"
  by code_simp+

lemma demo_asset: "mapHorizonAsset plain_asset = usd"
  by (simp add: mapHorizonAsset_def plain_asset_def usd_def)

lemma milli_zero: "js_mul (Num 0) milli = Num 0"
proof -
  obtain c where c: "milli = Num c" by (rule literals)
  show ?thesis unfolding c by simp
qed

lemma base_fee: "estimateFeeStroops (Num 0) = Num 100"
  by (simp add: estimateFeeStroops_def BASE_FEE_STROOPS_def)

lemma demo_mapped:
  "List.map_filter mapHorizonRecord demo_offers = [demo_path ''96'' (3 / 2), demo_path ''80'' (5 / 4)]"
  by (simp add: demo_offers_def offer_def mapHorizonRecord_def Let_def demo_numbers demo_asset demo_path_def milli_zero
      js_length_def base_fee List.map_filter_simps del: js_mul.simps)

lemma demo_weight:
  assumes "1 \<le> x" and "x \<le> 1000"
  shows "bfWeight (dx_log demo_dex) (demo_path amount x) =
           js_add (round64 (- x)) (js_div (js_mul (Num 100) e7) (Num 64))"
proof -
  obtain e where e: "e12 = Num e" using literals by metis
  have "js_le (round64 (1 / 10 ^ 12)) (round64 1)" by (rule round64_mono) simp
  then have "e \<le> 1" using e by (simp add: e12_def)
  then have m: "js_max (Num x) e12 = Num x" "js_max (Num 64) e12 = Num 64"
    unfolding e js_max_Num using assms by (simp_all add: max_def)
  show ?thesis
    using assms(2) by (simp add: bfWeight_def demo_path_def demo_dex_def Let_def m js_length_def milli_zero
        demo_numbers js_min_def del: js_mul.simps js_div.simps)
qed

lemma demo_rank:
  "rankPaths (dx_log demo_dex) [demo_path ''96'' (3 / 2), demo_path ''80'' (5 / 4)] =
   [demo_path ''96'' (3 / 2), demo_path ''80'' (5 / 4)]"
proof -
  define f where "f = js_div (js_mul (Num 100) e7) (Num 64)"
  let ?w = "\<lambda>x. js_add (round64 (- x)) f"
  have w: "bfWeight (dx_log demo_dex) (demo_path ''96'' (3 / 2)) = ?w (3 / 2)"
    "bfWeight (dx_log demo_dex) (demo_path ''80'' (5 / 4)) = ?w (5 / 4)"
    by (simp_all add: demo_weight f_def)
  have "js_le (?w (3 / 2)) (?w (5 / 4)) \<or> ?w (3 / 2) = NaN \<or> ?w (5 / 4) = NaN"
    using round64_mono [of "- (3 / 2)" "- (5 / 4)"] round64_neg [of "3 / 2"] round64_neg [of "5 / 4"] demo_numbers
    by (cases f) (auto intro: round64_mono)
  then have "\<not> js_lt (Num 0) (js_sub (?w (3 / 2)) (?w (5 / 4)))"
    by (rule js_sub_not_positive) (simp_all add: is_double_add)
  then show ?thesis by (simp add: rankPaths_sort js_sort_Cons w)
qed

lemma demo_sent: "send_paths demo_dex usd usd ''64'' = Inr (Some demo_offers)"
  by (simp add: send_paths_def demo_dex_def toStellarAsset_def usd_def)

lemma demo_guarded:
  "prepareGuardedPathPayment demo_dex usd usd ''64'' (Num (3 / 2)) (Num 1) =
   Inr (demo_path ''96'' (3 / 2), computeDestMin (Num 64) (Num (3 / 2)) (Num 1),
        checkSlippage (Num (3 / 2)) (Num (3 / 2)) (Num 1))"
proof -
  obtain k where k: "js_sub (Num 1) (js_div (Num 1) (Num 100)) = Num k" "k \<le> 1"
    using slippage_factor [of 1] by auto
  have "js_le (js_mul (Num (3 / 2)) (Num k)) (Num (3 / 2))"
    using round64_mono [of "3 / 2 * k" "3 / 2"] k(2) demo_numbers(5) by simp
  then have "sg_safe (checkSlippage (Num (3 / 2)) (Num (3 / 2)) (Num 1))"
    unfolding checkSlippage_def Let_def k(1) by simp
  then show ?thesis
    unfolding prepare_Inr query_records [OF demo_sent] demo_mapped
    by (simp add: demo_rank demo_numbers) (simp add: demo_path_def)
qed

theorem guarded_path_is_best_witness:
  "demo_path ''96'' (3 / 2) \<in> set (List.map_filter mapHorizonRecord demo_offers) \<and>
   list_all (\<lambda>q. js_le (bfWeight (dx_log demo_dex) (demo_path ''96'' (3 / 2))) (bfWeight (dx_log demo_dex) q))
     (List.map_filter mapHorizonRecord demo_offers) \<and>
   js_le (js_mul (Num (3 / 2)) (js_sub (Num 1) (js_div (Num 1) (Num 100))))
     (pp_effectiveRate (demo_path ''96'' (3 / 2)))"
proof (rule guarded_path_is_best [OF demo_guarded demo_sent])
  show "list_all (\<lambda>q. isFinite (pp_effectiveRate q) \<and> isFinite (parseFloat (pp_sourceAmount q)))
     (List.map_filter mapHorizonRecord demo_offers)"
    unfolding demo_mapped by (simp add: demo_path_def isFinite_def demo_numbers)
qed (simp add: demo_dex_def js_min_def)

theorem guarded_payment_minimum_witness:
  "\<exists>t. computeDestMin (Num 64) (Num (3 / 2)) (Num 1) = Num t \<and>
     64 * (3 / 2) * (1 - 1 / 100) * (1 - 1 / 2 ^ 46) \<le> t \<and> t \<le> 96 * (1 + 1 / 2 ^ 50)"
  by (rule guarded_payment_minimum [OF demo_guarded demo_sent _ demo_numbers(1)])
    (auto simp: demo_offers_def offer_def demo_path_def demo_numbers ordinary_def)

end
