(* ===== verification/TransferSim.thy ===== *)
theory TransferSim
  imports JsLib Anchor
begin

text \<open>
  The dry run of a transfer (\<open>apps/api/src/transaction/transfer-simulation.service.ts\<close>): the issues
  that block it, the path over the known rates, the rates that the anchor quotes for its hops, and the
  amounts that would arrive. It calls \<open>getFxRate\<close> of the anchor once per hop, so that the state
  is that of the anchor; \<open>clock\<close> and \<open>fetch\<close> give the clock and the provider at the hop with that number.
  The clock of expiry are milliseconds, where the code has their ISO text.
\<close>

section \<open>Data\<close>

datatype SimulatedAssetCode = XLM | USDC | NGN

primrec code_text :: "SimulatedAssetCode \<Rightarrow> string" where
  "code_text XLM = ''XLM''"
| "code_text USDC = ''USDC''"
| "code_text NGN = ''NGN''"

datatype SimulationStatus = SimOk | SimBlocked

record TransferSimulationScenario =
  sc_sourceAsset :: SimulatedAssetCode
  sc_destinationAsset :: SimulatedAssetCode
  sc_sourceAmount :: string
  sc_destinationTrustlines :: "SimulatedAssetCode list"
  sc_rates :: "(string \<rightharpoonup> jsnum) option"
  sc_maxSlippageBps :: "jsnum option"

record TransferSimulationIssue =
  is_code :: string
  is_message :: string

record TransferSimulationResult =
  sr_status :: SimulationStatus
  sr_path :: "SimulatedAssetCode list"
  sr_sourceAmount :: string
  sr_estimatedDestinationAmount :: "string option"
  sr_minimumDestinationAmount :: "string option"
  sr_effectiveRate :: "jsnum option"
  sr_issues :: "TransferSimulationIssue list"
  sr_rateExpiresAt :: "int option"
  sr_rateFresh :: bool

section \<open>Rates and paths\<close>

definition rateKey :: "SimulatedAssetCode \<Rightarrow> SimulatedAssetCode \<Rightarrow> string" where
  "rateKey from dest = code_text from @ '':'' @ code_text dest"

definition DEFAULT_RATES :: "string \<rightharpoonup> jsnum" where
  "DEFAULT_RATES = map_of [(''XLM:USDC'', round64 (11 / 100)), (''USDC:XLM'', round64 (9090909 / 10 ^ 6)),
     (''USDC:NGN'', Num 1550), (''NGN:USDC'', round64 (64516 / 10 ^ 8))]"

text \<open>\<open>value.toFixed(7).replace(/\.?0+$/, '')\<close>.\<close>

definition strip_zeros :: "string \<Rightarrow> string" where
  "strip_zeros s =
     (let r = dropWhile (\<lambda>c. c = CHR ''0'') (rev s)
      in if length r = length s then s
         else rev (case r of c # r' \<Rightarrow> if c = CHR ''.'' then r' else r | [] \<Rightarrow> r))"

definition decimalString :: "jsnum \<Rightarrow> string" where
  "decimalString v = strip_zeros (toFixed 7 v)"

text \<open>\<open>if (rates[key])\<close>: present, not zero and not NaN.\<close>

definition has_rate :: "(string \<rightharpoonup> jsnum) \<Rightarrow> SimulatedAssetCode \<Rightarrow> SimulatedAssetCode \<Rightarrow> bool" where
  "has_rate rates a b = (case rates (rateKey a b) of None \<Rightarrow> False | Some v \<Rightarrow> js_truthy v)"

definition resolvePath ::
  "SimulatedAssetCode \<Rightarrow> SimulatedAssetCode \<Rightarrow> (string \<rightharpoonup> jsnum) \<Rightarrow> SimulatedAssetCode list option" where
  "resolvePath sourceAsset destinationAsset rates =
     (if sourceAsset = destinationAsset then Some [sourceAsset]
      else if has_rate rates sourceAsset destinationAsset then Some [sourceAsset, destinationAsset]
      else if sourceAsset \<noteq> USDC \<and> destinationAsset \<noteq> USDC \<and> has_rate rates sourceAsset USDC \<and>
              has_rate rates USDC destinationAsset
      then Some [sourceAsset, USDC, destinationAsset] else None)"

fun hops :: "'a list \<Rightarrow> ('a \<times> 'a) list" where
  "hops (a # b # r) = (a, b) # hops (b # r)"
| "hops _ = []"

definition effectiveRate :: "SimulatedAssetCode list \<Rightarrow> (string \<rightharpoonup> jsnum) \<Rightarrow> jsnum" where
  "effectiveRate path rates =
     foldl (\<lambda>rate (a, b). js_mul rate (case rates (rateKey a b) of None \<Rightarrow> Num 1 | Some v \<Rightarrow> v)) (Num 1) (hops path)"

section \<open>The rates of the hops\<close>

record hop_state =
  hs_resolved :: "string \<rightharpoonup> jsnum"
  hs_fresh :: bool
  hs_expiresAts :: "int option list"
  hs_issues :: "TransferSimulationIssue list"

definition stale_issue :: "SimulatedAssetCode \<Rightarrow> SimulatedAssetCode \<Rightarrow> TransferSimulationIssue" where
  "stale_issue a b = \<lparr>is_code = ''STALE_RATE'', is_message = ''Live rate for '' @ code_text a @ '':'' @ code_text b @
     '' deviates from the static default by more than 5%.''\<rparr>"

definition diverges :: "jsnum \<Rightarrow> jsnum option \<Rightarrow> bool" where
  "diverges fetchedRate staticDefaultRate =
     (case staticDefaultRate of
        None \<Rightarrow> False
      | Some d \<Rightarrow> js_lt (round64 (5 / 100)) (js_div (js_abs (js_sub fetchedRate d)) d))"

definition hop_rate ::
  "(string \<rightharpoonup> jsnum) \<Rightarrow> SimulatedAssetCode \<times> SimulatedAssetCode \<Rightarrow> FxRateResult \<Rightarrow> hop_state \<Rightarrow> hop_state" where
  "hop_rate staticRates h result st =
     (let (a, b) = h; key = rateKey a b
      in case fx_rate result of
           Some fetchedRate \<Rightarrow>
             st\<lparr>hs_resolved := (hs_resolved st)(key \<mapsto> fetchedRate), hs_expiresAts := hs_expiresAts st @ [fx_expiresAt result],
                hs_issues := hs_issues st @ (if diverges fetchedRate (DEFAULT_RATES key) then [stale_issue a b] else [])\<rparr>
         | None \<Rightarrow>
             st\<lparr>hs_resolved := (hs_resolved st)(key := staticRates key), hs_fresh := False,
                hs_expiresAts := hs_expiresAts st @ [None]\<rparr>)"

fun hop_rates ::
  "anchor_conf \<Rightarrow> (nat \<Rightarrow> string \<Rightarrow> string \<Rightarrow> jsnum option res) \<Rightarrow> (nat \<Rightarrow> int) \<Rightarrow> (string \<rightharpoonup> jsnum) \<Rightarrow> nat \<Rightarrow>
     (SimulatedAssetCode \<times> SimulatedAssetCode) list \<Rightarrow> hop_state \<Rightarrow> anchor \<Rightarrow> hop_state \<times> anchor" where
  "hop_rates conf fetch clock staticRates i [] st an = (st, an)"
| "hop_rates conf fetch clock staticRates i ((a, b) # hs) st an =
     (case getFxRate conf (fetch i) (clock i) (code_text a) (code_text b) an of
        (result, an') \<Rightarrow> hop_rates conf fetch clock staticRates (i + 1) hs (hop_rate staticRates (a, b) result st) an')"

text \<open>The earliest time of expiry, when every hop has one.\<close>

definition rate_expiry :: "bool \<Rightarrow> int option list \<Rightarrow> int option" where
  "rate_expiry rateFresh expiresAts =
     (if rateFresh \<and> expiresAts \<noteq> [] then
        (if None \<in> set expiresAts then None
         else foldl (\<lambda>acc e. case (acc, e) of
                       (None, _) \<Rightarrow> e
                     | (Some m, Some t) \<Rightarrow> if t < m then Some t else Some m
                     | (Some m, None) \<Rightarrow> Some m) None expiresAts)
      else None)"

section \<open>The simulation\<close>

definition amount_issue :: "jsnum \<Rightarrow> TransferSimulationIssue list" where
  "amount_issue amount =
     (if \<not> isFinite amount \<or> js_le amount (Num 0)
      then [\<lparr>is_code = ''INVALID_AMOUNT'', is_message = ''Source amount must be a positive number.''\<rparr>] else [])"

definition trustline_issue :: "TransferSimulationScenario \<Rightarrow> TransferSimulationIssue list" where
  "trustline_issue sc =
     (if sc_destinationAsset sc \<noteq> XLM \<and> sc_destinationAsset sc \<notin> set (sc_destinationTrustlines sc)
      then [\<lparr>is_code = ''MISSING_DESTINATION_TRUSTLINE'', is_message = ''Destination account must trust '' @
             code_text (sc_destinationAsset sc) @ '' before receiving it.''\<rparr>] else [])"

definition path_issue :: "TransferSimulationScenario \<Rightarrow> SimulatedAssetCode list option \<Rightarrow> TransferSimulationIssue list" where
  "path_issue sc path =
     (if path = None
      then [\<lparr>is_code = ''NO_PATH'', is_message = ''No simulated path exists from '' @ code_text (sc_sourceAsset sc) @
             '' to '' @ code_text (sc_destinationAsset sc) @ ''.''\<rparr>] else [])"

definition blocking :: "TransferSimulationIssue \<Rightarrow> bool" where
  "blocking i = (is_code i \<in> set [''INVALID_AMOUNT'', ''MISSING_DESTINATION_TRUSTLINE'', ''NO_PATH''])"

definition simulate ::
  "anchor_conf \<Rightarrow> (nat \<Rightarrow> string \<Rightarrow> string \<Rightarrow> jsnum option res) \<Rightarrow> (nat \<Rightarrow> int) \<Rightarrow>
     TransferSimulationScenario \<Rightarrow> anchor \<Rightarrow> TransferSimulationResult \<times> anchor" where
  "simulate conf fetch clock sc an =
     (let amount = js_Number (sc_sourceAmount sc);
          staticRates = (case sc_rates sc of None \<Rightarrow> DEFAULT_RATES | Some r \<Rightarrow> DEFAULT_RATES ++ r);
          path = resolvePath (sc_sourceAsset sc) (sc_destinationAsset sc) staticRates;
          issues0 = amount_issue amount @ trustline_issue sc @ path_issue sc path;
          (st, an') = hop_rates conf fetch clock staticRates 0 (hops (case_option [] id path))
                        \<lparr>hs_resolved = Map.empty, hs_fresh = True, hs_expiresAts = [], hs_issues = issues0\<rparr> an;
          rateExpiresAt = rate_expiry (hs_fresh st) (hs_expiresAts st)
      in (case path of
            Some p \<Rightarrow>
              if list_ex blocking (hs_issues st)
              then \<lparr>sr_status = SimBlocked, sr_path = p, sr_sourceAmount = sc_sourceAmount sc,
                    sr_estimatedDestinationAmount = None, sr_minimumDestinationAmount = None, sr_effectiveRate = None,
                    sr_issues = hs_issues st, sr_rateExpiresAt = rateExpiresAt, sr_rateFresh = hs_fresh st\<rparr>
              else
                let rate = effectiveRate p (hs_resolved st);
                    estimated = js_mul amount rate;
                    slippageBps = case_option (Num 50) id (sc_maxSlippageBps sc);
                    minimum = js_mul estimated (js_sub (Num 1) (js_div slippageBps (Num 10000)))
                in \<lparr>sr_status = SimOk, sr_path = p, sr_sourceAmount = sc_sourceAmount sc,
                    sr_estimatedDestinationAmount = Some (decimalString estimated),
                    sr_minimumDestinationAmount = Some (decimalString minimum), sr_effectiveRate = Some rate,
                    sr_issues = hs_issues st, sr_rateExpiresAt = rateExpiresAt, sr_rateFresh = hs_fresh st\<rparr>
          | None \<Rightarrow>
              \<lparr>sr_status = SimBlocked, sr_path = [sc_sourceAsset sc, sc_destinationAsset sc],
               sr_sourceAmount = sc_sourceAmount sc, sr_estimatedDestinationAmount = None,
               sr_minimumDestinationAmount = None, sr_effectiveRate = None, sr_issues = hs_issues st,
               sr_rateExpiresAt = rateExpiresAt, sr_rateFresh = hs_fresh st\<rparr>, an'))"

section \<open>The text of an amount reads back as the amount rounded to seven decimals\<close>

lemma digits_dot:
  assumes "list_all is_digit ip"
  shows "takeWhile is_digit (ip @ CHR ''.'' # fp) = ip" and "dropWhile is_digit (ip @ CHR ''.'' # fp) = CHR ''.'' # fp"
    and "takeWhile is_digit ip = ip" and "dropWhile is_digit ip = []"
  using assms by (induction ip) auto

lemma parse_decimal_fraction:
  assumes "list_all is_digit ip" and "list_all is_digit fp" and "ip \<noteq> []"
  shows "parse_decimal (ip @ CHR ''.'' # fp) = Some (of_nat (digits_val (ip @ fp)) / 10 ^ length fp, [])"
  using assms by (simp add: parse_decimal_def digits_dot scale10_def)

lemma parse_decimal_integer:
  assumes "list_all is_digit ip" and "ip \<noteq> []"
  shows "parse_decimal ip = Some (of_nat (digits_val ip), [])"
  using assms by (simp add: parse_decimal_def digits_dot scale10_def)

lemma digit_start:
  assumes "is_digit c"
  shows "\<not> js_white c" and "c \<noteq> CHR ''-''" and "c \<noteq> CHR ''+''" and "c \<noteq> CHR ''I''"
  using assms by (auto simp: is_digit_def js_white_def code_of_def)

lemma parseFloat_digits:
  assumes "s \<noteq> []" and "is_digit (hd s)" and "parse_decimal s = Some (v, r)"
  shows "parseFloat s = round64 v"
proof -
  obtain c cs where s: "s = c # cs" using assms(1) by (cases s) auto
  then show ?thesis using assms digit_start [of c] by (simp add: parseFloat_def strip_sign_def)
qed

lemma rev_dropWhile_zeros:
  obtains k where "fp = rev (dropWhile (\<lambda>c. c = CHR ''0'') (rev fp)) @ zeros k"
proof -
  have "rev fp = takeWhile (\<lambda>c. c = CHR ''0'') (rev fp) @ dropWhile (\<lambda>c. c = CHR ''0'') (rev fp)" by simp
  then have "fp = rev (dropWhile (\<lambda>c. c = CHR ''0'') (rev fp)) @ rev (takeWhile (\<lambda>c. c = CHR ''0'') (rev fp))"
    by (metis rev_append rev_rev_ident)
  moreover have "takeWhile (\<lambda>c. c = CHR ''0'') (rev fp) = zeros (length (takeWhile (\<lambda>c. c = CHR ''0'') (rev fp)))"
    unfolding zeros_def by (rule replicate_length_same [symmetric]) (auto dest: set_takeWhileD)
  then have "rev (takeWhile (\<lambda>c. c = CHR ''0'') (rev fp)) = zeros (length (takeWhile (\<lambda>c. c = CHR ''0'') (rev fp)))"
    by (metis rev_replicate zeros_def)
  ultimately show thesis using that by metis
qed

lemma strip_zeros_value:
  assumes "list_all is_digit ip" and "list_all is_digit fp" and "ip \<noteq> []"
  shows "parseFloat (strip_zeros (ip @ CHR ''.'' # fp)) = round64 (of_nat (digits_val (ip @ fp)) / 10 ^ length fp)"
proof -
  define q where "q = rev (dropWhile (\<lambda>c. c = CHR ''0'') (rev fp))"
  obtain k where k: "fp = q @ zeros k" using rev_dropWhile_zeros [of fp] unfolding q_def by blast
  have q: "list_all is_digit q" using assms(2) unfolding k by simp
  have val: "of_nat (digits_val (ip @ fp)) / 10 ^ length fp = (of_nat (digits_val (ip @ q)) / 10 ^ length q :: rat)"
    by (simp add: k zeros_def digits_val_append power_add field_simps)
  have hd: "hd (ip @ xs) = hd ip" "is_digit (hd ip)" for xs using assms(1,3) by (cases ip; simp)+
  show ?thesis
  proof (cases "q = []")
    case True
    then have "dropWhile (\<lambda>c. c = CHR ''0'') (rev fp) = []" by (simp add: q_def)
    then have "dropWhile (\<lambda>c. c = CHR ''0'') (rev (ip @ CHR ''.'' # fp)) = CHR ''.'' # rev ip"
      by (simp add: dropWhile_append dropWhile_eq_Nil_conv)
    then have "strip_zeros (ip @ CHR ''.'' # fp) = (if fp = [] then ip @ ''.'' else ip)"
      by (simp add: strip_zeros_def)
    then show ?thesis
      using parse_decimal_integer [OF assms(1,3)] parse_decimal_fraction [OF assms(1) _ assms(3), of "[]"] assms(3) hd val True
      by (simp add: parseFloat_digits)
  next
    case False
    then have "dropWhile (\<lambda>c. c = CHR ''0'') (rev fp) \<noteq> []" by (simp add: q_def)
    then have d: "dropWhile (\<lambda>c. c = CHR ''0'') (rev (ip @ CHR ''.'' # fp)) = rev q @ CHR ''.'' # rev ip"
      by (simp add: dropWhile_append q_def)
    obtain x xs where x: "rev q = x # xs" using False by (cases "rev q") auto
    have "x \<in> set q" using arg_cong [OF x, of set] by auto
    then have "is_digit x" using q by (simp add: list_all_iff)
    then have "x \<noteq> CHR ''.''" by auto
    then have "strip_zeros (ip @ CHR ''.'' # fp) = ip @ CHR ''.'' # q"
      using d x k arg_cong [OF x, of rev] by (auto simp: strip_zeros_def zeros_def Let_def)
    then show ?thesis
      using parse_decimal_fraction [OF assms(1) q assms(3)] assms(3) hd val by (simp add: parseFloat_digits)
  qed
qed

lemma fixed_digits_shape:
  assumes "0 < f"
  obtains ip fp where "fixed_digits f x = ip @ CHR ''.'' # fp" and "list_all is_digit ip" and "list_all is_digit fp"
    and "ip \<noteq> []" and "length fp = f" and "digits_val (ip @ fp) = nat \<lfloor>x * 10 ^ f + 1 / 2\<rfloor>"
proof -
  define ds where "ds = show_nat (nat \<lfloor>x * 10 ^ f + 1 / 2\<rfloor>)"
  define padded where "padded = zeros (f + 1 - length ds) @ ds"
  define i where "i = length padded - f"
  have len: "f + 1 \<le> length padded" by (simp add: padded_def zeros_def)
  have dig: "list_all is_digit padded" using show_nat_digits [of "nat \<lfloor>x * 10 ^ f + 1 / 2\<rfloor>"]
    by (auto simp: padded_def zeros_def ds_def list_all_iff)
  then have "list_all is_digit (take i padded)" "list_all is_digit (drop i padded)"
    by (auto simp: list_all_iff dest: in_set_takeD in_set_dropD)
  moreover have "fixed_digits f x = take i padded @ CHR ''.'' # drop i padded"
    unfolding fixed_digits_def Let_def i_def padded_def ds_def using assms by simp
  moreover have "digits_val padded = nat \<lfloor>x * 10 ^ f + 1 / 2\<rfloor>"
    by (simp add: padded_def zeros_def digits_val_append show_nat_val ds_def)
  moreover have "take i padded \<noteq> []" "length (drop i padded) = f" using len assms by (auto simp: i_def)
  ultimately show thesis using that by (metis append_take_drop_id)
qed

lemma decimalString_value:
  assumes "0 \<le> x" and "x < 10 ^ 21"
  shows "parseFloat (decimalString (Num x)) = round64 (of_int \<lfloor>x * 10 ^ 7 + 1 / 2\<rfloor> / 10 ^ 7)"
proof -
  obtain ip fp where s: "fixed_digits 7 x = ip @ CHR ''.'' # fp" "list_all is_digit ip" "list_all is_digit fp" "ip \<noteq> []"
      "length fp = 7" "digits_val (ip @ fp) = nat \<lfloor>x * 10 ^ 7 + 1 / 2\<rfloor>"
    by (rule fixed_digits_shape [of 7 x]) auto
  have "0 \<le> x * 10 ^ 7 + 1 / 2" using assms(1) by simp
  then have "0 \<le> \<lfloor>x * 10 ^ 7 + 1 / 2\<rfloor>" by simp
  then have "(of_nat (nat \<lfloor>x * 10 ^ 7 + 1 / 2\<rfloor>) :: rat) = of_int \<lfloor>x * 10 ^ 7 + 1 / 2\<rfloor>" by (simp only: of_nat_nat)
  moreover have "toFixed 7 (Num x) = fixed_digits 7 x" using assms by (simp add: toFixed_def)
  ultimately show ?thesis using strip_zeros_value [OF s(2,3,4)] by (simp add: decimalString_def s(1,5,6))
qed

section \<open>The verdict\<close>

lemma stale_not_blocking [simp]: "\<not> blocking (stale_issue a b)"
  by (simp add: blocking_def stale_issue_def)

lemma hop_rates_blocking:
  "list_ex blocking (hs_issues (fst (hop_rates conf fetch clock rates i hs st an))) = list_ex blocking (hs_issues st)"
proof (induction hs arbitrary: i st an)
  case (Cons h hs)
  obtain a b where h: "h = (a, b)" by (cases h)
  show ?case
    by (simp add: h Cons.IH hop_rate_def Let_def split: prod.split option.split)
qed simp

lemma resolvePath_shape:
  assumes "resolvePath a b rates = Some p"
  shows "hd p = a \<and> last p = b \<and> p \<noteq> [] \<and> distinct p \<and> length p \<le> 3 \<and> list_all (\<lambda>(x, y). has_rate rates x y) (hops p)"
  using assms by (auto simp: resolvePath_def split: if_splits)

lemma resolvePath_None:
  "resolvePath a b rates = None \<longleftrightarrow>
   a \<noteq> b \<and> \<not> has_rate rates a b \<and> \<not> (a \<noteq> USDC \<and> b \<noteq> USDC \<and> has_rate rates a USDC \<and> has_rate rates USDC b)"
  by (auto simp: resolvePath_def)

definition known_rates :: "TransferSimulationScenario \<Rightarrow> string \<rightharpoonup> jsnum" where
  "known_rates sc = (case sc_rates sc of None \<Rightarrow> DEFAULT_RATES | Some r \<Rightarrow> DEFAULT_RATES ++ r)"

lemma amount_issue_Nil: "amount_issue v = [] \<longleftrightarrow> (\<exists>x. v = Num x \<and> 0 < x)"
  by (cases v) (auto simp: amount_issue_def isFinite_def)

lemma first_issues_blocking:
  "list_ex blocking (amount_issue v @ trustline_issue sc @ path_issue sc path) \<longleftrightarrow>
   amount_issue v @ trustline_issue sc @ path_issue sc path \<noteq> []"
  by (auto simp: amount_issue_def trustline_issue_def path_issue_def blocking_def)

text \<open>
  A simulation succeeds exactly for a positive finite amount, a destination that holds the
  asset, and a pair with a direct rate or with rates to and from USDC; it gives amounts exactly when
  it succeeds, and the path then leads from the source to the destination over known rates, at most
  two of them, with no asset twice. Stale rates never block it.
\<close>

theorem simulation_verdict:
  assumes "simulate conf fetch clock sc an = (r, an')"
  shows "(sr_status r = SimOk \<longleftrightarrow>
            (\<exists>x. js_Number (sc_sourceAmount sc) = Num x \<and> 0 < x) \<and>
            (sc_destinationAsset sc = XLM \<or> sc_destinationAsset sc \<in> set (sc_destinationTrustlines sc)) \<and>
            (sc_sourceAsset sc = sc_destinationAsset sc \<or>
             has_rate (known_rates sc) (sc_sourceAsset sc) (sc_destinationAsset sc) \<or>
             sc_sourceAsset sc \<noteq> USDC \<and> sc_destinationAsset sc \<noteq> USDC \<and>
             has_rate (known_rates sc) (sc_sourceAsset sc) USDC \<and> has_rate (known_rates sc) USDC (sc_destinationAsset sc))) \<and>
         (sr_status r = SimOk \<longleftrightarrow> sr_estimatedDestinationAmount r \<noteq> None) \<and>
         (sr_status r = SimOk \<longleftrightarrow> sr_minimumDestinationAmount r \<noteq> None) \<and>
         (sr_status r = SimOk \<longrightarrow>
            hd (sr_path r) = sc_sourceAsset sc \<and> last (sr_path r) = sc_destinationAsset sc \<and> distinct (sr_path r) \<and>
            length (sr_path r) \<le> 3 \<and> list_all (\<lambda>(a, b). has_rate (known_rates sc) a b) (hops (sr_path r)))"
proof -
  define path where "path = resolvePath (sc_sourceAsset sc) (sc_destinationAsset sc) (known_rates sc)"
  define st0 where "st0 = \<lparr>hs_resolved = Map.empty, hs_fresh = True, hs_expiresAts = [],
    hs_issues = amount_issue (js_Number (sc_sourceAmount sc)) @ trustline_issue sc @ path_issue sc path\<rparr>"
  obtain st an1 where st: "hop_rates conf fetch clock (known_rates sc) 0 (hops (case_option [] id path)) st0 an = (st, an1)"
    by (cases "hop_rates conf fetch clock (known_rates sc) 0 (hops (case_option [] id path)) st0 an")
  have "list_ex blocking (hs_issues st) \<longleftrightarrow> hs_issues st0 \<noteq> []"
    using hop_rates_blocking [of conf fetch clock "known_rates sc" 0 "hops (case_option [] id path)" st0 an]
    unfolding st by (simp add: st0_def first_issues_blocking del: list_ex_append)
  moreover have "hs_issues st0 = [] \<longleftrightarrow> (\<exists>x. js_Number (sc_sourceAmount sc) = Num x \<and> 0 < x) \<and>
      (sc_destinationAsset sc = XLM \<or> sc_destinationAsset sc \<in> set (sc_destinationTrustlines sc)) \<and> path \<noteq> None"
    by (simp add: st0_def amount_issue_Nil) (auto simp: trustline_issue_def path_issue_def)
  ultimately have blk: "list_ex blocking (hs_issues st) \<longleftrightarrow>
      \<not> ((\<exists>x. js_Number (sc_sourceAmount sc) = Num x \<and> 0 < x) \<and>
         (sc_destinationAsset sc = XLM \<or> sc_destinationAsset sc \<in> set (sc_destinationTrustlines sc)) \<and> path \<noteq> None)"
    by blast
  have path_ok: "path \<noteq> None \<longleftrightarrow> sc_sourceAsset sc = sc_destinationAsset sc \<or>
      has_rate (known_rates sc) (sc_sourceAsset sc) (sc_destinationAsset sc) \<or>
      sc_sourceAsset sc \<noteq> USDC \<and> sc_destinationAsset sc \<noteq> USDC \<and>
      has_rate (known_rates sc) (sc_sourceAsset sc) USDC \<and> has_rate (known_rates sc) USDC (sc_destinationAsset sc)"
    unfolding path_def by (auto simp: resolvePath_None simp del: not_None_eq)
  have ok: "sr_status r = SimOk \<longleftrightarrow> path \<noteq> None \<and> \<not> list_ex blocking (hs_issues st)"
    and est: "sr_estimatedDestinationAmount r \<noteq> None \<longleftrightarrow> sr_status r = SimOk"
    and mini: "sr_minimumDestinationAmount r \<noteq> None \<longleftrightarrow> sr_status r = SimOk"
    and shape: "sr_status r = SimOk \<Longrightarrow> path = Some (sr_path r)"
    using assms st unfolding simulate_def Let_def known_rates_def [symmetric] path_def [symmetric] st0_def
    by (auto split: option.splits if_splits)
  show ?thesis
    using ok est mini shape blk path_ok resolvePath_shape [of "sc_sourceAsset sc" "sc_destinationAsset sc" "known_rates sc"]
    unfolding path_def by blast
qed

section \<open>The amounts\<close>

lemma round7_mono: "x \<le> y \<Longrightarrow> of_int \<lfloor>x * 10 ^ 7 + 1 / 2\<rfloor> / 10 ^ 7 \<le> (of_int \<lfloor>y * 10 ^ 7 + 1 / 2\<rfloor> / 10 ^ 7 :: rat)"
  by (intro divide_right_mono) (simp_all add: floor_mono)

lemma bps_factor:
  assumes "0 \<le> s" and "s \<le> 10000"
  obtains k where "js_sub (Num 1) (js_div (Num s) (Num 10000)) = Num k" and "0 \<le> k" and "k \<le> 1"
proof -
  have "js_le (round64 0) (round64 (s / 10000))" "js_le (round64 (s / 10000)) (round64 1)"
    by (rule round64_mono, use assms in simp)+
  then obtain x where x: "round64 (s / 10000) = Num x" "0 \<le> x" "x \<le> 1" by (cases "round64 (s / 10000)") auto
  have "js_le (round64 0) (round64 (1 - x))" "js_le (round64 (1 - x)) (round64 1)"
    by (rule round64_mono, use x in simp)+
  then obtain k where "round64 (1 - x) = Num k" "0 \<le> k" "k \<le> 1" by (cases "round64 (1 - x)") auto
  with x(1) that show thesis by (simp add: js_sub_def)
qed

text \<open>
  C30. The texts of a successful simulation. Let the product \<open>e\<close> of amount and rate be from 0 to below \<open>10 ^ 21\<close> and the slippage
  from 0 to 10000 basis points. The estimate reads back as \<open>e\<close> rounded to seven decimals, the minimum as the part of \<open>e\<close> that the
  slippage leaves, rounded likewise, and the minimum is not above the estimate. The service checks none of the bounds: with a negative slippage
  the minimum can be above the estimate.
\<close>

theorem simulated_amounts:
  assumes "simulate conf fetch clock sc an = (r, an')" and "sr_status r = SimOk"
    and "sr_effectiveRate r = Some rate" and "js_mul (js_Number (sc_sourceAmount sc)) rate = Num e"
    and "0 \<le> e" and "e < 10 ^ 21"
    and "case_option (Num 50) id (sc_maxSlippageBps sc) = Num s" and "0 \<le> s" and "s \<le> 10000"
  shows "\<exists>est mini. sr_estimatedDestinationAmount r = Some est \<and> sr_minimumDestinationAmount r = Some mini \<and>
           parseFloat est = round64 (of_int \<lfloor>e * 10 ^ 7 + 1 / 2\<rfloor> / 10 ^ 7) \<and>
           (\<exists>m. js_mul (Num e) (js_sub (Num 1) (js_div (Num s) (Num 10000))) = Num m \<and>
              parseFloat mini = round64 (of_int \<lfloor>m * 10 ^ 7 + 1 / 2\<rfloor> / 10 ^ 7)) \<and>
           js_le (parseFloat mini) (parseFloat est)"
proof -
  obtain k where k: "js_sub (Num 1) (js_div (Num s) (Num 10000)) = Num k" "0 \<le> k" "k \<le> 1"
    by (rule bps_factor [OF assms(8,9)])
  have idem: "round64 e = Num e"
    using assms(4) round64_idem by (cases "js_Number (sc_sourceAmount sc)"; cases rate) (auto simp: js_inf_of_def split: if_splits)
  have "e * k \<le> e" using assms(5) k mult_left_mono [of k 1 e] by simp
  then have "js_le (round64 (e * k)) (Num e)" "js_le (round64 0) (round64 (e * k))"
    using round64_mono [of "e * k" e] round64_mono [of 0 "e * k"] idem assms(5) k by simp_all
  then obtain m where m: "round64 (e * k) = Num m" "0 \<le> m" "m \<le> e" by (cases "round64 (e * k)") auto
  have "sr_estimatedDestinationAmount r = Some (decimalString (Num e))"
    "sr_minimumDestinationAmount r = Some (decimalString (Num m))"
    using assms(1,2,3,4,7) k(1) m(1) unfolding simulate_def Let_def
    by (auto split: prod.splits option.splits if_splits)
  moreover have "parseFloat (decimalString (Num e)) = round64 (of_int \<lfloor>e * 10 ^ 7 + 1 / 2\<rfloor> / 10 ^ 7)"
    by (rule decimalString_value [OF assms(5,6)])
  moreover have "parseFloat (decimalString (Num m)) = round64 (of_int \<lfloor>m * 10 ^ 7 + 1 / 2\<rfloor> / 10 ^ 7)"
    by (rule decimalString_value) (use m assms(6) in linarith)+
  moreover have "js_mul (Num e) (js_sub (Num 1) (js_div (Num s) (Num 10000))) = Num m" unfolding k(1) by (simp add: m(1))
  ultimately show ?thesis using round64_mono [OF round7_mono [OF m(3)]] by auto
qed

section \<open>Stale rates\<close>

text \<open>
  While the circuit of the anchor is open, a cached rate past its time of expiry is used and
  reported as fresh, with that time in the past: the simulation does not look at the mark that the
  anchor puts on such a rate.
\<close>

theorem stale_rate_reported_fresh:
  assumes "simulate conf fetch clock sc an = (r, an')" and "sc_sourceAsset sc \<noteq> sc_destinationAsset sc"
    and "has_rate (known_rates sc) (sc_sourceAsset sc) (sc_destinationAsset sc)"
    and "key = fx_key (code_text (sc_sourceAsset sc)) (code_text (sc_destinationAsset sc))"
    and "isCircuitOpen conf (clock 0) (breaker_of an key)"
    and "fst (readCache (clock 0) key an) = Some c" and "p_rate c = Some v"
    and "p_fetchedAt c + maxCacheAgeSeconds conf * 1000 < clock 0"
  shows "fx_stale (fst (getFxRate conf (fetch 0) (clock 0) (code_text (sc_sourceAsset sc))
            (code_text (sc_destinationAsset sc)) an)) \<and>
         sr_rateFresh r \<and> (\<exists>t. sr_rateExpiresAt r = Some t \<and> t < clock 0)"
proof -
  let ?a = "code_text (sc_sourceAsset sc)" and ?b = "code_text (sc_destinationAsset sc)"
  define q where "q = fst (getFxRate conf (fetch 0) (clock 0) ?a ?b an)"
  have q: "fx_rate q = Some v" "fx_expiresAt q = Some (p_fetchedAt c + maxCacheAgeSeconds conf * 1000)" "fx_stale q"
    using getFxRate_open(1) [of conf "clock 0" an ?a ?b "fetch 0"] assms(4-8) by (simp_all add: q_def buildCachedResult_def)
  obtain an1 where fx: "getFxRate conf (fetch 0) (clock 0) ?a ?b an = (q, an1)"
    by (cases "getFxRate conf (fetch 0) (clock 0) ?a ?b an") (simp add: q_def)
  have path: "resolvePath (sc_sourceAsset sc) (sc_destinationAsset sc) (known_rates sc) =
      Some [sc_sourceAsset sc, sc_destinationAsset sc]"
    using assms(2,3) by (simp add: resolvePath_def)
  have "sr_rateFresh r \<and> sr_rateExpiresAt r = Some (p_fetchedAt c + maxCacheAgeSeconds conf * 1000)"
    using assms(1) unfolding simulate_def Let_def known_rates_def [symmetric] path
    by (auto simp: fx hop_rate_def q rate_expiry_def Let_def split: if_splits)
  then show ?thesis using q(3) assms(8) by (simp add: q_def)
qed

section \<open>Examples\<close>

definition demo_scenario :: TransferSimulationScenario where
  "demo_scenario = \<lparr>sc_sourceAsset = USDC, sc_destinationAsset = NGN, sc_sourceAmount = ''10'',
     sc_destinationTrustlines = [NGN], sc_rates = None, sc_maxSlippageBps = Some (Num 5000)\<rparr>"

definition stale_anchor :: anchor where
  "stale_anchor = store_put 0 ''fx:USD:NGN'' (FxPayload \<lparr>p_rate = Some (Num 1550), p_from = ''USD'', p_to = ''NGN'', p_fetchedAt = 0\<rparr>) 300
     \<lparr>an_store = Map.empty, an_breakers = [''fx:USD:NGN'' \<mapsto> \<lparr>consecutiveFailures = 3, openedAt = Some 49000\<rparr>]\<rparr>"

definition demo_run :: "TransferSimulationResult \<times> anchor" where
  "demo_run = simulate default_conf (\<lambda>_ _ _. Inl (JsError ''Error'' ''timeout'')) (\<lambda>_. 50000) demo_scenario stale_anchor"

lemma demo_parts:
  "resolvePath USDC NGN DEFAULT_RATES = Some [USDC, NGN]" "js_Number ''10'' = Num 10"
  "diverges (Num 1550) (DEFAULT_RATES (rateKey USDC NGN)) = False"
  "fx_rate (fst (getFxRate default_conf (\<lambda>_ _. Inl (JsError ''Error'' ''timeout'')) 50000 ''USDC'' ''NGN'' stale_anchor)) = Some (Num 1550)"
  by code_simp+

lemma demo_status:
  "sr_status (fst demo_run) = SimOk" "sr_effectiveRate (fst demo_run) = Some (Num 1550)"
  using demo_parts(4)
  by (auto simp: demo_run_def simulate_def demo_scenario_def demo_parts(1,2,3) Let_def hop_rate_def effectiveRate_def
      amount_issue_def trustline_issue_def path_issue_def isFinite_def split: prod.split)

lemma demo_run_eq:
  "simulate default_conf (\<lambda>_ _ _. Inl (JsError ''Error'' ''timeout'')) (\<lambda>_. 50000) demo_scenario stale_anchor =
   (fst demo_run, snd demo_run)"
  by (simp add: demo_run_def)

theorem simulation_verdict_witness:
  "sr_estimatedDestinationAmount (fst demo_run) \<noteq> None \<and> hd (sr_path (fst demo_run)) = USDC \<and>
   last (sr_path (fst demo_run)) = NGN"
  using simulation_verdict [OF demo_run_eq] demo_status(1) by (simp add: demo_scenario_def)

theorem simulated_amounts_witness:
  "\<exists>est mini. sr_estimatedDestinationAmount (fst demo_run) = Some est \<and>
     sr_minimumDestinationAmount (fst demo_run) = Some mini \<and> parseFloat est = Num 15500 \<and> parseFloat mini = Num 7750"
proof -
  have "\<lfloor>310000000001 / 2 :: rat\<rfloor> = 155000000000" "\<lfloor>155000000001 / 2 :: rat\<rfloor> = 77500000000"
    by (simp_all add: floor_eq_iff)
  moreover have "round64 (1 / 2) = Num (1 / 2)" "js_sub (Num 1) (Num (1 / 2)) = Num (1 / 2)" by code_simp+
  ultimately show ?thesis
    using simulated_amounts [OF demo_run_eq demo_status, of 15500 5000]
    by (simp add: demo_scenario_def demo_parts(2)) blast
qed

theorem stale_rate_reported_fresh_witness:
  "sr_rateFresh (fst demo_run) \<and> (\<exists>t. sr_rateExpiresAt (fst demo_run) = Some t \<and> t < 50000)"
proof -
  have c: "fst (readCache 50000 ''fx:USD:NGN'' stale_anchor) =
      Some \<lparr>p_rate = Some (Num 1550), p_from = ''USD'', p_to = ''NGN'', p_fetchedAt = 0\<rparr>"
    by code_simp
  have k: "fx_key (code_text (sc_sourceAsset demo_scenario)) (code_text (sc_destinationAsset demo_scenario)) = ''fx:USD:NGN''"
    "has_rate (known_rates demo_scenario) (sc_sourceAsset demo_scenario) (sc_destinationAsset demo_scenario)"
    "isCircuitOpen default_conf 50000 (breaker_of stale_anchor ''fx:USD:NGN'')"
    by code_simp+
  show ?thesis
    using stale_rate_reported_fresh [OF demo_run_eq _ k(2) k(1) [symmetric] k(3) c]
    by (simp add: demo_scenario_def default_conf_def)
qed

end
