(* ===== verification/Soroban.thy ===== *)
theory Soroban
  imports RpcClient JsLib Processor
begin

text \<open>
  The two services that call the contract network through the client of the nodes: the dry run of a
  transaction with its fee estimate (\<open>apps/api/src/soroban/simulation.service.ts\<close>) and the escrow
  contract (\<open>soroban.service.ts\<close>). Both share \<open>withRpc\<close>. Parameters are the SDK (reading and
  assembling transactions, keys) and what a node answers, with the milliseconds it takes.
\<close>

section \<open>Access to a node\<close>

text \<open>A server set by \<open>setRpcServer\<close>, or one of the client.\<close>

definition withRpc :: "rpc_conf \<Rightarrow> string option \<Rightarrow> (string \<Rightarrow> 'a res \<times> nat) \<Rightarrow> (rpc_state, 'a) M" where
  "withRpc conf server operation =
     (case server of
        Some url \<Rightarrow> (\<lambda>s. (fst (operation url), s\<lparr>rp_now := rp_now s + int (snd (operation url))\<rparr>))
      | None \<Rightarrow> withSorobanServer conf operation)"

section \<open>Simulation\<close>

record FootprintSummary =
  fo_readOnly :: "string list"
  fo_readWrite :: "string list"

record CostSummary =
  co_cpuInstructions :: jsnum
  co_ramBytes :: jsnum

record FeeSummary =
  fe_minResourceFee :: string
  fe_safetyMarginPercent :: jsnum
  fe_recommendedResourceFee :: string
  fe_baseFee :: string
  fe_totalRecommendedFee :: string

record SimulationResult =
  sm_success :: bool
  sm_executionTimeMs :: int
  sm_footprint :: FootprintSummary
  sm_cost :: CostSummary
  sm_fees :: FeeSummary
  sm_transactionDataXdr :: "string option"
  sm_result :: "string option"
  sm_events :: "string list"

record SimulateTransactionDto =
  sd_transactionXdr :: "string option"
  sd_sender :: "string option"

text \<open>
  The fields of an answer that the service reads: \<open>cost.cpuInsns\<close>, \<open>cost.memBytes\<close>, the ledger keys of
  the footprint, each with its text or the failure to write it, the text of the built transaction data.
\<close>

record tx_data =
  td_readOnly :: "string res list res"
  td_readWrite :: "string res list res"
  td_xdr :: "string res"

record sim_answer =
  sa_error :: "string option"
  sa_isSuccess :: bool
  sa_cpuInsns :: "string option"
  sa_memBytes :: "string option"
  sa_transactionData :: "tx_data option"
  sa_minResourceFee :: "string option"
  sa_result :: "string option"
  sa_events :: "string list option"

record ('tx, 'acct) sim_env =
  se_fromXDR :: "string \<Rightarrow> 'tx res"
  se_toXDR :: "'tx \<Rightarrow> string"
  se_getAccount :: "string \<Rightarrow> string \<Rightarrow> 'acct res \<times> nat"
  se_emptyTx :: "'acct \<Rightarrow> 'tx res"
  se_simulate :: "string \<Rightarrow> 'tx \<Rightarrow> sim_answer res \<times> nat"
  se_assemble :: "'tx \<Rightarrow> sim_answer \<Rightarrow> 'tx res"
  se_baseFee :: string

definition extractCost :: "sim_answer \<Rightarrow> CostSummary" where
  "extractCost a =
     \<lparr>co_cpuInstructions = (case sa_cpuInsns a of None \<Rightarrow> Num 0 | Some t \<Rightarrow> if t = [] then Num 0 else parseInt10 t),
      co_ramBytes = (case sa_memBytes a of None \<Rightarrow> Num 0 | Some t \<Rightarrow> if t = [] then Num 0 else parseInt10 t)\<rparr>"

text \<open>The texts pushed until a key cannot be written; \<open>True\<close> when all could.\<close>

fun push_keys :: "string res list \<Rightarrow> string list \<times> bool" where
  "push_keys [] = ([], True)"
| "push_keys (Inl e # ks) = ([], False)"
| "push_keys (Inr t # ks) = (t # fst (push_keys ks), snd (push_keys ks))"

definition extractFootprint :: "sim_answer \<Rightarrow> FootprintSummary" where
  "extractFootprint a =
     (case sa_transactionData a of
        None \<Rightarrow> \<lparr>fo_readOnly = [], fo_readWrite = []\<rparr>
      | Some d \<Rightarrow>
          (case (td_readOnly d, td_readWrite d) of
             (Inr ro, Inr rw) \<Rightarrow>
               \<lparr>fo_readOnly = fst (push_keys ro),
                fo_readWrite = (if snd (push_keys ro) then fst (push_keys rw) else [])\<rparr>
           | _ \<Rightarrow> \<lparr>fo_readOnly = [], fo_readWrite = []\<rparr>))"

definition extractFeeSummary :: "string \<Rightarrow> sim_answer \<Rightarrow> FeeSummary" where
  "extractFeeSummary BASE_FEE a =
     (let minResourceFeeStr = (if truthy (sa_minResourceFee a) then the (sa_minResourceFee a) else ''0'');
          minResourceFee = parseInt10 minResourceFeeStr;
          safetyMarginPercent = Num 10;
          recommendedResourceFee =
            js_ceil (js_mul minResourceFee (js_add (Num 1) (js_div safetyMarginPercent (Num 100))));
          baseFeeNum = (let b = parseInt10 BASE_FEE in if js_truthy b then b else Num 100);
          totalRecommendedFee = js_add recommendedResourceFee baseFeeNum
      in \<lparr>fe_minResourceFee = minResourceFeeStr, fe_safetyMarginPercent = safetyMarginPercent,
          fe_recommendedResourceFee = js_toString recommendedResourceFee, fe_baseFee = js_toString baseFeeNum,
          fe_totalRecommendedFee = js_toString totalRecommendedFee\<rparr>)"

definition is_bad_request :: "exn \<Rightarrow> bool" where
  "is_bad_request e = (case e of HttpException n _ \<Rightarrow> n = 400 | _ \<Rightarrow> False)"

text \<open>The body of the \<open>try\<close> block; \<open>startTime\<close> is the clock at the call.\<close>

definition run_simulation ::
  "('tx, 'acct) sim_env \<Rightarrow> rpc_conf \<Rightarrow> string option \<Rightarrow> SimulateTransactionDto \<Rightarrow> int \<Rightarrow> (rpc_state, SimulationResult) M" where
  "run_simulation env conf server dto startTime =
     bindM (if truthy (sd_transactionXdr dto) then liftR (se_fromXDR env (the (sd_transactionXdr dto)))
            else bindM (withRpc conf server (\<lambda>url. se_getAccount env url (the (sd_sender dto))))
                   (\<lambda>account. liftR (se_emptyTx env account)))
       (\<lambda>tx. bindM (withRpc conf server (\<lambda>url. se_simulate env url tx))
         (\<lambda>raw. bindM (readM (\<lambda>s. rp_now s - startTime))
           (\<lambda>executionTimeMs.
              case sa_error raw of
                Some e \<Rightarrow> throw (BadRequestException (''Soroban transaction simulation error: '' @ e))
              | None \<Rightarrow>
                  bindM (liftR (case sa_transactionData raw of None \<Rightarrow> Inr None | Some d \<Rightarrow> map_sum id Some (td_xdr d)))
                    (\<lambda>xdr. ret \<lparr>sm_success = True, sm_executionTimeMs = executionTimeMs,
                       sm_footprint = extractFootprint raw, sm_cost = extractCost raw,
                       sm_fees = extractFeeSummary (se_baseFee env) raw, sm_transactionDataXdr = xdr,
                       sm_result = sa_result raw, sm_events = case_option [] id (sa_events raw)\<rparr>))))"

definition simulateTransaction ::
  "('tx, 'acct) sim_env \<Rightarrow> rpc_conf \<Rightarrow> string option \<Rightarrow> SimulateTransactionDto \<Rightarrow> (rpc_state, SimulationResult) M" where
  "simulateTransaction env conf server dto =
     bindM (readM rp_now)
       (\<lambda>startTime.
          if \<not> truthy (sd_transactionXdr dto) \<and> \<not> truthy (sd_sender dto)
          then throw (BadRequestException ''Either transactionXdr or sender/transaction parameters must be provided'')
          else catchM (run_simulation env conf server dto startTime)
                 (\<lambda>e. if is_bad_request e then throw e
                      else throw (BadRequestException (''Simulation pre-flight failed: '' @ error_message e))))"

definition prepareAndSimulateTransaction ::
  "('tx, 'acct) sim_env \<Rightarrow> rpc_conf \<Rightarrow> string option \<Rightarrow> 'tx \<Rightarrow> (rpc_state, 'tx \<times> SimulationResult) M" where
  "prepareAndSimulateTransaction env conf server tx =
     bindM (withRpc conf server (\<lambda>url. se_simulate env url tx))
       (\<lambda>raw.
          case sa_error raw of
            Some e \<Rightarrow> throw (BadRequestException (''Soroban transaction pre-flight simulation error: '' @ e))
          | None \<Rightarrow>
              if sa_isSuccess raw then
                bindM (liftR (se_assemble env tx raw))
                  (\<lambda>assembledTx.
                     bindM (simulateTransaction env conf server \<lparr>sd_transactionXdr = Some (se_toXDR env tx), sd_sender = None\<rparr>)
                       (\<lambda>simulationResult. ret (assembledTx, simulationResult)))
              else throw (BadRequestException ''Simulation returned unexpected format''))"

section \<open>The escrow contract\<close>

record OracleAttestation =
  oa_escrowId :: string
  oa_oracle :: string
  oa_deliverySuccess :: bool
  oa_deliveryProof :: string
  oa_attestationTimestamp :: int
  oa_signature :: string
  oa_nonce :: int

record 'acct soroban_env =
  so_getAccount :: "string \<Rightarrow> string \<Rightarrow> 'acct res \<times> nat"
  so_sendTransaction :: "string \<Rightarrow> string \<Rightarrow> string res \<times> nat"
  so_publicKey :: "string \<Rightarrow> string res"
  so_adminKey :: string

definition constructAttestationMessage :: "string \<Rightarrow> bool \<Rightarrow> string \<Rightarrow> int \<Rightarrow> int \<Rightarrow> string" where
  "constructAttestationMessage escrowId deliverySuccess deliveryProof timestamp nonce =
     ''AFROPAY_ATTESTATION|'' @ escrowId @ ''|'' @ (if deliverySuccess then ''true'' else ''false'') @ ''|'' @
     deliveryProof @ ''|'' @ show_int timestamp @ ''|'' @ show_int nonce"

definition so_failed :: "string \<Rightarrow> exn \<Rightarrow> (rpc_state, 'a) M" where
  "so_failed what e = throw (BadRequestException (what @ error_message e))"

definition initializeContract :: "'acct soroban_env \<Rightarrow> rpc_conf \<Rightarrow> string option \<Rightarrow> string \<Rightarrow> (rpc_state, string) M" where
  "initializeContract env conf server admin =
     catchM (thenM (withRpc conf server (\<lambda>url. so_getAccount env url (so_adminKey env))) (ret ''contract_initialized''))
       (so_failed ''Failed to initialize contract: '')"

definition depositEscrow :: "'acct soroban_env \<Rightarrow> rpc_conf \<Rightarrow> string option \<Rightarrow> string \<Rightarrow> (rpc_state, string) M" where
  "depositEscrow env conf server senderSecret =
     catchM (bindM (liftR (so_publicKey env senderSecret))
               (\<lambda>key. thenM (withRpc conf server (\<lambda>url. so_getAccount env url key))
                        (readM (\<lambda>s. ''escrow_'' @ show_int (rp_now s)))))
       (so_failed ''Failed to deposit to escrow: '')"

definition releaseToAgent ::
  "'acct soroban_env \<Rightarrow> rpc_conf \<Rightarrow> string option \<Rightarrow> string \<Rightarrow> OracleAttestation \<Rightarrow> (rpc_state, string) M" where
  "releaseToAgent env conf server escrowId attestation =
     catchM (thenM (withRpc conf server (\<lambda>url. so_getAccount env url (so_adminKey env)))
               (let messageHash = constructAttestationMessage escrowId (oa_deliverySuccess attestation)
                      (oa_deliveryProof attestation) (oa_attestationTimestamp attestation) (oa_nonce attestation)
                in ret (''released_'' @ escrowId)))
       (so_failed ''Failed to release to agent: '')"

definition claimRefund :: "'acct soroban_env \<Rightarrow> rpc_conf \<Rightarrow> string option \<Rightarrow> string \<Rightarrow> string \<Rightarrow> (rpc_state, string) M" where
  "claimRefund env conf server senderSecret escrowId =
     catchM (bindM (liftR (so_publicKey env senderSecret))
               (\<lambda>key. thenM (withRpc conf server (\<lambda>url. so_getAccount env url key)) (ret (''refunded_'' @ escrowId))))
       (so_failed ''Failed to claim refund: '')"

record escrow_view =
  ev_escrowId :: string
  ev_state :: string
  ev_sender :: string
  ev_agent :: string
  ev_amount :: string
  ev_createdAt :: int

definition getEscrow :: "string \<Rightarrow> (rpc_state, escrow_view) M" where
  "getEscrow escrowId =
     readM (\<lambda>s. \<lparr>ev_escrowId = escrowId, ev_state = ''Locked'', ev_sender = [], ev_agent = [], ev_amount = ''0'',
                 ev_createdAt = rp_now s\<rparr>)"

definition registerOracle :: "'acct soroban_env \<Rightarrow> rpc_conf \<Rightarrow> string option \<Rightarrow> string \<Rightarrow> (rpc_state, unit) M" where
  "registerOracle env conf server oracleAddress =
     catchM (thenM (withRpc conf server (\<lambda>url. so_getAccount env url (so_adminKey env))) (ret ()))
       (so_failed ''Failed to register oracle: '')"

definition setPaused :: "'acct soroban_env \<Rightarrow> rpc_conf \<Rightarrow> string option \<Rightarrow> bool \<Rightarrow> (rpc_state, unit) M" where
  "setPaused env conf server paused =
     catchM (thenM (withRpc conf server (\<lambda>url. so_getAccount env url (so_adminKey env))) (ret ()))
       (so_failed ''Failed to set pause state: '')"

text \<open>\<open>validKey\<close> is \<open>StrKey.isValidEd25519PublicKey\<close>.\<close>

definition verifyOracleSignature :: "(string \<Rightarrow> bool) \<Rightarrow> string \<Rightarrow> string \<Rightarrow> string \<Rightarrow> bool res" where
  "verifyOracleSignature validKey oracleAddress messageHash signature =
     (if \<not> validKey oracleAddress
      then Inl (BadRequestException ''Signature verification failed: Invalid oracle address'') else Inr True)"

definition so_submitTransaction :: "'acct soroban_env \<Rightarrow> rpc_conf \<Rightarrow> string option \<Rightarrow> string \<Rightarrow> (rpc_state, string) M" where
  "so_submitTransaction env conf server tx =
     catchM (withRpc conf server (\<lambda>url. so_sendTransaction env url tx)) (so_failed ''Transaction submission failed: '')"

definition getAccountState :: "'acct soroban_env \<Rightarrow> rpc_conf \<Rightarrow> string option \<Rightarrow> string \<Rightarrow> (rpc_state, 'acct) M" where
  "getAccountState env conf server address =
     catchM (withRpc conf server (\<lambda>url. so_getAccount env url address))
       (\<lambda>e. throw (NotFoundException (''Account not found: '' @ error_message e)))"

section \<open>The fee estimate\<close>

lemma margin_factor: "\<exists>k. js_add (Num 1) (js_div (Num 10) (Num 100)) = Num k \<and> 11 / 10 \<le> k \<and> k \<le> 11 / 10 + 1 / 2 ^ 50"
proof -
  have "js_add (Num 1) (js_div (Num 10) (Num 100)) = Num (4953959590107546 / 2 ^ 52)" by code_simp
  then show ?thesis by (intro exI [of _ "4953959590107546 / 2 ^ 52"]) simp
qed

text \<open>
  The recommended resource fee is the least integer that is ten percent above the fee the
  node asks for, or one more: the rounding of the product never falls below the margin. It holds for fees up to
  \<open>2 ^ 47\<close> stroops.
\<close>

theorem fee_margin_exact:
  assumes "parseInt10 (if truthy (sa_minResourceFee a) then the (sa_minResourceFee a) else ''0'') = Num (of_int m)"
    and "0 \<le> m" and "m \<le> 2 ^ 47"
  shows "\<exists>c. fe_recommendedResourceFee (extractFeeSummary base a) = js_toString (Num (of_int c)) \<and>
           (c = \<lceil>of_int m * 11 / 10 :: rat\<rceil> \<or> c = \<lceil>of_int m * 11 / 10 :: rat\<rceil> + 1)"
proof -
  obtain k where k: "js_add (Num 1) (js_div (Num 10) (Num 100)) = Num k" "11 / 10 \<le> k" "k \<le> 11 / 10 + 1 / 2 ^ 50"
    using margin_factor by blast
  define F where "F = \<lceil>of_int m * 11 / 10 :: rat\<rceil>"
  have F: "of_int m * 11 / 10 \<le> (of_int F :: rat)" "of_int F < (of_int m * 11 / 10 :: rat) + 1"
    unfolding F_def by linarith+
  have mm: "(of_int m :: rat) \<le> of_int (2 ^ 47)" "(0 :: rat) \<le> of_int m"
    using assms(2,3) by (simp_all only: of_int_le_iff of_int_0_le_iff)
  have lo: "of_int m * 11 / 10 \<le> of_int m * k" using mult_left_mono [OF k(2) mm(2)] by simp
  have "of_int m * (11 / 10 + 1 / 2 ^ 50) \<le> (of_int m * 11 / 10 + 1 / 8 :: rat)" using mm(1) by (simp add: algebra_simps)
  then have hi: "of_int m * k \<le> of_int (F + 1)" using mult_left_mono [OF k(3) mm(2)] F(1) by simp
  have Fb: "0 \<le> F" "F < 2 ^ 48"
  proof -
    have "(of_int F :: rat) < of_int (2 ^ 48)" using F(2) mm(1) by simp
    then show "F < 2 ^ 48" by (simp only: of_int_less_iff)
    show "0 \<le> F" using mm(2) unfolding F_def by (simp add: le_ceiling_iff)
  qed
  have up: "js_le (round64 (of_int m * k)) (Num (of_int (F + 1)))"
    using round64_mono [OF hi] round64_int [of "F + 1"] Fb by simp
  have "js_le (Num (of_int (16 * F - 15) / 16)) (round64 (of_int m * k)) \<or> m = 0"
  proof (cases "m = 0")
    case False
    then have "0 < F" using assms(2) F(1) by (simp add: F_def)
    have "of_int (10 * (F - 1)) < (of_int (11 * m) :: rat)" using F(2) by simp
    then have "10 * (F - 1) < 11 * m" by (simp only: of_int_less_iff)
    then have "(of_int (10 * (F - 1) + 1) :: rat) \<le> of_int (11 * m)" by (simp only: of_int_le_iff)
    then have "of_int (16 * F - 15) * pow2 (- 4) \<le> of_int m * k" using lo by (simp add: pow2_def)
    from round64_mono [OF this] show ?thesis
      using round64_dyadic [of "16 * F - 15" 4] \<open>0 < F\<close> Fb(2) by (simp add: pow2_def)
  qed simp
  moreover have "F = 0 \<and> round64 (of_int m * k) = Num 0" if "m = 0" using that by (simp add: F_def)
  ultimately obtain y where y: "round64 (of_int m * k) = Num y" "of_int F - 1 < y" "y \<le> of_int (F + 1)"
    using up by (cases "round64 (of_int m * k)") auto
  then have "\<lceil>y\<rceil> = F \<or> \<lceil>y\<rceil> = F + 1" by (auto simp: ceiling_eq_iff)
  moreover have "fe_recommendedResourceFee (extractFeeSummary base a) = js_toString (Num (of_int \<lceil>y\<rceil>))"
    unfolding extractFeeSummary_def Let_def assms(1) k(1) by (simp add: y(1) js_ceil_def)
  ultimately show ?thesis unfolding F_def by blast
qed

definition fee_answer :: sim_answer where
  "fee_answer = \<lparr>sa_error = None, sa_isSuccess = True, sa_cpuInsns = None, sa_memBytes = None, sa_transactionData = None,
     sa_minResourceFee = Some ''10'', sa_result = None, sa_events = None\<rparr>"

theorem fee_margin_exact_witness:
  "\<exists>c. fe_recommendedResourceFee (extractFeeSummary ''100'' fee_answer) = js_toString (Num (of_int c)) \<and> (c = 11 \<or> c = 12)"
proof -
  have "parseInt10 (if truthy (sa_minResourceFee fee_answer) then the (sa_minResourceFee fee_answer) else ''0'') = Num (of_int 10)"
    by code_simp
  from fee_margin_exact [OF this, of "''100''"] show ?thesis by simp
qed

section \<open>Errors\<close>

text \<open>
  Every failure of a simulation reaches the caller as a bad request: the failures of the nodes, of
  reading the transaction and of the contract alike; and a call without a transaction and without a
  sender is refused before a node is asked.
\<close>

theorem simulation_failure_is_bad_request:
  assumes "simulateTransaction env conf server dto s = (Inl e, s')"
  shows "is_bad_request e \<and>
         (\<not> truthy (sd_transactionXdr dto) \<and> \<not> truthy (sd_sender dto) \<longrightarrow> s' = s)"
proof -
  have bad: "is_bad_request (HttpException 400 m)" for m by (simp add: is_bad_request_def)
  show ?thesis
    using assms unfolding simulateTransaction_def
    by (auto simp: M_defs bad split: sum.splits if_splits prod.splits)
qed

definition no_env :: "(string, string) sim_env" where
  "no_env = \<lparr>se_fromXDR = (\<lambda>t. Inl (JsError ''XdrReaderError'' ''bad XDR'')), se_toXDR = id, se_getAccount = (\<lambda>u k. (Inr k, 0)),
     se_emptyTx = Inr, se_simulate = (\<lambda>u t. (Inr fee_answer, 0)), se_assemble = (\<lambda>t a. Inr t), se_baseFee = ''100''\<rparr>"

definition no_rpc :: rpc_state where
  "no_rpc = \<lparr>rp_endpoints = [], rp_now = 0, rp_allDegraded = (\<lambda>_. None), rp_failovers = []\<rparr>"

theorem simulation_failure_is_bad_request_witness:
  "is_bad_request (BadRequestException (''Simulation pre-flight failed: bad XDR''))"
proof -
  have "simulateTransaction no_env (rpc_config (\<lambda>_. None)) (Some ''http://node'')
      \<lparr>sd_transactionXdr = Some ''AAAA'', sd_sender = None\<rparr> no_rpc =
    (Inl (BadRequestException (''Simulation pre-flight failed: bad XDR'')), no_rpc)"
    by (simp add: simulateTransaction_def run_simulation_def M_defs no_env_def is_bad_request_def)
  from simulation_failure_is_bad_request [OF this] show ?thesis by simp
qed

text \<open>
  While no node is in service, every account is reported as not found: the failure of the
  client is answered with status 404 like the absence of the account.
\<close>

theorem outage_answers_not_found:
  assumes "candidates conf Soroban s = []"
  shows "fst (getAccountState env conf None address s) =
         Inl (NotFoundException ''Account not found: No healthy soroban RPC endpoints are available'')"
proof -
  have "rankHealthy conf Soroban s = ([], s)" using assms by (simp add: rankHealthy_def)
  then show ?thesis
    by (simp add: getAccountState_def withRpc_def withSorobanServer_def withEndpoint_def M_defs)
qed

theorem outage_answers_not_found_witness:
  "fst (getAccountState \<lparr>so_getAccount = (\<lambda>u k. (Inr k, 0)), so_sendTransaction = (\<lambda>u t. (Inr t, 0)), so_publicKey = Inr,
          so_adminKey = ''GA''\<rparr> (rpc_config (\<lambda>_. None)) None ''GB'' no_rpc) =
   Inl (NotFoundException ''Account not found: No healthy soroban RPC endpoints are available'')"
  by (rule outage_answers_not_found) (simp add: candidates_def no_rpc_def)

section \<open>The message that an oracle signs\<close>

lemma show_nat_no_bar: "CHR ''|'' \<notin> set (show_nat n)"
  using show_nat_digits [of n] by (auto simp: list_all_iff is_digit_def code_of_def)

lemma show_int_no_bar: "CHR ''|'' \<notin> set (show_int n)"
  by (simp add: show_int_def show_nat_no_bar)

text \<open>
  The message binds the attestation: two attestations with the same message agree in the escrow, the
  outcome, the proof, the time and the nonce, as long as the escrow ids and the proofs do not contain the separator.
\<close>

theorem attestation_message_injective:
  assumes "constructAttestationMessage escrow success proof time nonce =
           constructAttestationMessage escrow' success' proof' time' nonce'"
    and "CHR ''|'' \<notin> set escrow" and "CHR ''|'' \<notin> set escrow'"
    and "CHR ''|'' \<notin> set proof" and "CHR ''|'' \<notin> set proof'"
  shows "escrow = escrow' \<and> success = success' \<and> proof = proof' \<and> time = time' \<and> nonce = nonce'"
proof -
  have "split_on (CHR ''|'') (constructAttestationMessage e b p t n) =
      [''AFROPAY_ATTESTATION'', e, if b then ''true'' else ''false'', p, show_int t, show_int n]"
    if "CHR ''|'' \<notin> set e" "CHR ''|'' \<notin> set p" for e b p t n
    using that show_int_no_bar split_on_append [of "CHR ''|''" "''AFROPAY_ATTESTATION''"]
    by (simp add: constructAttestationMessage_def split_on_append split_on_plain)
  from arg_cong [OF assms(1), of "split_on (CHR ''|'')", unfolded this [OF assms(2,4)] this [OF assms(3,5)]]
  show ?thesis by (auto dest: show_int_inj split: if_splits)
qed

theorem attestation_message_injective_witness:
  "''esc1'' = ''esc1'' \<and> True = True \<and> ''ref'' = ''ref'' \<and> (1700000000 :: int) = 1700000000 \<and> (1 :: int) = 1"
  by (rule attestation_message_injective) simp_all

text \<open>With the separator in an escrow id or a proof, different attestations have one message.\<close>

lemma attestation_message_ambiguous:
  "constructAttestationMessage ''a'' True ''x|true|y'' t n = constructAttestationMessage ''a|true|x'' True ''y'' t n"
  by (simp add: constructAttestationMessage_def)

text \<open>The release does not depend on the attestation: its signature is not looked at.\<close>

lemma release_ignores_attestation:
  "releaseToAgent env conf server escrowId a = releaseToAgent env conf server escrowId b"
  by (simp add: releaseToAgent_def)

end
