(* ===== verification/WebAuthn.thy ===== *)
theory WebAuthn
  imports Sep10
begin

text \<open>
  Passkeys (\<open>apps/api/src/wallet/webauthn.service.ts\<close> and the passkey endpoints of \<open>wallet.controller.ts\<close>):
  challenges with a lifetime of a minute, registration and authentication. The state is the two
  maps of the service. The random bytes of a challenge are arguments, and \<open>decode\<close> stands for \<open>JSON.parse\<close>
  of the decoded text, an error where it throws.
\<close>

section \<open>Data\<close>

record StoredPasskey =
  pk_userId :: string
  pk_credentialId :: string
  pk_publicKey :: string
  pk_createdAt :: int
  pk_lastUsedAt :: "int option"

record pending_challenge =
  pc_challenge :: string
  pc_expiresAt :: int

record webauthn =
  wa_registrations :: "string \<rightharpoonup> StoredPasskey list"
  wa_pendingChallenges :: "string \<rightharpoonup> pending_challenge list"

record RegistrationResponse =
  rr_id :: string
  rr_rawId :: string
  rr_clientDataJSON :: string
  rr_attestationObject :: string
  rr_type :: string

record AuthenticationResponse =
  ar_id :: string
  ar_rawId :: string
  ar_clientDataJSON :: string
  ar_authenticatorData :: string
  ar_signature :: string
  ar_userHandle :: "string option"
  ar_type :: string

record WebAuthnRegistrationOptions =
  ro_challenge :: string
  ro_rp :: "string \<times> string"
  ro_user :: "string \<times> string \<times> string"
  ro_alg :: int
  ro_timeout :: int

record WebAuthnAuthenticationOptions =
  ao_challenge :: string
  ao_timeout :: int
  ao_allowCredentials :: "string list"

section \<open>Challenges\<close>

definition pending_of :: "string \<Rightarrow> webauthn \<Rightarrow> pending_challenge list" where
  "pending_of userId s = (case wa_pendingChallenges s userId of None \<Rightarrow> [] | Some xs \<Rightarrow> xs)"

definition passkeys_of :: "string \<Rightarrow> webauthn \<Rightarrow> StoredPasskey list" where
  "passkeys_of userId s = (case wa_registrations s userId of None \<Rightarrow> [] | Some xs \<Rightarrow> xs)"

definition toBase64Url :: "nat list \<Rightarrow> string" where
  "toBase64Url buffer =
     rev (dropWhile (\<lambda>c. c = CHR ''='')
       (rev (map (\<lambda>c. if c = CHR ''+'' then CHR ''-'' else if c = CHR ''/'' then CHR ''_'' else c) (b64_encode buffer))))"

definition saveChallenge :: "int \<Rightarrow> string \<Rightarrow> string \<Rightarrow> webauthn \<Rightarrow> webauthn" where
  "saveChallenge now userId challenge s =
     (let pending = filter (\<lambda>item. now < pc_expiresAt item) (pending_of userId s)
      in s\<lparr>wa_pendingChallenges := (wa_pendingChallenges s)(userId \<mapsto>
             pending @ [\<lparr>pc_challenge = challenge, pc_expiresAt = now + 60000\<rparr>])\<rparr>)"

text \<open>\<open>findIndex\<close> and \<open>splice\<close>: the first match is taken out; \<open>None\<close> when there is none.\<close>

fun take_challenge :: "int \<Rightarrow> string \<Rightarrow> pending_challenge list \<Rightarrow> pending_challenge list option" where
  "take_challenge now challenge [] = None"
| "take_challenge now challenge (p # ps) =
     (if pc_challenge p = challenge \<and> now < pc_expiresAt p then Some ps
      else map_option ((#) p) (take_challenge now challenge ps))"

definition consumeChallenge :: "int \<Rightarrow> string \<Rightarrow> string \<Rightarrow> (webauthn, unit) M" where
  "consumeChallenge now userId challenge s =
     (case take_challenge now challenge (pending_of userId s) of
        None \<Rightarrow> (Inl (JsError ''Error'' ''Challenge is missing, expired, or already used''), s)
      | Some ps \<Rightarrow> (Inr (), s\<lparr>wa_pendingChallenges := (wa_pendingChallenges s)(userId \<mapsto> ps)\<rparr>))"

section \<open>Options\<close>

definition generateRegistrationOptions ::
  "int \<Rightarrow> nat list \<Rightarrow> string \<Rightarrow> string \<Rightarrow> string \<Rightarrow> string \<Rightarrow> webauthn \<Rightarrow> WebAuthnRegistrationOptions \<times> webauthn" where
  "generateRegistrationOptions now random userId username displayName rpId s =
     (let challenge = toBase64Url random
      in (\<lparr>ro_challenge = challenge, ro_rp = (rpId, ''AfroPay''),
           ro_user = (toBase64Url (text_buffer userId), username, displayName), ro_alg = - 7, ro_timeout = 60000\<rparr>,
          saveChallenge now userId challenge s))"

definition generateAuthenticationOptions ::
  "int \<Rightarrow> nat list \<Rightarrow> string \<Rightarrow> webauthn \<Rightarrow> WebAuthnAuthenticationOptions \<times> webauthn" where
  "generateAuthenticationOptions now random userId s =
     (let challenge = toBase64Url random; s' = saveChallenge now userId challenge s
      in (\<lparr>ao_challenge = challenge, ao_timeout = 60000, ao_allowCredentials = map pk_credentialId (passkeys_of userId s')\<rparr>, s'))"

section \<open>Verification\<close>

text \<open>The member of a parsed value: reading one of \<open>null\<close> throws.\<close>

definition js_member :: "string \<Rightarrow> json \<Rightarrow> json option res" where
  "js_member k j =
     (case j of
        JNull \<Rightarrow> Inl (JsError ''TypeError'' (''Cannot read properties of null (reading '' @ [CHR 39] @ k @ [CHR 39] @ '')''))
      | JObject fs \<Rightarrow> Inr (map_of fs k)
      | _ \<Rightarrow> Inr None)"

definition json_truthy :: "json option \<Rightarrow> bool" where
  "json_truthy v =
     (case v of
        None \<Rightarrow> False
      | Some JNull \<Rightarrow> False
      | Some (JBool b) \<Rightarrow> b
      | Some (JNumber n) \<Rightarrow> js_truthy n
      | Some (JString t) \<Rightarrow> t \<noteq> []
      | Some _ \<Rightarrow> True)"

definition assertEqual :: "string \<Rightarrow> json option \<Rightarrow> string \<Rightarrow> (webauthn, unit) M" where
  "assertEqual message actual expected = guardM (actual = Some (JString expected)) (JsError ''Error'' message)"

text \<open>The checks that registration and authentication share, in their order: the challenge is used up first.\<close>

definition check_client_data ::
  "int \<Rightarrow> string \<Rightarrow> json \<Rightarrow> string \<Rightarrow> string \<Rightarrow> string \<Rightarrow> (webauthn, unit) M" where
  "check_client_data now userId clientData expectedChallenge expectedOrigin expectedType =
     thenM (consumeChallenge now userId expectedChallenge)
       (bindM (liftR (js_member ''challenge'' clientData))
          (\<lambda>c. thenM (assertEqual ''Challenge mismatch'' c expectedChallenge)
            (bindM (liftR (js_member ''origin'' clientData))
               (\<lambda>or. thenM (assertEqual ''Origin mismatch'' or expectedOrigin)
                 (bindM (liftR (js_member ''type'' clientData))
                    (\<lambda>t. assertEqual ''Unexpected WebAuthn type'' t expectedType))))))"

definition credential_id :: "string \<Rightarrow> string \<Rightarrow> string" where
  "credential_id i rawId = (if i \<noteq> [] then i else rawId)"

definition verifyRegistration ::
  "(string \<Rightarrow> json res) \<Rightarrow> int \<Rightarrow> string \<Rightarrow> RegistrationResponse \<Rightarrow> string \<Rightarrow> string \<Rightarrow> (webauthn, StoredPasskey) M" where
  "verifyRegistration decode now userId response expectedChallenge expectedOrigin =
     thenM (guardM (rr_type response = ''public-key'') (JsError ''Error'' ''Invalid WebAuthn registration response''))
       (bindM (liftR (decode (rr_clientDataJSON response)))
         (\<lambda>clientData. thenM (check_client_data now userId clientData expectedChallenge expectedOrigin ''webauthn.create'')
           (bindM (liftR (decode (rr_attestationObject response)))
             (\<lambda>attestation.
                bindM (if json_truthy (Some attestation) then liftR (js_member ''fmt'' attestation) else ret None)
                  (\<lambda>fmt. thenM (guardM (json_truthy fmt) (JsError ''Error'' ''Invalid attestation payload''))
                    (\<lambda>s. let credentialId = credential_id (rr_id response) (rr_rawId response);
                             passkey = \<lparr>pk_userId = userId, pk_credentialId = credentialId,
                               pk_publicKey = rr_attestationObject response, pk_createdAt = now, pk_lastUsedAt = Some now\<rparr>
                         in (Inr passkey, s\<lparr>wa_registrations := (wa_registrations s)(userId \<mapsto>
                               filter (\<lambda>item. pk_credentialId item \<noteq> credentialId) (passkeys_of userId s) @ [passkey])\<rparr>)))))))"

text \<open>\<open>passkey.lastUsedAt = new Date()\<close> writes into the list of the map; the found record is the first match.\<close>

fun touch_first :: "string \<Rightarrow> int \<Rightarrow> StoredPasskey list \<Rightarrow> StoredPasskey list" where
  "touch_first i now [] = []"
| "touch_first i now (p # ps) =
     (if pk_credentialId p = i then p\<lparr>pk_lastUsedAt := Some now\<rparr> # ps else p # touch_first i now ps)"

definition verifyAuthentication ::
  "(string \<Rightarrow> json res) \<Rightarrow> int \<Rightarrow> string \<Rightarrow> AuthenticationResponse \<Rightarrow> string \<Rightarrow> string \<Rightarrow> (webauthn, StoredPasskey) M" where
  "verifyAuthentication decode now userId response expectedChallenge expectedOrigin =
     thenM (guardM (ar_type response = ''public-key'') (JsError ''Error'' ''Invalid WebAuthn authentication response''))
       (bindM (readM (\<lambda>s. find (\<lambda>item. pk_credentialId item = credential_id (ar_id response) (ar_rawId response)) (passkeys_of userId s)))
         (\<lambda>found. case found of
            None \<Rightarrow> throw (JsError ''Error'' ''Passkey not registered for this user'')
          | Some passkey \<Rightarrow>
              bindM (liftR (decode (ar_clientDataJSON response)))
                (\<lambda>clientData. thenM (check_client_data now userId clientData expectedChallenge expectedOrigin ''webauthn.get'')
                  (thenM (guardM (ar_authenticatorData response \<noteq> [] \<and> ar_signature response \<noteq> [])
                            (JsError ''Error'' ''Missing authenticator response fields''))
                    (thenM (modifyM (\<lambda>s. s\<lparr>wa_registrations := (wa_registrations s)(userId \<mapsto>
                               touch_first (pk_credentialId passkey) now (passkeys_of userId s))\<rparr>))
                       (ret (passkey\<lparr>pk_lastUsedAt := Some now\<rparr>)))))))"

definition getPasskeysForUser :: "string \<Rightarrow> webauthn \<Rightarrow> StoredPasskey list" where
  "getPasskeysForUser userId s = passkeys_of userId s"

section \<open>The endpoints\<close>

text \<open>The challenge and the origin to compare with are those of the request.\<close>

definition registerPasskey ::
  "(string \<Rightarrow> json res) \<Rightarrow> int \<Rightarrow> string \<Rightarrow> RegistrationResponse option \<Rightarrow> string option \<Rightarrow> string option \<Rightarrow> (webauthn, string) M" where
  "registerPasskey decode now userId response challenge origin =
     (if response = None \<or> \<not> truthy challenge \<or> \<not> truthy origin
      then throw (BadRequestException ''response, challenge, and origin are required'')
      else bindM (verifyRegistration decode now userId (the response) (the challenge) (the origin))
             (\<lambda>passkey. ret (pk_credentialId passkey)))"

definition authenticatePasskey ::
  "(string \<Rightarrow> json res) \<Rightarrow> int \<Rightarrow> string \<Rightarrow> AuthenticationResponse option \<Rightarrow> string option \<Rightarrow> string option \<Rightarrow> (webauthn, string) M" where
  "authenticatePasskey decode now userId response challenge origin =
     (if response = None \<or> \<not> truthy challenge \<or> \<not> truthy origin
      then throw (BadRequestException ''response, challenge, and origin are required'')
      else bindM (verifyAuthentication decode now userId (the response) (the challenge) (the origin))
             (\<lambda>passkey. ret (pk_credentialId passkey)))"

definition getPasskeyRegistrationOptions ::
  "int \<Rightarrow> nat list \<Rightarrow> string \<Rightarrow> string option \<Rightarrow> string option \<Rightarrow> string option \<Rightarrow> webauthn \<Rightarrow> WebAuthnRegistrationOptions \<times> webauthn" where
  "getPasskeyRegistrationOptions now random userId username email displayName =
     (let name = (case username of Some u \<Rightarrow> u | None \<Rightarrow> (case email of Some e \<Rightarrow> e | None \<Rightarrow> userId))
      in generateRegistrationOptions now random userId name (case displayName of Some d \<Rightarrow> d | None \<Rightarrow> name) ''localhost'')"

section \<open>Runs of the service\<close>

datatype wa_op =
    OpRegistrationOptions int "nat list" string string string
  | OpAuthenticationOptions int "nat list" string
  | OpRegister int string RegistrationResponse string string
  | OpAuthenticate int string AuthenticationResponse string string

fun wa_step :: "(string \<Rightarrow> json res) \<Rightarrow> wa_op \<Rightarrow> webauthn \<Rightarrow> StoredPasskey option \<times> webauthn" where
  "wa_step decode (OpRegistrationOptions now random u name display) s =
     (None, snd (generateRegistrationOptions now random u name display ''localhost'' s))"
| "wa_step decode (OpAuthenticationOptions now random u) s = (None, snd (generateAuthenticationOptions now random u s))"
| "wa_step decode (OpRegister now u r c og) s =
     (case verifyRegistration decode now u r c og s of (Inl _, s') \<Rightarrow> (None, s') | (Inr p, s') \<Rightarrow> (Some p, s'))"
| "wa_step decode (OpAuthenticate now u r c og) s =
     (case verifyAuthentication decode now u r c og s of (Inl _, s') \<Rightarrow> (None, s') | (Inr p, s') \<Rightarrow> (Some p, s'))"

text \<open>How often a challenge was issued to a user, and how often it was accepted from him.\<close>

definition issues :: "string \<Rightarrow> string \<Rightarrow> wa_op \<Rightarrow> bool" where
  "issues u c oper =
     (case oper of
        OpRegistrationOptions now random v _ _ \<Rightarrow> v = u \<and> toBase64Url random = c
      | OpAuthenticationOptions now random v \<Rightarrow> v = u \<and> toBase64Url random = c
      | _ \<Rightarrow> False)"

definition presents :: "string \<Rightarrow> string \<Rightarrow> wa_op \<Rightarrow> bool" where
  "presents u c oper =
     (case oper of OpRegister _ v _ d _ \<Rightarrow> v = u \<and> d = c | OpAuthenticate _ v _ d _ \<Rightarrow> v = u \<and> d = c | _ \<Rightarrow> False)"

fun wa_run :: "(string \<Rightarrow> json res) \<Rightarrow> string \<Rightarrow> string \<Rightarrow> wa_op list \<Rightarrow> webauthn \<times> nat \<Rightarrow> webauthn \<times> nat" where
  "wa_run decode u c [] s = s"
| "wa_run decode u c (oper # ops) (s, n) =
     (case wa_step decode oper s of
        (r, s') \<Rightarrow> wa_run decode u c ops (s', if r \<noteq> None \<and> presents u c oper then n + 1 else n))"

section \<open>A challenge is accepted at most as often as it was issued\<close>

definition held :: "string \<Rightarrow> string \<Rightarrow> webauthn \<Rightarrow> nat" where
  "held u c s = count_where (\<lambda>p. pc_challenge p = c) (pending_of u s)"

lemma take_challenge_count:
  "take_challenge now d ps = Some qs \<Longrightarrow>
   count_where (\<lambda>p. pc_challenge p = c) qs + (if c = d then 1 else 0) = count_where (\<lambda>p. pc_challenge p = c) ps"
  by (induction ps arbitrary: qs) (fastforce split: if_splits)+

lemma take_challenge_live:
  "take_challenge now c ps = Some qs \<Longrightarrow> \<exists>p \<in> set ps. pc_challenge p = c \<and> now < pc_expiresAt p"
  by (induction ps arbitrary: qs) (fastforce split: if_splits)+

lemma pending_of_update [simp]:
  "pending_of u (s\<lparr>wa_pendingChallenges := (wa_pendingChallenges s)(v \<mapsto> ps)\<rparr>) = (if u = v then ps else pending_of u s)"
  "pending_of u (s\<lparr>wa_registrations := m\<rparr>) = pending_of u s"
  by (simp_all add: pending_of_def)

lemma passkeys_of_update [simp]:
  "passkeys_of u (s\<lparr>wa_registrations := (wa_registrations s)(v \<mapsto> ps)\<rparr>) = (if u = v then ps else passkeys_of u s)"
  "passkeys_of u (s\<lparr>wa_pendingChallenges := m\<rparr>) = passkeys_of u s"
  by (simp_all add: passkeys_of_def)

lemma count_where_filter: "count_where P (filter Q xs) \<le> count_where P xs"
  by (induction xs) simp_all

lemma held_save: "held u c (saveChallenge now v d s) \<le> held u c s + (if v = u \<and> d = c then 1 else 0)"
  using count_where_filter [of "\<lambda>p. pc_challenge p = c" "\<lambda>item. now < pc_expiresAt item" "pending_of v s"]
  by (auto simp: held_def saveChallenge_def Let_def)

lemma held_consume:
  assumes "consumeChallenge now v d s = (r, s')"
  shows "held u c s' + (if r = Inr () \<and> v = u \<and> d = c then 1 else 0) \<le> held u c s" and "passkeys_of w s' = passkeys_of w s"
    and "r = Inr () \<Longrightarrow> \<exists>p \<in> set (pending_of v s). pc_challenge p = d \<and> now < pc_expiresAt p"
  using assms take_challenge_count [of now d "pending_of v s" _ c] take_challenge_live [of now d "pending_of v s"]
  by (auto simp: consumeChallenge_def held_def split: option.splits)

text \<open>The checks touch the state through the consumption of the challenge only.\<close>

lemma check_client_data_state:
  assumes "check_client_data now v clientData d og t s = (r, s')"
  shows "\<exists>r0. consumeChallenge now v d s = (r0, s') \<and> (r = Inr () \<longrightarrow> r0 = Inr ())"
proof -
  obtain r0 s0 where c: "consumeChallenge now v d s = (r0, s0)" by (cases "consumeChallenge now v d s")
  show ?thesis
    using assms by (auto simp: check_client_data_def M_defs assertEqual_def c split: sum.splits if_splits)
qed

definition consumes :: "int \<Rightarrow> string \<Rightarrow> string \<Rightarrow> bool \<Rightarrow> webauthn \<Rightarrow> webauthn \<Rightarrow> bool" where
  "consumes now v d accepted s s' =
     (\<not> accepted \<and> s' = s \<or>
      (\<exists>r0 s0. consumeChallenge now v d s = (r0, s0) \<and> (\<forall>u. pending_of u s' = pending_of u s0) \<and>
              (accepted \<longrightarrow> r0 = Inr ())))"

lemma verifyRegistration_state:
  assumes "verifyRegistration decode now v resp d og s = (r, s')"
  shows "consumes now v d (\<not> isl r) s s'"
proof (cases "rr_type resp = ''public-key''")
  case True
  show ?thesis
  proof (cases "decode (rr_clientDataJSON resp)")
    case (Inr cd)
    obtain r1 s1 where chk: "check_client_data now v cd d og ''webauthn.create'' s = (r1, s1)"
      by (cases "check_client_data now v cd d og ''webauthn.create'' s")
    from check_client_data_state [OF chk] obtain r0
      where r0: "consumeChallenge now v d s = (r0, s1)" "r1 = Inr () \<longrightarrow> r0 = Inr ()" by blast
    have "(\<forall>u. pending_of u s' = pending_of u s1) \<and> (\<not> isl r \<longrightarrow> r1 = Inr ())"
      using assms by (auto simp: verifyRegistration_def M_defs True Inr chk Let_def split: sum.splits if_splits)
    then show ?thesis using r0 unfolding consumes_def by blast
  qed (use assms True in \<open>auto simp: verifyRegistration_def M_defs consumes_def\<close>)
qed (use assms in \<open>auto simp: verifyRegistration_def M_defs consumes_def\<close>)

lemma verifyAuthentication_state:
  assumes "verifyAuthentication decode now v resp d og s = (r, s')"
  shows "consumes now v d (\<not> isl r) s s'"
    and "\<not> isl r \<Longrightarrow> \<exists>p \<in> set (passkeys_of v s). pk_credentialId p = credential_id (ar_id resp) (ar_rawId resp)"
proof -
  let ?found = "find (\<lambda>item. pk_credentialId item = credential_id (ar_id resp) (ar_rawId resp)) (passkeys_of v s)"
  have no: "s' = s \<and> isl r" if "ar_type resp \<noteq> ''public-key'' \<or> ?found = None \<or> (\<exists>e. decode (ar_clientDataJSON resp) = Inl e)"
    using assms that by (auto simp: verifyAuthentication_def M_defs split: option.splits if_splits)
  show "\<exists>p \<in> set (passkeys_of v s). pk_credentialId p = credential_id (ar_id resp) (ar_rawId resp)" if "\<not> isl r"
    using no that find_Some_D [of _ "passkeys_of v s"] by (cases ?found) auto
  show "consumes now v d (\<not> isl r) s s'"
  proof (cases "ar_type resp \<noteq> ''public-key'' \<or> ?found = None \<or> (\<exists>e. decode (ar_clientDataJSON resp) = Inl e)")
    case False
    then obtain p cd where p: "?found = Some p" and cd: "decode (ar_clientDataJSON resp) = Inr cd" and t: "ar_type resp = ''public-key''"
      by (cases "decode (ar_clientDataJSON resp)") auto
    obtain r1 s1 where chk: "check_client_data now v cd d og ''webauthn.get'' s = (r1, s1)"
      by (cases "check_client_data now v cd d og ''webauthn.get'' s")
    from check_client_data_state [OF chk] obtain r0
      where r0: "consumeChallenge now v d s = (r0, s1)" "r1 = Inr () \<longrightarrow> r0 = Inr ()" by blast
    have "(\<forall>u. pending_of u s' = pending_of u s1) \<and> (\<not> isl r \<longrightarrow> r1 = Inr ())"
      using assms by (auto simp: verifyAuthentication_def M_defs t p cd chk split: sum.splits if_splits)
    then show ?thesis using r0 unfolding consumes_def by blast
  qed (use no in \<open>simp add: consumes_def\<close>)
qed

lemma consumes_held:
  assumes "consumes now v d accepted s s'"
  shows "held u c s' + (if accepted \<and> v = u \<and> d = c then 1 else 0) \<le> held u c s"
    and "accepted \<Longrightarrow> \<exists>p \<in> set (pending_of v s). pc_challenge p = d \<and> now < pc_expiresAt p"
proof -
  show "held u c s' + (if accepted \<and> v = u \<and> d = c then 1 else 0) \<le> held u c s"
  proof (cases "\<not> accepted \<and> s' = s")
    case False
    with assms obtain r0 s0 where 1: "consumeChallenge now v d s = (r0, s0)" "\<forall>u. pending_of u s' = pending_of u s0"
        "accepted \<longrightarrow> r0 = Inr ()" unfolding consumes_def by blast
    have "held u c s' = held u c s0" using 1(2) by (simp add: held_def)
    then show ?thesis using held_consume(1) [OF 1(1), of u c] 1(3) by (auto split: if_splits)
  qed simp
  show "\<exists>p \<in> set (pending_of v s). pc_challenge p = d \<and> now < pc_expiresAt p" if "accepted"
    using assms that held_consume(3) unfolding consumes_def by blast
qed

lemma wa_step_held:
  assumes "wa_step decode oper s = (r, s')"
  shows "held u c s' + (if r \<noteq> None \<and> presents u c oper then 1 else 0) \<le> held u c s + (if issues u c oper then 1 else 0)"
proof (cases oper)
  case (OpRegistrationOptions now random v name display)
  then show ?thesis using assms held_save [of u c now v "toBase64Url random" s]
    by (auto simp: issues_def generateRegistrationOptions_def Let_def)
next
  case (OpAuthenticationOptions now random v)
  then show ?thesis using assms held_save [of u c now v "toBase64Url random" s]
    by (auto simp: issues_def generateAuthenticationOptions_def Let_def)
next
  case (OpRegister now v resp d og)
  obtain x s1 where x: "verifyRegistration decode now v resp d og s = (x, s1)"
    by (cases "verifyRegistration decode now v resp d og s")
  then have "(r \<noteq> None) = (\<not> isl x)" "s' = s1" using assms OpRegister by (auto split: sum.splits)
  then show ?thesis using consumes_held(1) [OF verifyRegistration_state [OF x], of u c] OpRegister
    by (auto simp: issues_def presents_def split: if_splits)
next
  case (OpAuthenticate now v resp d og)
  obtain x s1 where x: "verifyAuthentication decode now v resp d og s = (x, s1)"
    by (cases "verifyAuthentication decode now v resp d og s")
  then have "(r \<noteq> None) = (\<not> isl x)" "s' = s1" using assms OpAuthenticate by (auto split: sum.splits)
  then show ?thesis using consumes_held(1) [OF verifyAuthentication_state(1) [OF x], of u c] OpAuthenticate
    by (auto simp: issues_def presents_def split: if_splits)
qed

lemma wa_run_held:
  "snd (wa_run decode u c ops (s, n)) + held u c (fst (wa_run decode u c ops (s, n))) \<le>
   n + held u c s + length (filter (issues u c) ops)"
proof (induction ops arbitrary: s n)
  case (Cons oper ops)
  obtain r s' where st: "wa_step decode oper s = (r, s')" by (cases "wa_step decode oper s")
  show ?case using Cons.IH [of s' "if r \<noteq> None \<and> presents u c oper then n + 1 else n"] wa_step_held [OF st, of u c]
    by (auto simp: st split: if_splits)
qed simp

definition fresh_service :: webauthn where
  "fresh_service = \<lparr>wa_registrations = Map.empty, wa_pendingChallenges = Map.empty\<rparr>"

text \<open>
  C33. In any run of the service, in which users ask for options, register and authenticate in any order,
  a challenge is accepted from a user at most as often as it was issued to him: with random challenges, at
  most once.
\<close>

theorem passkey_challenge_single_use:
  "snd (wa_run decode u c ops (fresh_service, 0)) \<le> length (filter (issues u c) ops)"
  using wa_run_held [of decode u c ops fresh_service 0] by (simp add: held_def fresh_service_def pending_of_def)

section \<open>What an authentication establishes\<close>

text \<open>
  C34. An authentication succeeds only with a credential that this user registered, a challenge of his that
  has not expired, and client data of the right type that repeat the challenge and the origin.
\<close>

theorem passkey_authentication_sound:
  assumes "verifyAuthentication decode now u resp c og s = (Inr p, s')"
  shows "(\<exists>q \<in> set (passkeys_of u s). pk_credentialId q = credential_id (ar_id resp) (ar_rawId resp)) \<and>
         (\<exists>x \<in> set (pending_of u s). pc_challenge x = c \<and> now < pc_expiresAt x) \<and>
         (\<exists>fs. decode (ar_clientDataJSON resp) = Inr (JObject fs) \<and> map_of fs ''challenge'' = Some (JString c) \<and>
               map_of fs ''origin'' = Some (JString og) \<and> map_of fs ''type'' = Some (JString ''webauthn.get''))"
proof -
  have "consumes now u c True s s'" using verifyAuthentication_state(1) [OF assms] by simp
  then have live: "\<exists>x \<in> set (pending_of u s). pc_challenge x = c \<and> now < pc_expiresAt x"
    by (rule consumes_held(2)) simp
  obtain cd r1 s1 where cd: "decode (ar_clientDataJSON resp) = Inr cd"
      and chk: "check_client_data now u cd c og ''webauthn.get'' s = (Inr (), s1)"
    using assms by (auto simp: verifyAuthentication_def M_defs split: sum.splits if_splits option.splits prod.splits)
  then obtain fs where "cd = JObject fs" "map_of fs ''challenge'' = Some (JString c)"
      "map_of fs ''origin'' = Some (JString og)" "map_of fs ''type'' = Some (JString ''webauthn.get'')"
    by (cases cd) (auto simp: check_client_data_def M_defs assertEqual_def js_member_def split: sum.splits if_splits prod.splits)
  with cd live verifyAuthentication_state(2) [OF assms] show ?thesis by auto
qed

text \<open>
  The signature is not verified: of two answers that differ in the authenticator data and the signature
  only, and have both, either both are accepted or neither, with the same effect.
\<close>

theorem passkey_signature_ignored:
  assumes "d1 \<noteq> []" and "g1 \<noteq> []" and "d2 \<noteq> []" and "g2 \<noteq> []"
  shows "verifyAuthentication decode now u (resp\<lparr>ar_authenticatorData := d1, ar_signature := g1\<rparr>) c og =
         verifyAuthentication decode now u (resp\<lparr>ar_authenticatorData := d2, ar_signature := g2\<rparr>) c og"
  using assms by (simp add: verifyAuthentication_def cong: option.case_cong)

section \<open>Examples\<close>

definition demo_decode :: "string \<Rightarrow> json res" where
  "demo_decode t = Inr (JObject [(''challenge'', JString ''abc''), (''origin'', JString ''https://app''), (''type'', JString t)])"

definition demo_service :: webauthn where
  "demo_service = \<lparr>wa_registrations = [''u'' \<mapsto> [\<lparr>pk_userId = ''u'', pk_credentialId = ''k'', pk_publicKey = ''att'', pk_createdAt = 0,
     pk_lastUsedAt = None\<rparr>]], wa_pendingChallenges = [''u'' \<mapsto> [\<lparr>pc_challenge = ''abc'', pc_expiresAt = 60000\<rparr>]]\<rparr>"

definition demo_response :: AuthenticationResponse where
  "demo_response = \<lparr>ar_id = ''k'', ar_rawId = ''k'', ar_clientDataJSON = ''webauthn.get'', ar_authenticatorData = ''d'',
     ar_signature = ''forged'', ar_userHandle = None, ar_type = ''public-key''\<rparr>"

lemma demo_authenticates: "\<exists>p s'. verifyAuthentication demo_decode 1000 ''u'' demo_response ''abc'' ''https://app'' demo_service = (Inr p, s')"
  by (simp add: verifyAuthentication_def M_defs demo_response_def demo_service_def demo_decode_def check_client_data_def
      consumeChallenge_def passkeys_of_def pending_of_def credential_id_def js_member_def assertEqual_def)

theorem passkey_authentication_sound_witness:
  "\<exists>q \<in> set (passkeys_of ''u'' demo_service). pk_credentialId q = ''k''"
proof -
  obtain p s' where "verifyAuthentication demo_decode 1000 ''u'' demo_response ''abc'' ''https://app'' demo_service = (Inr p, s')"
    using demo_authenticates by blast
  from passkey_authentication_sound [OF this] show ?thesis by (simp add: demo_response_def credential_id_def)
qed

theorem passkey_signature_ignored_witness:
  "\<exists>p s'. verifyAuthentication demo_decode 1000 ''u'' (demo_response\<lparr>ar_authenticatorData := ''x'', ar_signature := ''y''\<rparr>)
     ''abc'' ''https://app'' demo_service = (Inr p, s')"
proof -
  have "demo_response = demo_response\<lparr>ar_authenticatorData := ''d'', ar_signature := ''forged''\<rparr>" by (simp add: demo_response_def)
  then show ?thesis
    using demo_authenticates passkey_signature_ignored [of "''d''" "''forged''" "''x''" "''y''" demo_decode 1000 "''u''" demo_response
        "''abc''" "''https://app''"] by simp
qed

end
