(* ===== verification/Erasure.thy ===== *)
theory Erasure
  imports AuditTrail
begin

text \<open>
  Erasure of a user and the export of a suspicious activity report
  (\<open>apps/api/src/admin/admin.service.ts\<close>) on the tables they touch. The steps of the database transaction are
  in the order of the code, with the deletion of a user cascading to his rows as the schema declares; a
  failure in it undoes all of them. SHA-256, the random identifiers and secrets and the clock are parameters.
\<close>

section \<open>Redaction of metadata\<close>

definition PII_KEYS :: "string list" where
  "PII_KEYS = map toLowerCase [''email'', ''name'', ''fullName'', ''phone'', ''phoneNumber'', ''dateOfBirth'', ''dob'',
     ''documentRef'', ''documentNumber'', ''ipAddress'', ''userAgent'']"

definition is_pii :: "string \<Rightarrow> bool" where
  "is_pii k = (toLowerCase k \<in> set PII_KEYS)"

primrec redactPii :: "json \<Rightarrow> json" where
  "redactPii JNull = JNull"
| "redactPii (JBool b) = JBool b"
| "redactPii (JNumber n) = JNumber n"
| "redactPii (JString s) = JString s"
| "redactPii (JArray xs) = JArray (map redactPii xs)"
| "redactPii (JObject fs) = JObject (filter (\<lambda>kv. \<not> is_pii (fst kv)) (map (map_prod id redactPii) fs))"

section \<open>Tables\<close>

record er_user = User +
  eu_email :: string
  eu_password :: string
  eu_name :: "string option"
  eu_createdAt :: int

record er_wallet = Wallet +
  ew_encryptedSecret :: string
  ew_encryptedDek :: "string option"
  ew_kmsKeyId :: "string option"

record AnonymizationTombstone =
  at_originalUserIdHash :: string
  at_pseudonymousUserId :: string
  at_erasedAt :: int

record er_db =
  ed_users :: "er_user list"
  ed_wallets :: "er_wallet list"
  ed_kycs :: "KycRecord list"
  ed_transactions :: "Transaction list"
  ed_audit :: "AuditLog list"
  ed_tombstones :: "AnonymizationTombstone list"
  ed_complianceActions :: "ComplianceAction list"
  ed_complianceApprovals :: "ComplianceApproval list"

text \<open>\<open>en_uuid\<close> is the pseudonym, \<open>en_random i\<close> the hex text of the i-th 32 random bytes, \<open>en_auditId\<close> the ids that
  the database gives to the two audit entries of a call.\<close>

record er_env =
  en_sha256 :: "string \<Rightarrow> string"
  en_uuid :: string
  en_random :: "nat \<Rightarrow> string"
  en_auditId :: "nat \<Rightarrow> string"
  en_now :: int

definition lookupHash :: "er_env \<Rightarrow> string \<Rightarrow> string" where
  "lookupHash env userId = en_sha256 env userId"

definition find_user :: "string \<Rightarrow> er_db \<Rightarrow> er_user option" where
  "find_user userId d = find (\<lambda>u. u_id u = userId) (ed_users d)"

definition find_tombstone :: "string \<Rightarrow> er_db \<Rightarrow> AnonymizationTombstone option" where
  "find_tombstone h d = find (\<lambda>t. at_originalUserIdHash t = h) (ed_tombstones d)"

definition er_is_admin :: "string \<Rightarrow> er_db \<Rightarrow> bool" where
  "er_is_admin adminUserId d =
     (case find_user adminUserId d of None \<Rightarrow> False | Some u \<Rightarrow> u_role u = RoleADMIN \<and> u_erasedAt u = None)"

definition er_assertAdmin :: "string \<Rightarrow> (er_db, unit) M" where
  "er_assertAdmin adminUserId =
     bindM (readM (er_is_admin adminUserId)) (\<lambda>ok. guardM ok (ForbiddenException ''Administrator access is required''))"

definition resolveUserId :: "er_env \<Rightarrow> string \<Rightarrow> er_db \<Rightarrow> string option" where
  "resolveUserId env userId d =
     (case find_user userId d of
        Some u \<Rightarrow> Some (u_id u)
      | None \<Rightarrow> map_option at_pseudonymousUserId (find_tombstone (lookupHash env userId) d))"

definition compliance_entry :: "string \<Rightarrow> int \<Rightarrow> string \<Rightarrow> string \<Rightarrow> json \<Rightarrow> AuditLog" where
  "compliance_entry i now userId operation metadata =
     \<lparr>a_id = i, a_userId = Some userId, a_category = ''COMPLIANCE'', a_operation = operation, a_outcome = ''SUCCESS'',
      a_walletPublicKey = None, a_amount = None, a_assetCode = None, a_destination = None, a_txHash = None,
      a_metadata = Some metadata, a_previousHash = None, a_hash = None, a_createdAt = now\<rparr>"

definition logAccess :: "er_env \<Rightarrow> string \<Rightarrow> string \<Rightarrow> string \<Rightarrow> (er_db, unit) M" where
  "logAccess env adminUserId operation targetLookupHash =
     modifyM (\<lambda>d. d\<lparr>ed_audit := ed_audit d @ [compliance_entry (en_auditId env 0) (en_now env) adminUserId operation
                (JObject [(''targetLookupHash'', JString targetLookupHash)])]\<rparr>)"

section \<open>The transaction of an erasure\<close>

definition create_pseudonym :: "er_env \<Rightarrow> er_user \<Rightarrow> (er_db, unit) M" where
  "create_pseudonym env user d =
     (let p = en_uuid env; email = ''erased+'' @ p @ ''@anonymized.invalid''
      in if \<exists>u \<in> set (ed_users d). u_id u = p \<or> eu_email u = email then (Inl (PrismaError ''P2002''), d)
         else (Inr (), d\<lparr>ed_users := ed_users d @ [\<lparr>u_id = p, u_role = RoleUSER, u_erasedAt = Some (en_now env), eu_email = email,
                 eu_password = ''ERASED:'' @ en_random env 0, eu_name = None, eu_createdAt = eu_createdAt user\<rparr>]\<rparr>))"

fun move_wallets :: "er_env \<Rightarrow> nat \<Rightarrow> er_wallet list \<Rightarrow> er_wallet list \<Rightarrow> er_wallet list" where
  "move_wallets env i [] rows = rows"
| "move_wallets env i (w # ws) rows =
     move_wallets env (i + 1) ws
       (update_where (\<lambda>r. w_id r = w_id w)
          (\<lambda>r. r\<lparr>w_userId := en_uuid env, ew_encryptedSecret := ''ERASED:'' @ en_random env i, ew_encryptedDek := None,
                  ew_kmsKeyId := None\<rparr>) rows)"

fun anonymize_logs :: "er_env \<Rightarrow> AuditLog list \<Rightarrow> AuditLog list \<Rightarrow> AuditLog list" where
  "anonymize_logs env [] rows = rows"
| "anonymize_logs env (l # ls) rows =
     anonymize_logs env ls
       (update_where (\<lambda>r. a_id r = a_id l)
          (\<lambda>r. r\<lparr>a_userId := Some (en_uuid env),
                  a_metadata := (case a_metadata l of None \<Rightarrow> a_metadata r | Some m \<Rightarrow> Some (redactPii m))\<rparr>) rows)"

text \<open>\<open>user.delete\<close> with the cascades of the schema.\<close>

definition delete_user :: "string \<Rightarrow> er_db \<Rightarrow> er_db" where
  "delete_user userId d =
     d\<lparr>ed_users := filter (\<lambda>u. u_id u \<noteq> userId) (ed_users d),
       ed_wallets := filter (\<lambda>w. w_userId w \<noteq> userId) (ed_wallets d),
       ed_kycs := filter (\<lambda>k. k_userId k \<noteq> userId) (ed_kycs d),
       ed_transactions := filter (\<lambda>t. tx_userId t \<noteq> userId) (ed_transactions d)\<rparr>"

definition erase_rows :: "er_env \<Rightarrow> string \<Rightarrow> string \<Rightarrow> er_user \<Rightarrow> er_wallet list \<Rightarrow> (er_db, nat) M" where
  "erase_rows env userId adminUserId user userWallets =
     thenM (create_pseudonym env user)
       (\<lambda>d. let p = en_uuid env;
                d1 = d\<lparr>ed_wallets := move_wallets env 1 userWallets (ed_wallets d)\<rparr>;
                d2 = d1\<lparr>ed_kycs := filter (\<lambda>k. k_userId k \<noteq> userId) (ed_kycs d1)\<rparr>;
                moved = count_where (\<lambda>t. tx_userId t = userId) (ed_transactions d2);
                d3 = d2\<lparr>ed_transactions := update_where (\<lambda>t. tx_userId t = userId) (\<lambda>t. t\<lparr>tx_userId := p\<rparr>) (ed_transactions d2)\<rparr>;
                logs = filter (\<lambda>l. a_userId l = Some userId) (ed_audit d3);
                d4 = d3\<lparr>ed_audit := anonymize_logs env logs (ed_audit d3)\<rparr>;
                d5 = delete_user userId d4
            in if \<exists>t \<in> set (ed_tombstones d5). at_originalUserIdHash t = lookupHash env userId \<or> at_pseudonymousUserId t = p
               then (Inl (PrismaError ''P2002''), d5)
               else (Inr moved,
                     d5\<lparr>ed_tombstones := ed_tombstones d5 @ [\<lparr>at_originalUserIdHash = lookupHash env userId,
                          at_pseudonymousUserId = p, at_erasedAt = en_now env\<rparr>],
                        ed_audit := ed_audit d5 @ [compliance_entry (en_auditId env 1) (en_now env) p ''USER_ERASED''
                          (JObject [(''administeredBy'', JString adminUserId),
                                    (''retainedTransactionCount'', JNumber (Num (of_nat moved)))])]\<rparr>))"

text \<open>\<open>$transaction\<close>: all or nothing.\<close>

definition atomically :: "('s, 'a) M \<Rightarrow> ('s, 'a) M" where
  "atomically m s = (case m s of (Inl e, _) \<Rightarrow> (Inl e, s) | (Inr x, s') \<Rightarrow> (Inr x, s'))"

datatype erase_result = AlreadyErased string int | Erased string int nat

definition eraseUser :: "er_env \<Rightarrow> string \<Rightarrow> string \<Rightarrow> (er_db, erase_result) M" where
  "eraseUser env userId adminUserId =
     thenM (er_assertAdmin adminUserId)
       (thenM (logAccess env adminUserId ''USER_ERASURE_ACCESSED'' (lookupHash env userId))
         (bindM (readM (find_tombstone (lookupHash env userId)))
           (\<lambda>existing. case existing of
              Some t \<Rightarrow> ret (AlreadyErased (at_pseudonymousUserId t) (at_erasedAt t))
            | None \<Rightarrow>
                bindM (readM (find_user userId))
                  (\<lambda>found. case found of
                     None \<Rightarrow> throw (NotFoundException ''User not found'')
                   | Some user \<Rightarrow>
                       bindM (readM (\<lambda>d. filter (\<lambda>w. w_userId w = userId) (ed_wallets d)))
                         (\<lambda>ws. bindM (atomically (erase_rows env userId adminUserId user ws))
                           (\<lambda>n. ret (Erased (en_uuid env) (en_now env) n)))))))"

record sar_report =
  sr_schemaVersion :: string
  sr_generatedAt :: int
  sr_subject :: string
  sr_flaggedTransactionCount :: nat
  sr_auditLogCount :: nat
  sr_flaggedTransactions :: "Transaction list"
  sr_auditLogs :: "AuditLog list"

definition exportSar :: "er_env \<Rightarrow> string \<Rightarrow> string \<Rightarrow> (er_db, sar_report) M" where
  "exportSar env userId adminUserId =
     thenM (er_assertAdmin adminUserId)
       (bindM (readM (resolveUserId env userId))
         (\<lambda>resolved. case resolved of
            None \<Rightarrow> throw (NotFoundException ''User not found'')
          | Some r \<Rightarrow>
              if r = [] then throw (NotFoundException ''User not found'')
              else thenM (logAccess env adminUserId ''SAR_EXPORT_ACCESSED'' (lookupHash env userId))
                (readM (\<lambda>d.
                   let txs = sort_key tx_createdAt (filter (\<lambda>t. tx_userId t = r \<and> tx_flagged t) (ed_transactions d));
                       logs = sort_key a_createdAt (filter (\<lambda>l. a_userId l = Some r) (ed_audit d))
                   in \<lparr>sr_schemaVersion = ''1.0'', sr_generatedAt = en_now env, sr_subject = r,
                       sr_flaggedTransactionCount = length txs, sr_auditLogCount = length logs,
                       sr_flaggedTransactions = txs, sr_auditLogs = logs\<rparr>))))"

section \<open>Redaction\<close>

text \<open>
  The specification, apart from the code: the personal keys, in any case; a value in which no object has such a key; and the
  scalars of a value in order, each with the keys on the path to it.
\<close>

definition personal_key :: "string \<Rightarrow> bool" where
  "personal_key k = (toLowerCase k \<in> {''email'', ''name'', ''fullname'', ''phone'', ''phonenumber'', ''dateofbirth'', ''dob'',
     ''documentref'', ''documentnumber'', ''ipaddress'', ''useragent''})"

primrec pii_free :: "json \<Rightarrow> bool" where
  "pii_free JNull = True"
| "pii_free (JBool b) = True"
| "pii_free (JNumber n) = True"
| "pii_free (JString s) = True"
| "pii_free (JArray xs) = list_all id (map pii_free xs)"
| "pii_free (JObject fs) = list_all (\<lambda>kb. \<not> personal_key (fst kb) \<and> snd kb) (map (map_prod id pii_free) fs)"

primrec scalars :: "json \<Rightarrow> (string list \<times> json) list" where
  "scalars JNull = [([], JNull)]"
| "scalars (JBool b) = [([], JBool b)]"
| "scalars (JNumber n) = [([], JNumber n)]"
| "scalars (JString s) = [([], JString s)]"
| "scalars (JArray xs) = concat (map scalars xs)"
| "scalars (JObject fs) = concat (map (\<lambda>(k, es). map (\<lambda>(path, v). (k # path, v)) es) (map (map_prod id scalars) fs))"

definition redaction_of :: "json \<Rightarrow> json \<Rightarrow> bool" where
  "redaction_of m m' =
     (pii_free m' \<and> scalars m' = filter (\<lambda>(path, v). list_all (\<lambda>k. \<not> personal_key k) path) (scalars m))"

lemma is_pii_personal: "is_pii k = personal_key k"
proof -
  have "set PII_KEYS = {''email'', ''name'', ''fullname'', ''phone'', ''phonenumber'', ''dateofbirth'', ''dob'',
     ''documentref'', ''documentnumber'', ''ipaddress'', ''useragent''}" by code_simp
  then show ?thesis by (simp add: is_pii_def personal_key_def)
qed

lemma pii_free_redact: "pii_free (redactPii j)"
  by (induction j) (auto simp: list_all_iff is_pii_personal)

lemma filter_concat_map: "filter P (concat (map f xs)) = concat (map (\<lambda>x. filter P (f x)) xs)"
  by (induction xs) simp_all

lemma scalars_redact:
  "scalars (redactPii j) = filter (\<lambda>(path, v). list_all (\<lambda>k. \<not> personal_key k) path) (scalars j)"
proof (induction j)
  case (JArray xs)
  then show ?case by (simp add: filter_concat_map cong: map_cong)
next
  case (JObject fs)
  let ?ok = "\<lambda>(path, v :: json). list_all (\<lambda>k. \<not> personal_key k) path"
  let ?at = "\<lambda>(k, es :: (string list \<times> json) list). map (\<lambda>(path, v). (k # path, v)) es"
  have under: "filter ?ok (?at (k, es)) = (if personal_key k then [] else ?at (k, filter ?ok es))" for k es
    by (induction es) auto
  have ih: "\<forall>kv \<in> set fs. scalars (redactPii (snd kv)) = filter ?ok (scalars (snd kv))"
  proof
    fix kv assume "kv \<in> set fs"
    then show "scalars (redactPii (snd kv)) = filter ?ok (scalars (snd kv))"
      using JObject.IH [of kv "snd kv"] by (simp add: prod_set_defs)
  qed
  have "scalars (redactPii (JObject fs)) =
      concat (map ?at (map (map_prod id scalars) (filter (\<lambda>kv. \<not> is_pii (fst kv)) (map (map_prod id redactPii) fs))))"
    by simp
  also have "\<dots> = concat (map (\<lambda>kv. filter ?ok (?at (map_prod id scalars kv))) fs)"
    using ih
  proof (induction fs)
    case (Cons kv fs)
    obtain k v where kv: "kv = (k, v)" by (cases kv)
    then show ?case using Cons under [of k "scalars v"] by (simp add: is_pii_personal)
  qed simp
  also have "\<dots> = filter ?ok (scalars (JObject fs))" by (simp add: filter_concat_map comp_def)
  finally show ?case .
qed simp_all

lemma redaction_redact: "redaction_of m (redactPii m)"
  by (simp add: redaction_of_def pii_free_redact scalars_redact)

section \<open>Erasure\<close>

definition erased_wallet :: "er_env \<Rightarrow> er_wallet \<Rightarrow> bool" where
  "erased_wallet env r =
     (w_userId r = en_uuid env \<and> prefix ''ERASED:'' (ew_encryptedSecret r) \<and> ew_encryptedDek r = None \<and> ew_kmsKeyId r = None)"

lemma move_wallets_map:
  "\<exists>f. move_wallets env i ws rows = map f rows \<and>
       (\<forall>r. w_id (f r) = w_id r \<and> (if w_id r \<in> w_id ` set ws then erased_wallet env (f r) else f r = r))"
proof (induction ws arbitrary: i rows)
  case Nil
  show ?case by (rule exI [of _ id]) simp
next
  case (Cons w ws)
  define g where "g r = (if w_id r = w_id w then r\<lparr>w_userId := en_uuid env, ew_encryptedSecret := ''ERASED:'' @ en_random env i,
    ew_encryptedDek := None, ew_kmsKeyId := None\<rparr> else r)" for r :: er_wallet
  have g: "w_id (g r) = w_id r" "w_id r = w_id w \<Longrightarrow> erased_wallet env (g r)" for r
    by (simp_all add: g_def erased_wallet_def)
  obtain f where f: "move_wallets env (i + 1) ws (map g rows) = map f (map g rows)"
      "\<forall>r. w_id (f r) = w_id r \<and> (if w_id r \<in> w_id ` set ws then erased_wallet env (f r) else f r = r)"
    using Cons.IH [of "i + 1" "map g rows"] by blast
  have "move_wallets env i (w # ws) rows = map (f \<circ> g) rows"
    unfolding move_wallets.simps update_where_def g_def [symmetric] f(1) by simp
  moreover have "\<forall>r. w_id ((f \<circ> g) r) = w_id r \<and> (if w_id r \<in> w_id ` set (w # ws) then erased_wallet env ((f \<circ> g) r) else (f \<circ> g) r = r)"
    using f(2) g by (auto simp: g_def split: if_splits)
  ultimately show ?case by blast
qed

definition anonymized :: "er_env \<Rightarrow> AuditLog \<Rightarrow> AuditLog" where
  "anonymized env r = r\<lparr>a_userId := Some (en_uuid env), a_metadata := map_option redactPii (a_metadata r)\<rparr>"

text \<open>The loop rewrites the entries of the user, each with its own metadata.\<close>

lemma anonymize_logs_map:
  assumes "distinct (map a_id rows)" and "set ls \<subseteq> set rows" and "distinct (map a_id ls)"
  shows "anonymize_logs env ls rows = map (\<lambda>r. if r \<in> set ls then anonymized env r else r) rows"
  using assms
proof (induction ls arbitrary: rows)
  case (Cons l ls)
  define g where "g r = (if r = l then anonymized env r else r)" for r
  have inj: "a_id r = a_id l \<longleftrightarrow> r = l" if "r \<in> set rows" for r
    using Cons.prems(1,2) that by (auto simp: distinct_map inj_on_def)
  have step: "update_where (\<lambda>r. a_id r = a_id l)
      (\<lambda>r. r\<lparr>a_userId := Some (en_uuid env),
         a_metadata := (case a_metadata l of None \<Rightarrow> a_metadata r | Some m \<Rightarrow> Some (redactPii m))\<rparr>) rows = map g rows"
    unfolding update_where_def using inj by (auto simp: g_def anonymized_def split: option.splits)
  have ids: "map a_id (map g rows) = map a_id rows" by (simp add: g_def anonymized_def)
  have notin: "l \<notin> set ls" using Cons.prems(3) by auto
  have sub: "set ls \<subseteq> set (map g rows)" using Cons.prems(2) notin by (force simp: g_def)
  have "anonymize_logs env (l # ls) rows = map (\<lambda>r. if r \<in> set ls then anonymized env r else r) (map g rows)"
    unfolding anonymize_logs.simps step
    by (rule Cons.IH) (use Cons.prems(1,3) sub in \<open>simp_all only: ids list.map distinct.simps\<close>)
  also have "\<dots> = map (\<lambda>r. if r \<in> set (l # ls) then anonymized env r else r) rows"
  proof -
    have "g r \<in> set ls \<longleftrightarrow> r \<in> set ls" if "r \<in> set rows" for r
    proof (cases "r = l")
      case True
      have "anonymized env l \<notin> set ls"
        using Cons.prems(3) by (metis (no_types, lifting) anonymized_def AuditLog.select_convs(1) AuditLog.surjective
            AuditLog.update_convs(2,11) distinct.simps(2) image_eqI list.set_map list.simps(9))
      then show ?thesis using True notin by (simp add: g_def)
    qed (simp add: g_def)
    then show ?thesis using notin by (auto simp: g_def)
  qed
  finally show ?case .
qed simp

text \<open>The audit entry of the access, and the state after it.\<close>

definition access_entry :: "er_env \<Rightarrow> string \<Rightarrow> string \<Rightarrow> string \<Rightarrow> AuditLog" where
  "access_entry env adminUserId operation userId =
     compliance_entry (en_auditId env 0) (en_now env) adminUserId operation
       (JObject [(''targetLookupHash'', JString (lookupHash env userId))])"

lemma eraseUser_Erased:
  assumes "eraseUser env userId adminId d = (Inr (Erased p t n), d')"
  obtains user d1 where "er_is_admin adminId d" and "find_user userId d = Some user" and "p = en_uuid env" and "t = en_now env"
    and "find_tombstone (lookupHash env userId) d = None"
    and "d1 = d\<lparr>ed_audit := ed_audit d @ [access_entry env adminId ''USER_ERASURE_ACCESSED'' userId]\<rparr>"
    and "erase_rows env userId adminId user (filter (\<lambda>w. w_userId w = userId) (ed_wallets d)) d1 = (Inr n, d')"
proof -
  define d1 where "d1 = d\<lparr>ed_audit := ed_audit d @ [access_entry env adminId ''USER_ERASURE_ACCESSED'' userId]\<rparr>"
  have adm: "er_is_admin adminId d" using assms by (auto simp: eraseUser_def er_assertAdmin_def M_defs split: if_splits)
  have log: "logAccess env adminId ''USER_ERASURE_ACCESSED'' (lookupHash env userId) d = (Inr (), d1)"
    by (simp add: logAccess_def M_defs d1_def access_entry_def)
  have same: "find_tombstone h d1 = find_tombstone h d" "find_user userId d1 = find_user userId d" "ed_wallets d1 = ed_wallets d" for h
    by (simp_all add: d1_def find_tombstone_def find_user_def)
  have tomb: "find_tombstone (lookupHash env userId) d = None"
    using assms adm by (auto simp: eraseUser_def er_assertAdmin_def M_defs log [unfolded M_defs] same split: option.splits)
  show thesis
  proof (cases "find_user userId d")
    case None
    then show ?thesis using assms adm tomb by (simp add: eraseUser_def er_assertAdmin_def M_defs log [unfolded M_defs] same)
  next
    case (Some user)
    then show ?thesis
      using assms adm tomb that [OF adm Some _ _ tomb d1_def]
      by (auto simp: eraseUser_def er_assertAdmin_def M_defs log [unfolded M_defs] same atomically_def split: sum.splits prod.splits)
  qed
qed

definition erased_entry :: "er_env \<Rightarrow> string \<Rightarrow> nat \<Rightarrow> AuditLog" where
  "erased_entry env adminId n = compliance_entry (en_auditId env 1) (en_now env) (en_uuid env) ''USER_ERASED''
     (JObject [(''administeredBy'', JString adminId), (''retainedTransactionCount'', JNumber (Num (of_nat n)))])"

lemma erase_rows_Inr:
  assumes "erase_rows env uid adminId user ws d = (Inr n, d')"
  shows "ed_wallets d' = filter (\<lambda>w. w_userId w \<noteq> uid) (move_wallets env 1 ws (ed_wallets d))"
    and "ed_kycs d' = filter (\<lambda>k. k_userId k \<noteq> uid) (ed_kycs d)"
    and "ed_transactions d' = filter (\<lambda>t. tx_userId t \<noteq> uid)
           (update_where (\<lambda>t. tx_userId t = uid) (\<lambda>t. t\<lparr>tx_userId := en_uuid env\<rparr>) (ed_transactions d))"
    and "ed_audit d' = anonymize_logs env (filter (\<lambda>l. a_userId l = Some uid) (ed_audit d)) (ed_audit d) @ [erased_entry env adminId n]"
    and "find_user uid d' = None"
    and "ed_tombstones d' = ed_tombstones d @ [\<lparr>at_originalUserIdHash = lookupHash env uid, at_pseudonymousUserId = en_uuid env,
           at_erasedAt = en_now env\<rparr>]"
    and "n = count_where (\<lambda>t. tx_userId t = uid) (ed_transactions d)"
    and "ed_complianceActions d' = ed_complianceActions d" and "ed_complianceApprovals d' = ed_complianceApprovals d"
  using assms
  by (auto simp: erase_rows_def create_pseudonym_def M_defs Let_def delete_user_def erased_entry_def find_user_def find_None_iff
      split: if_splits)

text \<open>The accounts after an erasure: the others and the pseudonym, whose id and address are new.\<close>

definition pseudonym :: "er_env \<Rightarrow> er_user \<Rightarrow> er_user" where
  "pseudonym env user =
     \<lparr>u_id = en_uuid env, u_role = RoleUSER, u_erasedAt = Some (en_now env), eu_email = ''erased+'' @ en_uuid env @ ''@anonymized.invalid'',
      eu_password = ''ERASED:'' @ en_random env 0, eu_name = None, eu_createdAt = eu_createdAt user\<rparr>"

lemma erase_rows_users:
  assumes "erase_rows env uid adminId user ws d = (Inr n, d')"
  shows "ed_users d' = filter (\<lambda>u. u_id u \<noteq> uid) (ed_users d @ [pseudonym env user])"
    and "\<forall>u \<in> set (ed_users d). u_id u \<noteq> en_uuid env \<and> eu_email u \<noteq> eu_email (pseudonym env user)"
  using assms by (auto simp: erase_rows_def create_pseudonym_def M_defs Let_def delete_user_def pseudonym_def split: if_splits)

lemma eraseUser_users:
  assumes "eraseUser env uid adminId d = (Inr (Erased p t n), d')" and "u \<in> set (ed_users d)" and "u_id u = uid"
  obtains user where "ed_users d' = filter (\<lambda>u. u_id u \<noteq> uid) (ed_users d) @ [pseudonym env user]"
    and "\<forall>u \<in> set (ed_users d). u_id u \<noteq> en_uuid env \<and> eu_email u \<noteq> eu_email (pseudonym env user)"
proof -
  obtain user d1 where d1: "d1 = d\<lparr>ed_audit := ed_audit d @ [access_entry env adminId ''USER_ERASURE_ACCESSED'' uid]\<rparr>"
    and rows: "erase_rows env uid adminId user (filter (\<lambda>w. w_userId w = uid) (ed_wallets d)) d1 = (Inr n, d')"
    using eraseUser_Erased [OF assms(1)] by metis
  have new: "\<forall>u \<in> set (ed_users d). u_id u \<noteq> en_uuid env \<and> eu_email u \<noteq> eu_email (pseudonym env user)"
    using erase_rows_users(2) [OF rows] by (simp add: d1)
  then have "u_id (pseudonym env user) \<noteq> uid" using assms(2,3) by (auto simp: pseudonym_def)
  then show thesis using that [OF _ new] erase_rows_users(1) [OF rows] by (simp add: d1)
qed

lemma filter_moved:
  assumes "p \<noteq> uid"
  shows "filter (\<lambda>t. tx_userId t \<noteq> uid) (update_where (\<lambda>t. tx_userId t = uid) (\<lambda>t. t\<lparr>tx_userId := p\<rparr>) ts) =
         map (\<lambda>t. if tx_userId t = uid then t\<lparr>tx_userId := p\<rparr> else t) ts"
  using assms by (induction ts) simp_all

lemma anonymized_simps [simp]:
  "a_id (anonymized env r) = a_id r" "a_operation (anonymized env r) = a_operation r" "a_hash (anonymized env r) = a_hash r"
  "a_userId (anonymized env r) = Some (en_uuid env)" "a_metadata (anonymized env r) = map_option redactPii (a_metadata r)"
  by (simp_all add: anonymized_def)

text \<open>The entry of the user as it is after the erasure.\<close>

definition erased_log :: "string \<Rightarrow> AuditLog \<Rightarrow> AuditLog \<Rightarrow> bool" where
  "erased_log p l l' =
     (l' = l\<lparr>a_userId := Some p, a_metadata := a_metadata l'\<rparr> \<and> rel_option redaction_of (a_metadata l) (a_metadata l'))"

lemma erased_log_anonymized: "erased_log (en_uuid env) l (anonymized env l)"
  by (cases "a_metadata l") (simp_all add: erased_log_def anonymized_def redaction_redact)

text \<open>The audit log after the rows were rewritten: its entries in order, and the two of the erasure.\<close>

lemma erase_rows_audit:
  assumes "erase_rows env uid adminId user ws (d\<lparr>ed_audit := ed_audit d @ [access_entry env adminId ''USER_ERASURE_ACCESSED'' uid]\<rparr>) = (Inr n, d')"
    and "distinct (en_auditId env 0 # map a_id (ed_audit d))" and "en_uuid env \<noteq> uid"
  shows "list_all (\<lambda>l. a_userId l \<noteq> Some uid) (ed_audit d')"
    and "\<exists>logs access erased. ed_audit d' = logs @ [access, erased] \<and>
      list_all2 (\<lambda>l l'. if a_userId l = Some uid then erased_log (en_uuid env) l l' else l' = l) (ed_audit d) logs \<and>
      a_operation access = ''USER_ERASURE_ACCESSED'' \<and> a_operation erased = ''USER_ERASED''"
proof -
  define d1 where "d1 = d\<lparr>ed_audit := ed_audit d @ [access_entry env adminId ''USER_ERASURE_ACCESSED'' uid]\<rparr>"
  define logs where "logs = filter (\<lambda>l. a_userId l = Some uid) (ed_audit d1)"
  define after where "after r = (if a_userId r = Some uid then anonymized env r else r)" for r
  have "distinct (map a_id (ed_audit d1))" using assms(2) by (simp add: d1_def access_entry_def compliance_entry_def)
  then have audit: "ed_audit d' = map after (ed_audit d1) @ [erased_entry env adminId n]"
    using anonymize_logs_map [of "ed_audit d1" logs env] erase_rows_Inr(4) [OF assms(1) [folded d1_def]]
    by (auto simp: logs_def distinct_map_filter after_def)
  then show "list_all (\<lambda>l. a_userId l \<noteq> Some uid) (ed_audit d')"
    using assms(3) by (auto simp: list_all_iff after_def erased_entry_def compliance_entry_def)
  have "ed_audit d' = map after (ed_audit d) @
      [after (access_entry env adminId ''USER_ERASURE_ACCESSED'' uid), erased_entry env adminId n]"
    by (simp add: audit d1_def)
  moreover have "list_all2 (\<lambda>l l'. if a_userId l = Some uid then erased_log (en_uuid env) l l' else l' = l) (ed_audit d) (map after (ed_audit d))"
    by (simp add: list.rel_map list.rel_refl after_def erased_log_anonymized)
  moreover have "a_operation (after (access_entry env adminId ''USER_ERASURE_ACCESSED'' uid)) = ''USER_ERASURE_ACCESSED''"
      "a_operation (erased_entry env adminId n) = ''USER_ERASED''"
    by (simp_all add: after_def access_entry_def erased_entry_def compliance_entry_def)
  ultimately show "\<exists>logs access erased. ed_audit d' = logs @ [access, erased] \<and>
      list_all2 (\<lambda>l l'. if a_userId l = Some uid then erased_log (en_uuid env) l l' else l' = l) (ed_audit d) logs \<and>
      a_operation access = ''USER_ERASURE_ACCESSED'' \<and> a_operation erased = ''USER_ERASED''" by blast
qed

text \<open>
  C31. An erasure leaves no row under the id of the user in the tables of the users, the wallets, the KYC records, the transactions and the audit
  log, and loses nothing that must be kept. Every transaction is still there, those of the user under the pseudonym and counted in the
  answer; his wallets belong to the pseudonym with their secrets overwritten. Every audit entry of others is unchanged; those of the user
  differ in naming the pseudonym and in their metadata, where no object has a personal key and every value under no such key is
  kept; two entries of the erasure follow. The two tables of the compliance actions are not touched, so that an officer who asked for one or approved it
  stays in them with his id. The ids of the wallets and of the audit entries are unique and the pseudonym is not the old id.
\<close>

theorem erasure_complete:
  assumes "eraseUser env uid adminId d = (Inr (Erased p t n), d')"
    and "distinct (map w_id (ed_wallets d))" and "distinct (en_auditId env 0 # map a_id (ed_audit d))" and "en_uuid env \<noteq> uid"
  shows "find_user uid d' = None \<and> list_all (\<lambda>w. w_userId w \<noteq> uid) (ed_wallets d') \<and>
         list_all (\<lambda>k. k_userId k \<noteq> uid) (ed_kycs d') \<and> list_all (\<lambda>l. a_userId l \<noteq> Some uid) (ed_audit d') \<and>
         ed_transactions d' = map (\<lambda>x. if tx_userId x = uid then x\<lparr>tx_userId := p\<rparr> else x) (ed_transactions d) \<and>
         n = count_where (\<lambda>x. tx_userId x = uid) (ed_transactions d) \<and>
         map w_id (ed_wallets d') = map w_id (ed_wallets d) \<and>
         list_all (\<lambda>w. w_id w \<in> w_id ` {v \<in> set (ed_wallets d). w_userId v = uid} \<longrightarrow> erased_wallet env w) (ed_wallets d') \<and>
         (\<exists>logs access erased. ed_audit d' = logs @ [access, erased] \<and>
            list_all2 (\<lambda>l l'. if a_userId l = Some uid then erased_log p l l' else l' = l) (ed_audit d) logs \<and>
            a_operation access = ''USER_ERASURE_ACCESSED'' \<and> a_operation erased = ''USER_ERASED'') \<and>
         ed_complianceActions d' = ed_complianceActions d \<and> ed_complianceApprovals d' = ed_complianceApprovals d"
proof -
  obtain user d1 where pt: "p = en_uuid env" and d1: "d1 = d\<lparr>ed_audit := ed_audit d @ [access_entry env adminId ''USER_ERASURE_ACCESSED'' uid]\<rparr>"
    and rows: "erase_rows env uid adminId user (filter (\<lambda>w. w_userId w = uid) (ed_wallets d)) d1 = (Inr n, d')"
    using eraseUser_Erased [OF assms(1)] by metis
  note er = erase_rows_Inr [OF rows]
  note audit = erase_rows_audit [OF rows [unfolded d1] assms(3,4), folded pt]
  obtain f where f: "move_wallets env 1 (filter (\<lambda>w. w_userId w = uid) (ed_wallets d)) (ed_wallets d) = map f (ed_wallets d)"
      "\<And>r. w_id (f r) = w_id r"
      "\<And>r. if w_id r \<in> w_id ` {v \<in> set (ed_wallets d). w_userId v = uid} then erased_wallet env (f r) else f r = r"
    using move_wallets_map [of env 1 "filter (\<lambda>w. w_userId w = uid) (ed_wallets d)" "ed_wallets d"] by auto
  have moved: "w_userId (f r) \<noteq> uid" if "r \<in> set (ed_wallets d)" for r
    using f(3) [of r] that assms(4) by (auto simp: erased_wallet_def split: if_splits)
  have wal: "ed_wallets d' = map f (ed_wallets d)"
    using er(1) moved by (simp add: d1 f(1) [unfolded One_nat_def] filter_id_conv)
  have tx: "ed_transactions d' = map (\<lambda>x. if tx_userId x = uid then x\<lparr>tx_userId := p\<rparr> else x) (ed_transactions d)"
    unfolding er(3) filter_moved [OF assms(4)] pt by (simp add: d1)
  have secrets: "list_all (\<lambda>w. w_id w \<in> w_id ` {v \<in> set (ed_wallets d). w_userId v = uid} \<longrightarrow> erased_wallet env w) (ed_wallets d')"
    using f(2,3) by (auto simp: wal list_all_iff)
  have "list_all (\<lambda>w. w_userId w \<noteq> uid) (ed_wallets d')" "map w_id (ed_wallets d') = map w_id (ed_wallets d)"
    using moved f(2) by (auto simp: wal list_all_iff)
  moreover have "list_all (\<lambda>k. k_userId k \<noteq> uid) (ed_kycs d')" "n = count_where (\<lambda>x. tx_userId x = uid) (ed_transactions d)"
    using er(2,7) by (auto simp: list_all_iff d1)
  moreover have "ed_complianceActions d' = ed_complianceActions d" "ed_complianceApprovals d' = ed_complianceApprovals d"
    using er(8,9) by (simp_all add: d1)
  ultimately show ?thesis using er(5) tx audit secrets by blast
qed

text \<open>
  Erasing again finds the tombstone: it answers with the same pseudonym and date and changes nothing but the
  log of accesses, for an administrator other than the user himself. The request to export a report under the old
  id then resolves to the pseudonym.
\<close>

theorem erasure_idempotent:
  assumes "eraseUser env uid adminId d = (Inr (Erased p t n), d')" and "er_is_admin adminId d'"
    and "en_sha256 env2 = en_sha256 env"
  shows "eraseUser env2 uid adminId d' =
           (Inr (AlreadyErased p t), d'\<lparr>ed_audit := ed_audit d' @ [access_entry env2 adminId ''USER_ERASURE_ACCESSED'' uid]\<rparr>) \<and>
         resolveUserId env2 uid d' = Some p"
proof -
  obtain user d1 where pt: "p = en_uuid env" "t = en_now env" and no: "find_tombstone (lookupHash env uid) d = None"
    and d1: "d1 = d\<lparr>ed_audit := ed_audit d @ [access_entry env adminId ''USER_ERASURE_ACCESSED'' uid]\<rparr>"
    and rows: "erase_rows env uid adminId user (filter (\<lambda>w. w_userId w = uid) (ed_wallets d)) d1 = (Inr n, d')"
    using eraseUser_Erased [OF assms(1)] by metis
  note er = erase_rows_Inr [OF rows]
  have h: "lookupHash env2 uid = lookupHash env uid" using assms(3) by (simp add: lookupHash_def)
  have tomb: "find_tombstone (lookupHash env uid) d' =
      Some \<lparr>at_originalUserIdHash = lookupHash env uid, at_pseudonymousUserId = p, at_erasedAt = t\<rparr>"
    using no by (simp add: find_tombstone_def er(6) d1 find_append pt)
  have "find_tombstone (lookupHash env uid) (d'\<lparr>ed_audit := x\<rparr>) = find_tombstone (lookupHash env uid) d'" for x
    by (simp add: find_tombstone_def)
  then show ?thesis
    using tomb er(5) assms(2)
    by (simp add: eraseUser_def er_assertAdmin_def logAccess_def M_defs h access_entry_def resolveUserId_def)
qed

section \<open>Erasure and the chain of hashes\<close>

lemma chain_from_sealed: "chain_from digest toISO prev rows \<Longrightarrow> r \<in> set rows \<Longrightarrow> a_hash r \<noteq> None"
  by (induction rows arbitrary: prev) auto

lemma access_entry_unsealed [simp]: "a_hash (access_entry env adminId op uid) = None"
  by (simp add: access_entry_def compliance_entry_def)

lemma eraseUser_unsealed:
  assumes "er_is_admin adminId d"
  shows "\<exists>l \<in> set (ed_audit (snd (eraseUser env uid adminId d))). a_hash l = None"
proof -
  define d1 where "d1 = d\<lparr>ed_audit := ed_audit d @ [access_entry env adminId ''USER_ERASURE_ACCESSED'' uid]\<rparr>"
  have log: "logAccess env adminId ''USER_ERASURE_ACCESSED'' (lookupHash env uid) d = (Inr (), d1)"
    by (simp add: logAccess_def M_defs d1_def access_entry_def)
  have here: "\<exists>l \<in> set (ed_audit d1). a_hash l = None" by (simp add: d1_def)
  have there: "\<exists>l \<in> set (ed_audit d2). a_hash l = None"
    if "erase_rows env uid adminId user ws d1 = (Inr n, d2)" for user ws n d2
    using erase_rows_Inr(4) [OF that] by (simp add: erased_entry_def compliance_entry_def)
  show ?thesis
    using assms here there
    by (auto simp: eraseUser_def er_assertAdmin_def M_defs log [unfolded M_defs] atomically_def split: option.splits sum.splits prod.splits)
qed

text \<open>
  Every access of an administrator breaks the hash chain of the audit trail, whatever the outcome of the request:
  its entry is written without a hash and without a link.
\<close>

theorem admin_access_breaks_chain:
  assumes "er_is_admin adminId d"
  shows "\<not> chain_ok digest toISO (ed_audit (snd (eraseUser env uid adminId d)))"
  using eraseUser_unsealed [OF assms] chain_from_sealed unfolding chain_ok_def by metis

section \<open>A concrete erasure\<close>

definition ex_env :: er_env where
  "ex_env = \<lparr>en_sha256 = (\<lambda>s. ''h-'' @ s), en_uuid = ''p'', en_random = (\<lambda>i. ''r''), en_auditId = (\<lambda>i. if i = 0 then ''e0'' else ''e1''), en_now = 7\<rparr>"

definition ex_log :: AuditLog where
  "ex_log = (compliance_entry ''l'' 3 ''u'' ''WALLET_CREATED'' (JObject [(''Email'', JString ''a''), (''k'', JNull)]))\<lparr>a_hash := Some ''x''\<rparr>"

definition ex_db :: er_db where
  "ex_db =
     \<lparr>ed_users = [\<lparr>u_id = ''adm'', u_role = RoleADMIN, u_erasedAt = None, eu_email = ''b'', eu_password = [], eu_name = None, eu_createdAt = 0\<rparr>,
                  \<lparr>u_id = ''u'', u_role = RoleUSER, u_erasedAt = None, eu_email = ''a'', eu_password = [], eu_name = None, eu_createdAt = 1\<rparr>],
      ed_wallets = [\<lparr>w_id = ''w'', w_userId = ''u'', w_publicKey = ''G'', w_alias = None, w_isDefault = True,
                     ew_encryptedSecret = ''s'', ew_encryptedDek = Some ''k'', ew_kmsKeyId = None\<rparr>],
      ed_kycs = [\<lparr>k_userId = ''u'', k_status = KycPENDING, k_tier = TierNONE, k_documentType = None, k_documentRef = None,
                  k_submittedAt = None, k_reviewedAt = None, k_rejectionReason = None\<rparr>],
      ed_transactions = [], ed_audit = [ex_log], ed_tombstones = [], ed_complianceActions = [], ed_complianceApprovals = []\<rparr>"

lemma pii_examples: "is_pii ''Email''" "\<not> is_pii ''k''"
  by (simp_all add: is_pii_def PII_KEYS_def toLowerCase_def lower_char_def code_of_def char_of_def bit_0)

definition ex_erased :: er_db where
  "ex_erased = snd (eraseUser ex_env ''u'' ''adm'' ex_db)"

lemmas ex_defs = ex_env_def ex_db_def ex_log_def compliance_entry_def find_user_def find_tombstone_def lookupHash_def

lemma ex_erasure: "eraseUser ex_env ''u'' ''adm'' ex_db = (Inr (Erased ''p'' 7 0), ex_erased)"
  by (simp add: ex_erased_def eraseUser_def er_assertAdmin_def er_is_admin_def logAccess_def atomically_def erase_rows_def
      create_pseudonym_def M_defs ex_defs Let_def delete_user_def count_where_def)

theorem erasure_complete_witness:
  "find_user ''u'' ex_erased = None \<and> list_all (\<lambda>l. a_userId l \<noteq> Some ''u'') (ed_audit ex_erased) \<and>
   (\<exists>l m rest. ed_audit ex_erased = l # rest \<and> a_userId l = Some ''p'' \<and> a_metadata l = Some m \<and> pii_free m \<and>
      scalars m = [([''k''], JNull)])"
proof -
  have pre: "distinct (map w_id (ed_wallets ex_db))" "distinct (en_auditId ex_env 0 # map a_id (ed_audit ex_db))" "en_uuid ex_env \<noteq> ''u''"
    by (simp_all add: ex_defs)
  have l: "a_userId ex_log = Some ''u''" "ed_audit ex_db = [ex_log]" "a_metadata ex_log = Some (JObject [(''Email'', JString ''a''), (''k'', JNull)])"
    by (simp_all add: ex_defs)
  from erasure_complete [OF ex_erasure pre] obtain logs access erased where
      a: "ed_audit ex_erased = logs @ [access, erased]" "list_all2 (\<lambda>l l'. if a_userId l = Some ''u'' then erased_log ''p'' l l' else l' = l) [ex_log] logs"
      and rest: "find_user ''u'' ex_erased = None" "list_all (\<lambda>l. a_userId l \<noteq> Some ''u'') (ed_audit ex_erased)"
    unfolding l(2) by blast
  from a(2) obtain l' where logs: "logs = [l']" and e: "erased_log ''p'' ex_log l'" by (auto simp: list_all2_Cons1 l(1))
  from e have u: "a_userId l' = Some ''p''" unfolding erased_log_def by (metis AuditLog.select_convs(2) AuditLog.surjective AuditLog.update_convs(2,11))
  from e obtain m where m: "a_metadata l' = Some m" "redaction_of (JObject [(''Email'', JString ''a''), (''k'', JNull)]) m"
    by (auto simp: erased_log_def l(3) option_rel_Some1)
  have "pii_free m" "scalars m = [([''k''], JNull)]"
    using m(2) by (simp_all add: redaction_of_def pii_examples [unfolded is_pii_personal])
  then show ?thesis using a(1) logs u m(1) rest by auto
qed

theorem erasure_idempotent_witness: "resolveUserId ex_env ''u'' ex_erased = Some ''p''"
proof -
  have "er_is_admin ''adm'' ex_erased"
    by (simp add: ex_erased_def eraseUser_def er_assertAdmin_def er_is_admin_def logAccess_def atomically_def erase_rows_def
      create_pseudonym_def M_defs ex_defs Let_def delete_user_def count_where_def)
  from erasure_idempotent [OF ex_erasure this refl] show ?thesis by (rule conjunct2)
qed

theorem admin_access_breaks_chain_witness:
  "\<not> chain_ok (\<lambda>_. ''d'') (\<lambda>_. ''t'') (ed_audit (snd (eraseUser ex_env ''u'' ''adm'' ex_db)))"
proof -
  have "er_is_admin ''adm'' ex_db" by (simp add: er_is_admin_def ex_defs)
  then show ?thesis by (rule admin_access_breaks_chain)
qed

end
