(* ===== verification/Accounts.thy ===== *)
theory Accounts
  imports Erasure
begin

text \<open>
  Accounts with a password (\<open>apps/api/src/auth/auth.service.ts\<close>) and the guard of their tokens (\<open>jwt.strategy.ts\<close>,
  \<open>jwt-auth.guard.ts\<close>) on the tables of the users and of the audit log. The password hash, the token library and the optional
  audit service are parameters; the audit service takes the arguments of \<open>log\<close> and the table.

  \<open>login\<close> names \<open>AuditCategory\<close>, which is declared nowhere: evaluating it raises a \<open>ReferenceError\<close>.
\<close>

section \<open>Tokens and the environment\<close>

record claims =
  cl_sub :: string
  cl_email :: string
  cl_role :: "UserRole option"

record auth_db =
  au_users :: "er_user list"
  au_audit :: "AuditLog list"

record auth_env =
  av_hash :: "string \<Rightarrow> string"
  av_compare :: "string \<Rightarrow> string \<Rightarrow> bool res"
  av_sign :: "claims \<Rightarrow> string \<Rightarrow> string"
  av_verify :: "string \<Rightarrow> claims res"
  av_auditLog :: "(log_args \<Rightarrow> AuditLog list \<Rightarrow> AuditLog list) option"
  av_newId :: string
  av_now :: int

record session_user =
  su_id :: string
  su_email :: string
  su_role :: UserRole

record auth_answer =
  aa_access_token :: string
  aa_user :: session_user

definition find_email :: "string \<Rightarrow> er_user list \<Rightarrow> er_user option" where
  "find_email email us = find (\<lambda>u. eu_email u = email) us"

definition find_id :: "string \<Rightarrow> er_user list \<Rightarrow> er_user option" where
  "find_id i us = find (\<lambda>u. u_id u = i) us"

definition issue_token :: "auth_env \<Rightarrow> er_user \<Rightarrow> string" where
  "issue_token env user = av_sign env \<lparr>cl_sub = u_id user, cl_email = eu_email user, cl_role = Some (u_role user)\<rparr> ''7d''"

definition answer_for :: "auth_env \<Rightarrow> er_user \<Rightarrow> auth_answer" where
  "answer_for env user =
     \<lparr>aa_access_token = issue_token env user, aa_user = \<lparr>su_id = u_id user, su_email = eu_email user, su_role = u_role user\<rparr>\<rparr>"

definition audit_event :: "auth_env \<Rightarrow> string \<Rightarrow> string \<Rightarrow> json \<Rightarrow> (auth_db, unit) M" where
  "audit_event env userId action metadata =
     (case av_auditLog env of
        None \<Rightarrow> ret ()
      | Some f \<Rightarrow> modifyM (\<lambda>d. d\<lparr>au_audit := f (Positional (Some userId) (Some action) (Some metadata)) (au_audit d)\<rparr>))"

section \<open>The service\<close>

text \<open>The name of the request is logged and not stored.\<close>

definition create_account :: "auth_env \<Rightarrow> string \<Rightarrow> string \<Rightarrow> (auth_db, er_user) M" where
  "create_account env email hashedPassword d =
     (if \<exists>u \<in> set (au_users d). u_id u = av_newId env \<or> eu_email u = email then (Inl (PrismaError ''P2002''), d)
      else let user = \<lparr>u_id = av_newId env, u_role = RoleUSER, u_erasedAt = None, eu_email = email, eu_password = hashedPassword,
                       eu_name = None, eu_createdAt = av_now env\<rparr>
           in (Inr user, d\<lparr>au_users := au_users d @ [user]\<rparr>))"

definition register :: "auth_env \<Rightarrow> string \<Rightarrow> string \<Rightarrow> string option \<Rightarrow> (auth_db, auth_answer) M" where
  "register env email pwd userName =
     bindM (readM (\<lambda>d. find_email email (au_users d)))
       (\<lambda>existing.
          if existing \<noteq> None then throw (ConflictException ''User already exists'')
          else bindM (create_account env email (av_hash env pwd))
                 (\<lambda>user. thenM (audit_event env (u_id user) ''REGISTER''
                             (JObject ((''email'', JString (eu_email user)) #
                                       (case userName of None \<Rightarrow> [] | Some n \<Rightarrow> [(''name'', JString n)]))))
                           (ret (answer_for env user))))"

definition undeclared_category :: "auth_env \<Rightarrow> exn" where
  "undeclared_category env =
     (if av_auditLog env = None then JsError ''TypeError'' (''Cannot read properties of undefined (reading '' @ [CHR 0x27] @ ''log'' @ [CHR 0x27] @ '')'')
      else JsError ''ReferenceError'' ''AuditCategory is not defined'')"

definition check_password :: "auth_env \<Rightarrow> string \<Rightarrow> string \<Rightarrow> unit res" where
  "check_password env pwd storedHash =
     (case av_compare env pwd storedHash of
        Inr True \<Rightarrow> Inr ()
      | _ \<Rightarrow> Inl (UnauthorizedException ''Invalid credentials''))"

definition login :: "auth_env \<Rightarrow> string \<Rightarrow> string \<Rightarrow> (auth_db, auth_answer) M" where
  "login env email pwd =
     bindM (readM (\<lambda>d. find_email email (au_users d)))
       (\<lambda>found. case found of
          None \<Rightarrow> throw (undeclared_category env)
        | Some user \<Rightarrow>
            if eu_password user = [] then throw (undeclared_category env)
            else bindM (liftR (check_password env pwd (eu_password user)))
                   (\<lambda>_. thenM (audit_event env (u_id user) ''LOGIN'' (JObject [(''email'', JString (eu_email user))]))
                         (ret (answer_for env user))))"

definition refreshToken :: "auth_env \<Rightarrow> string \<Rightarrow> (auth_db, string) M" where
  "refreshToken env oldToken =
     bindM (liftR (av_verify env oldToken))
       (\<lambda>decoded. bindM (readM (\<lambda>d. find_id (cl_sub decoded) (au_users d)))
         (\<lambda>found. case found of
            None \<Rightarrow> throw (UnauthorizedException ''User not found'')
          | Some user \<Rightarrow> ret (issue_token env user)))"

section \<open>The guard\<close>

record jwt_payload =
  jp_sub :: string
  jp_email :: "string option"
  jp_role :: "string option"
  jp_type :: "string option"

record request_user =
  ru_userId :: string
  ru_email :: "string option"
  ru_role :: string

definition jwt_validate :: "jwt_payload \<Rightarrow> request_user res" where
  "jwt_validate p =
     (if jp_type p = Some ''refresh'' then Inl (UnauthorizedException ''AUTH_TOKEN_INVALID'')
      else Inr \<lparr>ru_userId = jp_sub p, ru_email = jp_email p, ru_role = (case jp_role p of None \<Rightarrow> ''USER'' | Some r \<Rightarrow> r)\<rparr>)"

definition handleRequest :: "exn option \<Rightarrow> request_user option \<Rightarrow> string option \<Rightarrow> request_user res" where
  "handleRequest err user infoName =
     (if infoName = Some ''TokenExpiredError'' then Inl (UnauthorizedException ''AUTH_TOKEN_EXPIRED'')
      else case err of
             Some e \<Rightarrow> Inl e
           | None \<Rightarrow> (case user of None \<Rightarrow> Inl (UnauthorizedException ''AUTH_TOKEN_INVALID'') | Some u \<Rightarrow> Inr u))"

section \<open>Registration and login\<close>

definition accounts_ok :: "auth_db \<Rightarrow> bool" where
  "accounts_ok d = (distinct (map u_id (au_users d)) \<and> distinct (map eu_email (au_users d)))"

lemma audit_event_run: "\<exists>d'. audit_event env i a m d = (Inr (), d') \<and> au_users d' = au_users d"
  by (auto simp: audit_event_def M_defs split: option.splits)

lemma register_Inr:
  assumes "register env email pwd userName d = (Inr ans, d')"
  obtains user where "find_email email (au_users d) = None" and "au_users d' = au_users d @ [user]" and "ans = answer_for env user"
    and "eu_email user = email" and "eu_password user = av_hash env pwd" and "u_id user = av_newId env"
    and "av_newId env \<notin> u_id ` set (au_users d)"
proof -
  have none: "find_email email (au_users d) = None" using assms by (auto simp: register_def M_defs split: if_splits)
  show thesis
  proof (cases "\<exists>u \<in> set (au_users d). u_id u = av_newId env \<or> eu_email u = email")
    case True
    then show ?thesis using assms none by (simp add: register_def create_account_def M_defs)
  next
    case False
    define user where "user = \<lparr>u_id = av_newId env, u_role = RoleUSER, u_erasedAt = None, eu_email = email, eu_password = av_hash env pwd,
      eu_name = None, eu_createdAt = av_now env\<rparr>"
    define meta where "meta = JObject ((''email'', JString email) # (case userName of None \<Rightarrow> [] | Some n \<Rightarrow> [(''name'', JString n)]))"
    obtain d2 where d2: "audit_event env (av_newId env) ''REGISTER'' meta (d\<lparr>au_users := au_users d @ [user]\<rparr>) = (Inr (), d2)"
        "au_users d2 = au_users d @ [user]"
      using audit_event_run [of env "av_newId env" "''REGISTER''" meta "d\<lparr>au_users := au_users d @ [user]\<rparr>"] by auto
    have "create_account env email (av_hash env pwd) d = (Inr user, d\<lparr>au_users := au_users d @ [user]\<rparr>)"
      using False by (simp add: create_account_def user_def Let_def)
    then have "register env email pwd userName d = (Inr (answer_for env user), d2)"
      using none d2(1) by (simp add: register_def bindM_def thenM_def readM_def ret_def user_def [symmetric])
        (simp add: user_def meta_def ret_def)
    then show ?thesis using that [of user] assms none d2(2) False by (force simp: user_def)
  qed
qed

text \<open>
  An account that was registered can log in with its password and gets a session for the same user, whose token can be
  exchanged for a new one; ids and e-mail addresses stay unique. The hash of a password is not empty and matches it, and the
  token verifies to its claims.
\<close>

theorem register_login_roundtrip:
  assumes "register env email pwd userName d = (Inr ans, d')" and "accounts_ok d"
    and "av_hash env pwd \<noteq> []" and "av_compare env pwd (av_hash env pwd) = Inr True"
    and "av_verify env (aa_access_token ans) =
           Inr \<lparr>cl_sub = su_id (aa_user ans), cl_email = su_email (aa_user ans), cl_role = Some (su_role (aa_user ans))\<rparr>"
  shows "accounts_ok d' \<and> fst (login env email pwd d') = Inr ans \<and>
         fst (refreshToken env (aa_access_token ans) d') = Inr (aa_access_token ans)"
proof -
  obtain user where u: "find_email email (au_users d) = None" "au_users d' = au_users d @ [user]" "ans = answer_for env user"
      "eu_email user = email" "eu_password user = av_hash env pwd" "u_id user = av_newId env" "av_newId env \<notin> u_id ` set (au_users d)"
    using register_Inr [OF assms(1)] by metis
  have "email \<notin> eu_email ` set (au_users d)" using u(1) by (auto simp: find_email_def find_None_iff)
  then have ok: "accounts_ok d'" using assms(2) u(2,4,6,7) by (simp add: accounts_ok_def)
  have "find_id (u_id user) (au_users d) = None" using u(6,7) by (force simp: find_id_def find_None_iff)
  then have found: "find_email email (au_users d') = Some user" "find_id (u_id user) (au_users d') = Some user"
    using u(1,2,4) by (simp_all add: find_email_def find_id_def find_append)
  obtain d2 where "audit_event env (u_id user) ''LOGIN'' (JObject [(''email'', JString (eu_email user))]) d' = (Inr (), d2)"
    using audit_event_run by metis
  then have "fst (login env email pwd d') = Inr ans"
    using found(1) u(3,5) assms(3,4) by (simp add: login_def check_password_def bindM_def thenM_def readM_def liftR_def ret_def)
  moreover have "fst (refreshToken env (aa_access_token ans) d') = Inr (aa_access_token ans)"
    using found(2) u(3) assms(5) by (simp add: refreshToken_def answer_for_def issue_token_def M_defs)
  ultimately show ?thesis using ok by simp
qed

text \<open>
  A login succeeds only for a user whose stored hash matches the password. A wrong password is answered with 401; an e-mail
  address that is not registered raises an error of the runtime instead, so that the two can be told apart.
\<close>

theorem login_verdict:
  "(fst (login env email pwd d) = Inr ans \<longrightarrow>
      (\<exists>user. find_email email (au_users d) = Some user \<and> av_compare env pwd (eu_password user) = Inr True \<and> ans = answer_for env user)) \<and>
   (find_email email (au_users d) = None \<longrightarrow> fst (login env email pwd d) = Inl (undeclared_category env)) \<and>
   (\<forall>user. find_email email (au_users d) = Some user \<longrightarrow> eu_password user \<noteq> [] \<longrightarrow> av_compare env pwd (eu_password user) = Inr False \<longrightarrow>
      fst (login env email pwd d) = Inl (UnauthorizedException ''Invalid credentials''))"
proof (cases "find_email email (au_users d)")
  case None
  then show ?thesis by (simp add: login_def M_defs)
next
  case (Some user)
  show ?thesis
  proof (cases "eu_password user = [] \<or> av_compare env pwd (eu_password user) \<noteq> Inr True")
    case True
    then show ?thesis using Some
      by (auto simp: login_def M_defs check_password_def undeclared_category_def split: sum.splits bool.splits)
  next
    case False
    obtain d2 where "audit_event env (u_id user) ''LOGIN'' (JObject [(''email'', JString (eu_email user))]) d = (Inr (), d2)"
      using audit_event_run by metis
    then show ?thesis
      using False Some by (simp add: login_def check_password_def bindM_def thenM_def readM_def liftR_def ret_def)
  qed
qed

section \<open>A concrete environment\<close>

text \<open>A hash that marks the password and tokens that carry the id of the user.\<close>

definition plain_env :: "claims \<Rightarrow> auth_env" where
  "plain_env c =
     \<lparr>av_hash = (\<lambda>p. CHR ''$'' # p), av_compare = (\<lambda>p h. Inr (h = CHR ''$'' # p)), av_sign = (\<lambda>_ _. ''t''), av_verify = (\<lambda>_. Inr c),
      av_auditLog = None, av_newId = ''u1'', av_now = 4\<rparr>"

definition plain_db :: auth_db where
  "plain_db = \<lparr>au_users = [\<lparr>u_id = ''u0'', u_role = RoleADMIN, u_erasedAt = None, eu_email = ''a'', eu_password = ''$x'', eu_name = None,
     eu_createdAt = 1\<rparr>], au_audit = []\<rparr>"

definition plain_claims :: claims where
  "plain_claims = \<lparr>cl_sub = ''u1'', cl_email = ''b'', cl_role = Some RoleUSER\<rparr>"

theorem register_login_roundtrip_witness:
  "\<exists>ans d'. register (plain_env plain_claims) ''b'' ''y'' None plain_db = (Inr ans, d') \<and>
     fst (login (plain_env plain_claims) ''b'' ''y'' d') = Inr ans"
proof -
  obtain ans d' where run: "register (plain_env plain_claims) ''b'' ''y'' None plain_db = (Inr ans, d')"
      and u: "su_id (aa_user ans) = ''u1''" "su_email (aa_user ans) = ''b''" "su_role (aa_user ans) = RoleUSER"
    by (simp add: register_def create_account_def audit_event_def M_defs Let_def plain_db_def plain_env_def find_email_def answer_for_def)
  have pre: "accounts_ok plain_db" "av_hash (plain_env plain_claims) ''y'' \<noteq> []"
    "av_compare (plain_env plain_claims) ''y'' (av_hash (plain_env plain_claims) ''y'') = Inr True"
    "av_verify (plain_env plain_claims) (aa_access_token ans) =
       Inr \<lparr>cl_sub = su_id (aa_user ans), cl_email = su_email (aa_user ans), cl_role = Some (su_role (aa_user ans))\<rparr>"
    by (simp_all add: accounts_ok_def plain_db_def plain_env_def plain_claims_def u)
  from register_login_roundtrip [OF run pre] show ?thesis using run by blast
qed

theorem login_verdict_witness:
  "fst (login (plain_env plain_claims) ''b'' ''x'' plain_db) =
     Inl (JsError ''TypeError'' (''Cannot read properties of undefined (reading '' @ [CHR 0x27] @ ''log'' @ [CHR 0x27] @ '')''))"
proof -
  have "find_email ''b'' (au_users plain_db) = None" by (simp add: plain_db_def find_email_def)
  then have "fst (login (plain_env plain_claims) ''b'' ''x'' plain_db) = Inl (undeclared_category (plain_env plain_claims))"
    using login_verdict [of "plain_env plain_claims" "''b''" "''x''" plain_db] by blast
  then show ?thesis by (simp add: undeclared_category_def plain_env_def)
qed

end
