(* ===== verification/Sep12.thy ===== *)
theory Sep12
  imports Schema
begin

text \<open>
  Customer information after SEP-12 (\<open>apps/api/src/anchor/sep12.service.ts\<close>) on the tables of wallets and KYC records. The account
  is the one that the SEP-10 guard put into the request. The webhook is the list of the notifications it is sent, when its URL is
  configured; the answer of the remote side is ignored by the code.
\<close>

section \<open>Tables and answers\<close>

record customer_kyc = KycRecord +
  ck_id :: string
  ck_firstName :: "string option"
  ck_lastName :: "string option"
  ck_idType :: "string option"
  ck_photoId :: "string option"

record s12_db =
  s12_wallets :: "Wallet list"
  s12_kycs :: "customer_kyc list"
  s12_webhook :: "(string \<times> KycStatus) list"

datatype customer_status = NEEDS_INFO | ACCEPTED | REJECTED | PROCESSING

record customer_answer =
  cu_id :: "string option"
  cu_status :: customer_status
  cu_provided_fields :: "string list"
  cu_message :: "string option"

record customer_data =
  cd_first_name :: "string option"
  cd_last_name :: "string option"
  cd_id_type :: "string option"
  cd_file :: "string option"

section \<open>Operations\<close>

definition wallet_of :: "string \<Rightarrow> s12_db \<Rightarrow> Wallet option" where
  "wallet_of account d = find (\<lambda>w. w_publicKey w = account) (s12_wallets d)"

definition kyc_of :: "string \<Rightarrow> s12_db \<Rightarrow> customer_kyc option" where
  "kyc_of userId d = find (\<lambda>k. k_userId k = userId) (s12_kycs d)"

definition sep12_status :: "KycStatus \<Rightarrow> customer_status" where
  "sep12_status st = (case st of KycAPPROVED \<Rightarrow> ACCEPTED | KycREJECTED \<Rightarrow> REJECTED | KycPENDING \<Rightarrow> PROCESSING)"

definition provided :: "customer_kyc \<Rightarrow> string list" where
  "provided k =
     (if truthy (ck_firstName k) then [''first_name''] else []) @ (if truthy (ck_lastName k) then [''last_name''] else []) @
     (if truthy (ck_idType k) then [''id_type''] else []) @ (if truthy (ck_photoId k) then [''photo_id''] else [])"

definition getCustomer :: "string \<Rightarrow> s12_db \<Rightarrow> customer_answer res" where
  "getCustomer account d =
     (case wallet_of account d of
        None \<Rightarrow> Inl (NotFoundException ''Wallet not found'')
      | Some wallet \<Rightarrow>
          (case kyc_of (w_userId wallet) d of
             None \<Rightarrow> Inr \<lparr>cu_id = None, cu_status = NEEDS_INFO, cu_provided_fields = [], cu_message = None\<rparr>
           | Some kyc \<Rightarrow>
               (let status = sep12_status (k_status kyc)
                in Inr \<lparr>cu_id = Some (ck_id kyc), cu_status = status, cu_provided_fields = provided kyc,
                        cu_message = (if status = REJECTED \<and> truthy (k_rejectionReason kyc) then k_rejectionReason kyc else None)\<rparr>)))"

text \<open>\<open>updateData\<close>: the members that the request gives, and the status.\<close>

definition apply_data :: "customer_data \<Rightarrow> customer_kyc \<Rightarrow> customer_kyc" where
  "apply_data cd k =
     (let given = (\<lambda>new old. if truthy new then new else old);
          documentRef = ''mock-s3-key:'' @ (case cd_file cd of None \<Rightarrow> [] | Some n \<Rightarrow> n);
          k1 = k\<lparr>ck_firstName := given (cd_first_name cd) (ck_firstName k), ck_lastName := given (cd_last_name cd) (ck_lastName k),
                 ck_idType := given (cd_id_type cd) (ck_idType k)\<rparr>;
          k2 = (if cd_file cd = None then k1 else k1\<lparr>ck_photoId := Some documentRef, k_documentRef := Some documentRef\<rparr>)
      in k2\<lparr>k_status := KycPENDING\<rparr>)"

definition empty_kyc :: "string \<Rightarrow> string \<Rightarrow> customer_kyc" where
  "empty_kyc i userId =
     \<lparr>k_userId = userId, k_status = KycPENDING, k_tier = TierNONE, k_documentType = None, k_documentRef = None, k_submittedAt = None,
      k_reviewedAt = None, k_rejectionReason = None, ck_id = i, ck_firstName = None, ck_lastName = None, ck_idType = None, ck_photoId = None\<rparr>"

definition upsert_kyc :: "string \<Rightarrow> string \<Rightarrow> customer_data \<Rightarrow> s12_db \<Rightarrow> customer_kyc \<times> s12_db" where
  "upsert_kyc newId userId cd d =
     (case kyc_of userId d of
        None \<Rightarrow> (let k = apply_data cd (empty_kyc newId userId) in (k, d\<lparr>s12_kycs := s12_kycs d @ [k]\<rparr>))
      | Some k \<Rightarrow> (apply_data cd k, d\<lparr>s12_kycs := update_where (\<lambda>r. k_userId r = userId) (apply_data cd) (s12_kycs d)\<rparr>))"

definition notifyThirdPartyWebhook :: "bool \<Rightarrow> string \<Rightarrow> KycStatus \<Rightarrow> s12_db \<Rightarrow> s12_db" where
  "notifyThirdPartyWebhook configured account st d =
     (if configured then d\<lparr>s12_webhook := s12_webhook d @ [(account, st)]\<rparr> else d)"

definition putCustomer :: "bool \<Rightarrow> string \<Rightarrow> string \<Rightarrow> customer_data \<Rightarrow> (s12_db, string) M" where
  "putCustomer configured newId account cd d =
     (case wallet_of account d of
        None \<Rightarrow> (Inl (NotFoundException ''Wallet not found''), d)
      | Some wallet \<Rightarrow>
          (case upsert_kyc newId (w_userId wallet) cd d of
             (kyc, d') \<Rightarrow> (Inr (ck_id kyc), notifyThirdPartyWebhook configured account (k_status kyc) d')))"

section \<open>A stored customer can be read back\<close>

lemma apply_data_simps [simp]:
  "k_userId (apply_data cd k) = k_userId k" "ck_id (apply_data cd k) = ck_id k" "k_status (apply_data cd k) = KycPENDING"
  "k_tier (apply_data cd k) = k_tier k"
  by (simp_all add: apply_data_def Let_def)

lemma provided_apply:
  "set (provided (apply_data cd k)) = set (provided k) \<union>
     {f. f = ''first_name'' \<and> truthy (cd_first_name cd) \<or> f = ''last_name'' \<and> truthy (cd_last_name cd) \<or>
         f = ''id_type'' \<and> truthy (cd_id_type cd) \<or> f = ''photo_id'' \<and> cd_file cd \<noteq> None}"
  by (auto simp: provided_def apply_data_def Let_def truthy_def split: option.splits)

lemma find_updated:
  assumes "\<And>r. g (f r) = g r"
  shows "find (\<lambda>r. g r = u) (update_where (\<lambda>r. g r = u) f rows) = map_option f (find (\<lambda>r. g r = u) rows)"
  using assms by (induction rows) (auto simp: update_where_def)

lemma upsert_found:
  assumes "upsert_kyc newId u cd d = (k, d')"
  shows "kyc_of u d' = Some k \<and> s12_wallets d' = s12_wallets d \<and> k_status k = KycPENDING \<and>
    (\<exists>k0. k = apply_data cd k0 \<and> (kyc_of u d = Some k0 \<or> kyc_of u d = None \<and> k0 = empty_kyc newId u)) \<and>
    (\<forall>v. v \<noteq> u \<longrightarrow> kyc_of v d' = kyc_of v d)"
proof (cases "kyc_of u d")
  case None
  have uid: "k_userId (empty_kyc newId u) = u" by (simp add: empty_kyc_def)
  show ?thesis
    using assms None by (auto simp: upsert_kyc_def Let_def kyc_of_def find_append uid split: option.splits)
next
  case (Some k0)
  have other: "find (\<lambda>r. k_userId r = v) (update_where (\<lambda>r. k_userId r = u) (apply_data cd) rows) = find (\<lambda>r. k_userId r = v) rows"
    if "v \<noteq> u" for v rows
    using that by (induction rows) (auto simp: update_where_def)
  show ?thesis
    using assms Some find_updated [of k_userId "apply_data cd" u "s12_kycs d"]
    by (auto simp: upsert_kyc_def kyc_of_def other)
qed

text \<open>
  C37. After a customer has sent information, reading the account gives the id that was answered, the status PROCESSING and every field
  that was known before or sent now, and no other user's record changes. An approved customer who sends anything is back
  to PROCESSING.
\<close>

theorem sep12_put_get:
  assumes "putCustomer configured newId account cd d = (Inr i, d')" and "wallet_of account d = Some wallet"
  shows "\<exists>ans. getCustomer account d' = Inr ans \<and> cu_id ans = Some i \<and> cu_status ans = PROCESSING \<and> cu_message ans = None \<and>
    set (cu_provided_fields ans) =
      (case kyc_of (w_userId wallet) d of None \<Rightarrow> {} | Some k \<Rightarrow> set (provided k)) \<union>
      {f. f = ''first_name'' \<and> truthy (cd_first_name cd) \<or> f = ''last_name'' \<and> truthy (cd_last_name cd) \<or>
          f = ''id_type'' \<and> truthy (cd_id_type cd) \<or> f = ''photo_id'' \<and> cd_file cd \<noteq> None} \<and>
    (\<forall>v. v \<noteq> w_userId wallet \<longrightarrow> kyc_of v d' = kyc_of v d)"
proof -
  obtain k d1 where up: "upsert_kyc newId (w_userId wallet) cd d = (k, d1)" and i: "i = ck_id k"
      and d': "d' = notifyThirdPartyWebhook configured account (k_status k) d1"
    using assms by (auto simp: putCustomer_def split: prod.splits)
  have same: "wallet_of account d' = wallet_of account d1" "\<And>v. kyc_of v d' = kyc_of v d1"
    by (simp_all add: d' notifyThirdPartyWebhook_def wallet_of_def kyc_of_def)
  note f = upsert_found [OF up]
  have w: "wallet_of account d' = Some wallet" using assms(2) f unfolding same by (simp add: wallet_of_def)
  obtain k0 where k0: "k = apply_data cd k0" "kyc_of (w_userId wallet) d = Some k0 \<or> kyc_of (w_userId wallet) d = None \<and> k0 = empty_kyc newId (w_userId wallet)"
    using f by blast
  have "set (provided k0) = (case kyc_of (w_userId wallet) d of None \<Rightarrow> {} | Some k \<Rightarrow> set (provided k))"
    using k0(2) by (auto simp: provided_def empty_kyc_def truthy_def)
  then show ?thesis
    using f w unfolding same by (simp add: getCustomer_def same i sep12_status_def Let_def k0(1) provided_apply)
qed

theorem sep12_put_get_witness:
  "\<exists>i d'. putCustomer False ''k1'' ''G'' \<lparr>cd_first_name = Some ''Ada'', cd_last_name = None, cd_id_type = None, cd_file = None\<rparr>
      \<lparr>s12_wallets = [\<lparr>w_id = ''w'', w_userId = ''u'', w_publicKey = ''G'', w_alias = None, w_isDefault = True\<rparr>], s12_kycs = [], s12_webhook = []\<rparr> =
      (Inr i, d') \<and> (\<exists>ans. getCustomer ''G'' d' = Inr ans \<and> cu_status ans = PROCESSING)"
proof -
  let ?w = "\<lparr>w_id = ''w'', w_userId = ''u'', w_publicKey = ''G'', w_alias = None, w_isDefault = True\<rparr>"
  let ?d = "\<lparr>s12_wallets = [?w], s12_kycs = [], s12_webhook = []\<rparr>"
  let ?cd = "\<lparr>cd_first_name = Some ''Ada'', cd_last_name = None, cd_id_type = None, cd_file = None\<rparr>"
  obtain i d' where run: "putCustomer False ''k1'' ''G'' ?cd ?d = (Inr i, d')"
    by (simp add: putCustomer_def wallet_of_def upsert_kyc_def kyc_of_def Let_def)
  have "wallet_of ''G'' ?d = Some ?w" by (simp add: wallet_of_def)
  from sep12_put_get [OF run this] obtain ans where ans: "getCustomer ''G'' d' = Inr ans" "cu_status ans = PROCESSING" by metis
  show ?thesis by (intro exI conjI, rule run, rule ans(1), rule ans(2))
qed

end
