(* ===== verification/Trustlines.thy ===== *)
theory Trustlines
  imports JsNumber
begin

text \<open>
  Trustlines of Stellar assets (\<open>apps/api/src/anchor/trustline.utils.ts\<close>): the check of an account, the creation of a
  missing trustline, its removal, the check of several assets and the check before a transfer.

  The Horizon server and the SDK are parameters over the state \<open>'n\<close> of the network: \<open>tv_loadAccount\<close> reads an account,
  \<open>tv_submit\<close> submits a signed transaction and \<open>tv_newAsset\<close> is the constructor of an asset, with the error it raises.
  The functions throw plain objects of the type \<open>TrustlineError\<close>, and pass on the errors of the SDK where they do not
  catch them.
\<close>

section \<open>Assets, accounts and errors\<close>

record TrustlineAsset =
  ta_code :: string
  ta_issuer :: string

datatype TrustlineStatusType = TlExists | TlMissing | TlUnauthorised | TlZeroLimit

record TrustlineStatus =
  ts_status :: TrustlineStatusType
  ts_balance :: "string option"
  ts_limit :: "string option"
  ts_asset :: TrustlineAsset

datatype trustline_code =
    ACCOUNT_NOT_FOUND | AUTHORISATION_REQUIRED | ZERO_LIMIT | INSUFFICIENT_RESERVE | HORIZON_ERROR | UNKNOWN

record TrustlineError =
  te_code :: trustline_code
  te_message :: string
  te_asset :: TrustlineAsset
  te_horizonStatus :: "nat option"

record EnsureTrustlineResult =
  et_created :: bool
  et_txHash :: "string option"
  et_status :: TrustlineStatus

text \<open>What the sources read of an error of Horizon; \<open>he_opCode\<close> is the first operation code of the result.\<close>

record horizon_error =
  he_status :: "nat option"
  he_name :: "string option"
  he_message :: "string option"
  he_opCode :: "string option"

record balance_line =
  bl_asset_type :: string
  bl_asset_code :: "string option"
  bl_asset_issuer :: "string option"
  bl_balance :: string
  bl_limit :: "string option"
  bl_is_authorized :: "bool option"

record hz_account =
  ha_sequence :: int
  ha_balances :: "balance_line list"

text \<open>A signed transaction with one \<open>changeTrust\<close> operation.\<close>

record change_trust =
  ct_source :: string
  ct_sequence :: int
  ct_passphrase :: string
  ct_asset :: TrustlineAsset
  ct_limit :: "string option"
  ct_timeout :: nat

datatype tl_exn = Thrown TrustlineError | Raised horizon_error

record 'n tl_env =
  tv_loadAccount :: "string \<Rightarrow> 'n \<Rightarrow> horizon_error + hz_account"
  tv_submit :: "change_trust \<Rightarrow> 'n \<Rightarrow> (horizon_error + string) \<times> 'n"
  tv_newAsset :: "TrustlineAsset \<Rightarrow> horizon_error option"

definition buildError :: "trustline_code \<Rightarrow> string \<Rightarrow> TrustlineAsset \<Rightarrow> nat option \<Rightarrow> tl_exn" where
  "buildError code message asset horizonStatus =
     Thrown \<lparr>te_code = code, te_message = message, te_asset = asset, te_horizonStatus = horizonStatus\<rparr>"

text \<open>The text of an optional message in a template.\<close>

definition shown :: "string option \<Rightarrow> string" where
  "shown m = (case m of None \<Rightarrow> ''undefined'' | Some t \<Rightarrow> t)"

section \<open>The check\<close>

definition is_line_of :: "TrustlineAsset \<Rightarrow> balance_line \<Rightarrow> bool" where
  "is_line_of asset b =
     (bl_asset_type b \<noteq> ''native'' \<and> bl_asset_code b = Some (ta_code asset) \<and> bl_asset_issuer b = Some (ta_issuer asset))"

definition line_limit :: "balance_line \<Rightarrow> jsnum" where
  "line_limit b = parseFloat (case bl_limit b of None \<Rightarrow> ''0'' | Some l \<Rightarrow> l)"

definition status_of :: "TrustlineAsset \<Rightarrow> balance_line option \<Rightarrow> TrustlineStatus" where
  "status_of asset line =
     (let plain = (\<lambda>st. \<lparr>ts_status = st, ts_balance = None, ts_limit = None, ts_asset = asset\<rparr>)
      in case line of
           None \<Rightarrow> plain TlMissing
         | Some b \<Rightarrow>
             if line_limit b = Num 0 then plain TlZeroLimit
             else if bl_is_authorized b = Some False then plain TlUnauthorised
             else \<lparr>ts_status = TlExists, ts_balance = Some (bl_balance b), ts_limit = bl_limit b, ts_asset = asset\<rparr>)"

definition checkTrustline :: "'n tl_env \<Rightarrow> string \<Rightarrow> TrustlineAsset \<Rightarrow> 'n \<Rightarrow> tl_exn + TrustlineStatus" where
  "checkTrustline env publicKey asset n =
     (case tv_loadAccount env publicKey n of
        Inl err \<Rightarrow>
          if he_status err = Some 404 \<or> he_name err = Some ''NotFoundError''
          then Inl (buildError ACCOUNT_NOT_FOUND (''Account '' @ publicKey @ '' not found on Horizon'') asset None)
          else Inl (buildError HORIZON_ERROR (''Horizon request failed: '' @ shown (he_message err)) asset (he_status err))
      | Inr account \<Rightarrow> Inr (status_of asset (find (is_line_of asset) (ha_balances account))))"

section \<open>Creation\<close>

definition submit_error :: "TrustlineAsset \<Rightarrow> horizon_error \<Rightarrow> tl_exn" where
  "submit_error asset err =
     (let opCode = (case he_opCode err of None \<Rightarrow> [] | Some c \<Rightarrow> c)
      in if opCode = ''op_low_reserve''
         then buildError INSUFFICIENT_RESERVE ''Insufficient XLM reserve to create trustline (op_low_reserve)'' asset (he_status err)
         else if opCode = ''op_not_authorized''
         then buildError AUTHORISATION_REQUIRED (''Asset '' @ ta_code asset @ '' requires issuer authorisation'') asset (he_status err)
         else buildError HORIZON_ERROR (''ChangeTrust submission failed: '' @ (if opCode \<noteq> [] then opCode else shown (he_message err)))
                asset (he_status err))"

text \<open>The part that both submissions share: the account is loaded again, the transaction built, signed and sent; \<open>h\<close>
  translates the error of the submission.\<close>

definition send_change_trust ::
  "'n tl_env \<Rightarrow> string \<Rightarrow> TrustlineAsset \<Rightarrow> string \<Rightarrow> string option \<Rightarrow> (horizon_error \<Rightarrow> tl_exn) \<Rightarrow> 'n \<Rightarrow> (tl_exn + string) \<times> 'n" where
  "send_change_trust env publicKey asset networkPassphrase limit h n =
     (case tv_loadAccount env publicKey n of
        Inl err \<Rightarrow> (Inl (Raised err), n)
      | Inr account \<Rightarrow>
          (case tv_newAsset env asset of
             Some err \<Rightarrow> (Inl (Raised err), n)
           | None \<Rightarrow>
               (case tv_submit env \<lparr>ct_source = publicKey, ct_sequence = ha_sequence account + 1, ct_passphrase = networkPassphrase,
                        ct_asset = asset, ct_limit = limit, ct_timeout = 30\<rparr> n of
                  (Inl err, n') \<Rightarrow> (Inl (h err), n')
                | (Inr hash, n') \<Rightarrow> (Inr hash, n'))))"

definition submitChangeTrust ::
  "'n tl_env \<Rightarrow> string \<Rightarrow> TrustlineAsset \<Rightarrow> string \<Rightarrow> string option \<Rightarrow> 'n \<Rightarrow> (tl_exn + string) \<times> 'n" where
  "submitChangeTrust env publicKey asset networkPassphrase limit =
     send_change_trust env publicKey asset networkPassphrase (if truthy limit then limit else None) (submit_error asset)"

definition ensureTrustline ::
  "'n tl_env \<Rightarrow> string \<Rightarrow> TrustlineAsset \<Rightarrow> string \<Rightarrow> string option \<Rightarrow> 'n \<Rightarrow> (tl_exn + EnsureTrustlineResult) \<times> 'n" where
  "ensureTrustline env publicKey asset networkPassphrase limit n =
     (case checkTrustline env publicKey asset n of
        Inl e \<Rightarrow> (Inl e, n)
      | Inr current \<Rightarrow>
          (case ts_status current of
             TlExists \<Rightarrow> (Inr \<lparr>et_created = False, et_txHash = None, et_status = current\<rparr>, n)
           | TlUnauthorised \<Rightarrow>
               (Inl (buildError AUTHORISATION_REQUIRED
                  (''Asset '' @ ta_code asset @ '' requires issuer authorisation; account is not yet authorised'') asset None), n)
           | TlZeroLimit \<Rightarrow>
               (Inl (buildError ZERO_LIMIT
                  (''Trustline limit for '' @ ta_code asset @ '' is zero; transfers will be rejected'') asset None), n)
           | TlMissing \<Rightarrow>
               (case submitChangeTrust env publicKey asset networkPassphrase limit n of
                  (Inl e, n') \<Rightarrow> (Inl e, n')
                | (Inr txHash, n') \<Rightarrow>
                    (case checkTrustline env publicKey asset n' of
                       Inl e \<Rightarrow> (Inl e, n')
                     | Inr updated \<Rightarrow> (Inr \<lparr>et_created = True, et_txHash = Some txHash, et_status = updated\<rparr>, n')))))"

section \<open>Several assets, removal and the check before a transfer\<close>

definition checkTrustlinesBatch ::
  "'n tl_env \<Rightarrow> string \<Rightarrow> TrustlineAsset list \<Rightarrow> 'n \<Rightarrow> (TrustlineAsset \<times> (tl_exn + TrustlineStatus)) list" where
  "checkTrustlinesBatch env publicKey assets n = map (\<lambda>asset. (asset, checkTrustline env publicKey asset n)) assets"

definition isTrustlineError :: "tl_exn + TrustlineStatus \<Rightarrow> bool" where
  "isTrustlineError value = (case value of Inl (Thrown _) \<Rightarrow> True | _ \<Rightarrow> False)"

definition remove_error :: "TrustlineAsset \<Rightarrow> horizon_error \<Rightarrow> tl_exn" where
  "remove_error asset err =
     buildError HORIZON_ERROR (''Failed to remove trustline: '' @ shown (he_message err)) asset (he_status err)"

definition removeTrustline ::
  "'n tl_env \<Rightarrow> string \<Rightarrow> TrustlineAsset \<Rightarrow> string \<Rightarrow> 'n \<Rightarrow> (tl_exn + string) \<times> 'n" where
  "removeTrustline env publicKey asset networkPassphrase n =
     (case checkTrustline env publicKey asset n of
        Inl e \<Rightarrow> (Inl e, n)
      | Inr current \<Rightarrow>
          if ts_status current = TlMissing
          then (Inl (buildError UNKNOWN (''No trustline for '' @ ta_code asset @ '' exists on '' @ publicKey) asset None), n)
          else if ts_status current = TlExists \<and>
                  js_lt (Num 0) (parseFloat (case ts_balance current of None \<Rightarrow> ''0'' | Some b \<Rightarrow> b))
          then (Inl (buildError UNKNOWN (''Cannot remove trustline for '' @ ta_code asset @ '': account still holds '' @
                  shown (ts_balance current)) asset None), n)
          else send_change_trust env publicKey asset networkPassphrase (Some ''0'') (remove_error asset) n)"

definition ensureTrustlineBeforeTransfer ::
  "'n tl_env \<Rightarrow> string \<Rightarrow> TrustlineAsset \<Rightarrow> 'n \<Rightarrow> tl_exn + TrustlineStatus" where
  "ensureTrustlineBeforeTransfer env destinationPublicKey asset n =
     (if ta_code asset = ''XLM''
      then Inr \<lparr>ts_status = TlExists, ts_balance = Some ''0'', ts_limit = Some ''native'', ts_asset = asset\<rparr>
      else case checkTrustline env destinationPublicKey asset n of
             Inl e \<Rightarrow> Inl e
           | Inr status \<Rightarrow>
               (case ts_status status of
                  TlMissing \<Rightarrow>
                    Inl (buildError UNKNOWN (''Destination account has no trustline for '' @ ta_code asset @
                      ''. The recipient must add one before receiving this asset.'') asset None)
                | TlUnauthorised \<Rightarrow>
                    Inl (buildError AUTHORISATION_REQUIRED (''Destination account is not authorised for '' @ ta_code asset) asset None)
                | TlZeroLimit \<Rightarrow>
                    Inl (buildError ZERO_LIMIT (''Destination account trustline limit for '' @ ta_code asset @ '' is zero'') asset None)
                | TlExists \<Rightarrow> Inr status))"

section \<open>What the operations guarantee\<close>

lemma status_of_cases:
  "ts_status (status_of asset None) = TlMissing"
  "ts_status (status_of asset (Some b)) =
     (if line_limit b = Num 0 then TlZeroLimit else if bl_is_authorized b = Some False then TlUnauthorised else TlExists)"
  by (simp_all add: status_of_def Let_def)

text \<open>A line through which the account can receive the asset.\<close>

definition usable_line :: "TrustlineAsset \<Rightarrow> hz_account \<Rightarrow> balance_line \<Rightarrow> bool" where
  "usable_line asset account b =
     (find (is_line_of asset) (ha_balances account) = Some b \<and> line_limit b \<noteq> Num 0 \<and> bl_is_authorized b \<noteq> Some False)"

text \<open>
  The check before a transfer lets it pass exactly when the asset has the code XLM or the destination account exists
  and its line for the asset has a limit that is not zero and is not marked as unauthorised.
\<close>

theorem transfer_preflight_exact:
  "isl (ensureTrustlineBeforeTransfer env destination asset n) =
     (ta_code asset \<noteq> ''XLM'' \<and>
      \<not> (\<exists>account b. tv_loadAccount env destination n = Inr account \<and> usable_line asset account b))"
proof (cases "tv_loadAccount env destination n")
  case (Inl err)
  then show ?thesis by (simp add: ensureTrustlineBeforeTransfer_def checkTrustline_def)
next
  case (Inr account)
  show ?thesis
  proof (cases "find (is_line_of asset) (ha_balances account)")
    case None
    then show ?thesis using Inr
      by (simp add: ensureTrustlineBeforeTransfer_def checkTrustline_def status_of_cases usable_line_def)
  next
    case (Some b)
    then show ?thesis using Inr
      by (simp add: ensureTrustlineBeforeTransfer_def checkTrustline_def status_of_cases usable_line_def)
  qed
qed

text \<open>
  What Stellar promises of a \<open>changeTrust\<close> operation whose limit is not zero: once it is accepted the account has a line for the asset whose
  limit is the number asked for, in whatever form Horizon writes it, or the largest one when the operation names none.
\<close>

definition asked_limit :: "string option \<Rightarrow> jsnum" where
  "asked_limit limit = parseFloat (case limit of None \<Rightarrow> ''922337203685.4775807'' | Some l \<Rightarrow> l)"

definition applies_change_trust :: "'n tl_env \<Rightarrow> bool" where
  "applies_change_trust env =
     (\<forall>tx n hash n'. tv_submit env tx n = (Inr hash, n') \<longrightarrow> asked_limit (ct_limit tx) \<noteq> Num 0 \<longrightarrow>
        (\<exists>account b x. tv_loadAccount env (ct_source tx) n' = Inr account \<and>
           find (is_line_of (ct_asset tx)) (ha_balances account) = Some b \<and>
           bl_limit b = Some x \<and> parseFloat x = asked_limit (ct_limit tx)))"

lemmas parse_defs = parseFloat_def strip_sign_def parse_decimal_def js_white_def code_of_def is_digit_def digit_val_def Let_def
  digits_val_def scale10_def

lemma zero_text: "parseFloat ''0'' = Num 0"
  by (simp add: parse_defs)

lemma max_limit_nonzero: "parseFloat ''922337203685.4775807'' \<noteq> Num 0"
proof -
  have "js_le (round64 1) (round64 (9223372036854775807 / 10000000))" by (rule round64_mono) simp
  moreover have "parseFloat ''922337203685.4775807'' = round64 (9223372036854775807 / 10000000)"
    by (simp add: parse_defs)
  ultimately show ?thesis by auto
qed

lemma ensureTrustline_Inr:
  assumes "ensureTrustline env pk asset pass limit n = (Inr r, n')"
  obtains (kept) "\<not> et_created r" and "et_txHash r = None" and "n' = n" and "checkTrustline env pk asset n = Inr (et_status r)" and "ts_status (et_status r) = TlExists"
    | (made) tx hash current where "checkTrustline env pk asset n = Inr current" and "ts_status current = TlMissing"
      and "et_created r" and "et_txHash r = Some hash" and "tv_submit env tx n = (Inr hash, n')"
      and "ct_source tx = pk" and "ct_asset tx = asset" and "ct_limit tx = (if truthy limit then limit else None)"
      and "checkTrustline env pk asset n' = Inr (et_status r)"
  using assms
  by (auto simp: ensureTrustline_def submitChangeTrust_def send_change_trust_def
      split: sum.splits option.splits prod.splits TrustlineStatusType.splits)

text \<open>
  C35. What a successful call leaves. Let the limit asked for, if any, be a number other than zero, let Stellar apply the operations it accepts
  (\<open>applies_change_trust\<close>), and let nothing else change the account meanwhile. Then either the account had a usable line and nothing was sent, or it had no line
  and exactly one transaction was accepted, with the account as source, the asset and the limit, whose hash is in the answer. The status in the answer is
  that of the account afterwards: its line for the asset has a limit other than zero, it is reported as existing, with its balance and limit, unless the issuer's
  authorisation is missing, which can only be so for a new line. Once the line is usable a further call sends nothing and answers the same.
\<close>

theorem ensure_trustline_settles:
  assumes "applies_change_trust env" and "ensureTrustline env pk asset pass limit n = (Inr r, n')"
    and "truthy limit \<longrightarrow> parseFloat (the limit) \<noteq> Num 0"
  shows "(if et_created r
          then (\<exists>account tx hash. tv_loadAccount env pk n = Inr account \<and> find (is_line_of asset) (ha_balances account) = None \<and>
                  tv_submit env tx n = (Inr hash, n') \<and> et_txHash r = Some hash \<and> ct_source tx = pk \<and> ct_asset tx = asset \<and>
                  ct_limit tx = (if truthy limit then limit else None))
          else n' = n \<and> et_txHash r = None \<and> ts_status (et_status r) = TlExists) \<and>
         (\<exists>account b. tv_loadAccount env pk n' = Inr account \<and> find (is_line_of asset) (ha_balances account) = Some b \<and>
            line_limit b \<noteq> Num 0 \<and>
            (if bl_is_authorized b = Some False then ts_status (et_status r) = TlUnauthorised
             else et_status r = \<lparr>ts_status = TlExists, ts_balance = Some (bl_balance b), ts_limit = bl_limit b, ts_asset = asset\<rparr>)) \<and>
         (ts_status (et_status r) = TlExists \<longrightarrow>
            ensureTrustline env pk asset pass limit n' = (Inr \<lparr>et_created = False, et_txHash = None, et_status = et_status r\<rparr>, n'))"
proof -
  have again: "ensureTrustline env pk asset pass limit n' = (Inr \<lparr>et_created = False, et_txHash = None, et_status = et_status r\<rparr>, n')"
    if "checkTrustline env pk asset n' = Inr (et_status r)" "ts_status (et_status r) = TlExists"
    using that by (simp add: ensureTrustline_def)
  have seen: "if bl_is_authorized b = Some False then ts_status (et_status r) = TlUnauthorised
      else et_status r = \<lparr>ts_status = TlExists, ts_balance = Some (bl_balance b), ts_limit = bl_limit b, ts_asset = asset\<rparr>"
    if "checkTrustline env pk asset n' = Inr (et_status r)" "tv_loadAccount env pk n' = Inr account"
      "find (is_line_of asset) (ha_balances account) = Some b" "line_limit b \<noteq> Num 0" for account b
    using that(2-4) that(1) [symmetric] by (auto simp: checkTrustline_def status_of_def Let_def)
  from assms(2) show ?thesis
  proof (cases rule: ensureTrustline_Inr)
    case kept
    obtain account b where b: "tv_loadAccount env pk n' = Inr account" "find (is_line_of asset) (ha_balances account) = Some b"
        "line_limit b \<noteq> Num 0"
      using kept(3) kept(4) [symmetric] kept(5) by (auto simp: checkTrustline_def status_of_def Let_def split: sum.splits option.splits if_splits)
    then show ?thesis using kept again seen [OF _ b] by auto
  next
    case (made tx hash current)
    have none: "\<exists>account. tv_loadAccount env pk n = Inr account \<and> find (is_line_of asset) (ha_balances account) = None"
      using made(1,2) by (auto simp: checkTrustline_def status_of_def Let_def split: sum.splits option.splits if_splits)
    have "asked_limit (ct_limit tx) \<noteq> Num 0"
      using made(8) assms(3) max_limit_nonzero by (auto simp: asked_limit_def split: option.splits)
    then obtain account b where b: "tv_loadAccount env pk n' = Inr account" "find (is_line_of asset) (ha_balances account) = Some b"
        "line_limit b \<noteq> Num 0"
      using assms(1) made(5-7) unfolding applies_change_trust_def line_limit_def by (metis option.simps(5))
    have post: "\<exists>account b. tv_loadAccount env pk n' = Inr account \<and> find (is_line_of asset) (ha_balances account) = Some b \<and>
            line_limit b \<noteq> Num 0 \<and>
            (if bl_is_authorized b = Some False then ts_status (et_status r) = TlUnauthorised
             else et_status r = \<lparr>ts_status = TlExists, ts_balance = Some (bl_balance b), ts_limit = bl_limit b, ts_asset = asset\<rparr>)"
      using b seen [OF made(9) b] by blast
    have sent: "\<exists>account tx hash. tv_loadAccount env pk n = Inr account \<and> find (is_line_of asset) (ha_balances account) = None \<and>
                  tv_submit env tx n = (Inr hash, n') \<and> et_txHash r = Some hash \<and> ct_source tx = pk \<and> ct_asset tx = asset \<and>
                  ct_limit tx = (if truthy limit then limit else None)"
      using none made(4-8) by blast
    show ?thesis using made(3) sent post again [OF made(9)] by (simp only: if_True simp_thms) blast
  qed
qed

text \<open>
  A removal sends a transaction only for a line that exists; the balance is looked at only when the line is usable, so that a
  line without authorisation or with limit zero is sent to the network whatever it holds.
\<close>

theorem remove_trustline_guard:
  assumes "removeTrustline env pk asset pass n = (r, n')" and "tv_loadAccount env pk n = Inr account"
    and "find (is_line_of asset) (ha_balances account) = Some b"
  shows "(usable_line asset account b \<and> js_lt (Num 0) (parseFloat (bl_balance b)) \<longrightarrow> isl r \<and> n' = n) \<and>
         (\<not> usable_line asset account b \<longrightarrow>
            (r, n') = send_change_trust env pk asset pass (Some ''0'') (remove_error asset) n)"
  using assms
  by (auto simp: removeTrustline_def checkTrustline_def usable_line_def status_of_def Let_def split: if_splits)

text \<open>The batch reports a failure of one asset beside the others, always as a \<open>TrustlineError\<close>.\<close>

lemma batch_isolates_failures:
  "\<forall>(asset, result) \<in> set (checkTrustlinesBatch env pk assets n).
     result = checkTrustline env pk asset n \<and> isTrustlineError result = isl result"
  by (auto simp: checkTrustlinesBatch_def isTrustlineError_def checkTrustline_def buildError_def split: sum.splits)

section \<open>A concrete network\<close>

text \<open>The network is the list of lines of one account; an accepted operation adds a line.\<close>

definition demo_env :: "balance_line list tl_env" where
  "demo_env =
     \<lparr>tv_loadAccount = (\<lambda>pk n. Inr \<lparr>ha_sequence = 0, ha_balances = n\<rparr>),
      tv_submit = (\<lambda>tx n. (Inr ''hash'',
        \<lparr>bl_asset_type = ''credit_alphanum4'', bl_asset_code = Some (ta_code (ct_asset tx)), bl_asset_issuer = Some (ta_issuer (ct_asset tx)),
         bl_balance = ''0'', bl_limit = Some (case ct_limit tx of None \<Rightarrow> ''922337203685.4775807'' | Some l \<Rightarrow> l),
         bl_is_authorized = Some True\<rparr> # n)),
      tv_newAsset = (\<lambda>a. None)\<rparr>"

definition usdc :: TrustlineAsset where
  "usdc = \<lparr>ta_code = ''USDC'', ta_issuer = ''GA5Z''\<rparr>"

lemma demo_applies: "applies_change_trust demo_env"
  by (auto simp: applies_change_trust_def asked_limit_def demo_env_def is_line_of_def)

theorem ensure_trustline_settles_witness:
  "\<exists>r n' tx. ensureTrustline demo_env ''GACC'' usdc ''Test'' (Some ''5'') [] = (Inr r, n') \<and> et_created r \<and>
     tv_submit demo_env tx [] = (Inr ''hash'', n') \<and> et_txHash r = Some ''hash'' \<and> ct_asset tx = usdc \<and> ct_limit tx = Some ''5'' \<and>
     ensureTrustline demo_env ''GACC'' usdc ''Test'' (Some ''5'') n' = (Inr \<lparr>et_created = False, et_txHash = None, et_status = et_status r\<rparr>, n')"
proof -
  have five: "parseFloat ''5'' \<noteq> Num 0" by (simp add: parse_defs)
  obtain r n' where run: "ensureTrustline demo_env ''GACC'' usdc ''Test'' (Some ''5'') [] = (Inr r, n')" and made: "et_created r"
    and st: "ts_status (et_status r) = TlExists"
    using five by (auto simp: ensureTrustline_def submitChangeTrust_def send_change_trust_def checkTrustline_def demo_env_def status_of_def
        is_line_of_def line_limit_def truthy_def usdc_def Let_def)
  have "truthy (Some ''5'') \<longrightarrow> parseFloat (the (Some ''5'')) \<noteq> Num 0" using five by simp
  note settles = ensure_trustline_settles [OF demo_applies run this]
  have l: "(if truthy (Some ''5'') then Some ''5'' else None) = Some ''5''" by (simp add: truthy_def)
  from settles made obtain tx hash where tx: "tv_submit demo_env tx [] = (Inr hash, n')" "et_txHash r = Some hash" "ct_asset tx = usdc"
      "ct_limit tx = Some ''5''" unfolding l by auto
  moreover have "hash = ''hash''" using tx(1) by (simp add: demo_env_def)
  ultimately show ?thesis using run made settles st by blast
qed

theorem remove_trustline_guard_witness:
  "\<exists>n'. removeTrustline demo_env ''GACC'' usdc ''Test''
     [\<lparr>bl_asset_type = ''credit_alphanum4'', bl_asset_code = Some ''USDC'', bl_asset_issuer = Some ''GA5Z'', bl_balance = ''5'',
       bl_limit = Some ''0'', bl_is_authorized = Some True\<rparr>] = (Inr ''hash'', n')"
proof -
  define b :: balance_line where "b = \<lparr>bl_asset_type = ''credit_alphanum4'', bl_asset_code = Some ''USDC'', bl_asset_issuer = Some ''GA5Z'',
    bl_balance = ''5'', bl_limit = Some ''0'', bl_is_authorized = Some True\<rparr>"
  obtain r n' where run: "removeTrustline demo_env ''GACC'' usdc ''Test'' [b] = (r, n')" by fastforce
  have load: "tv_loadAccount demo_env ''GACC'' [b] = Inr \<lparr>ha_sequence = 0, ha_balances = [b]\<rparr>" by (simp add: demo_env_def)
  have line: "find (is_line_of usdc) (ha_balances \<lparr>ha_sequence = 0, ha_balances = [b]\<rparr>) = Some b"
    by (simp add: is_line_of_def b_def usdc_def)
  have "\<not> usable_line usdc \<lparr>ha_sequence = 0, ha_balances = [b]\<rparr> b"
    by (simp add: usable_line_def line_limit_def b_def zero_text)
  with remove_trustline_guard [OF run load line] have "(r, n') = send_change_trust demo_env ''GACC'' usdc ''Test'' (Some ''0'') (remove_error usdc) [b]"
    by blast
  then show ?thesis using run by (simp add: send_change_trust_def demo_env_def b_def)
qed

end
