(* ===== verification/ErrorFilter.thy ===== *)
theory ErrorFilter
  imports Schema
begin

text \<open>
  The error responses of the API: the exception classes of the application
  (\<open>apps/api/src/common/exceptions/app-exceptions.ts\<close>), the filter that turns every exception into one form of
  answer (\<open>common/filters/global-exception.filter.ts\<close>) and the pipe that validates an address
  (\<open>common/pipes/stellar-address.pipe.ts\<close>). What was thrown is an \<open>HttpException\<close> with its status, payload and message,
  or anything else.
\<close>

section \<open>What can be thrown\<close>

text \<open>An error of class-validator: the property, its violated constraints (name and message) and the errors of its members.\<close>

datatype ValidationError = ValidationError string "(string \<times> string) list option" "ValidationError list"

datatype payload_message = NoMessage | Text string | Texts "string list" | Errors "ValidationError list"

record payload =
  py_code :: "string option"
  py_message :: payload_message
  py_details :: "json option"

datatype raw_response = RawText string | RawObject payload | RawOther

datatype thrown = Http nat raw_response string | Other string

section \<open>The exceptions of the application\<close>

definition app_exception :: "nat \<Rightarrow> string \<Rightarrow> string \<Rightarrow> json option \<Rightarrow> thrown" where
  "app_exception status code message details =
     Http status (RawObject \<lparr>py_code = Some code, py_message = Text message, py_details = details\<rparr>) message"

definition ValidationException :: "string \<Rightarrow> json option \<Rightarrow> thrown" where
  "ValidationException message details = app_exception 400 ''VALIDATION_ERROR'' message details"

definition AuthenticationException :: "string \<Rightarrow> string \<Rightarrow> thrown" where
  "AuthenticationException message code = app_exception 401 code message None"

definition AuthorizationException :: "string \<Rightarrow> thrown" where
  "AuthorizationException message = app_exception 403 ''AUTHORIZATION_DENIED'' message None"

definition ResourceNotFoundException :: "string \<Rightarrow> string option \<Rightarrow> thrown" where
  "ResourceNotFoundException resource identifier =
     app_exception 404 ''RESOURCE_NOT_FOUND''
       (if truthy identifier then resource @ '' with identifier '' @ [CHR 0x27] @ the identifier @ [CHR 0x27] @ '' was not found''
        else resource @ '' was not found'') None"

definition AppConflictException :: "string \<Rightarrow> string option \<Rightarrow> thrown" where
  "AppConflictException message details = app_exception 409 ''CONFLICT'' message (map_option JString details)"

definition InternalException :: "string \<Rightarrow> thrown" where
  "InternalException message = app_exception 500 ''INTERNAL_ERROR'' message None"

section \<open>The filter\<close>

definition codeFromStatus :: "nat \<Rightarrow> string" where
  "codeFromStatus status =
     (case map_of [(400, ''BAD_REQUEST''), (401, ''UNAUTHORIZED''), (403, ''FORBIDDEN''), (404, ''NOT_FOUND''), (409, ''CONFLICT''),
        (422, ''UNPROCESSABLE_ENTITY''), (429, ''TOO_MANY_REQUESTS''), (500, ''INTERNAL_ERROR''), (502, ''BAD_GATEWAY''),
        (503, ''SERVICE_UNAVAILABLE'')] status of
        None \<Rightarrow> ''HTTP_ERROR'' | Some c \<Rightarrow> c)"

definition field_path :: "string \<Rightarrow> string \<Rightarrow> string" where
  "field_path parentField property = (if parentField \<noteq> [] then parentField @ ''.'' @ property else property)"

text \<open>\<open>reduce\<close> over the errors; the members of an error are flattened into a record of their own, which is then assigned over
  the accumulator.\<close>

fun flatten_into :: "string \<Rightarrow> (string \<rightharpoonup> string list) \<Rightarrow> ValidationError list \<Rightarrow> (string \<rightharpoonup> string list)" where
  "flatten_into parentField acc [] = acc"
| "flatten_into parentField acc (ValidationError property constraints children # errors) =
     (let field = field_path parentField property;
          acc1 = (case constraints of None \<Rightarrow> acc | Some cs \<Rightarrow> acc(field \<mapsto> map snd cs));
          acc2 = (if children \<noteq> [] then acc1 ++ flatten_into field Map.empty children else acc1)
      in flatten_into parentField acc2 errors)"

definition flattenValidationErrors :: "ValidationError list \<Rightarrow> string \<Rightarrow> (string \<rightharpoonup> string list)" where
  "flattenValidationErrors errors parentField = flatten_into parentField Map.empty errors"

datatype details = NoDetails | JsonDetails json | Messages "string list" | FieldErrors "string \<rightharpoonup> string list"

record resolved =
  re_statusCode :: nat
  re_code :: string
  re_message :: string
  re_details :: details

fun js_join :: "string \<Rightarrow> string list \<Rightarrow> string" where
  "js_join sep [] = []"
| "js_join sep [x] = x"
| "js_join sep (x # y # ys) = x @ sep @ js_join sep (y # ys)"

definition code_or :: "string option \<Rightarrow> nat \<Rightarrow> string" where
  "code_or code statusCode = (case code of None \<Rightarrow> codeFromStatus statusCode | Some c \<Rightarrow> c)"

fun resolveError :: "thrown \<Rightarrow> resolved" where
  "resolveError (Http statusCode (RawText s) message) =
     \<lparr>re_statusCode = statusCode, re_code = codeFromStatus statusCode, re_message = s, re_details = NoDetails\<rparr>"
| "resolveError (Http statusCode (RawObject p) message) =
     (let plain = (\<lambda>msg d. \<lparr>re_statusCode = statusCode, re_code = code_or (py_code p) statusCode, re_message = msg, re_details = d\<rparr>);
          own = (case py_details p of None \<Rightarrow> NoDetails | Some j \<Rightarrow> JsonDetails j)
      in case py_message p of
           Errors (e # es) \<Rightarrow>
             \<lparr>re_statusCode = statusCode, re_code = ''VALIDATION_ERROR'', re_message = ''Validation failed'',
              re_details = FieldErrors (flattenValidationErrors (e # es) [])\<rparr>
         | Errors [] \<Rightarrow> plain [] NoDetails
         | Texts messages \<Rightarrow> plain (js_join ''; '' messages) (if 1 < length messages then Messages messages else NoDetails)
         | Text msg \<Rightarrow> plain msg own
         | NoMessage \<Rightarrow> plain message own)"
| "resolveError (Http statusCode RawOther message) =
     \<lparr>re_statusCode = statusCode, re_code = codeFromStatus statusCode, re_message = message, re_details = NoDetails\<rparr>"
| "resolveError (Other stack) =
     \<lparr>re_statusCode = 500, re_code = ''INTERNAL_ERROR'', re_message = ''An unexpected error occurred. Please try again later.'',
      re_details = NoDetails\<rparr>"

record ErrorResponse =
  er_body :: resolved
  er_timestamp :: int
  er_path :: string

datatype log_level = LogWarn | LogError

definition catch_exception :: "thrown \<Rightarrow> int \<Rightarrow> string \<Rightarrow> nat \<times> ErrorResponse \<times> log_level" where
  "catch_exception exception now url =
     (let r = resolveError exception
      in (re_statusCode r, \<lparr>er_body = r, er_timestamp = now, er_path = url\<rparr>, if 500 \<le> re_statusCode r then LogError else LogWarn))"

section \<open>Addresses\<close>

definition is_base32 :: "char \<Rightarrow> bool" where
  "is_base32 c = ((65 \<le> code_of c \<and> code_of c \<le> 90) \<or> (50 \<le> code_of c \<and> code_of c \<le> 55))"

definition stellar_address_transform :: "string option \<Rightarrow> string res" where
  "stellar_address_transform value =
     (case value of
        None \<Rightarrow> Inl (BadRequestException ''Stellar address is required'')
      | Some v \<Rightarrow>
          if v = [] then Inl (BadRequestException ''Stellar address is required'')
          else if \<not> prefix ''G'' v \<or> length v \<noteq> 56
          then Inl (BadRequestException
                 (''Invalid Stellar address format. Address must start with '' @ [CHR 0x27] @ ''G'' @ [CHR 0x27] @
                  '' and be 56 characters long.''))
          else if \<not> list_all is_base32 v
          then Inl (BadRequestException ''Invalid Stellar address format. Address contains invalid characters.'')
          else Inr v)"

section \<open>Flattening\<close>

text \<open>The specification: the nodes of the forest in preorder, each with its path and its messages when it has any.\<close>

fun error_nodes :: "string \<Rightarrow> ValidationError list \<Rightarrow> (string \<times> string list) list" where
  "error_nodes parentField [] = []"
| "error_nodes parentField (ValidationError property constraints children # errors) =
     (let path = (if parentField = [] then property else parentField @ ''.'' @ property)
      in (case constraints of None \<Rightarrow> [] | Some cs \<Rightarrow> [(path, map snd cs)]) @
         error_nodes path children) @ error_nodes parentField errors"

lemma flatten_into_spec: "flatten_into p acc es = acc ++ map_of (rev (error_nodes p es))"
proof (induction p acc es rule: flatten_into.induct)
  case (2 p acc property constraints children es)
  define field where "field = field_path p property"
  define acc1 where "acc1 = (case constraints of None \<Rightarrow> acc | Some cs \<Rightarrow> acc(field \<mapsto> map snd cs))"
  have kids: "(if children \<noteq> [] then acc1 ++ flatten_into field Map.empty children else acc1) =
      acc1 ++ map_of (rev (error_nodes field children))"
    using 2(1) [OF field_def acc1_def] by simp
  have "flatten_into p acc (ValidationError property constraints children # es) =
      flatten_into p (if children \<noteq> [] then acc1 ++ flatten_into field Map.empty children else acc1) es"
    unfolding flatten_into.simps Let_def field_def [symmetric] acc1_def [symmetric] by (rule refl)
  also have "\<dots> = acc1 ++ map_of (rev (error_nodes field children)) ++ map_of (rev (error_nodes p es))"
    using 2(2) [OF field_def acc1_def refl] unfolding kids .
  also have "\<dots> = acc ++ map_of (rev (error_nodes p (ValidationError property constraints children # es)))"
    by (simp add: acc1_def field_def field_path_def Let_def split: option.splits)
  finally show ?case .
qed simp

text \<open>
  C19. The details of a validation failure are those of the forest of errors: a field is reported exactly when some node
  with that path violates a constraint, with the messages of the last such node in preorder; when the paths are distinct nothing
  is lost.
\<close>

theorem validation_details_complete:
  "flattenValidationErrors es p = map_of (rev (error_nodes p es)) \<and>
   dom (flattenValidationErrors es p) = fst ` set (error_nodes p es) \<and>
   (distinct (map fst (error_nodes p es)) \<longrightarrow>
      (\<forall>field ms. (flattenValidationErrors es p field = Some ms) = ((field, ms) \<in> set (error_nodes p es))))"
proof -
  have "(map_of (rev xs) field = Some ms) = ((field, ms) \<in> set xs)" if "distinct (map fst xs)" for xs :: "(string \<times> string list) list" and field ms
    using that map_of_eq_Some_iff [of "rev xs" field ms] by (simp add: rev_map [symmetric])
  then show ?thesis by (simp add: flattenValidationErrors_def flatten_into_spec dom_map_of_conv_image_fst)
qed

text \<open>
  Nothing of an exception that is not an \<open>HttpException\<close> reaches the client: all of them have the same answer, with status 500,
  and are logged as errors. The exceptions of the application keep their own status, code and message.
\<close>

theorem error_answers:
  "catch_exception (Other s) now url = catch_exception (Other t) now url \<and>
   fst (catch_exception (Other s) now url) = 500 \<and> snd (snd (catch_exception (Other s) now url)) = LogError \<and>
   (case catch_exception (app_exception status code message d) now url of (st, resp, level) \<Rightarrow>
      st = status \<and> re_code (er_body resp) = code \<and> re_message (er_body resp) = message \<and> (level = LogWarn) = (status < 500))"
  by (auto simp: catch_exception_def app_exception_def Let_def code_or_def)

text \<open>The pipe accepts exactly the texts with the form of an account id; the checksum is not looked at.\<close>

lemma stellar_address_exact:
  "stellar_address_transform value = Inr v \<longleftrightarrow>
     value = Some v \<and> length v = 56 \<and> hd v = CHR ''G'' \<and> list_all is_base32 v"
  by (cases v) (auto simp: stellar_address_transform_def split: option.splits)

theorem validation_details_complete_witness:
  "flattenValidationErrors [ValidationError ''a'' (Some [(''isInt'', ''m'')]) [ValidationError ''b'' (Some [(''x'', ''n'')]) []]] [] ''a.b'' = Some [''n'']"
proof -
  let ?es = "[ValidationError ''a'' (Some [(''isInt'', ''m'')]) [ValidationError ''b'' (Some [(''x'', ''n'')]) []]]"
  have "distinct (map fst (error_nodes [] ?es))" "(''a.b'', [''n'']) \<in> set (error_nodes [] ?es)"
    by (simp_all add: Let_def)
  then show ?thesis using validation_details_complete [of ?es "[]"] by blast
qed

end
