(* ===== verification/OfflineQueue.thy ===== *)
theory OfflineQueue
  imports Prelude "HOL-Library.Multiset"
begin

text \<open>
  The offline queue of the web client (\<open>apps/frontend/lib/offlineQueue.ts\<close>) and the engine that drains
  it (\<open>syncEngine.ts\<close>). The object store of IndexedDB is the list of its records by key, with the
  next key. A drain is a sequence of steps, one per \<open>await\<close>, so that the tabs of a browser, which share
  the store, can be interleaved; a step is told whether its database request succeeds and what the server
  answers. The ISO times of the records are milliseconds.
\<close>

section \<open>The queue\<close>

datatype draft_status = Pending | Syncing | Failed

record draft_payload =
  dp_destinationPublicKey :: string
  dp_amount :: string
  dp_assetCode :: string
  dp_assetIssuer :: "string option"
  dp_memo :: "string option"

record OfflineTransactionDraft =
  od_id :: nat
  od_payload :: draft_payload
  od_createdAt :: int
  od_status :: draft_status
  od_lockExpiresAt :: "int option"
  od_lastError :: "string option"
  od_attemptCount :: nat

record queue_db =
  qd_rows :: "OfflineTransactionDraft list"
  qd_next :: nat

definition enqueueDraft :: "int \<Rightarrow> draft_payload \<Rightarrow> queue_db \<Rightarrow> nat \<times> queue_db" where
  "enqueueDraft now draft db =
     (qd_next db,
      db\<lparr>qd_rows := qd_rows db @ [\<lparr>od_id = qd_next db, od_payload = draft, od_createdAt = now, od_status = Pending,
           od_lockExpiresAt = None, od_lastError = None, od_attemptCount = 0\<rparr>],
         qd_next := qd_next db + 1\<rparr>)"

definition getQueuedDrafts :: "queue_db \<Rightarrow> OfflineTransactionDraft list" where
  "getQueuedDrafts db = sort_key od_createdAt (qd_rows db)"

definition getPendingCount :: "queue_db \<Rightarrow> nat" where
  "getPendingCount db = length (filter (\<lambda>d. od_status d \<noteq> Failed) (getQueuedDrafts db))"

definition put_draft :: "nat \<Rightarrow> (OfflineTransactionDraft \<Rightarrow> OfflineTransactionDraft) \<Rightarrow> queue_db \<Rightarrow> queue_db" where
  "put_draft i f db = db\<lparr>qd_rows := update_where (\<lambda>d. od_id d = i) f (qd_rows db)\<rparr>"

definition claimDraft :: "int \<Rightarrow> nat \<Rightarrow> int \<Rightarrow> queue_db \<Rightarrow> queue_db" where
  "claimDraft now i lockMs = put_draft i (\<lambda>d. d\<lparr>od_status := Syncing, od_lockExpiresAt := Some (now + lockMs)\<rparr>)"

definition lock_expired :: "int \<Rightarrow> OfflineTransactionDraft \<Rightarrow> bool" where
  "lock_expired now d = (od_status d = Syncing \<and> (case od_lockExpiresAt d of None \<Rightarrow> False | Some t \<Rightarrow> t < now))"

definition releaseExpiredLocks :: "int \<Rightarrow> queue_db \<Rightarrow> nat \<times> queue_db" where
  "releaseExpiredLocks now db =
     (count_where (lock_expired now) (qd_rows db),
      db\<lparr>qd_rows := update_where (lock_expired now) (\<lambda>d. d\<lparr>od_status := Pending, od_lockExpiresAt := None\<rparr>) (qd_rows db)\<rparr>)"

definition markDraftFailed :: "nat \<Rightarrow> string \<Rightarrow> queue_db \<Rightarrow> queue_db" where
  "markDraftFailed i lastError =
     put_draft i (\<lambda>d. d\<lparr>od_status := Failed, od_lockExpiresAt := None, od_lastError := Some lastError,
                       od_attemptCount := od_attemptCount d + 1\<rparr>)"

definition requeueDraft :: "nat \<Rightarrow> string \<Rightarrow> queue_db \<Rightarrow> queue_db" where
  "requeueDraft i lastError =
     put_draft i (\<lambda>d. d\<lparr>od_status := Pending, od_lockExpiresAt := None, od_lastError := Some lastError,
                       od_attemptCount := od_attemptCount d + 1\<rparr>)"

definition removeDraft :: "nat \<Rightarrow> queue_db \<Rightarrow> queue_db" where
  "removeDraft i db = db\<lparr>qd_rows := filter (\<lambda>d. od_id d \<noteq> i) (qd_rows db)\<rparr>"

definition clearQueue :: "queue_db \<Rightarrow> queue_db" where
  "clearQueue db = db\<lparr>qd_rows := []\<rparr>"

section \<open>The engine\<close>

datatype SyncState = IdleState | SyncingState | ErrorState

text \<open>What the client sees of a request: success, a response with a status and a message, or no response.\<close>

datatype answer = Accepted | HttpError nat "string option" | NoResponse

text \<open>Where a drain waits; the numbers are those of completed and failed drafts and the total.\<close>

datatype phase =
    Idle
  | Releasing
  | Reading
  | Looping "OfflineTransactionDraft list" nat nat nat
  | Posting OfflineTransactionDraft "OfflineTransactionDraft list" nat nat nat
  | Settling OfflineTransactionDraft answer "OfflineTransactionDraft list" nat nat nat
  | Requeueing OfflineTransactionDraft string "OfflineTransactionDraft list" nat nat nat

record tab =
  tb_isSyncingNow :: bool
  tb_syncState :: SyncState
  tb_details :: "nat \<times> nat \<times> nat"
  tb_phase :: phase

text \<open>The store and the requests that reached the server, each with what the client saw of it.\<close>

record world =
  wo_db :: queue_db
  wo_posts :: "(draft_payload \<times> answer) list"

definition notify :: "SyncState \<Rightarrow> nat \<times> nat \<times> nat \<Rightarrow> tab \<Rightarrow> tab" where
  "notify s details tb = tb\<lparr>tb_syncState := s, tb_details := details\<rparr>"

text \<open>The \<open>finally\<close> block.\<close>

definition finish :: "nat \<Rightarrow> nat \<Rightarrow> nat \<Rightarrow> tab \<Rightarrow> tab" where
  "finish completed failed all tb =
     notify (if 0 < failed then ErrorState else IdleState) (completed, failed, all)
       (tb\<lparr>tb_isSyncingNow := False, tb_phase := Idle\<rparr>)"

definition permanent :: "answer \<Rightarrow> bool" where
  "permanent a = (case a of HttpError n _ \<Rightarrow> 400 \<le> n \<and> n < 500 | _ \<Rightarrow> False)"

definition failure_message :: "answer \<Rightarrow> string" where
  "failure_message a =
     (case a of
        HttpError n m \<Rightarrow> (case m of Some t \<Rightarrow> t
                        | None \<Rightarrow> if 400 \<le> n \<and> n < 500 then ''HTTP '' @ show_nat n else ''Network error'')
      | _ \<Rightarrow> ''Network error'')"

text \<open>
  One step of \<open>drainQueue\<close> in a tab: \<open>ok\<close> tells whether the database request of the step succeeds and \<open>ans\<close>
  what comes of the request to the server. A failure of the first two requests, which stand before the
  \<open>try\<close> block, ends the call without the \<open>finally\<close> block.
\<close>

fun drain_step :: "int \<Rightarrow> bool \<Rightarrow> answer \<Rightarrow> tab \<times> world \<Rightarrow> tab \<times> world" where
  "drain_step now ok ans (tb, w) =
     (case tb_phase tb of
        Idle \<Rightarrow>
          if tb_isSyncingNow tb then (tb, w)
          else (notify SyncingState (0, 0, 0) (tb\<lparr>tb_isSyncingNow := True, tb_phase := Releasing\<rparr>), w)
      | Releasing \<Rightarrow>
          if ok then (tb\<lparr>tb_phase := Reading\<rparr>, w\<lparr>wo_db := snd (releaseExpiredLocks now (wo_db w))\<rparr>)
          else (tb\<lparr>tb_phase := Idle\<rparr>, w)
      | Reading \<Rightarrow>
          if ok then
            (let pending = filter (\<lambda>d. od_status d = Pending) (getQueuedDrafts (wo_db w))
             in (tb\<lparr>tb_phase := Looping pending 0 0 (length pending)\<rparr>, w))
          else (tb\<lparr>tb_phase := Idle\<rparr>, w)
      | Looping [] completed failed all \<Rightarrow> (finish completed failed all tb, w)
      | Looping (d # ds) completed failed all \<Rightarrow>
          if od_id d = 0 \<or> \<not> ok then (tb\<lparr>tb_phase := Looping ds completed failed all\<rparr>, w)
          else (tb\<lparr>tb_phase := Posting d ds completed failed all\<rparr>,
                w\<lparr>wo_db := claimDraft now (od_id d) 60000 (wo_db w)\<rparr>)
      | Posting d ds completed failed all \<Rightarrow>
          (tb\<lparr>tb_phase := Settling d ans ds completed failed all\<rparr>, w\<lparr>wo_posts := wo_posts w @ [(od_payload d, ans)]\<rparr>)
      | Settling d Accepted ds completed failed all \<Rightarrow>
          if ok then (tb\<lparr>tb_phase := Looping ds (completed + 1) failed all\<rparr>, w\<lparr>wo_db := removeDraft (od_id d) (wo_db w)\<rparr>)
          else (tb\<lparr>tb_phase := Requeueing d ''Network error'' ds completed failed all\<rparr>, w)
      | Settling d a ds completed failed all \<Rightarrow>
          if permanent a then
            (if ok then (tb\<lparr>tb_phase := Looping ds completed (failed + 1) all\<rparr>,
                         w\<lparr>wo_db := markDraftFailed (od_id d) (failure_message a) (wo_db w)\<rparr>)
             else (finish completed failed all tb, w))
          else
            (if ok then (tb\<lparr>tb_phase := Looping ds completed failed all\<rparr>,
                         w\<lparr>wo_db := requeueDraft (od_id d) (failure_message a) (wo_db w)\<rparr>)
             else (finish completed failed all tb, w))
      | Requeueing d m ds completed failed all \<Rightarrow>
          if ok then (tb\<lparr>tb_phase := Looping ds completed failed all\<rparr>, w\<lparr>wo_db := requeueDraft (od_id d) m (wo_db w)\<rparr>)
          else (finish completed failed all tb, w))"

declare drain_step.simps [simp del]

text \<open>The steps of several tabs on one store, and of one tab.\<close>

fun tabs_run :: "(nat \<times> int \<times> bool \<times> answer) list \<Rightarrow> (nat \<Rightarrow> tab) \<times> world \<Rightarrow> (nat \<Rightarrow> tab) \<times> world" where
  "tabs_run [] s = s"
| "tabs_run ((i, now, ok, ans) # es) (tabs, w) =
     (case drain_step now ok ans (tabs i, w) of (tb, w') \<Rightarrow> tabs_run es (tabs(i := tb), w'))"

fun tab_run :: "(int \<times> bool \<times> answer) list \<Rightarrow> tab \<times> world \<Rightarrow> tab \<times> world" where
  "tab_run [] s = s"
| "tab_run ((now, ok, ans) # es) s = tab_run es (drain_step now ok ans s)"



section \<open>The invariant of the store\<close>

definition draft_ok :: "OfflineTransactionDraft \<Rightarrow> bool" where
  "draft_ok d = (od_status d = Syncing \<longleftrightarrow> od_lockExpiresAt d \<noteq> None)"

definition queue_ok :: "queue_db \<Rightarrow> bool" where
  "queue_ok db =
     (distinct (map od_id (qd_rows db)) \<and> list_all (\<lambda>d. 0 < od_id d \<and> od_id d < qd_next db \<and> draft_ok d) (qd_rows db) \<and>
      0 < qd_next db)"

lemma map_id_update [simp]:
  "(\<And>d. od_id (f d) = od_id d) \<Longrightarrow> map od_id (update_where P f rows) = map od_id rows"
  by (induction rows) auto

lemma queue_ok_update:
  assumes "queue_ok db" and "\<And>d. od_id (f d) = od_id d" and "\<And>d. draft_ok (f d)"
  shows "queue_ok (db\<lparr>qd_rows := update_where P f (qd_rows db)\<rparr>)"
  using assms by (auto simp: queue_ok_def list_all_iff set_update_where)

lemma queue_ok_ops:
  assumes "queue_ok db"
  shows "queue_ok (snd (enqueueDraft now p db))" and "queue_ok (claimDraft now i lockMs db)"
    and "queue_ok (snd (releaseExpiredLocks now db))" and "queue_ok (markDraftFailed i m db)"
    and "queue_ok (requeueDraft i m db)" and "queue_ok (removeDraft i db)" and "queue_ok (clearQueue db)"
proof -
  show "queue_ok (snd (enqueueDraft now p db))"
    using assms by (auto simp: queue_ok_def enqueueDraft_def draft_ok_def list_all_iff less_Suc_eq)
  show "queue_ok (claimDraft now i lockMs db)" "queue_ok (markDraftFailed i m db)" "queue_ok (requeueDraft i m db)"
    using assms queue_ok_update
    by (simp_all add: claimDraft_def markDraftFailed_def requeueDraft_def put_draft_def draft_ok_def)
  show "queue_ok (snd (releaseExpiredLocks now db))"
    using assms queue_ok_update by (simp add: releaseExpiredLocks_def draft_ok_def)
  show "queue_ok (removeDraft i db)" "queue_ok (clearQueue db)"
    using assms by (auto simp: queue_ok_def removeDraft_def clearQueue_def list_all_iff distinct_map_filter)
qed

text \<open>
  The store stays well formed however the tabs are interleaved, whatever the server answers and
  whichever database requests fail: keys are unique, positive and below the next key, and a draft has a
  lock exactly while it is being sent.
\<close>

theorem offline_queue_invariant:
  assumes "queue_ok (wo_db w)"
  shows "queue_ok (wo_db (snd (tabs_run es (tabs, w))))"
  using assms
proof (induction es arbitrary: tabs w)
  case (Cons e es)
  obtain i now ok ans where e: "e = (i, now, ok, ans)" by (cases e) auto
  obtain tb w' where st: "drain_step now ok ans (tabs i, w) = (tb, w')" by (cases "drain_step now ok ans (tabs i, w)")
  have "queue_ok (wo_db w')"
    using st Cons.prems queue_ok_ops [OF Cons.prems]
    by (auto simp: drain_step.simps Let_def split: phase.splits list.splits answer.splits if_splits)
  then show ?case using Cons.IH by (simp add: e st)
qed simp

section \<open>An undisturbed drain\<close>

text \<open>What an answer makes of a draft; \<open>None\<close> when it leaves the queue.\<close>

definition settle :: "answer \<Rightarrow> OfflineTransactionDraft \<Rightarrow> OfflineTransactionDraft option" where
  "settle a d =
     (if a = Accepted then None
      else Some (d\<lparr>od_status := (if permanent a then Failed else Pending), od_lockExpiresAt := None,
                  od_lastError := Some (failure_message a), od_attemptCount := od_attemptCount d + 1\<rparr>))"

definition settle_in :: "nat \<Rightarrow> answer \<Rightarrow> OfflineTransactionDraft list \<Rightarrow> OfflineTransactionDraft list" where
  "settle_in i a rows = List.map_filter (\<lambda>d. if od_id d = i then settle a d else Some d) rows"


lemma settle_in_simps [simp]:
  "settle_in i a [] = []"
  "settle_in i a (d # ds) =
     (if od_id d = i then (case settle a d of None \<Rightarrow> settle_in i a ds | Some d' \<Rightarrow> d' # settle_in i a ds)
      else d # settle_in i a ds)"
  by (simp_all add: settle_in_def List.map_filter_simps split: option.split)





lemma next_kept [simp]:
  "qd_next (claimDraft now i l db) = qd_next db" "qd_next (removeDraft i db) = qd_next db"
  "qd_next (markDraftFailed i m db) = qd_next db" "qd_next (requeueDraft i m db) = qd_next db"
  "qd_next (snd (releaseExpiredLocks now db)) = qd_next db"
  by (simp_all add: claimDraft_def removeDraft_def markDraftFailed_def requeueDraft_def put_draft_def releaseExpiredLocks_def)










section \<open>Two tabs, and failures of the database\<close>




text \<open>
  When the first request of a drain fails, the tab never drains again: the call ends before the block that
  resets the flag, and every later call returns at once.
\<close>

theorem failed_release_stops_engine:
  assumes "tb_phase tb = Idle" and "\<not> tb_isSyncingNow tb"
    and "tab_run [(t0, ok0, a0), (t1, False, a1)] (tb, w) = (tb', w')"
  shows "tab_run es (tb', w') = (tb', w') \<and> w' = w \<and> tb_isSyncingNow tb' \<and> tb_syncState tb' = SyncingState"
proof -
  have tb': "tb_phase tb' = Idle" "tb_isSyncingNow tb'" "tb_syncState tb' = SyncingState" "w' = w"
    using assms by (auto simp: drain_step.simps notify_def)
  have "tab_run es (tb', w') = (tb', w')"
  proof (induction es)
    case (Cons e es)
    then show ?case using tb' by (cases e) (simp add: drain_step.simps)
  qed simp
  with tb' show ?thesis by blast
qed

section \<open>Examples\<close>

definition demo_draft :: "nat \<Rightarrow> int \<Rightarrow> draft_status \<Rightarrow> int option \<Rightarrow> OfflineTransactionDraft" where
  "demo_draft i t st l = \<lparr>od_id = i, od_payload = \<lparr>dp_destinationPublicKey = ''GB'', dp_amount = show_nat i, dp_assetCode = ''USDC'',
     dp_assetIssuer = None, dp_memo = None\<rparr>, od_createdAt = t, od_status = st, od_lockExpiresAt = l, od_lastError = None,
     od_attemptCount = 0\<rparr>"

definition demo_world :: world where
  "demo_world = \<lparr>wo_db = \<lparr>qd_rows = [demo_draft 1 500 Syncing (Some 900), demo_draft 2 400 Pending None, demo_draft 3 100 Failed None],
     qd_next = 4\<rparr>, wo_posts = []\<rparr>"

definition free_tab :: tab where
  "free_tab = \<lparr>tb_isSyncingNow = False, tb_syncState = IdleState, tb_details = (0, 0, 0), tb_phase = Idle\<rparr>"

lemma demo_world_ok: "queue_ok (wo_db demo_world)"
  by (simp add: demo_world_def demo_draft_def queue_ok_def draft_ok_def)

theorem offline_queue_invariant_witness:
  "queue_ok (wo_db (snd (tabs_run [(0, 1000, True, Accepted), (1, 1000, True, Accepted), (0, 1001, True, Accepted)]
     (\<lambda>_. free_tab, demo_world))))"
  by (rule offline_queue_invariant [OF demo_world_ok])

definition demo_steps :: "(int \<times> bool \<times> answer) list" where
  "demo_steps = [(990, True, Accepted), (1000, True, Accepted), (1004, True, Accepted),
     (1005, True, Accepted), (1200, True, Accepted), (1210, True, Accepted),
     (1211, True, NoResponse), (9000, True, NoResponse), (9010, True, NoResponse), (9011, True, Accepted)]"



theorem failed_release_stops_engine_witness:
  "snd (tab_run demo_steps (tab_run [(0, True, Accepted), (0, False, Accepted)] (free_tab, demo_world))) =
   demo_world"
proof -
  have "tb_phase free_tab = Idle" "\<not> tb_isSyncingNow free_tab" by (simp_all add: free_tab_def)
  from failed_release_stops_engine [OF this surjective_pairing, where es = demo_steps and w = demo_world]
  show ?thesis by simp
qed

end
