(* ===== verification/ClientStore.thy ===== *)
theory ClientStore
  imports Schema
begin

text \<open>
  The state that the web client keeps: the wallet store (\<open>apps/frontend/store/walletStore.ts\<close>), its cache in the browser
  (\<open>lib/walletCache.ts\<close>) and the session of the HTTP client (\<open>lib/api.ts\<close>).

  An operation of the store that calls the API writes the store before the call and again when the answer arrives; other
  operations can run in between. It is modelled by what it does at these two moments, and a run of the store is any sequence of such
  steps. The answers of the API are the arguments of the steps.
\<close>

section \<open>The wallet store\<close>

record store_wallet =
  sw_id :: string
  sw_publicKey :: string
  sw_alias :: "string option"
  sw_isDefault :: bool
  sw_createdAt :: string

text \<open>What the store reads of a failed request: the status and the message of the response, and the message of the error.\<close>

record api_error =
  ae_status :: "nat option"
  ae_responseMessage :: "string option"
  ae_message :: "string option"

type_synonym 'a reply = "api_error + 'a"

datatype WalletAction = ActBalances | ActTransactions | ActSend

record WalletStore =
  st_wallets :: "store_wallet list"
  st_activeWalletId :: "string option"
  st_publicKey :: "string option"
  st_balancesError :: "string option"
  st_transactionsError :: "string option"
  st_sendError :: "string option"
  st_isLoadingBalances :: bool
  st_isLoadingSend :: bool
  st_loading :: bool
  st_error :: "string option"
  st_balances :: "json list"
  st_transactions :: "json list"
  st_balancesUpdatedAt :: "int option"
  st_transactionsUpdatedAt :: "int option"

definition initial_store :: WalletStore where
  "initial_store =
     \<lparr>st_wallets = [], st_activeWalletId = None, st_publicKey = None, st_balancesError = None, st_transactionsError = None,
      st_sendError = None, st_isLoadingBalances = False, st_isLoadingSend = False, st_loading = False, st_error = None,
      st_balances = [], st_transactions = [], st_balancesUpdatedAt = None, st_transactionsUpdatedAt = None\<rparr>"

definition setWallets :: "store_wallet list \<Rightarrow> WalletStore \<Rightarrow> WalletStore" where
  "setWallets ws s = s\<lparr>st_wallets := ws\<rparr>"

definition find_wallet :: "string option \<Rightarrow> store_wallet list \<Rightarrow> store_wallet option" where
  "find_wallet i ws = find (\<lambda>w. Some (sw_id w) = i) ws"

definition setActiveWalletId :: "string option \<Rightarrow> WalletStore \<Rightarrow> WalletStore" where
  "setActiveWalletId i s =
     s\<lparr>st_activeWalletId := i, st_publicKey := map_option sw_publicKey (find_wallet i (st_wallets s))\<rparr>"

definition setPublicKey :: "string option \<Rightarrow> WalletStore \<Rightarrow> WalletStore" where
  "setPublicKey key s = s\<lparr>st_publicKey := key\<rparr>"

definition set_action_error :: "WalletAction \<Rightarrow> string option \<Rightarrow> WalletStore \<Rightarrow> WalletStore" where
  "set_action_error action err s =
     (case action of
        ActBalances \<Rightarrow> s\<lparr>st_balancesError := err\<rparr>
      | ActTransactions \<Rightarrow> s\<lparr>st_transactionsError := err\<rparr>
      | ActSend \<Rightarrow> s\<lparr>st_sendError := err\<rparr>)"

definition clearError :: "WalletAction \<Rightarrow> WalletStore \<Rightarrow> WalletStore" where
  "clearError action = set_action_error action None"

definition setCachedBalances :: "int \<Rightarrow> json list \<Rightarrow> WalletStore \<Rightarrow> WalletStore" where
  "setCachedBalances now bs s = s\<lparr>st_balances := bs, st_balancesUpdatedAt := Some now\<rparr>"

definition setCachedTransactions :: "int \<Rightarrow> json list \<Rightarrow> WalletStore \<Rightarrow> WalletStore" where
  "setCachedTransactions now ts s = s\<lparr>st_transactions := take 50 ts, st_transactionsUpdatedAt := Some now\<rparr>"

section \<open>Operations that call the API\<close>

text \<open>\<open>a ?? b\<close> on optional texts, the last one given.\<close>

fun first_of :: "string option list \<Rightarrow> string \<Rightarrow> string" where
  "first_of [] d = d"
| "first_of (None # xs) d = first_of xs d"
| "first_of (Some x # xs) d = x"

definition begin_load :: "WalletStore \<Rightarrow> WalletStore" where
  "begin_load s = s\<lparr>st_loading := True, st_error := None\<rparr>"

definition fail_load :: "string \<Rightarrow> WalletStore \<Rightarrow> WalletStore" where
  "fail_load message s = s\<lparr>st_loading := False, st_error := Some message\<rparr>"

definition begin_send :: "WalletStore \<Rightarrow> WalletStore" where
  "begin_send s = s\<lparr>st_isLoadingSend := True, st_sendError := None\<rparr>"

definition sendTransfer_reply :: "string option reply \<Rightarrow> WalletStore \<Rightarrow> string option reply \<times> WalletStore" where
  "sendTransfer_reply r s =
     (case r of
        Inr txId \<Rightarrow> (Inr txId, s\<lparr>st_isLoadingSend := False\<rparr>)
      | Inl e \<Rightarrow>
          (Inl e, s\<lparr>st_sendError := Some (if truthy (ae_responseMessage e) then the (ae_responseMessage e)
                                           else ''Transfer failed. Please try again.''),
                    st_isLoadingSend := False\<rparr>))"

definition default_wallet :: "store_wallet list \<Rightarrow> store_wallet option" where
  "default_wallet ws =
     (case find sw_isDefault ws of Some w \<Rightarrow> Some w | None \<Rightarrow> (case ws of [] \<Rightarrow> None | w # _ \<Rightarrow> Some w))"

definition fetchWallets_reply :: "store_wallet list reply \<Rightarrow> WalletStore \<Rightarrow> WalletStore" where
  "fetchWallets_reply r s =
     (case r of
        Inr ws \<Rightarrow>
          s\<lparr>st_wallets := ws, st_activeWalletId := map_option sw_id (default_wallet ws),
            st_publicKey := map_option sw_publicKey (default_wallet ws), st_loading := False\<rparr>
      | Inl e \<Rightarrow>
          if ae_status e = Some 404
          then s\<lparr>st_wallets := [], st_activeWalletId := None, st_publicKey := None, st_loading := False\<rparr>
          else fail_load (first_of [ae_responseMessage e, ae_message e] ''Failed to fetch wallets.'') s)"

text \<open>\<open>createWallet\<close>, \<open>addWallet\<close> and \<open>removeWallet\<close> start \<open>fetchWallets\<close> when their request succeeds.\<close>

definition createWallet_reply :: "unit reply \<Rightarrow> WalletStore \<Rightarrow> WalletStore" where
  "createWallet_reply r s =
     (case r of Inr _ \<Rightarrow> begin_load s
      | Inl e \<Rightarrow> fail_load (first_of [ae_responseMessage e, ae_message e] ''Failed to create wallet.'') s)"

definition addWallet_reply :: "unit reply \<Rightarrow> WalletStore \<Rightarrow> WalletStore" where
  "addWallet_reply r s =
     (case r of Inr _ \<Rightarrow> begin_load s | Inl e \<Rightarrow> fail_load (first_of [ae_responseMessage e] ''Failed to add wallet.'') s)"

definition removeWallet_reply :: "unit reply \<Rightarrow> WalletStore \<Rightarrow> WalletStore" where
  "removeWallet_reply r s =
     (case r of Inr _ \<Rightarrow> begin_load s | Inl e \<Rightarrow> fail_load (first_of [ae_responseMessage e] ''Failed to remove wallet.'') s)"

definition switchWallet_reply :: "string \<Rightarrow> unit reply \<Rightarrow> WalletStore \<Rightarrow> WalletStore" where
  "switchWallet_reply walletId r s =
     (case r of
        Inr _ \<Rightarrow>
          (let s' = (if find_wallet (Some walletId) (st_wallets s) \<noteq> None then setActiveWalletId (Some walletId) s else s)
           in s'\<lparr>st_loading := False\<rparr>)
      | Inl e \<Rightarrow> fail_load (first_of [ae_responseMessage e] ''Failed to switch wallet.'') s)"

definition begin_alias :: "WalletStore \<Rightarrow> WalletStore" where
  "begin_alias s = s\<lparr>st_error := None\<rparr>"

definition updateWalletAlias_reply :: "string \<Rightarrow> string option \<Rightarrow> unit reply \<Rightarrow> WalletStore \<Rightarrow> WalletStore" where
  "updateWalletAlias_reply walletId newAlias r s =
     (case r of
        Inr _ \<Rightarrow> s\<lparr>st_wallets := update_where (\<lambda>w. sw_id w = walletId) (\<lambda>w. w\<lparr>sw_alias := newAlias\<rparr>) (st_wallets s)\<rparr>
      | Inl e \<Rightarrow> s\<lparr>st_error := Some (first_of [ae_responseMessage e] ''Failed to update wallet alias.'')\<rparr>)"

definition fetchPublicKey_reply :: "string reply \<Rightarrow> WalletStore \<Rightarrow> WalletStore" where
  "fetchPublicKey_reply r s =
     (case r of
        Inr key \<Rightarrow> s\<lparr>st_publicKey := Some key, st_loading := False\<rparr>
      | Inl e \<Rightarrow>
          if ae_status e = Some 404 then s\<lparr>st_publicKey := None, st_loading := False\<rparr>
          else fail_load (first_of [ae_responseMessage e, ae_message e] ''Failed to fetch wallet.'') s)"

datatype store_step =
    SetWallets "store_wallet list"
  | SetActive "string option"
  | SetPublicKey "string option"
  | SetError WalletAction "string option"
  | ClearWalletError
  | SetBalancesLoading bool
  | SetSendLoading bool
  | CacheBalances int "json list"
  | CacheTransactions int "json list"
  | BeginLoad
  | BeginSend
  | SendReply "string option reply"
  | FetchReply "store_wallet list reply"
  | CreateReply "unit reply"
  | AddReply "unit reply"
  | RemoveReply "unit reply"
  | SwitchReply string "unit reply"
  | BeginAlias
  | AliasReply string "string option" "unit reply"
  | PublicKeyReply "string reply"

fun run_step :: "store_step \<Rightarrow> WalletStore \<Rightarrow> WalletStore" where
  "run_step (SetWallets ws) s = setWallets ws s"
| "run_step (SetActive i) s = setActiveWalletId i s"
| "run_step (SetPublicKey k) s = setPublicKey k s"
| "run_step (SetError a e) s = set_action_error a e s"
| "run_step ClearWalletError s = s\<lparr>st_error := None\<rparr>"
| "run_step (SetBalancesLoading b) s = s\<lparr>st_isLoadingBalances := b\<rparr>"
| "run_step (SetSendLoading b) s = s\<lparr>st_isLoadingSend := b\<rparr>"
| "run_step (CacheBalances now bs) s = setCachedBalances now bs s"
| "run_step (CacheTransactions now ts) s = setCachedTransactions now ts s"
| "run_step BeginLoad s = begin_load s"
| "run_step BeginSend s = begin_send s"
| "run_step (SendReply r) s = snd (sendTransfer_reply r s)"
| "run_step (FetchReply r) s = fetchWallets_reply r s"
| "run_step (CreateReply r) s = createWallet_reply r s"
| "run_step (AddReply r) s = addWallet_reply r s"
| "run_step (RemoveReply r) s = removeWallet_reply r s"
| "run_step (SwitchReply i r) s = switchWallet_reply i r s"
| "run_step BeginAlias s = begin_alias s"
| "run_step (AliasReply i a r) s = updateWalletAlias_reply i a r s"
| "run_step (PublicKeyReply r) s = fetchPublicKey_reply r s"

definition store_run :: "store_step list \<Rightarrow> WalletStore \<Rightarrow> WalletStore" where
  "store_run steps s = fold run_step steps s"

section \<open>The cache in the browser\<close>

text \<open>\<open>writeWalletState\<close> on the parsed text that the store passes: the four members of the object, under the key of the account.\<close>

definition json_array_or_empty :: "json option \<Rightarrow> json list" where
  "json_array_or_empty v = (case v of Some (JArray xs) \<Rightarrow> xs | _ \<Rightarrow> [])"

definition json_or_null :: "json option \<Rightarrow> json" where
  "json_or_null v = (case v of None \<Rightarrow> JNull | Some j \<Rightarrow> j)"

definition cached_state :: "(string \<times> json) list \<Rightarrow> json" where
  "cached_state members =
     JObject [(''balances'', JArray (json_array_or_empty (map_of members ''balances''))),
              (''transactions'', JArray (take 50 (json_array_or_empty (map_of members ''transactions'')))),
              (''balancesUpdatedAt'', json_or_null (map_of members ''balancesUpdatedAt'')),
              (''transactionsUpdatedAt'', json_or_null (map_of members ''transactionsUpdatedAt''))]"

definition writeWalletState :: "string option \<Rightarrow> (string \<times> json) list \<Rightarrow> (string \<rightharpoonup> json) \<Rightarrow> (string \<rightharpoonup> json)" where
  "writeWalletState key members cache = (if truthy key then cache(the key \<mapsto> cached_state members) else cache)"

definition readWalletState :: "string option \<Rightarrow> (string \<rightharpoonup> json) \<Rightarrow> json option" where
  "readWalletState key cache = (if truthy key then cache (the key) else None)"

definition optional_time :: "int option \<Rightarrow> json" where
  "optional_time t = (case t of None \<Rightarrow> JNull | Some n \<Rightarrow> JNumber (Num (of_int n)))"

definition partialize :: "WalletStore \<Rightarrow> json" where
  "partialize s =
     JObject [(''balances'', JArray (st_balances s)), (''transactions'', JArray (take 50 (st_transactions s))),
              (''balancesUpdatedAt'', optional_time (st_balancesUpdatedAt s)),
              (''transactionsUpdatedAt'', optional_time (st_transactionsUpdatedAt s))]"

text \<open>The middleware of the store hands the storage the text of an envelope with the members \<open>state\<close> and \<open>version\<close>; the adapter
  parses it and passes the whole object on.\<close>

definition persist :: "string option \<Rightarrow> jsnum \<Rightarrow> WalletStore \<Rightarrow> (string \<rightharpoonup> json) \<Rightarrow> (string \<rightharpoonup> json)" where
  "persist key version s = writeWalletState key [(''state'', partialize s), (''version'', JNumber version)]"

section \<open>The session\<close>

record local_storage =
  ls_token :: "string option"
  ls_refresh_token :: "string option"

record TokenPair =
  tp_access_token :: "string option"
  tp_refresh_token :: "string option"

definition storeSessionTokens :: "TokenPair \<Rightarrow> local_storage \<Rightarrow> local_storage" where
  "storeSessionTokens tokens ls =
     (let ls1 = (if truthy (tp_access_token tokens) then ls\<lparr>ls_token := tp_access_token tokens\<rparr> else ls)
      in if truthy (tp_refresh_token tokens) then ls1\<lparr>ls_refresh_token := tp_refresh_token tokens\<rparr> else ls1)"

definition clearSessionTokens :: "local_storage \<Rightarrow> local_storage" where
  "clearSessionTokens ls = ls\<lparr>ls_token := None, ls_refresh_token := None\<rparr>"

record http_request =
  rq_content :: string
  rq_authorization :: "string option"
  rq_retry :: bool

datatype http_response = HttpOk string | HttpFail "nat option" "string option"

definition attach_token :: "local_storage \<Rightarrow> http_request \<Rightarrow> http_request" where
  "attach_token ls rq =
     (if truthy (ls_token ls) then rq\<lparr>rq_authorization := Some (''Bearer '' @ the (ls_token ls))\<rparr> else rq)"

text \<open>The server: \<open>sv_send\<close> answers a request, \<open>sv_refresh\<close> the request for new tokens, where \<open>None\<close> is a failure.\<close>

record 's http_server =
  sv_send :: "http_request \<Rightarrow> 's \<Rightarrow> http_response \<times> 's"
  sv_refresh :: "string \<Rightarrow> 's \<Rightarrow> TokenPair option \<times> 's"

definition can_refresh :: "http_response \<Rightarrow> local_storage \<Rightarrow> http_request \<Rightarrow> bool" where
  "can_refresh resp ls rq =
     (resp = HttpFail (Some 401) (Some ''AUTH_TOKEN_EXPIRED'') \<and> truthy (ls_refresh_token ls) \<and> \<not> rq_retry rq)"

definition bearer_text :: "string option \<Rightarrow> string" where
  "bearer_text t = ''Bearer '' @ (case t of None \<Rightarrow> ''undefined'' | Some x \<Rightarrow> x)"

function api_call :: "'s http_server \<Rightarrow> http_request \<Rightarrow> local_storage \<Rightarrow> 's \<Rightarrow> http_response \<times> local_storage \<times> 's" where
  "api_call sv rq ls s =
     (let sent = attach_token ls rq; (resp, s1) = sv_send sv sent s
      in if can_refresh resp ls sent then
           (case sv_refresh sv (the (ls_refresh_token ls)) s1 of
              (None, s2) \<Rightarrow> (resp, clearSessionTokens ls, s2)
            | (Some tokens, s2) \<Rightarrow>
                api_call sv (sent\<lparr>rq_retry := True, rq_authorization := Some (bearer_text (tp_access_token tokens))\<rparr>)
                  (storeSessionTokens tokens ls) s2)
         else (resp, ls, s1))"
  by pat_completeness auto

termination
  by (relation "measure (\<lambda>(sv, rq, ls, s). if rq_retry rq then 0 else 1)")
    (auto simp: can_refresh_def attach_token_def split: if_splits)

declare api_call.simps [simp del]

section \<open>The selected wallet\<close>

definition selection_ok :: "WalletStore \<Rightarrow> bool" where
  "selection_ok s = (st_publicKey s = map_option sw_publicKey (find_wallet (st_activeWalletId s) (st_wallets s)))"

text \<open>The steps that set one of the two on its own, and lists of wallets with an id twice, are excluded.\<close>

definition consistent_step :: "store_step \<Rightarrow> bool" where
  "consistent_step st =
     (case st of SetWallets _ \<Rightarrow> False | SetPublicKey _ \<Rightarrow> False | PublicKeyReply r \<Rightarrow> isl r \<and> ae_status (projl r) \<noteq> Some 404
      | FetchReply (Inr ws) \<Rightarrow> distinct (map sw_id ws) | _ \<Rightarrow> True)"

lemma find_wallet_mem:
  assumes "distinct (map sw_id ws)" and "w \<in> set ws"
  shows "find_wallet (Some (sw_id w)) ws = Some w"
  using assms by (induction ws) (auto simp: find_wallet_def)

lemma default_wallet_mem: "default_wallet ws = Some w \<Longrightarrow> w \<in> set ws"
  by (auto simp: default_wallet_def find_Some_iff split: option.splits list.splits)

lemma default_wallet_found:
  assumes "distinct (map sw_id ws)"
  shows "find_wallet (map_option sw_id (default_wallet ws)) ws = default_wallet ws"
  using default_wallet_mem [of ws] find_wallet_mem [OF assms]
  by (cases "default_wallet ws") (auto simp: find_wallet_def find_None_iff)

lemma find_wallet_None: "find_wallet None ws = None" "find_wallet i [] = None"
  by (simp_all add: find_wallet_def find_None_iff)

lemma find_wallet_alias:
  "map_option sw_publicKey (find_wallet i (update_where P (\<lambda>w. w\<lparr>sw_alias := a\<rparr>) ws)) = map_option sw_publicKey (find_wallet i ws)"
  by (induction ws) (auto simp: find_wallet_def update_where_def)

lemmas reply_defs = createWallet_reply_def addWallet_reply_def removeWallet_reply_def switchWallet_reply_def fetchWallets_reply_def
  fetchPublicKey_reply_def updateWalletAlias_reply_def sendTransfer_reply_def fail_load_def begin_load_def begin_send_def begin_alias_def
  setActiveWalletId_def set_action_error_def setCachedBalances_def setCachedTransactions_def

lemma selection_step:
  assumes "selection_ok s" and "consistent_step st"
  shows "selection_ok (run_step st s)"
  using assms
  by (cases st) (auto simp: selection_ok_def consistent_step_def reply_defs Let_def default_wallet_found find_wallet_alias find_wallet_None
      split: sum.splits option.splits WalletAction.splits)

definition cache_ok :: "WalletStore \<Rightarrow> bool" where
  "cache_ok s = (length (st_transactions s) \<le> 50)"

lemma cache_step: "cache_ok s \<Longrightarrow> cache_ok (run_step st s)"
  by (cases st) (auto simp: cache_ok_def reply_defs setWallets_def setPublicKey_def Let_def split: sum.splits option.splits WalletAction.splits)

text \<open>
  However the answers of the API interleave, the public key that the store shows is that of its active wallet, and at most fifty
  transactions are held, as long as only the operations that set both are used; the operation \<open>fetchPublicKey\<close> kept
  for old callers is not among them.
\<close>

theorem wallet_store_selection:
  assumes "list_all consistent_step steps"
  shows "selection_ok (store_run steps initial_store) \<and> cache_ok (store_run steps initial_store)"
proof -
  have "selection_ok (fold run_step steps s) \<and> cache_ok (fold run_step steps s)" if "selection_ok s" "cache_ok s" for s
    using assms that by (induction steps arbitrary: s) (simp_all add: selection_step cache_step)
  moreover have "selection_ok initial_store" "cache_ok initial_store"
    by (simp_all add: selection_ok_def cache_ok_def initial_store_def find_wallet_def)
  ultimately show ?thesis by (simp add: store_run_def)
qed

theorem wallet_store_selection_witness:
  "selection_ok (store_run [BeginLoad, BeginLoad, FetchReply (Inr [\<lparr>sw_id = ''a'', sw_publicKey = ''G'', sw_alias = None, sw_isDefault = False,
     sw_createdAt = []\<rparr>]), SwitchReply ''b'' (Inr ())] initial_store)"
  by (rule wallet_store_selection [THEN conjunct1]) (simp add: consistent_step_def)

text \<open>
  What the store saves in the browser is lost: the adapter looks for the members in the envelope, finds none and writes empty
  lists, so that the entry of the account is the same whatever the store holds.
\<close>

theorem wallet_cache_saves_nothing:
  assumes "truthy key"
  shows "readWalletState key (persist key version s cache) =
    Some (JObject [(''balances'', JArray []), (''transactions'', JArray []), (''balancesUpdatedAt'', JNull), (''transactionsUpdatedAt'', JNull)])"
  using assms
  by (simp add: readWalletState_def persist_def writeWalletState_def cached_state_def json_array_or_empty_def json_or_null_def)

theorem wallet_cache_saves_nothing_witness:
  "readWalletState (Some ''G'') (persist (Some ''G'') (Num 0) (setCachedBalances 5 [JNull] initial_store) Map.empty) =
    Some (JObject [(''balances'', JArray []), (''transactions'', JArray []), (''balancesUpdatedAt'', JNull), (''transactionsUpdatedAt'', JNull)])"
  by (rule wallet_cache_saves_nothing) (simp add: truthy_def)

section \<open>The refresh of a session\<close>

lemma attach_token_retry [simp]: "rq_retry (attach_token ls rq) = rq_retry rq"
  by (simp add: attach_token_def)

lemma api_call_retried:
  assumes "rq_retry rq"
  shows "api_call sv rq ls s = (case sv_send sv (attach_token ls rq) s of (resp, s1) \<Rightarrow> (resp, ls, s1))"
  using assms by (subst api_call.simps) (simp add: can_refresh_def Let_def split: prod.splits)

text \<open>
  A request whose token has expired is sent at most twice, with one request for new tokens in between: when that fails the
  session is cleared and the first answer returned; when it gives an access token, the second request carries it, and its answer is
  returned whatever it says.
\<close>

theorem session_refreshed_once:
  assumes "\<not> rq_retry rq" and "sv_send sv (attach_token ls rq) s = (resp, s1)"
  shows "(\<not> can_refresh resp ls rq \<longrightarrow> api_call sv rq ls s = (resp, ls, s1)) \<and>
    (can_refresh resp ls rq \<longrightarrow>
       (case sv_refresh sv (the (ls_refresh_token ls)) s1 of
          (None, s2) \<Rightarrow> api_call sv rq ls s = (resp, clearSessionTokens ls, s2)
        | (Some tokens, s2) \<Rightarrow>
            (truthy (tp_access_token tokens) \<longrightarrow>
               api_call sv rq ls s =
                 (case sv_send sv (rq\<lparr>rq_retry := True, rq_authorization := Some (''Bearer '' @ the (tp_access_token tokens))\<rparr>) s2 of
                    (resp2, s3) \<Rightarrow> (resp2, storeSessionTokens tokens ls, s3)))))"
proof -
  have same: "can_refresh resp ls (attach_token ls rq) = can_refresh resp ls rq" by (simp add: can_refresh_def)
  have again: "attach_token (storeSessionTokens tokens ls)
      ((attach_token ls rq)\<lparr>rq_retry := True, rq_authorization := Some (bearer_text (tp_access_token tokens))\<rparr>) =
      rq\<lparr>rq_retry := True, rq_authorization := Some (''Bearer '' @ the (tp_access_token tokens))\<rparr>"
    if "truthy (tp_access_token tokens)" for tokens
    using that by (simp add: attach_token_def storeSessionTokens_def Let_def)
  show ?thesis
    by (subst (1 2 3) api_call.simps)
      (auto simp: assms(2) same api_call_retried again Let_def split: prod.splits option.splits)
qed

text \<open>A server that knows one valid token and counts the requests.\<close>

definition demo_server :: "nat http_server" where
  "demo_server =
     \<lparr>sv_send = (\<lambda>rq n. (if rq_authorization rq = Some ''Bearer new'' then HttpOk ''ok''
                          else HttpFail (Some 401) (Some ''AUTH_TOKEN_EXPIRED''), n + 1)),
      sv_refresh = (\<lambda>t n. (Some \<lparr>tp_access_token = Some ''new'', tp_refresh_token = None\<rparr>, n + 1))\<rparr>"

theorem session_refreshed_once_witness:
  "api_call demo_server \<lparr>rq_content = ''x'', rq_authorization = None, rq_retry = False\<rparr>
     \<lparr>ls_token = Some ''old'', ls_refresh_token = Some ''r''\<rparr> 0 =
   (HttpOk ''ok'', \<lparr>ls_token = Some ''new'', ls_refresh_token = Some ''r''\<rparr>, 3)"
proof -
  let ?rq = "\<lparr>rq_content = ''x'', rq_authorization = None, rq_retry = False\<rparr>"
  let ?ls = "\<lparr>ls_token = Some ''old'', ls_refresh_token = Some ''r''\<rparr>"
  have "\<not> rq_retry ?rq" "sv_send demo_server (attach_token ?ls ?rq) 0 = (HttpFail (Some 401) (Some ''AUTH_TOKEN_EXPIRED''), 1)"
    by (simp_all add: demo_server_def attach_token_def truthy_def)
  from session_refreshed_once [OF this] show ?thesis
    by (simp add: demo_server_def can_refresh_def truthy_def storeSessionTokens_def Let_def)
qed

end
