(* ===== verification/Spec2Isabelle.thy ===== *)
theory Spec2Isabelle
  imports Prelude JsNumber Schema TtlStore Lock AuditTrail Integrity RateLimit Anchor Kyc
    Transactions Processor Dlq Compliance Zkp Sep24 Sep10 RedisLimit Liquidity Wallets RpcClient JsLib Dex TransferSim Soroban
    WebAuthn Erasure Accounts Sep12 Trustlines ErrorFilter OfflineQueue ClientStore
begin

text \<open>
  AfroPay-Stellar: a remittance service on the Stellar network. The program is a NestJS API (\<open>apps/api\<close>) over a
  PostgreSQL database (through Prisma), Redis, the queue library Bull and the Stellar nodes, and a web client
  (\<open>apps/frontend\<close>). All paths below are under \<open>apps/api/src\<close> unless they start with \<open>frontend\<close>.

  \<^bold>\<open>The parts and how they interact.\<close>
  A signed-in client posts a transfer. The rate limit guard counts the request, the KYC guard and the daily limit
  admit it, and the transaction service stores a row and enqueues a job, at most once for each idempotency key. The
  worker of the queue takes the lock of the transaction, compares the amount of the job with the stored one, asks the fraud
  service, submits the transfer through the client of the nodes and settles the row; a job that has failed for
  the last time goes to the dead-letter queue. Compliance officers freeze or claw back assets with two signatures; the
  liquidity service moves reserves between corridors; the anchor services exchange tokens, sessions and rates with a bank. Every
  service writes the audit trail. The client keeps drafts while it is offline and sends them later.

  \<^bold>\<open>Conventions.\<close>
  A table is a list of records, in the order of insertion, and a method of a service is a computation
  \<open>('s, 'a) M\<close> on the tables it uses (theory Prelude): it returns an exception or a value and the state it leaves, because an
  exception does not undo earlier writes. Where an \<open>await\<close> lets another request in, the method is split into
  phases and the theorems speak of arbitrary interleavings of phases; where a theorem says \<^emph>\<open>sequential\<close> it speaks of the whole
  method as one step. A JavaScript \<open>number\<close> is a \<open>jsnum\<close> (theory JsNumber): NaN, an infinity or a rational that is rounded to
  binary64 after every operation. Strings are lists of characters with codes below 256.

  Third-party code is a parameter of the definitions: SHA-256 and HMAC, bcrypt, the token library, random bytes and
  clocks, S3, Horizon and the Stellar SDK, the fraud service, the KMS, the queue and the webhook. What a theorem needs of such
  a parameter is one of its hypotheses, and its witness instantiates the parameter.

  \<^bold>\<open>Foundations.\<close>
  \<^item> Prelude: exceptions, computations, the string library, tables. JsNumber and JsLib: numbers, their rounding
    (monotone, relative error, fixed points), parsing, printing and sorting. Schema: the rows of \<open>prisma/schema.prisma\<close>, JSON values and
    the check for administrators.
  \<^item> TtlStore: the in-memory stores with expiry (\<open>InMemoryTtlStore\<close>, \<open>InMemoryCache\<close>, \<open>InMemoryNonceStore\<close>). The locale \<open>ttl_store\<close> states
    what their clients rely on (a value is readable until it expires and unchanged by other keys) and is interpreted for both
    implementations.
  \<^item> Lock: \<open>common/lock/lock.service.ts\<close>. The locale \<open>lock_store\<close> is the contract of the store, with mutual exclusion proved in it for every
    sequence of calls, and is interpreted for the in-memory store; \<open>svc_acquire\<close>, \<open>heartbeat_round\<close> and \<open>withLock\<close> are the service over it.

  \<^bold>\<open>Transfers.\<close>
  \<^item> Transactions: \<open>transaction/transaction.service.ts\<close> and the header check of the controller. \<open>sendTransfer\<close> in phases; one row and
    one job for each key under all interleavings; replay; pages of the history are complete and without repetition while the table does not
    change and no two rows have the same time (\<open>equal_stamps_lose_a_row\<close> shows the contrary for equal times; \<open>history_pages\<close> takes as fuel any number above that of the rows, which is enough because every page but the last is not empty).
  \<^item> Integrity: \<open>transaction/transaction-integrity.ts\<close>; the canonical form of an amount decides equality of the rational values.
  \<^item> Processor: \<open>transaction/transaction.processor.ts\<close>; the run of a job refines a policy on amount, status and score.
  \<^item> Dlq: \<open>transaction/transaction-dlq.service.ts\<close>; routing after the last attempt, once for each job, and replay.
  \<^item> TransferSim: \<open>transaction/transfer-simulation.service.ts\<close>. Trustlines: \<open>anchor/trustline.utils.ts\<close>. Dex: \<open>soroban/dex.service.ts\<close>, the choice
    of a payment path, its slippage guard and the minimum it demands. Soroban: \<open>soroban/simulation.service.ts\<close> and \<open>soroban.service.ts\<close>.
  \<^item> RpcClient: \<open>soroban/rpc-client.service.ts\<close>: smooth weighted round robin, failover and cool-down of the nodes.

  \<^bold>\<open>Users, identity and money held.\<close>
  \<^item> Accounts: \<open>auth/auth.service.ts\<close> and the token guard. Sep10: \<open>auth/sep10.service.ts\<close>. WebAuthn: \<open>wallet/webauthn.service.ts\<close> and the
    passkey endpoints of the wallet controller.
  \<^item> Kyc: \<open>kyc/kyc.service.ts\<close>, uploads with their hash, review and the daily limit. Sep12: \<open>anchor/sep12.service.ts\<close>.
  \<^item> Wallets: \<open>wallet/wallet.service.ts\<close>, the ownership guard and \<open>vault/vault.service.ts\<close>: defaults, encryption at rest, reconciliation.
  \<^item> Erasure: \<open>admin/admin.service.ts\<close>: erasure of a user as one database transaction, the redaction of audit metadata, and reports.

  \<^bold>\<open>Partners and supervision.\<close>
  \<^item> Anchor: \<open>anchor/anchor.service.ts\<close>: nonces, the exchange rate with its cache and circuit breaker, and the SEP-10 guard. Sep24:
    \<open>anchor/sep24.service.ts\<close> and its controller.
  \<^item> Compliance: \<open>transaction/compliance-action.service.ts\<close>; two different officers before a dispatch, the lifecycle of an action, and what
    overlapping approvals do. Zkp: \<open>transaction/zkp-verify.ts\<close>; the arithmetic is right and terminates, and \<open>forge_compliance\<close> makes a proof for any amount.
  \<^item> Liquidity: \<open>reconciliation/liquidity.service.ts\<close>; the guards of a rebalance over all runs of checks and results.
  \<^item> AuditTrail: \<open>audit/audit.service.ts\<close> and the trigger of the migration; the hash chain is built and detects changes when entries can
    be sealed.
  \<^item> RateLimit and RedisLimit: \<open>rate-limit/rate-limit.guard.ts\<close>, \<open>redis-rate-limiter.ts\<close> and its guard. The locale \<open>window_limiter\<close> states one
    counter in one window; that exactly the first \<open>limit\<close> requests pass is proved in it and interpreted for both limiters, for the one on Redis
    with the clock of its server at a constant offset and scripts that run within the window (\<open>late_script_spends_the_next_window\<close> for others).
  \<^item> ErrorFilter: \<open>common/filters/global-exception.filter.ts\<close>, the exception classes and the address pipe.

  \<^bold>\<open>The client.\<close>
  \<^item> OfflineQueue: \<open>frontend/lib/offlineQueue.ts\<close> and \<open>syncEngine.ts\<close>; one drain whose database requests succeed sends every pending draft once, two tabs can send
    one twice, and a failing request can stop the engine.
  \<^item> ClientStore: \<open>frontend/store/walletStore.ts\<close>, \<open>lib/walletCache.ts\<close> and the session of \<open>lib/api.ts\<close>.

  \<^bold>\<open>Bounds.\<close>
  Loops over lists are structural. \<open>modPow\<close>, \<open>modInverse\<close> and \<open>api_call\<close> have termination proofs by measures. The only fuels are that of the
  pages of the history, see above, and in JsLib the 17 digits within which \<open>js_toString\<close> looks for the shortest text (enough for
  binary64) and the bound 400 on the decimal point it tries, beyond the exponents of binary64.

  \<^bold>\<open>What fails.\<close>
  Several theorems state that the code does not do what its comments promise: challenges of SEP-10 that cannot be redeemed, a guard that accepts unsigned
  tokens, approvals and jobs that overlap, proofs for any amount, passkeys without signature check, a cache that saves nothing, late scripts of the Redis limiter. Each
  is proved of the same definitions as the positive theorems, with a concrete run where it is one.

  \<^bold>\<open>Not modelled.\<close>
  React pages and components (\<open>frontend/pages\<close>, \<open>frontend/components\<close>, \<open>src/components\<close>): rendering and local form state. Modules, bootstrap and the
  Joi schema of the environment: configuration of frameworks. Metrics and log lines: counters of a library. \<open>frontend/lib/sep10.ts\<close>:
  calls of the wallet extension. Controllers that only forward. \<open>resetAllForPrefix\<close> of the Redis limiter (tests only), \<open>simulateBatch\<close>, the
  listing of job states by the queue library, the balance and trustline handlers of the wallet controller and the listeners and timers of
  \<open>startSyncEngine\<close>. The Rust contracts and worker and the Python service are other programs; the API reaches them over queues and HTTP.
\<close>

section \<open>Erasure and the accounts\<close>

text \<open>The tables of the erasure as the sign-in service reads them.\<close>

definition sign_in_tables :: "er_db \<Rightarrow> auth_db" where
  "sign_in_tables d = \<lparr>au_users = ed_users d, au_audit = ed_audit d\<rparr>"

text \<open>
  C36. After the erasure of a user nobody signs in under his e-mail address, whatever the password, and no token of his can be
  exchanged for a new one; every other account is found by its address and by its id as before.
\<close>

theorem erased_user_locked_out:
  assumes "eraseUser env uid adminId d = (Inr (Erased p t n), d')" and "distinct (map eu_email (ed_users d))"
    and "u \<in> set (ed_users d)" and "u_id u = uid"
  shows "isl (fst (login aenv (eu_email u) pwd (sign_in_tables d'))) \<and>
    (\<forall>token c. av_verify aenv token = Inr c \<longrightarrow> cl_sub c = uid \<longrightarrow>
       fst (refreshToken aenv token (sign_in_tables d')) = Inl (UnauthorizedException ''User not found'')) \<and>
    (\<forall>v \<in> set (ed_users d). u_id v \<noteq> uid \<longrightarrow>
       find_email (eu_email v) (ed_users d') = Some v \<and> find_id (u_id v) (ed_users d') = find_id (u_id v) (ed_users d))"
proof -
  obtain user where us: "ed_users d' = filter (\<lambda>u. u_id u \<noteq> uid) (ed_users d) @ [pseudonym env user]"
    and new: "\<forall>u \<in> set (ed_users d). u_id u \<noteq> en_uuid env \<and> eu_email u \<noteq> eu_email (pseudonym env user)"
    using eraseUser_users [OF assms(1,3,4)] by metis
  have inj: "v = w" if "v \<in> set (ed_users d)" "w \<in> set (ed_users d)" "eu_email v = eu_email w" for v w
    using assms(2) that by (auto simp: distinct_map inj_on_def)
  have psid: "u_id (pseudonym env user) = en_uuid env" by (simp add: pseudonym_def)
  have "find_email (eu_email u) (ed_users d') = None"
    using inj assms(3,4) new by (force simp: us find_email_def find_None_iff)
  then have "isl (fst (login aenv (eu_email u) pwd (sign_in_tables d')))" by (simp add: login_def sign_in_tables_def M_defs)
  moreover have "find_id uid (ed_users d') = None" using new assms(3,4) psid by (force simp: us find_id_def find_None_iff)
  then have "\<forall>token c. av_verify aenv token = Inr c \<longrightarrow> cl_sub c = uid \<longrightarrow>
      fst (refreshToken aenv token (sign_in_tables d')) = Inl (UnauthorizedException ''User not found'')"
    by (simp add: refreshToken_def sign_in_tables_def M_defs)
  moreover have "find_email (eu_email v) (ed_users d') = Some v" if v: "v \<in> set (ed_users d)" "u_id v \<noteq> uid" for v
  proof -
    have "find_email (eu_email v) (filter (\<lambda>u. u_id u \<noteq> uid) (ed_users d)) = Some v"
    proof (cases "find_email (eu_email v) (filter (\<lambda>u. u_id u \<noteq> uid) (ed_users d))")
      case None
      then show ?thesis using v by (auto simp: find_email_def find_None_iff)
    next
      case (Some w)
      then have "w \<in> set (filter (\<lambda>u. u_id u \<noteq> uid) (ed_users d)) \<and> eu_email w = eu_email v"
        unfolding find_email_def find_Some_iff using nth_mem by blast
      then show ?thesis using Some inj [OF _ v(1)] by auto
    qed
    then show ?thesis by (simp add: us find_email_def find_append)
  qed
  moreover have "find_id (u_id v) (ed_users d') = find_id (u_id v) (ed_users d)" if v: "v \<in> set (ed_users d)" "u_id v \<noteq> uid" for v
  proof -
    have "find (\<lambda>u. u_id u = u_id v) (filter (\<lambda>u. u_id u \<noteq> uid) xs) = find (\<lambda>u. u_id u = u_id v) xs" for xs :: "er_user list"
      using v(2) by (induction xs) auto
    moreover have "find (\<lambda>u. u_id u = u_id v) (ed_users d) \<noteq> None" using v(1) by (auto simp: find_None_iff)
    ultimately show ?thesis by (auto simp: us find_id_def find_append)
  qed
  ultimately show ?thesis by blast
qed

theorem erased_user_locked_out_witness:
  "isl (fst (login (plain_env plain_claims) ''a'' ''x'' (sign_in_tables ex_erased)))"
proof -
  define u where "u = ed_users ex_db ! 1"
  have u: "u \<in> set (ed_users ex_db)" "u_id u = ''u''" "eu_email u = ''a''" by (simp_all add: u_def ex_db_def)
  have "distinct (map eu_email (ed_users ex_db))" by (simp add: ex_db_def)
  from erased_user_locked_out [OF ex_erasure this u(1,2), of "plain_env plain_claims" "''x''"] show ?thesis by (simp add: u(3))
qed

end
